(* ===== verification/Prelude.thy ===== *)
theory Prelude
  imports Complex_Main "HOL-Library.AList" "HOL-Library.Char_ord" "HOL-Library.List_Lexorder"
    "HOL-Library.Product_Lexorder" "HOL-Library.Multiset"
begin

text \<open>
  Shared vocabulary of the development: the Python values and library calls that several
  components use, with the lemmas about them.

  Conventions. A Python \<open>str\<close> is a \<open>string\<close>, each \<open>char\<close> standing for the code point with
  its number (code points below 256). An \<open>int\<close> is an \<open>int\<close>. A finite \<open>float\<close> is a \<open>rat\<close>,
  rounding of float arithmetic is not modelled. A timezone-aware \<open>datetime\<close> is an \<open>int\<close>
  (microseconds since the epoch). A \<open>dict\<close> is an association list in insertion order,
  updated with \<open>AList.update\<close> (in place, or appended at the end). Tuples compare
  lexicographically, as the imported orders on products and lists do. An exception is the
  left summand of a sum type.
\<close>

named_theorems dict_simps "lookup and update of insertion-ordered dictionaries"
named_theorems sort_simps "stable sorting and selection by key"

type_synonym pystr = string
type_synonym timestamp = int
type_synonym ('k, 'v) dict = "('k \<times> 'v) list"

subsection \<open>Results\<close>

type_synonym ('e, 'a) result = "'e + 'a"

definition bind_result :: "('e, 'a) result \<Rightarrow> ('a \<Rightarrow> ('e, 'b) result) \<Rightarrow> ('e, 'b) result" where
  "bind_result r f = (case r of Inl e \<Rightarrow> Inl e | Inr a \<Rightarrow> f a)"

lemma bind_result_simps [simp]:
  "bind_result (Inl e) f = Inl e"
  "bind_result (Inr a) f = f a"
  by (simp_all add: bind_result_def)

lemma bind_result_Inr_iff [simp]:
  "bind_result r f = Inr b \<longleftrightarrow> (\<exists>a. r = Inr a \<and> f a = Inr b)"
  by (cases r) auto

definition is_ok :: "('e, 'a) result \<Rightarrow> bool" where
  "is_ok r = (case r of Inl _ \<Rightarrow> False | Inr _ \<Rightarrow> True)"

lemma is_ok_simps [simp]: "is_ok (Inr a)" "\<not> is_ok (Inl e)"
  by (simp_all add: is_ok_def)

lemma is_ok_iff: "is_ok r \<longleftrightarrow> (\<exists>a. r = Inr a)"
  by (cases r) auto

text \<open>\<open>value or default\<close> on an optional value whose present values are all truthy.\<close>

definition or_else :: "'a option \<Rightarrow> 'a \<Rightarrow> 'a" where
  "or_else v d = (case v of None \<Rightarrow> d | Some x \<Rightarrow> x)"

lemma or_else_simps [simp]: "or_else None d = d" "or_else (Some x) d = x"
  by (simp_all add: or_else_def)

subsection \<open>Characters\<close>

definition code :: "char \<Rightarrow> nat" where
  "code c = of_char c"

definition is_ascii_lower :: "char \<Rightarrow> bool" where
  "is_ascii_lower c \<longleftrightarrow> 97 \<le> code c \<and> code c \<le> 122"

definition is_ascii_upper :: "char \<Rightarrow> bool" where
  "is_ascii_upper c \<longleftrightarrow> 65 \<le> code c \<and> code c \<le> 90"

definition is_ascii_digit :: "char \<Rightarrow> bool" where
  "is_ascii_digit c \<longleftrightarrow> 48 \<le> code c \<and> code c \<le> 57"

definition is_ascii_alnum :: "char \<Rightarrow> bool" where
  "is_ascii_alnum c \<longleftrightarrow> is_ascii_lower c \<or> is_ascii_upper c \<or> is_ascii_digit c"

lemmas char_class_defs = code_def is_ascii_lower_def is_ascii_upper_def is_ascii_digit_def
  is_ascii_alnum_def

subsection \<open>Dictionaries\<close>

text \<open>
  The interface the model's clients use: reading after a write, and the order of the keys.
\<close>

locale insertion_dict =
  fixes get :: "'d \<Rightarrow> 'k \<Rightarrow> 'v option"
    and put :: "'k \<Rightarrow> 'v \<Rightarrow> 'd \<Rightarrow> 'd"
    and keys :: "'d \<Rightarrow> 'k list"
  assumes get_put: "get (put k v d) j = (if j = k then Some v else get d j)"
    and keys_put: "keys (put k v d) = (if k \<in> set (keys d) then keys d else keys d @ [k])"
    and keys_get: "k \<in> set (keys d) \<longleftrightarrow> get d k \<noteq> None"
begin

definition put_all :: "('k \<times> 'v) list \<Rightarrow> 'd \<Rightarrow> 'd" where
  "put_all kvs d = foldl (\<lambda>d kv. put (fst kv) (snd kv) d) d kvs"

lemma put_all_Nil [simp]: "put_all [] d = d"
  by (simp add: put_all_def)

lemma put_all_Cons [simp]: "put_all ((k, v) # kvs) d = put_all kvs (put k v d)"
  by (simp add: put_all_def)

lemma put_idem: "get (put k v (put k v d)) = get (put k v d)"
  by (auto simp: get_put)

lemma get_put_all: "get (put_all kvs d) j = (case map_of (rev kvs) j of None \<Rightarrow> get d j | Some v \<Rightarrow> Some v)"
proof (induction kvs arbitrary: d)
  case Nil
  then show ?case by simp
next
  case (Cons kv kvs)
  then show ?case
    by (cases kv) (auto simp: get_put map_add_def split: option.splits)
qed

lemma keys_put_all: "set (keys (put_all kvs d)) = set (keys d) \<union> fst ` set kvs"
proof (induction kvs arbitrary: d)
  case Nil
  then show ?case by simp
next
  case (Cons kv kvs)
  then show ?case by (cases kv) (auto simp: keys_put)
qed

lemma distinct_keys_put: "distinct (keys d) \<Longrightarrow> distinct (keys (put k v d))"
  by (simp add: keys_put)

end

lemma AList_update_keys [dict_simps]:
  "map fst (AList.update k v d) = (if k \<in> fst ` set d then map fst d else map fst d @ [k])"
  by (induction d) (auto split: if_splits)

interpretation pydict: insertion_dict "map_of :: ('k \<times> 'v) list \<Rightarrow> 'k \<Rightarrow> 'v option" AList.update "map fst"
  by unfold_locales
    (auto simp: update_conv' dict_simps map_of_eq_None_iff)

lemmas dict_get_put [dict_simps] = pydict.get_put
lemmas dict_keys_put = pydict.keys_put

text \<open>\<open>d.setdefault(k, []).append(x)\<close>\<close>

definition dict_append :: "'k \<Rightarrow> 'v \<Rightarrow> ('k, 'v list) dict \<Rightarrow> ('k, 'v list) dict" where
  "dict_append k x d = AList.update k (or_else (map_of d k) [] @ [x]) d"

text \<open>Grouping a list by an optional key, in order of first appearance.\<close>

fun group_by_key :: "('a \<Rightarrow> 'k option) \<Rightarrow> 'a list \<Rightarrow> ('k, 'a list) dict \<Rightarrow> ('k, 'a list) dict" where
  "group_by_key f [] d = d"
| "group_by_key f (x # xs) d =
     group_by_key f xs (case f x of None \<Rightarrow> d | Some k \<Rightarrow> dict_append k x d)"

lemma map_of_dict_append:
  "map_of (dict_append k x d) j = (if j = k then Some (or_else (map_of d k) [] @ [x]) else map_of d j)"
  by (simp add: dict_append_def dict_get_put)

lemma group_by_key_lookup:
  "or_else (map_of (group_by_key f xs d) k) [] =
     or_else (map_of d k) [] @ filter (\<lambda>x. f x = Some k) xs"
proof (induction xs arbitrary: d)
  case Nil
  then show ?case by simp
next
  case (Cons x xs)
  then show ?case
    by (cases "f x") (auto simp: map_of_dict_append)
qed

lemma group_by_key_keys:
  "fst ` set (group_by_key f xs d) = fst ` set d \<union> {k. \<exists>x \<in> set xs. f x = Some k}"
proof (induction xs arbitrary: d)
  case Nil
  then show ?case by simp
next
  case (Cons x xs)
  have "fst ` set (dict_append k x d) = insert k (fst ` set d)" for k
    by (simp add: dict_append_def dom_update)
  with Cons show ?case by (cases "f x") auto
qed

lemma distinct_group_by_key:
  "distinct (map fst d) \<Longrightarrow> distinct (map fst (group_by_key f xs d))"
  by (induction xs arbitrary: d)
    (auto simp: dict_append_def intro: distinct_update split: option.splits)

lemma group_by_key_groups:
  assumes "(k, g) \<in> set (group_by_key f xs [])"
  shows "g = filter (\<lambda>x. f x = Some k) xs"
proof -
  have "distinct (map fst (group_by_key f xs []))"
    by (rule distinct_group_by_key) simp
  with assms have "map_of (group_by_key f xs []) k = Some g"
    by (rule map_of_is_SomeI [rotated])
  with group_by_key_lookup [of f xs "[]" k] show ?thesis by simp
qed

subsection \<open>Sorting and selection by key\<close>

text \<open>
  \<open>sorted(xs, key=f)\<close> is \<open>sort_key f xs\<close> (stable); with \<open>reverse=True\<close> elements of equal
  key keep their order as well. \<open>min\<close> and \<open>max\<close> return the first extremal element.
\<close>

definition sort_key_reverse :: "('a \<Rightarrow> 'b::linorder) \<Rightarrow> 'a list \<Rightarrow> 'a list" where
  "sort_key_reverse f xs = rev (sort_key f (rev xs))"

lemma set_sort_key_reverse [simp, sort_simps]: "set (sort_key_reverse f xs) = set xs"
  by (simp add: sort_key_reverse_def)

lemma length_sort_key_reverse [simp, sort_simps]: "length (sort_key_reverse f xs) = length xs"
  by (simp add: sort_key_reverse_def)

lemma mset_sort_key_reverse [simp, sort_simps]: "mset (sort_key_reverse f xs) = mset xs"
  by (simp add: sort_key_reverse_def)

lemma sorted_sort_key_reverse: "sorted (rev (map f (sort_key_reverse f xs)))"
  by (simp add: sort_key_reverse_def rev_map)

lemma sort_key_reverse_stable:
  "filter (\<lambda>y. f y = k) (sort_key_reverse f xs) = filter (\<lambda>y. f y = k) xs"
  by (simp add: sort_key_reverse_def sort_key_stable flip: rev_filter)

lemma hd_sort_key_reverse_max:
  assumes "x \<in> set xs"
  shows "f x \<le> f (hd (sort_key_reverse f xs))"
proof -
  let ?s = "sort_key f (rev xs)"
  from assms have x: "x \<in> set ?s" by simp
  then have ne: "?s \<noteq> []" by (metis empty_iff list.set(1))
  from x obtain i where i: "i < length ?s" "?s ! i = x"
    unfolding in_set_conv_nth by blast
  have "map f ?s ! i \<le> map f ?s ! (length ?s - 1)"
    using i by (intro sorted_nth_mono) auto
  with i ne show ?thesis
    by (auto simp: sort_key_reverse_def hd_rev last_conv_nth)
qed

fun min_by :: "('a \<Rightarrow> 'b::linorder) \<Rightarrow> 'a \<Rightarrow> 'a list \<Rightarrow> 'a" where
  "min_by f x [] = x"
| "min_by f x (y # ys) = (if f y < f x then min_by f y ys else min_by f x ys)"

lemma min_by_in: "min_by f x ys \<in> insert x (set ys)"
  by (induction f x ys rule: min_by.induct) auto

lemma min_by_le: "y \<in> insert x (set ys) \<Longrightarrow> f (min_by f x ys) \<le> f y"
proof (induction f x ys arbitrary: y rule: min_by.induct)
  case (1 f x)
  then show ?case by simp
next
  case (2 f x z zs)
  show ?case
  proof (cases "f z < f x")
    case True
    have "f (min_by f z zs) \<le> f z"
      using 2(1) [OF True] by simp
    with True 2(1) [OF True, of y] 2(3) show ?thesis by auto
  next
    case False
    have "f (min_by f x zs) \<le> f x"
      using 2(2) [OF False] by simp
    with False 2(2) [OF False, of y] 2(3) show ?thesis by auto
  qed
qed

text \<open>
  Two selections from lists with the same elements agree when the key separates them: what
  makes a planner's answer independent of the order in which it is given its input.
\<close>

lemma min_by_unique:
  assumes eq: "insert x (set xs) = insert y (set ys)" and inj: "inj_on f (insert x (set xs))"
  shows "min_by f x xs = min_by f y ys"
proof (rule inj_onD [OF inj])
  have a: "min_by f x xs \<in> insert y (set ys)" and b: "min_by f y ys \<in> insert x (set xs)"
    using min_by_in [of f x xs] min_by_in [of f y ys] eq by simp_all
  show "f (min_by f x xs) = f (min_by f y ys)"
    by (rule antisym) (rule min_by_le, fact)+
  show "min_by f x xs \<in> insert x (set xs)" by (rule min_by_in)
  show "min_by f y ys \<in> insert x (set xs)" by fact
qed

lemma sort_key_of_sorted: "sorted (map f xs) \<Longrightarrow> sort_key f xs = xs"
  by (rule properties_for_sort_key) simp_all

lemma sort_key_twice [simp, sort_simps]: "sort_key f (sort_key f xs) = sort_key f xs"
  by (rule sort_key_of_sorted) simp

lemma sort_key_eqI_mset:
  assumes "mset xs = mset ys" and "inj_on f (set xs)"
  shows "sort_key f xs = sort_key f ys"
  by (rule sort_key_inj_key_eq) (use assms in simp_all)

lemma insort_key_map: "insort_key k (g x) (map g xs) = map g (insort_key (k \<circ> g) x xs)"
  by (induction xs) auto

lemma sort_key_map [sort_simps]: "sort_key k (map g xs) = map g (sort_key (k \<circ> g) xs)"
  by (induction xs) (simp_all add: insort_key_map [unfolded comp_def] comp_def)

lemma filter_sort_key: "filter P (sort_key k xs) = sort_key k (filter P xs)"
  by (rule filter_sort)

text \<open>Sorting by a coarser key first changes nothing.\<close>

lemma sort_key_refine:
  assumes "\<And>x y. k x = k y \<Longrightarrow> l x = l y"
  shows "sort_key k (sort_key l xs) = sort_key k xs"
proof (rule properties_for_sort_key)
  show "mset (sort_key k xs) = mset (sort_key l xs)" by simp
  show "sorted (map k (sort_key k xs))" by simp
  fix z
  have "k z = k x \<longleftrightarrow> l x = l z \<and> k x = k z" for x using assms [of x z] by metis
  then have f: "filter (\<lambda>x. k z = k x) ys = filter (\<lambda>x. k x = k z) (filter (\<lambda>x. l x = l z) ys)" for ys
    by (simp add: conj_commute)
  show "filter (\<lambda>x. k z = k x) (sort_key k xs) = filter (\<lambda>x. k z = k x) (sort_key l xs)"
    unfolding f [of "sort_key l xs"] sort_key_stable f [of xs, symmetric]
    by (simp add: eq_commute [of "k z"] sort_key_stable)
qed

text \<open>The first minimal element of a list is the head of its stable sort.\<close>

lemma sort_key_first_min:
  assumes "\<forall>a \<in> set as. k x < k a" and "\<forall>b \<in> set bs. k x \<le> k b"
  shows "sort_key k (as @ x # bs) = x # sort_key k (as @ bs)"
proof (rule properties_for_sort_key)
  show "mset (x # sort_key k (as @ bs)) = mset (as @ x # bs)" by simp
  show "sorted (map k (x # sort_key k (as @ bs)))" using assms by (auto simp: less_imp_le)
  fix z
  show "filter (\<lambda>y. k z = k y) (x # sort_key k (as @ bs)) = filter (\<lambda>y. k z = k y) (as @ x # bs)"
  proof (cases "k z = k x")
    case True
    then have "filter (\<lambda>y. k y = k x) as = []" using assms(1) by (auto simp: filter_empty_conv)
    with True show ?thesis by (simp add: sort_key_stable eq_commute [of "k x"])
  next
    case False
    then show ?thesis by (simp add: sort_key_stable eq_commute [of "k z"])
  qed
qed

subsection \<open>The first element of a list with a property\<close>

lemma find_SomeD: "find P xs = Some x \<Longrightarrow> x \<in> set xs \<and> P x"
  by (induction xs) (auto split: if_splits)

lemma find_None_all: "find P xs = None \<longleftrightarrow> (\<forall>x \<in> set xs. \<not> P x)"
  by (induction xs) auto

subsection \<open>Removing by position\<close>

text \<open>\<open>xs.pop(i)\<close> for a position \<open>i\<close> of the list\<close>

definition pop_at :: "nat \<Rightarrow> 'a list \<Rightarrow> 'a list" where
  "pop_at i xs = take i xs @ drop (Suc i) xs"

lemma length_pop_at: "i < length xs \<Longrightarrow> length (pop_at i xs) < length xs"
  by (simp add: pop_at_def)

lemma pop_at_split: "i < length xs \<Longrightarrow> xs = take i xs @ xs ! i # drop (Suc i) xs"
  by (simp add: id_take_nth_drop)

lemma mset_pop_at: "i < length xs \<Longrightarrow> add_mset (xs ! i) (mset (pop_at i xs)) = mset xs"
  by (subst (3) pop_at_split) (simp_all add: pop_at_def)

lemma set_pop_at: "set (pop_at i xs) \<subseteq> set xs"
  by (auto simp: pop_at_def dest: in_set_takeD in_set_dropD)

lemma distinct_map_pop_at: "distinct (map f xs) \<Longrightarrow> distinct (map f (pop_at i xs))"
proof (cases "i < length xs")
  case True
  assume "distinct (map f xs)"
  then have "distinct (map f (take i xs @ xs ! i # drop (Suc i) xs))" using pop_at_split [OF True] by metis
  then show ?thesis by (auto simp: pop_at_def)
qed (simp add: pop_at_def)

end
