(* ===== verification/Json_Value.thy ===== *)
theory Json_Value
  imports Prelude
begin

text \<open>
  The dynamically typed values the code stores in JSON columns and diagnostics, Python's
  equality on them, and the detaching round trip through \<open>json.dumps\<close>/\<open>json.loads\<close>.

  \<open>JOpaque\<close> is any Python object \<open>json.dumps(..., allow_nan=False)\<close> refuses: a value of
  a non-JSON type, or a non-finite float.
\<close>

datatype json =
    JNull
  | JBool bool
  | JInt int
  | JFloat rat
  | JStr pystr
  | JList "json list"
  | JObj "(pystr \<times> json) list"
  | JOpaque pystr

text \<open>Python compares \<open>bool\<close>, \<open>int\<close> and \<open>float\<close> by their numeric value.\<close>

fun json_num :: "json \<Rightarrow> rat option" where
  "json_num (JBool b) = Some (if b then 1 else 0)"
| "json_num (JInt n) = Some (of_int n)"
| "json_num (JFloat r) = Some r"
| "json_num _ = None"

fun py_eq :: "json \<Rightarrow> json \<Rightarrow> bool" and
  py_eq_list :: "json list \<Rightarrow> json list \<Rightarrow> bool" and
  py_eq_items :: "(pystr \<times> json) list \<Rightarrow> (pystr \<times> json) list \<Rightarrow> bool" where
  "py_eq (JList xs) w = (case w of JList ys \<Rightarrow> py_eq_list xs ys | _ \<Rightarrow> False)"
| "py_eq (JObj xs) w =
     (case w of JObj ys \<Rightarrow> length xs = length ys \<and> py_eq_items xs ys | _ \<Rightarrow> False)"
| "py_eq (JStr s) w = (w = JStr s)"
| "py_eq JNull w = (w = JNull)"
| "py_eq (JOpaque s) w = (w = JOpaque s)"
| "py_eq v w = (json_num v = json_num w)"
| "py_eq_list [] ys = (ys = [])"
| "py_eq_list (x # xs) ys = (case ys of [] \<Rightarrow> False | y # ys' \<Rightarrow> py_eq x y \<and> py_eq_list xs ys')"
| "py_eq_items [] ys = True"
| "py_eq_items ((k, v) # xs) ys =
     ((case map_of ys k of None \<Rightarrow> False | Some w \<Rightarrow> py_eq v w) \<and> py_eq_items xs ys)"

text \<open>A dictionary has each key once, at every level.\<close>

fun json_wf :: "json \<Rightarrow> bool" and
  json_wf_list :: "json list \<Rightarrow> bool" and
  json_wf_items :: "(pystr \<times> json) list \<Rightarrow> bool" where
  "json_wf (JList xs) = json_wf_list xs"
| "json_wf (JObj xs) = (distinct (map fst xs) \<and> json_wf_items xs)"
| "json_wf _ = True"
| "json_wf_list [] = True"
| "json_wf_list (x # xs) = (json_wf x \<and> json_wf_list xs)"
| "json_wf_items [] = True"
| "json_wf_items ((k, v) # xs) = (json_wf v \<and> json_wf_items xs)"

lemma json_wf_items_iff: "json_wf_items xs \<longleftrightarrow> (\<forall>(k, v) \<in> set xs. json_wf v)"
  by (induction xs) auto

lemma py_eq_items_weaken:
  "py_eq_items xs ys \<Longrightarrow> k \<notin> fst ` set xs \<Longrightarrow> py_eq_items xs ((k, v) # ys)"
  by (induction xs) auto

lemma py_eq_refl_all:
  "json_wf v \<Longrightarrow> py_eq v v"
  "json_wf_list vs \<Longrightarrow> py_eq_list vs vs"
  "json_wf_items kvs \<Longrightarrow> distinct (map fst kvs) \<Longrightarrow> py_eq_items kvs kvs"
  by (induction v and vs and kvs rule: json_wf_json_wf_list_json_wf_items.induct)
    (auto intro: py_eq_items_weaken)

lemmas py_eq_refl = py_eq_refl_all(1)

text \<open>
  \<open>json.loads(json.dumps(value, allow_nan=False, sort_keys=True))\<close>: a detached copy with the
  keys of every object sorted, or an error for a value that is not JSON.
\<close>

fun json_roundtrip :: "json \<Rightarrow> json option" and
  json_roundtrip_list :: "json list \<Rightarrow> json list option" and
  json_roundtrip_items :: "(pystr \<times> json) list \<Rightarrow> (pystr \<times> json) list option" where
  "json_roundtrip (JOpaque s) = None"
| "json_roundtrip (JList xs) = map_option JList (json_roundtrip_list xs)"
| "json_roundtrip (JObj xs) =
     map_option (\<lambda>ys. JObj (sort_key fst ys)) (json_roundtrip_items xs)"
| "json_roundtrip v = Some v"
| "json_roundtrip_list [] = Some []"
| "json_roundtrip_list (x # xs) =
     (case json_roundtrip x of None \<Rightarrow> None
      | Some y \<Rightarrow> map_option ((#) y) (json_roundtrip_list xs))"
| "json_roundtrip_items [] = Some []"
| "json_roundtrip_items ((k, v) # xs) =
     (case json_roundtrip v of None \<Rightarrow> None
      | Some w \<Rightarrow> map_option ((#) (k, w)) (json_roundtrip_items xs))"

lemma json_roundtrip_items_keys:
  "json_roundtrip_items xs = Some ys \<Longrightarrow> map fst ys = map fst xs"
  by (induction xs arbitrary: ys) (auto split: option.splits)

lemma json_roundtrip_items_lookup:
  "json_roundtrip_items xs = Some ys \<Longrightarrow>
     map_of ys k = (case map_of xs k of None \<Rightarrow> None | Some v \<Rightarrow> json_roundtrip v)"
  by (induction xs arbitrary: ys) (auto split: option.splits)

lemma distinct_fst_sort [simp]: "distinct (map fst (sort_key fst xs)) = distinct (map fst xs)"
proof -
  have "mset (map fst (sort_key fst xs)) = mset (map fst xs)" by simp
  then show ?thesis by (rule mset_eq_imp_distinct_iff)
qed

lemma map_of_sort_key_fst:
  "distinct (map fst xs) \<Longrightarrow> map_of (sort_key fst xs) = map_of xs"
  by (subst map_of_inject_set) simp_all

lemma json_wf_items_sort [simp]: "json_wf_items (sort_key fst xs) = json_wf_items xs"
  by (simp add: json_wf_items_iff)

lemma py_eq_items_iff:
  "py_eq_items xs ys \<longleftrightarrow> (\<forall>(k, v) \<in> set xs. \<exists>w. map_of ys k = Some w \<and> py_eq v w)"
  by (induction xs) (auto split: option.splits)

text \<open>The copy of a well-formed value is a well-formed value that Python calls equal to it.\<close>

lemma json_roundtrip_wf_all:
  "json_roundtrip v = Some w \<Longrightarrow> json_wf v \<Longrightarrow> json_wf w"
  "json_roundtrip_list vs = Some ws \<Longrightarrow> json_wf_list vs \<Longrightarrow> json_wf_list ws"
  "json_roundtrip_items kvs = Some kws \<Longrightarrow> json_wf_items kvs \<Longrightarrow> json_wf_items kws"
proof (induction v and vs and kvs arbitrary: w and ws and kws
    rule: json_roundtrip_json_roundtrip_list_json_roundtrip_items.induct)
  case (3 xs)
  then obtain ys where ys: "json_roundtrip_items xs = Some ys" and w: "w = JObj (sort_key fst ys)"
    by auto
  from 3 ys have "json_wf_items ys" and "distinct (map fst ys)"
    by (simp_all add: json_roundtrip_items_keys [OF ys])
  then show ?case by (simp add: w)
qed (auto split: option.splits)

lemmas json_roundtrip_wf = json_roundtrip_wf_all(1)

lemma json_roundtrip_py_eq_all:
  "json_roundtrip v = Some w \<Longrightarrow> json_wf v \<Longrightarrow> py_eq w v"
  "json_roundtrip_list vs = Some ws \<Longrightarrow> json_wf_list vs \<Longrightarrow> py_eq_list ws vs"
  "json_roundtrip_items kvs = Some kws \<Longrightarrow> json_wf_items kvs \<Longrightarrow> distinct (map fst kvs) \<Longrightarrow>
     py_eq_items kws kvs"
proof (induction v and vs and kvs arbitrary: w and ws and kws
    rule: json_roundtrip_json_roundtrip_list_json_roundtrip_items.induct)
  case (3 xs)
  then obtain ys where ys: "json_roundtrip_items xs = Some ys" and w: "w = JObj (sort_key fst ys)"
    by auto
  from 3 ys have "py_eq_items ys xs" by simp
  moreover have "length ys = length xs"
    using json_roundtrip_items_keys [OF ys] by (metis length_map)
  ultimately show ?case by (simp add: w py_eq_items_iff)
next
  case (8 k v xs)
  then obtain u ys where u: "json_roundtrip v = Some u" and ys: "json_roundtrip_items xs = Some ys"
    and kws: "kws = (k, u) # ys"
    by (auto split: option.splits)
  have "fst ` set ys = fst ` set xs"
    using arg_cong [OF json_roundtrip_items_keys [OF ys], of set] by simp
  then have "k \<notin> fst ` set ys" using 8(5) by simp
  moreover have "py_eq u v" and "py_eq_items ys xs"
    using 8 u ys by simp_all
  ultimately show ?case by (simp add: kws py_eq_items_weaken)
qed (auto split: option.splits)

lemmas json_roundtrip_py_eq = json_roundtrip_py_eq_all(1)

text \<open>Copying a copy gives it back.\<close>

lemma json_roundtrip_items_fix:
  "(\<forall>(k, v) \<in> set xs. json_roundtrip v = Some v) \<longleftrightarrow> json_roundtrip_items xs = Some xs"
  by (induction xs) (auto split: option.splits)

lemma json_roundtrip_idem_all:
  "json_roundtrip v = Some w \<Longrightarrow> json_roundtrip w = Some w"
  "json_roundtrip_list vs = Some ws \<Longrightarrow> json_roundtrip_list ws = Some ws"
  "json_roundtrip_items kvs = Some kws \<Longrightarrow> json_roundtrip_items kws = Some kws"
proof (induction v and vs and kvs arbitrary: w and ws and kws
    rule: json_roundtrip_json_roundtrip_list_json_roundtrip_items.induct)
  case (3 xs)
  then obtain ys where ys: "json_roundtrip_items ys = Some ys" and w: "w = JObj (sort_key fst ys)"
    by auto
  then have "json_roundtrip_items (sort_key fst ys) = Some (sort_key fst ys)"
    by (simp add: json_roundtrip_items_fix [symmetric])
  then show ?case by (simp add: w)
qed (auto split: option.splits)

lemmas json_roundtrip_idem = json_roundtrip_idem_all(1)

text \<open>Truthiness of the values the code tests with \<open>or\<close> and \<open>if\<close>.\<close>

fun truthy :: "json \<Rightarrow> bool" where
  "truthy JNull = False"
| "truthy (JBool b) = b"
| "truthy (JInt n) = (n \<noteq> 0)"
| "truthy (JFloat r) = (r \<noteq> 0)"
| "truthy (JStr s) = (s \<noteq> [])"
| "truthy (JList xs) = (xs \<noteq> [])"
| "truthy (JObj xs) = (xs \<noteq> [])"
| "truthy (JOpaque s) = True"

text \<open>\<open>isinstance(value, int) and not isinstance(value, bool) and value >= 0\<close>\<close>

definition json_nonneg_int :: "json option \<Rightarrow> int option" where
  "json_nonneg_int v = (case v of Some (JInt n) \<Rightarrow> if 0 \<le> n then Some n else None | _ \<Rightarrow> None)"

definition json_opt_int :: "int option \<Rightarrow> json" where
  "json_opt_int v = (case v of None \<Rightarrow> JNull | Some n \<Rightarrow> JInt n)"

definition json_opt_str :: "pystr option \<Rightarrow> json" where
  "json_opt_str v = (case v of None \<Rightarrow> JNull | Some s \<Rightarrow> JStr s)"

lemma json_nonneg_int_Some: "json_nonneg_int v = Some n \<longleftrightarrow> v = Some (JInt n) \<and> 0 \<le> n"
  by (auto simp: json_nonneg_int_def split: option.splits json.splits)

lemma json_nonneg_int_opt: "json_nonneg_int (Some (json_opt_int v)) =
    (case v of None \<Rightarrow> None | Some n \<Rightarrow> if 0 \<le> n then Some n else None)"
  by (auto simp: json_nonneg_int_def json_opt_int_def split: option.splits)

text \<open>\<open>value.get(key)\<close> on a value known to be a dictionary.\<close>

fun json_get :: "json \<Rightarrow> pystr \<Rightarrow> json option" where
  "json_get (JObj kvs) k = map_of kvs k"
| "json_get _ k = None"

fun json_items :: "json \<Rightarrow> (pystr \<times> json) list" where
  "json_items (JObj kvs) = kvs"
| "json_items _ = []"

fun is_obj :: "json \<Rightarrow> bool" where
  "is_obj (JObj kvs) = True"
| "is_obj _ = False"

lemma is_obj_iff: "is_obj v \<longleftrightarrow> (\<exists>kvs. v = JObj kvs)"
  by (cases v) auto

text \<open>\<open>d[key] = value\<close> and \<open>d.pop(key, None)\<close> on a dictionary.\<close>

fun json_put :: "pystr \<Rightarrow> json \<Rightarrow> json \<Rightarrow> json" where
  "json_put k v (JObj kvs) = JObj (AList.update k v kvs)"
| "json_put k v w = w"

fun json_pop :: "pystr \<Rightarrow> json \<Rightarrow> json" where
  "json_pop k (JObj kvs) = JObj (AList.delete k kvs)"
| "json_pop k w = w"

lemma json_get_put [simp]:
  "is_obj d \<Longrightarrow> json_get (json_put k v d) j = (if j = k then Some v else json_get d j)"
  by (cases d) (auto simp: dict_get_put)

lemma json_wf_items_update: "json_wf_items kvs \<Longrightarrow> json_wf v \<Longrightarrow> json_wf_items (AList.update k v kvs)"
  by (induction kvs) auto

lemma json_wf_put: "json_wf d \<Longrightarrow> json_wf v \<Longrightarrow> json_wf (json_put k v d)"
  by (cases d) (auto simp: json_wf_items_update distinct_update)

lemma json_get_pop [simp]:
  "json_get (json_pop k d) j = (if j = k then None else json_get d j)"
  by (cases d) (auto simp: AList.delete_conv')

lemma is_obj_put [simp]: "is_obj (json_put k v d) = is_obj d"
  by (cases d) auto

lemma is_obj_pop [simp]: "is_obj (json_pop k d) = is_obj d"
  by (cases d) auto

end
