(* ===== verification/Direct_Models.thy ===== *)
theory Direct_Models
  imports Json_Value
begin

text \<open>
  The rows of direct acquisition (\<open>src/src/pullbox/models/direct_acquisition.py\<close>): the
  enumerations with their stored values, the provider, acquisition and artifact rows with
  one record field per column, and the table's check constraints as well-formedness
  predicates. ORM back references other than \<open>artifact_attempts\<close> are left out.
\<close>

datatype provider_state =
    Prov_DISABLED | Prov_HEALTHY | Prov_DEGRADED | Prov_RATE_LIMITED
  | Prov_AUTHENTICATION_REQUIRED | Prov_INCOMPATIBLE | Prov_UNAVAILABLE

fun provider_state_value :: "provider_state \<Rightarrow> pystr" where
  "provider_state_value Prov_DISABLED = ''disabled''"
| "provider_state_value Prov_HEALTHY = ''healthy''"
| "provider_state_value Prov_DEGRADED = ''degraded''"
| "provider_state_value Prov_RATE_LIMITED = ''rate_limited''"
| "provider_state_value Prov_AUTHENTICATION_REQUIRED = ''authentication_required''"
| "provider_state_value Prov_INCOMPATIBLE = ''incompatible''"
| "provider_state_value Prov_UNAVAILABLE = ''unavailable''"

datatype host_kind =
    Host_GENERIC_HTTPS | Host_PIXELDRAIN | Host_MEGA | Host_ROOTZ | Host_MEDIAFIRE
  | Host_TERABOX | Host_DATANODES

fun host_kind_value :: "host_kind \<Rightarrow> pystr" where
  "host_kind_value Host_GENERIC_HTTPS = ''generic_https''"
| "host_kind_value Host_PIXELDRAIN = ''pixeldrain''"
| "host_kind_value Host_MEGA = ''mega''"
| "host_kind_value Host_ROOTZ = ''rootz''"
| "host_kind_value Host_MEDIAFIRE = ''mediafire''"
| "host_kind_value Host_TERABOX = ''terabox''"
| "host_kind_value Host_DATANODES = ''datanodes''"

text \<open>\<open>DirectArtifactHostKind(value)\<close>: \<open>None\<close> is the \<open>ValueError\<close>.\<close>

definition all_host_kinds :: "host_kind list" where
  "all_host_kinds = [Host_GENERIC_HTTPS, Host_PIXELDRAIN, Host_MEGA, Host_ROOTZ, Host_MEDIAFIRE,
     Host_TERABOX, Host_DATANODES]"

definition parse_host_kind :: "pystr \<Rightarrow> host_kind option" where
  "parse_host_kind s = find (\<lambda>k. host_kind_value k = s) all_host_kinds"

datatype account_state =
    Acct_NOT_CONFIGURED | Acct_UNKNOWN | Acct_HEALTHY | Acct_AUTHENTICATION_REQUIRED
  | Acct_QUOTA_LIMITED | Acct_UNAVAILABLE

fun account_state_value :: "account_state \<Rightarrow> pystr" where
  "account_state_value Acct_NOT_CONFIGURED = ''not_configured''"
| "account_state_value Acct_UNKNOWN = ''unknown''"
| "account_state_value Acct_HEALTHY = ''healthy''"
| "account_state_value Acct_AUTHENTICATION_REQUIRED = ''authentication_required''"
| "account_state_value Acct_QUOTA_LIMITED = ''quota_limited''"
| "account_state_value Acct_UNAVAILABLE = ''unavailable''"

datatype acq_state =
    Acq_DISCOVERED | Acq_RESOLVING | Acq_PLANNED | Acq_QUEUED | Acq_DOWNLOADING
  | Acq_VALIDATING | Acq_POST_PROCESSING | Acq_COMPLETED | Acq_RETRY_PENDING | Acq_PAUSED
  | Acq_CANCELLED | Acq_FAILED | Acq_INTERVENTION

fun acq_state_value :: "acq_state \<Rightarrow> pystr" where
  "acq_state_value Acq_DISCOVERED = ''discovered''"
| "acq_state_value Acq_RESOLVING = ''resolving''"
| "acq_state_value Acq_PLANNED = ''planned''"
| "acq_state_value Acq_QUEUED = ''queued''"
| "acq_state_value Acq_DOWNLOADING = ''downloading''"
| "acq_state_value Acq_VALIDATING = ''validating''"
| "acq_state_value Acq_POST_PROCESSING = ''post_processing''"
| "acq_state_value Acq_COMPLETED = ''completed''"
| "acq_state_value Acq_RETRY_PENDING = ''retry_pending''"
| "acq_state_value Acq_PAUSED = ''paused''"
| "acq_state_value Acq_CANCELLED = ''cancelled''"
| "acq_state_value Acq_FAILED = ''failed''"
| "acq_state_value Acq_INTERVENTION = ''intervention''"

datatype art_state =
    Art_PLANNED | Art_RESOLVING | Art_TRANSFERRING | Art_VALIDATING | Art_COMPLETED
  | Art_RETRY_PENDING | Art_PAUSED | Art_CANCELLED | Art_FAILED | Art_INTERVENTION

fun art_state_value :: "art_state \<Rightarrow> pystr" where
  "art_state_value Art_PLANNED = ''planned''"
| "art_state_value Art_RESOLVING = ''resolving''"
| "art_state_value Art_TRANSFERRING = ''transferring''"
| "art_state_value Art_VALIDATING = ''validating''"
| "art_state_value Art_COMPLETED = ''completed''"
| "art_state_value Art_RETRY_PENDING = ''retry_pending''"
| "art_state_value Art_PAUSED = ''paused''"
| "art_state_value Art_CANCELLED = ''cancelled''"
| "art_state_value Art_FAILED = ''failed''"
| "art_state_value Art_INTERVENTION = ''intervention''"

datatype route_kind = Route_DIRECT | Route_TORRENT_FILE | Route_MAGNET

fun route_kind_value :: "route_kind \<Rightarrow> pystr" where
  "route_kind_value Route_DIRECT = ''direct''"
| "route_kind_value Route_TORRENT_FILE = ''torrent_file''"
| "route_kind_value Route_MAGNET = ''magnet''"

definition parse_route_kind :: "pystr \<Rightarrow> route_kind option" where
  "parse_route_kind s =
     find (\<lambda>k. route_kind_value k = s) [Route_DIRECT, Route_TORRENT_FILE, Route_MAGNET]"

datatype failure_class =
    Fail_PROVIDER_UNAVAILABLE | Fail_TRANSIENT_SOURCE | Fail_TRANSIENT_HOST
  | Fail_PERMANENT_MIRROR | Fail_UNSUPPORTED_ARTIFACT_HOST | Fail_ARTIFACT_HOST_AUTH_REQUIRED
  | Fail_ARTIFACT_HOST_CHALLENGE | Fail_HOST_QUOTA | Fail_CANDIDATE_INVALID | Fail_RESOLVER
  | Fail_UNSAFE_ROUTE | Fail_SAFETY | Fail_POST_PROCESS | Fail_USER_ACTION

fun failure_class_value :: "failure_class \<Rightarrow> pystr" where
  "failure_class_value Fail_PROVIDER_UNAVAILABLE = ''provider_unavailable''"
| "failure_class_value Fail_TRANSIENT_SOURCE = ''transient_source''"
| "failure_class_value Fail_TRANSIENT_HOST = ''transient_host''"
| "failure_class_value Fail_PERMANENT_MIRROR = ''permanent_mirror''"
| "failure_class_value Fail_UNSUPPORTED_ARTIFACT_HOST = ''unsupported_artifact_host''"
| "failure_class_value Fail_ARTIFACT_HOST_AUTH_REQUIRED = ''artifact_host_auth_required''"
| "failure_class_value Fail_ARTIFACT_HOST_CHALLENGE = ''artifact_host_challenge''"
| "failure_class_value Fail_HOST_QUOTA = ''host_quota''"
| "failure_class_value Fail_CANDIDATE_INVALID = ''candidate_invalid''"
| "failure_class_value Fail_RESOLVER = ''resolver''"
| "failure_class_value Fail_UNSAFE_ROUTE = ''unsafe_route''"
| "failure_class_value Fail_SAFETY = ''safety''"
| "failure_class_value Fail_POST_PROCESS = ''post_process''"
| "failure_class_value Fail_USER_ACTION = ''user_action''"

lemma parse_host_kind_value [simp]: "parse_host_kind (host_kind_value k) = Some k"
  by (cases k) (simp_all add: parse_host_kind_def all_host_kinds_def)

lemma parse_route_kind_value [simp]: "parse_route_kind (route_kind_value k) = Some k"
  by (cases k) (simp_all add: parse_route_kind_def)

datatype trust_level = Trust_VERIFIED_PULLBOX | Trust_CUSTOM

text \<open>
  \<open>DirectProviderConfig\<close>. The two metadata columns are dynamically typed, because the code
  checks that they hold dictionaries before it reads them.
\<close>

record provider_config =
  pc_id :: int
  pc_provider_id :: pystr
  pc_display_name :: pystr
  pc_endpoint :: pystr
  pc_enabled :: bool
  pc_priority :: int
  pc_state :: provider_state
  pc_negotiated_protocol :: "pystr option"
  pc_trust_level :: trust_level
  pc_encrypted_bearer_token :: "pystr option"
  pc_encrypted_configuration :: json
  pc_configuration_metadata :: json
  pc_manifest_snapshot :: json
  pc_resolver_enabled :: bool
  pc_last_health_at :: "timestamp option"
  pc_last_tested_at :: "timestamp option"
  pc_last_error_code :: "pystr option"

text \<open>\<open>DirectArtifactAttempt\<close>: one mirror transfer within an acquisition.\<close>

record artifact_attempt =
  ar_id :: int
  ar_sequence_no :: int
  ar_artifact_identity :: pystr
  ar_route_kind :: route_kind
  ar_host_kind :: host_kind
  ar_state :: art_state
  ar_is_selected :: bool
  ar_expected_size :: "int option"
  ar_bytes_transferred :: int
  ar_etag :: "pystr option"
  ar_last_modified_at :: "timestamp option"
  ar_quarantine_path :: "pystr option"
  ar_retry_count :: int
  ar_max_retries :: int
  ar_next_retry_at :: "timestamp option"
  ar_failure_class :: "failure_class option"
  ar_failure_code :: "pystr option"
  ar_error_message :: "pystr option"
  ar_completed_at :: "timestamp option"

text \<open>\<open>DirectAcquisitionAttempt\<close>, with its ordered artifact attempts.\<close>

record acquisition_attempt =
  aq_id :: int
  aq_request_key :: pystr
  aq_issue_id :: int
  aq_search_log_id :: "int option"
  aq_provider_config_id :: "int option"
  aq_provider_identity :: pystr
  aq_provider_candidate_id :: pystr
  aq_state :: acq_state
  aq_requested_coverage :: json
  aq_candidate_snapshot :: json
  aq_plan_snapshot :: json
  aq_plan_revision :: int
  aq_progress_snapshot :: json
  aq_progress_revision :: int
  aq_retry_count :: int
  aq_max_retries :: int
  aq_next_retry_at :: "timestamp option"
  aq_failure_class :: "failure_class option"
  aq_failure_code :: "pystr option"
  aq_error_message :: "pystr option"
  aq_replace_existing_file :: bool
  aq_started_at :: "timestamp option"
  aq_completed_at :: "timestamp option"
  aq_cancelled_at :: "timestamp option"
  aq_library_file_id :: "int option"
  aq_artifact_attempts :: "artifact_attempt list"

text \<open>The check constraints of the two attempt tables, and their uniqueness constraints.\<close>

definition artifact_checks :: "artifact_attempt \<Rightarrow> bool" where
  "artifact_checks a \<longleftrightarrow> 0 \<le> ar_sequence_no a \<and>
     (case ar_expected_size a of None \<Rightarrow> True | Some n \<Rightarrow> 0 \<le> n) \<and>
     0 \<le> ar_bytes_transferred a \<and> 0 \<le> ar_retry_count a \<and> 0 \<le> ar_max_retries a"

definition acquisition_checks :: "acquisition_attempt \<Rightarrow> bool" where
  "acquisition_checks a \<longleftrightarrow> 0 \<le> aq_plan_revision a \<and> 0 \<le> aq_progress_revision a \<and>
     0 \<le> aq_retry_count a \<and> 0 \<le> aq_max_retries a"

definition artifacts_unique :: "acquisition_attempt \<Rightarrow> bool" where
  "artifacts_unique a \<longleftrightarrow> distinct (map ar_artifact_identity (aq_artifact_attempts a)) \<and>
     distinct (map ar_sequence_no (aq_artifact_attempts a))"

end
