(* ===== verification/Coverage_Planner.thy ===== *)
theory Coverage_Planner
  imports Direct_Models "HOL-Library.FSet"
begin

unbundle bit_operations_syntax

text \<open>
  Coverage and route planning for direct-download candidates
  (\<open>src/src/pullbox/services/direct_coverage_planner.py\<close>): the choice of artifacts by dynamic
  programming over bit masks of covered issues, its greedy fallback above the state bound, and
  the ranking of transfer routes. A frozenset of issue identifiers is an \<open>fset\<close>, a mask an
  \<open>int\<close> read bitwise, the table of states an insertion-ordered dictionary from masks to
  selections.
\<close>

definition MAX_PLANNER_STATES :: nat where
  "MAX_PLANNER_STATES = 100000"

record route_option =
  ro_route_identity :: pystr
  ro_route_kind :: route_kind
  ro_host_kind :: host_kind
  ro_transport_rank :: int
  ro_eligible :: bool
  ro_eligibility_code :: pystr
  ro_host_preference :: int
  ro_account_state :: account_state
  ro_quota_remaining :: "int option"
  ro_resumable :: bool
  ro_resolver_required :: bool

record artifact_option =
  ao_provider_identity :: pystr
  ao_provider_candidate_id :: pystr
  ao_artifact_identity :: pystr
  ao_coverage :: "pystr fset"
  ao_semantic_rank :: int
  ao_quality_rank :: int
  ao_expected_size :: "int option"
  ao_provider_confidence :: rat
  ao_provider_priority :: int
  ao_routes :: "route_option list"

record planned_artifact =
  pa_provider_identity :: pystr
  pa_provider_candidate_id :: pystr
  pa_artifact_identity :: pystr
  pa_coverage :: "pystr fset"
  pa_expected_size :: "int option"
  pa_ordered_routes :: "route_option list"
  pa_selected_route_identity :: pystr

record coverage_plan =
  cp_requested :: "pystr fset"
  cp_selected :: "planned_artifact list"
  cp_uncovered :: "pystr fset"
  cp_complete :: bool
  cp_explanation_code :: pystr
  cp_pinned_route_applied :: bool

datatype planner_error =
    InvalidRequestedIdentifier | DuplicateArtifact | NegativeArtifactRank | ConfidenceOutOfRange
  | DuplicateRoute | NegativeRouteRank | NoSafeRoute

subsection \<open>Input validation\<close>

definition requested_identifiers_ok :: "pystr fset \<Rightarrow> bool" where
  "requested_identifiers_ok requested \<longleftrightarrow> fBall requested (\<lambda>v. v \<noteq> [] \<and> length v \<le> 100)"

fun validate_routes :: "route_option list \<Rightarrow> pystr list \<Rightarrow> (planner_error, pystr list) result" where
  "validate_routes [] route_ids = Inr route_ids"
| "validate_routes (r # rs) route_ids =
     (if ro_route_identity r \<in> set route_ids then Inl DuplicateRoute
      else if ro_transport_rank r < 0 \<or> ro_host_preference r < 0 then Inl NegativeRouteRank
      else validate_routes rs (ro_route_identity r # route_ids))"

fun validate_options ::
  "artifact_option list \<Rightarrow> pystr list \<Rightarrow> pystr list \<Rightarrow> (planner_error, unit) result" where
  "validate_options [] artifact_ids route_ids = Inr ()"
| "validate_options (a # as) artifact_ids route_ids =
     (if ao_artifact_identity a \<in> set artifact_ids then Inl DuplicateArtifact
      else if ao_semantic_rank a < 0 \<or> ao_quality_rank a < 0 then Inl NegativeArtifactRank
      else if \<not> (0 \<le> ao_provider_confidence a \<and> ao_provider_confidence a \<le> 1)
      then Inl ConfidenceOutOfRange
      else bind_result (validate_routes (ao_routes a) route_ids)
             (\<lambda>ids. validate_options as (ao_artifact_identity a # artifact_ids) ids))"

definition validate_inputs ::
  "pystr fset \<Rightarrow> artifact_option list \<Rightarrow> (planner_error, unit) result" where
  "validate_inputs requested artifacts =
     (if \<not> requested_identifiers_ok requested then Inl InvalidRequestedIdentifier
      else validate_options artifacts [] [])"

subsection \<open>Ranking keys\<close>

fun account_rank :: "account_state \<Rightarrow> int" where
  "account_rank Acct_HEALTHY = 0"
| "account_rank Acct_NOT_CONFIGURED = 0"
| "account_rank Acct_UNKNOWN = 1"
| "account_rank Acct_QUOTA_LIMITED = 2"
| "account_rank Acct_AUTHENTICATION_REQUIRED = 3"
| "account_rank Acct_UNAVAILABLE = 4"

definition route_order_key ::
  "route_option \<Rightarrow> bool \<times> int \<times> int \<times> int \<times> int \<times> bool \<times> bool \<times> pystr" where
  "route_order_key r = (\<not> ro_eligible r, ro_host_preference r, ro_transport_rank r,
     account_rank (ro_account_state r), - or_else (ro_quota_remaining r) 0,
     \<not> ro_resumable r, ro_resolver_required r, ro_route_identity r)"

definition artifact_order_key ::
  "artifact_option \<Rightarrow> int \<times> int \<times> int \<times> pystr \<times> pystr \<times> pystr" where
  "artifact_order_key a = (ao_semantic_rank a, ao_quality_rank a, ao_provider_priority a,
     ao_provider_identity a, ao_provider_candidate_id a, ao_artifact_identity a)"

type_synonym selection_key_t =
  "int \<times> int \<times> int \<times> int \<times> int \<times> int \<times> int \<times> rat \<times> int \<times> pystr list"

definition selection_key ::
  "artifact_option list \<Rightarrow> pystr fset \<Rightarrow> nat list \<Rightarrow> selection_key_t" where
  "selection_key artifacts requested selected =
     (let options = map ((!) artifacts) selected in
      if options = [] then (0, 0, 0, 0, 0, 0, 0, 0, 0, [])
      else
        (let expected_size = sum_list (map (\<lambda>i. or_else (ao_expected_size i) (2 ^ 63)) options);
             extra_coverage = sum_list (map (\<lambda>i. int (fcard (ao_coverage i |-| requested))) options)
         in (Max (set (map ao_semantic_rank options)), sum_list (map ao_semantic_rank options),
             Max (set (map ao_quality_rank options)), sum_list (map ao_quality_rank options),
             int (length options), extra_coverage, expected_size,
             - sum_list (map ao_provider_confidence options),
             sum_list (map ao_provider_priority options),
             sort (map ao_artifact_identity options))))"

subsection \<open>Choosing artifacts\<close>

text \<open>The mask of an artifact: one bit per covered issue, at the issue's sorted position.\<close>

definition coverage_mask :: "pystr list \<Rightarrow> pystr fset \<Rightarrow> int" where
  "coverage_mask positions coverage =
     (\<Sum>p \<leftarrow> filter (\<lambda>p. positions ! p |\<in>| coverage) [0..<length positions]. push_bit p 1)"

fun bit_count_nat :: "nat \<Rightarrow> nat" where
  "bit_count_nat n = (if n = 0 then 0 else n mod 2 + bit_count_nat (n div 2))"

declare bit_count_nat.simps [simp del]

text \<open>\<open>int.bit_count\<close> of a non-negative number.\<close>

definition bit_count :: "int \<Rightarrow> int" where
  "bit_count m = int (bit_count_nat (nat m))"

type_synonym planner_states = "(int, nat list) dict"

text \<open>
  \<open>additions.get(mask) or states.get(mask)\<close>, an empty selection being falsy, and the test
  that decides whether a candidate replaces the current selection.
\<close>

definition current_selection :: "planner_states \<Rightarrow> planner_states \<Rightarrow> int \<Rightarrow> nat list option" where
  "current_selection additions states m =
     (case map_of additions m of Some (x # xs) \<Rightarrow> Some (x # xs) | _ \<Rightarrow> map_of states m)"

definition improves :: "(nat list \<Rightarrow> selection_key_t) \<Rightarrow> nat list \<Rightarrow> nat list option \<Rightarrow> bool" where
  "improves key candidate current =
     (case current of None \<Rightarrow> True | Some c \<Rightarrow> key candidate < key c)"

text \<open>One artifact against a copy of the table: the improvements it offers.\<close>

fun scan_states ::
  "(nat list \<Rightarrow> selection_key_t) \<Rightarrow> nat \<Rightarrow> int \<Rightarrow> planner_states \<Rightarrow> planner_states \<Rightarrow>
     planner_states \<Rightarrow> planner_states" where
  "scan_states key index artifact_mask states [] additions = additions"
| "scan_states key index artifact_mask states ((covered_mask, selected) # items) additions =
     (let combined_mask = covered_mask OR artifact_mask in
      if combined_mask = covered_mask
      then scan_states key index artifact_mask states items additions
      else
        (let candidate = selected @ [index];
             current = current_selection additions states combined_mask
         in scan_states key index artifact_mask states items
              (if improves key candidate current
               then AList.update combined_mask candidate additions else additions)))"

fun merge_additions ::
  "(nat list \<Rightarrow> selection_key_t) \<Rightarrow> planner_states \<Rightarrow> planner_states \<Rightarrow> planner_states" where
  "merge_additions key [] states = states"
| "merge_additions key ((m, selected) # items) states =
     merge_additions key items
       (if improves key selected (map_of states m) then AList.update m selected states else states)"

text \<open>The loop over the artifacts; the flag says that the table outgrew its bound.\<close>

fun plan_states ::
  "(nat list \<Rightarrow> selection_key_t) \<Rightarrow> (nat \<times> int) list \<Rightarrow> planner_states \<Rightarrow> planner_states \<times> bool" where
  "plan_states key [] states = (states, False)"
| "plan_states key ((index, artifact_mask) # rest) states =
     (let additions = scan_states key index artifact_mask states states [];
          states' = merge_additions key additions states
      in if length states' > MAX_PLANNER_STATES then (states', True)
         else plan_states key rest states')"

text \<open>
  The greedy selection, with the indices not yet taken in ascending order. Each round takes one.
\<close>

function greedy_selection ::
  "(nat list \<Rightarrow> selection_key_t) \<Rightarrow> int \<Rightarrow> int list \<Rightarrow> nat list \<Rightarrow> int \<Rightarrow> nat list \<Rightarrow> nat list" where
  "greedy_selection key full_mask masks selected covered remaining =
     (if covered = full_mask then selected
      else case filter (\<lambda>i. bit_count (masks ! i AND NOT covered) \<noteq> 0) remaining of
        [] \<Rightarrow> selected
      | c # cs \<Rightarrow>
          (let best = min_by (\<lambda>i. (- bit_count (masks ! i AND NOT covered), key (selected @ [i]))) c cs
           in greedy_selection key full_mask masks (selected @ [best]) (covered OR masks ! best)
                (removeAll best remaining)))"
  by pat_completeness auto
termination
proof (relation "measure (\<lambda>(key, full, masks, sel, cov, remaining). length remaining)", goal_cases)
  case 1
  then show ?case by simp
next
  case (2 key full masks sel cov remaining c cs best)
  have "best \<in> insert c (set cs)" unfolding 2(3) by (rule min_by_in)
  also have "\<dots> = set (filter (\<lambda>i. bit_count (masks ! i AND NOT cov) \<noteq> 0) remaining)"
    unfolding 2(2) by simp
  finally have "best \<in> set remaining" by simp
  then have "length (removeAll best remaining) < length remaining"
    by (simp add: length_removeAll_less)
  then show ?case by simp
qed

declare greedy_selection.simps [simp del]

definition state_rank ::
  "(nat list \<Rightarrow> selection_key_t) \<Rightarrow> pystr fset \<Rightarrow> int \<times> nat list \<Rightarrow> int \<times> selection_key_t" where
  "state_rank key requested item =
     (int (fcard requested) - bit_count (fst item), key (snd item))"

definition choose_indices :: "pystr fset \<Rightarrow> artifact_option list \<Rightarrow> nat list" where
  "choose_indices requested artifacts =
     (let positions = sorted_list_of_fset requested;
          full_mask = push_bit (length positions) 1 - 1;
          masks = map (\<lambda>a. coverage_mask positions (ao_coverage a)) artifacts;
          key = selection_key artifacts requested;
          (states, bounded) = plan_states key (enumerate 0 masks) [(0, [])]
      in if \<not> bounded \<and> map_of states full_mask \<noteq> None then the (map_of states full_mask)
         else if bounded then greedy_selection key full_mask masks [] 0 [0..<length artifacts]
         else snd (min_by (state_rank key requested) (hd states) (tl states)))"

definition select_artifacts :: "pystr fset \<Rightarrow> artifact_option list \<Rightarrow> artifact_option list" where
  "select_artifacts requested artifacts =
     (if artifacts = [] then []
      else sort_key artifact_order_key (map ((!) artifacts) (choose_indices requested artifacts)))"

subsection \<open>The plan\<close>

definition plan_artifact :: "pystr option \<Rightarrow> artifact_option \<Rightarrow>
    (planner_error, planned_artifact \<times> bool \<times> bool) result" where
  "plan_artifact pinned_identity a =
     (let ordered_routes = sort_key route_order_key (ao_routes a) in
      case filter ro_eligible ordered_routes of
        [] \<Rightarrow> Inl NoSafeRoute
      | safe # _ \<Rightarrow>
          (let pinned = (case pinned_identity of None \<Rightarrow> None
                         | Some p \<Rightarrow> find (\<lambda>r. ro_route_identity r = p) ordered_routes);
               (selected_route, applied, rejected) =
                 (case pinned of None \<Rightarrow> (safe, False, False)
                  | Some r \<Rightarrow> if ro_eligible r then (r, True, False) else (safe, False, True))
           in Inr (\<lparr>pa_provider_identity = ao_provider_identity a,
                    pa_provider_candidate_id = ao_provider_candidate_id a,
                    pa_artifact_identity = ao_artifact_identity a,
                    pa_coverage = ao_coverage a,
                    pa_expected_size = ao_expected_size a,
                    pa_ordered_routes = ordered_routes,
                    pa_selected_route_identity = ro_route_identity selected_route\<rparr>,
                   applied, rejected)))"

fun plan_artifacts :: "pystr option \<Rightarrow> artifact_option list \<Rightarrow>
    (planner_error, planned_artifact list \<times> bool \<times> bool) result" where
  "plan_artifacts pinned [] = Inr ([], False, False)"
| "plan_artifacts pinned (a # as) =
     bind_result (plan_artifact pinned a) (\<lambda>(p, applied, rejected).
     bind_result (plan_artifacts pinned as) (\<lambda>(ps, applied', rejected').
       Inr (p # ps, applied \<or> applied', rejected \<or> rejected')))"

definition usable_artifact :: "pystr fset \<Rightarrow> artifact_option \<Rightarrow> bool" where
  "usable_artifact requested a \<longleftrightarrow>
     ao_coverage a |\<inter>| requested \<noteq> {||} \<and> list_ex ro_eligible (ao_routes a)"

definition plan_direct_coverage :: "pystr fset \<Rightarrow> artifact_option list \<Rightarrow> pystr option \<Rightarrow>
    (planner_error, coverage_plan) result" where
  "plan_direct_coverage requested artifacts pinned_route_identity =
     bind_result (validate_inputs requested artifacts) (\<lambda>_.
     if requested = {||} then
       Inr \<lparr>cp_requested = requested, cp_selected = [], cp_uncovered = {||}, cp_complete = True,
            cp_explanation_code = ''nothing_requested'', cp_pinned_route_applied = False\<rparr>
     else
       (let eligible = sort_key artifact_order_key (filter (usable_artifact requested) artifacts);
            selected_options = select_artifacts requested eligible;
            covered = ffUnion (fset_of_list (map (\<lambda>i. ao_coverage i |\<inter>| requested) selected_options));
            uncovered = requested |-| covered
        in bind_result (plan_artifacts pinned_route_identity selected_options)
             (\<lambda>(planned, pin_applied, pin_rejected).
               Inr \<lparr>cp_requested = requested, cp_selected = planned, cp_uncovered = uncovered,
                    cp_complete = (uncovered = {||}),
                    cp_explanation_code =
                      (if pin_rejected then ''pinned_route_ineligible''
                       else if uncovered \<noteq> {||} then ''incomplete_coverage''
                       else ''complete_coverage''),
                    cp_pinned_route_applied = pin_applied\<rparr>)))"

subsection \<open>Masks as sets of positions\<close>

lemma int_eq_bits: "(a::int) = b \<longleftrightarrow> (\<forall>k. bit a k = bit b k)"
  by (simp add: bit_eq_iff)

lemma bit_sum_powers:
  "distinct ps \<Longrightarrow> bit (\<Sum>p \<leftarrow> ps. (2::int) ^ p) k = (k \<in> set ps)"
proof (induction ps arbitrary: k)
  case Nil
  then show ?case by simp
next
  case (Cons p ps)
  let ?s = "\<Sum>p \<leftarrow> ps. (2::int) ^ p"
  have s: "bit ?s j = (j \<in> set ps)" for j using Cons by simp
  have "2 ^ p AND ?s = 0"
  proof (rule bit_eqI)
    fix j show "bit (2 ^ p AND ?s) j = bit (0::int) j"
      using Cons.prems by (auto simp: bit_and_iff bit_exp_iff s)
  qed
  then have "2 ^ p + ?s = 2 ^ p OR ?s" by (rule disjunctive_add_eq_or)
  then show ?case by (auto simp: bit_or_iff bit_exp_iff s)
qed

lemma bit_coverage_mask:
  "bit (coverage_mask ps c) k \<longleftrightarrow> k < length ps \<and> ps ! k |\<in>| c"
  by (simp add: coverage_mask_def push_bit_eq_mult bit_sum_powers)

lemma sum_list_nonneg_int: "(\<And>x. x \<in> set xs \<Longrightarrow> 0 \<le> f x) \<Longrightarrow> 0 \<le> (\<Sum>x \<leftarrow> xs. (f x :: int))"
  by (induction xs) simp_all

lemma coverage_mask_nonneg: "0 \<le> coverage_mask ps c"
  unfolding coverage_mask_def by (rule sum_list_nonneg_int) simp

lemma bit_full_mask: "bit (2 ^ n - 1 :: int) k \<longleftrightarrow> k < n"
proof -
  have "2 ^ n - 1 = (mask n :: int)" by (simp add: mask_eq_exp_minus_1)
  then show ?thesis by (simp add: bit_mask_iff)
qed

lemma finite_bits_nat: "finite {k. bit (n::nat) k}"
proof (rule finite_subset)
  show "{k. bit n k} \<subseteq> {..n}"
  proof
    fix k assume "k \<in> {k. bit n k}"
    then have "odd (n div 2 ^ k)" by (simp add: bit_iff_odd)
    then have "n div 2 ^ k \<noteq> 0" by (rule contrapos_pn) simp
    then have "2 ^ k \<le> n" by (metis div_less leI)
    moreover have "k < 2 ^ k" by (rule less_exp)
    ultimately have "k < n" by linarith
    then show "k \<in> {..n}" by simp
  qed
qed simp

lemma bit_count_nat_card: "bit_count_nat n = card {k. bit n k}"
proof (induction n rule: bit_count_nat.induct)
  case (1 n)
  show ?case
  proof (cases "n = 0")
    case True
    then show ?thesis by (simp add: bit_count_nat.simps)
  next
    case False
    have split: "{k. bit n k} = (if odd n then {0} else {}) \<union> Suc ` {k. bit (n div 2) k}"
    proof (rule set_eqI)
      fix k show "k \<in> {k. bit n k} \<longleftrightarrow> k \<in> (if odd n then {0} else {}) \<union> Suc ` {k. bit (n div 2) k}"
        by (cases k) (auto simp: bit_0 bit_Suc)
    qed
    have "card (Suc ` {k. bit (n div 2) k}) = bit_count_nat (n div 2)"
      using 1 False by (simp add: card_image)
    then have "card {k. bit n k} = n mod 2 + bit_count_nat (n div 2)"
      unfolding split by (subst card_Un_disjoint) (auto simp: finite_bits_nat odd_iff_mod_2_eq_one)
    with False show ?thesis by (simp add: bit_count_nat.simps [of n])
  qed
qed

lemma bit_count_card: "0 \<le> m \<Longrightarrow> bit_count m = int (card {k. bit m k})"
  by (auto simp: bit_count_def bit_count_nat_card bit_nat_iff)

lemma finite_bits: "0 \<le> (m::int) \<Longrightarrow> finite {k. bit m k}"
  using finite_bits_nat [of "nat m"] by (simp add: bit_nat_iff)

lemma bit_count_zero_0: "bit_count 0 = 0"
  by (simp add: bit_count_def bit_count_nat.simps)

lemma bit_count_mono: "0 \<le> a \<Longrightarrow> 0 \<le> b \<Longrightarrow> (\<And>k. bit a k \<Longrightarrow> bit b k) \<Longrightarrow> bit_count a \<le> bit_count b"
  by (auto simp: bit_count_card finite_bits intro!: card_mono)

lemma bit_count_eq_imp:
  assumes "0 \<le> a" "0 \<le> b" "\<And>k. bit a k \<Longrightarrow> bit b k" "bit_count b \<le> bit_count a"
  shows "a = b"
proof -
  have "{k. bit a k} = {k. bit b k}"
    using assms by (intro card_seteq) (auto simp: bit_count_card finite_bits)
  then show ?thesis by (auto simp: int_eq_bits)
qed

lemma bit_count_zero: "0 \<le> a \<Longrightarrow> bit_count a = 0 \<longleftrightarrow> (\<forall>k. \<not> bit a k)"
  by (auto simp: bit_count_card finite_bits)

lemma bit_count_OR_gt:
  assumes "0 \<le> a" "0 \<le> b" "a OR b \<noteq> a"
  shows "bit_count a < bit_count (a OR b)"
proof -
  have "bit_count a \<le> bit_count (a OR b)"
    using assms by (intro bit_count_mono) (auto simp: bit_simps)
  moreover have "bit_count a \<noteq> bit_count (a OR b)"
    using bit_count_eq_imp [of a "a OR b"] assms by (auto simp: bit_simps)
  ultimately show ?thesis by simp
qed

text \<open>The mask a selection of indices covers.\<close>

fun mask_union :: "int list \<Rightarrow> nat list \<Rightarrow> int" where
  "mask_union masks [] = 0"
| "mask_union masks (i # sel) = masks ! i OR mask_union masks sel"

lemma bit_mask_union: "bit (mask_union masks sel) k \<longleftrightarrow> (\<exists>i \<in> set sel. bit (masks ! i) k)"
  by (induction sel) (auto simp: bit_simps)

lemma mask_union_snoc: "mask_union masks (sel @ [i]) = mask_union masks sel OR masks ! i"
  by (auto simp: int_eq_bits bit_mask_union bit_simps)

lemma mask_union_nonneg:
  "\<forall>m \<in> set masks. 0 \<le> m \<Longrightarrow> set sel \<subseteq> {..<length masks} \<Longrightarrow> 0 \<le> mask_union masks sel"
  by (induction sel) auto

lemma mask_union_le_all:
  "set sel \<subseteq> {..<n} \<Longrightarrow> bit (mask_union masks sel) k \<Longrightarrow> bit (mask_union masks [0..<n]) k"
  unfolding bit_mask_union by fastforce

subsection \<open>The table of states\<close>

text \<open>
  An entry of the table after the first \<open>n\<close> artifacts: the mask is what the selection covers,
  the selection has increasing indices below \<open>n\<close>, and every artifact in it added an issue.
\<close>

definition entry_ok :: "int list \<Rightarrow> nat \<Rightarrow> int \<times> nat list \<Rightarrow> bool" where
  "entry_ok masks n e \<longleftrightarrow> fst e = mask_union masks (snd e) \<and> sorted_wrt (<) (snd e) \<and>
     set (snd e) \<subseteq> {..<n} \<and> int (length (snd e)) \<le> bit_count (fst e)"

lemma entry_ok_mono: "entry_ok masks n e \<Longrightarrow> n \<le> n' \<Longrightarrow> entry_ok masks n' e"
  by (force simp: entry_ok_def)

lemma entry_ok_extend:
  assumes "entry_ok masks n (m, sel)" and "n < length masks" and "\<forall>m \<in> set masks. 0 \<le> m"
    and "m OR masks ! n \<noteq> m"
  shows "entry_ok masks (Suc n) (m OR masks ! n, sel @ [n])"
proof -
  from assms(1,2) have "set sel \<subseteq> {..<length masks}" by (auto simp: entry_ok_def)
  with assms have "0 \<le> m" and "0 \<le> masks ! n"
    by (auto simp: entry_ok_def intro: mask_union_nonneg)
  with assms(4) have "bit_count m < bit_count (m OR masks ! n)" by (intro bit_count_OR_gt)
  with assms(1) show ?thesis
    by (auto simp: entry_ok_def mask_union_snoc sorted_wrt_append less_Suc_eq)
qed

lemma set_AList_update: "set (AList.update k v d) \<subseteq> insert (k, v) (set d)"
  by (induction d) auto

lemma entries_update:
  "\<forall>e \<in> set d. P e \<Longrightarrow> P (k, v) \<Longrightarrow> \<forall>e \<in> set (AList.update k v d). P e"
  using set_AList_update [of k v d] by blast

lemma keys_update: "fst ` set (AList.update k v d) = insert k (fst ` set d)"
  by (simp add: dom_update)

lemma current_selection_keys:
  assumes "current_selection adds states m = Some c"
  shows "m \<in> fst ` set adds \<union> fst ` set states"
proof -
  from assms have "map_of adds m \<noteq> None \<or> map_of states m \<noteq> None"
    by (cases "map_of adds m") (simp_all add: current_selection_def)
  then show ?thesis by (simp only: map_of_eq_None_iff Un_iff not_not)
qed

lemma improves_None [simp]: "improves key c None"
  by (simp add: improves_def)

lemma entries_if_update:
  "\<forall>e \<in> set d. P e \<Longrightarrow> P (k, v) \<Longrightarrow> \<forall>e \<in> set (if b then AList.update k v d else d). P e"
  using entries_update [of d P k v] by (cases b) simp_all

lemma keys_if_update:
  "fst ` set d \<subseteq> fst ` set (if b then AList.update k v d else d)"
  by (cases b) (simp_all only: if_True if_False keys_update order_refl subset_insertI)

lemma scan_states_ok:
  assumes "n < length masks" and "\<forall>m \<in> set masks. 0 \<le> m"
  shows "\<forall>e \<in> set items. entry_ok masks n e \<Longrightarrow> \<forall>e \<in> set adds. entry_ok masks (Suc n) e \<Longrightarrow>
    \<forall>e \<in> set (scan_states key n (masks ! n) states items adds). entry_ok masks (Suc n) e"
proof (induction items arbitrary: adds)
  case Nil
  then show ?case by simp
next
  case (Cons it items)
  obtain cm sel where it: "it = (cm, sel)" by (cases it)
  from Cons.prems(1) have e: "entry_ok masks n (cm, sel)" and rest: "\<forall>e \<in> set items. entry_ok masks n e"
    by (simp_all add: it)
  show ?case
  proof (cases "cm OR masks ! n = cm")
    case True
    with Cons.IH [OF rest Cons.prems(2)] show ?thesis by (simp add: it)
  next
    case False
    have "entry_ok masks (Suc n) (cm OR masks ! n, sel @ [n])"
      by (rule entry_ok_extend [OF e assms False])
    note step = Cons.IH [OF rest entries_if_update [OF Cons.prems(2) this]]
    from False step show ?thesis by (simp only: it scan_states.simps Let_def if_False)
  qed
qed

lemma scan_states_keys_mono:
  "fst ` set adds \<subseteq> fst ` set (scan_states key n am states items adds)"
proof (induction items arbitrary: adds)
  case Nil
  then show ?case by simp
next
  case (Cons it items)
  obtain cm sel where it: "it = (cm, sel)" by (cases it)
  show ?case
  proof (cases "cm OR am = cm")
    case True
    then have "scan_states key n am states (it # items) adds = scan_states key n am states items adds"
      by (simp add: it)
    then show ?thesis using Cons by simp
  next
    case False
    note order_trans [OF keys_if_update Cons.IH]
    with False show ?thesis by (simp only: it scan_states.simps Let_def if_False)
  qed
qed

lemma scan_states_keys:
  "(m, sel) \<in> set items \<Longrightarrow> m OR am \<noteq> m \<Longrightarrow>
     m OR am \<in> fst ` set (scan_states key n am states items adds) \<union> fst ` set states"
proof (induction items arbitrary: adds)
  case Nil
  then show ?case by simp
next
  case (Cons it items)
  obtain cm s where it: "it = (cm, s)" by (cases it)
  show ?case
  proof (cases "(m, sel) \<in> set items")
    case True
    note IH = Cons.IH [OF True Cons.prems(2)]
    obtain adds' where "scan_states key n am states (it # items) adds =
        scan_states key n am states items adds'"
      by (cases "cm OR am = cm") (simp_all add: it Let_def)
    with IH show ?thesis by simp
  next
    case False
    with Cons.prems(1) have m: "it = (m, sel)" by simp
    let ?cur = "current_selection adds states (m OR am)"
    let ?adds = "if improves key (sel @ [n]) ?cur then AList.update (m OR am) (sel @ [n]) adds else adds"
    have "m OR am \<in> fst ` set ?adds \<union> fst ` set states"
    proof (cases ?cur)
      case None
      then show ?thesis by (simp add: keys_update)
    next
      case (Some c)
      from current_selection_keys [OF this] show ?thesis
        using keys_if_update [of adds] by blast
    qed
    with scan_states_keys_mono [of ?adds key n am states items]
    have "m OR am \<in> fst ` set (scan_states key n am states items ?adds) \<union> fst ` set states"
      by blast
    with Cons.prems(2) show ?thesis by (simp only: m scan_states.simps Let_def if_False)
  qed
qed

lemma merge_additions_ok:
  "\<forall>e \<in> set adds. P e \<Longrightarrow> \<forall>e \<in> set states. P e \<Longrightarrow> \<forall>e \<in> set (merge_additions key adds states). P e"
proof (induction adds arbitrary: states)
  case Nil
  then show ?case by simp
next
  case (Cons it items)
  obtain m sel where it: "it = (m, sel)" by (cases it)
  from Cons.prems have "P (m, sel)" and rest: "\<forall>e \<in> set items. P e" by (simp_all add: it)
  note Cons.IH [OF rest entries_if_update [OF Cons.prems(2) this(1)]]
  then show ?case by (simp only: it merge_additions.simps)
qed

lemma merge_additions_keys:
  "fst ` set (merge_additions key adds states) = fst ` set adds \<union> fst ` set states"
proof (induction adds arbitrary: states)
  case Nil
  then show ?case by simp
next
  case (Cons it items)
  obtain m sel where it: "it = (m, sel)" by (cases it)
  let ?b = "improves key sel (map_of states m)"
  let ?st = "if ?b then AList.update m sel states else states"
  have "m \<in> fst ` set states" if "\<not> ?b"
    using that by (cases "map_of states m") (auto dest: map_of_SomeD intro: rev_image_eqI)
  then have "fst ` set ?st = insert m (fst ` set states)"
    by (cases ?b) (simp_all add: keys_update insert_absorb)
  then show ?case by (simp only: it merge_additions.simps Cons.IH) simp
qed

text \<open>
  Without overflow the table ends with sound entries only, and among its masks is the one of
  everything the artifacts cover together.
\<close>

lemma plan_states_ok:
  assumes "\<forall>m \<in> set masks. 0 \<le> m"
  shows "plan_states key (enumerate n (drop n masks)) states = (st, b) \<Longrightarrow> n \<le> length masks \<Longrightarrow>
     \<forall>e \<in> set states. entry_ok masks n e \<Longrightarrow> mask_union masks [0..<n] \<in> fst ` set states \<Longrightarrow>
     (\<forall>e \<in> set st. entry_ok masks (length masks) e) \<and>
     (\<not> b \<longrightarrow> mask_union masks [0..<length masks] \<in> fst ` set st)"
proof (induction "length masks - n" arbitrary: n states)
  case 0
  then show ?case by simp
next
  case (Suc d)
  then have n: "n < length masks" by simp
  then have drop: "drop n masks = masks ! n # drop (Suc n) masks"
    by (simp add: Cons_nth_drop_Suc)
  let ?adds = "scan_states key n (masks ! n) states states []"
  let ?st = "merge_additions key ?adds states"
  have "\<forall>e \<in> set ?adds. entry_ok masks (Suc n) e"
    using n assms Suc.prems(3) by (intro scan_states_ok) auto
  moreover have "\<forall>e \<in> set states. entry_ok masks (Suc n) e"
    using Suc.prems(3) by (auto intro: entry_ok_mono)
  ultimately have ok: "\<forall>e \<in> set ?st. entry_ok masks (Suc n) e"
    by (intro merge_additions_ok)
  let ?u = "mask_union masks [0..<n]"
  have u: "mask_union masks [0..<Suc n] = ?u OR masks ! n"
    using mask_union_snoc [of masks "[0..<n]" n] by simp
  obtain s where s: "(?u, s) \<in> set states" using Suc.prems(4) by force
  have reach: "mask_union masks [0..<Suc n] \<in> fst ` set ?st"
  proof (cases "?u OR masks ! n = ?u")
    case True
    with Suc.prems(4) show ?thesis by (simp only: u merge_additions_keys) blast
  next
    case False
    from scan_states_keys [OF s False, of key n states "[]"] show ?thesis
      by (simp only: u merge_additions_keys)
  qed
  show ?case
  proof (cases "length ?st > MAX_PLANNER_STATES")
    case True
    with Suc.prems(1) have "st = ?st" and "b" by (simp_all add: drop Let_def)
    with ok n show ?thesis by (auto intro: entry_ok_mono)
  next
    case False
    with Suc.prems(1) have "plan_states key (enumerate (Suc n) (drop (Suc n) masks)) ?st = (st, b)"
      by (simp add: drop Let_def)
    with Suc.hyps n show ?thesis by (intro Suc.hyps(1) [OF _ _ _ ok reach]) simp_all
  qed
qed

lemma bit_count_le_full:
  assumes "0 \<le> m" and "\<And>k. bit m k \<Longrightarrow> k < n"
  shows "bit_count m \<le> int n"
proof -
  have "card {k. bit m k} \<le> card {..<n}" using assms(2) by (intro card_mono) auto
  with assms(1) show ?thesis by (simp add: bit_count_card)
qed

lemma bit_count_and_not:
  assumes "0 \<le> a" shows "bit_count (a AND NOT c) = 0 \<longleftrightarrow> a OR c = c"
proof -
  have "bit_count (a AND NOT c) = 0 \<longleftrightarrow> (\<forall>k. \<not> bit (a AND NOT c) k)"
    using assms by (intro bit_count_zero) simp
  then show ?thesis by (auto simp: int_eq_bits bit_simps)
qed

subsection \<open>The greedy fallback\<close>

text \<open>
  The greedy rounds never take an artifact twice, take only artifacts that add an issue, and
  stop only when nothing is left to add.
\<close>

lemma greedy_selection_ok:
  assumes "\<forall>m \<in> set masks. 0 \<le> m"
  shows "distinct (selected @ remaining) \<Longrightarrow>
     set (selected @ remaining) = {..<length masks} \<Longrightarrow> covered = mask_union masks selected \<Longrightarrow>
     int (length selected) \<le> bit_count covered \<Longrightarrow>
     (\<And>k. bit (mask_union masks [0..<length masks]) k \<Longrightarrow> bit full k) \<Longrightarrow>
     (let sel = greedy_selection key full masks selected covered remaining in
        distinct sel \<and> set sel \<subseteq> {..<length masks} \<and>
        mask_union masks sel = mask_union masks [0..<length masks] \<and>
        int (length sel) \<le> bit_count (mask_union masks sel))"
  using assms
proof (induction key full masks selected covered remaining rule: greedy_selection.induct)
  case (1 key full masks selected covered remaining)
  let ?gain = "\<lambda>i. bit_count (masks ! i AND NOT covered) \<noteq> 0"
  have sel: "set selected \<subseteq> {..<length masks}" using 1(3) by auto
  have dist: "distinct selected" using 1(2) by simp
  show ?case
  proof (cases "covered = full")
    case True
    have "mask_union masks selected = mask_union masks [0..<length masks]"
      unfolding int_eq_bits
      using 1(4,6) True mask_union_le_all [OF sel] by blast
    with True dist sel 1(4,5) show ?thesis by (simp add: greedy_selection.simps Let_def)
  next
    case False
    show ?thesis
    proof (cases "filter ?gain remaining")
      case Nil
      then have none: "\<not> ?gain i" if "i \<in> set remaining" for i
        using that by (simp add: filter_empty_conv)
      have "bit covered k" if "bit (mask_union masks [0..<length masks]) k" for k
      proof -
        from that obtain i where i: "i < length masks" "bit (masks ! i) k"
          by (auto simp: bit_mask_union)
        show ?thesis
        proof (cases "i \<in> set selected")
          case True
          with i show ?thesis using 1(4) by (auto simp: bit_mask_union)
        next
          case False
          with i(1) have rem: "i \<in> set remaining" using 1(3) by fastforce
          have "0 \<le> masks ! i" using i(1) 1(7) by simp
          with none [OF rem] have "masks ! i OR covered = covered" by (simp add: bit_count_and_not)
          with i(2) show ?thesis by (metis bit_or_iff)
        qed
      qed
      then have "mask_union masks selected = mask_union masks [0..<length masks]"
        unfolding int_eq_bits using 1(4) mask_union_le_all [OF sel] by blast
      with False Nil dist sel 1(4,5) show ?thesis by (simp add: greedy_selection.simps Let_def)
    next
      case (Cons c cs)
      define best where "best = min_by (\<lambda>i. (- bit_count (masks ! i AND NOT covered),
        key (selected @ [i]))) c cs"
      have "best \<in> insert c (set cs)" unfolding best_def by (rule min_by_in)
      also have "\<dots> = set (filter ?gain remaining)" using Cons by simp
      finally have best: "best \<in> set remaining" "?gain best" by simp_all
      then have blt: "best < length masks" using 1(3) by auto
      then have bnn: "0 \<le> masks ! best" using 1(7) by simp
      have cnn: "0 \<le> covered" using 1(4,7) sel by (simp add: mask_union_nonneg)
      have "masks ! best OR covered \<noteq> covered" using best(2) bnn by (simp add: bit_count_and_not)
      then have "covered OR masks ! best \<noteq> covered" by (simp add: or.commute)
      from bit_count_OR_gt [OF cnn bnn this]
      have len: "int (length (selected @ [best])) \<le> bit_count (covered OR masks ! best)"
        using 1(5) by simp
      have d: "distinct ((selected @ [best]) @ removeAll best remaining)"
        using 1(2) best(1) by (auto simp: distinct_removeAll)
      have s: "set ((selected @ [best]) @ removeAll best remaining) = {..<length masks}"
        using 1(3) best(1) by auto
      have u: "covered OR masks ! best = mask_union masks (selected @ [best])"
        using 1(4) by (simp add: mask_union_snoc)
      have "greedy_selection key full masks selected covered remaining =
          greedy_selection key full masks (selected @ [best]) (covered OR masks ! best)
            (removeAll best remaining)"
        using False Cons by (subst greedy_selection.simps) (simp add: best_def Let_def)
      with 1(1) [OF False Cons best_def d s u len 1(6,7)] show ?thesis by simp
    qed
  qed
qed

subsection \<open>The chosen indices\<close>

lemma plan_states_start:
  assumes "plan_states key (enumerate 0 masks) [(0, [])] = (st, b)" and "\<forall>m \<in> set masks. 0 \<le> m"
  shows "\<forall>e \<in> set st. entry_ok masks (length masks) e"
    and "\<not> b \<Longrightarrow> mask_union masks [0..<length masks] \<in> fst ` set st"
proof -
  have "plan_states key (enumerate 0 (drop 0 masks)) [(0, [])] = (st, b)" using assms(1) by simp
  moreover have "\<forall>e \<in> set [(0, [])]. entry_ok masks 0 e"
    by (simp add: entry_ok_def bit_count_def bit_count_nat.simps)
  moreover have "mask_union masks [0..<0] \<in> fst ` set [(0, [])]" by simp
  ultimately have "(\<forall>e \<in> set st. entry_ok masks (length masks) e) \<and>
     (\<not> b \<longrightarrow> mask_union masks [0..<length masks] \<in> fst ` set st)"
    by (intro plan_states_ok [OF assms(2), of key 0 "[(0, [])]"]) simp_all
  then show "\<forall>e \<in> set st. entry_ok masks (length masks) e"
    and "\<not> b \<Longrightarrow> mask_union masks [0..<length masks] \<in> fst ` set st"
    by blast+
qed

lemma sorted_wrt_less_distinct: "sorted_wrt (<) xs \<Longrightarrow> distinct (xs :: nat list)"
  by (simp add: strict_sorted_iff)

lemma entry_ok_sound:
  assumes "entry_ok masks n (m, sel)"
  shows "distinct sel" "set sel \<subseteq> {..<n}" "m = mask_union masks sel"
    "int (length sel) \<le> bit_count (mask_union masks sel)"
  using assms by (auto simp: entry_ok_def sorted_wrt_less_distinct)

text \<open>Whatever the branch, the chosen indices cover what all the artifacts cover together.\<close>

lemma choose_indices_cover:
  fixes requested artifacts
  defines "masks \<equiv> map (\<lambda>a. coverage_mask (sorted_list_of_fset requested) (ao_coverage a)) artifacts"
    and "sel \<equiv> choose_indices requested artifacts"
  shows "distinct sel \<and> set sel \<subseteq> {..<length masks} \<and>
    mask_union masks sel = mask_union masks [0..<length masks] \<and>
    int (length sel) \<le> bit_count (mask_union masks sel)"
proof -
  let ?ps = "sorted_list_of_fset requested" and ?key = "selection_key artifacts requested"
  let ?n = "length masks" and ?U = "mask_union masks [0..<length masks]"
  let ?full = "push_bit (length ?ps) 1 - 1 :: int"
  have nonneg: "\<forall>m \<in> set masks. 0 \<le> m" by (auto simp: masks_def coverage_mask_nonneg)
  have U_full: "bit ?full k" if "bit ?U k" for k
    using that by (auto simp: bit_mask_union masks_def bit_coverage_mask bit_full_mask push_bit_eq_mult)
  have U_nn: "0 \<le> ?U" using nonneg by (intro mask_union_nonneg) auto
  obtain st b where st: "plan_states ?key (enumerate 0 masks) [(0, [])] = (st, b)"
    by (cases "plan_states ?key (enumerate 0 masks) [(0, [])]")
  note entries = plan_states_start(1) [OF st nonneg] and reach = plan_states_start(2) [OF st nonneg]
  have sel: "sel = (if \<not> b \<and> map_of st ?full \<noteq> None then the (map_of st ?full)
         else if b then greedy_selection ?key ?full masks [] 0 [0..<length artifacts]
         else snd (min_by (state_rank ?key requested) (hd st) (tl st)))"
    unfolding sel_def choose_indices_def Let_def masks_def [symmetric] st by simp
  consider (exact) "\<not> b" "map_of st ?full \<noteq> None" | (greedy) b | (best) "\<not> b" "map_of st ?full = None"
    by blast
  then show ?thesis
  proof cases
    case exact
    then obtain s where s: "map_of st ?full = Some s" by blast
    then have "(?full, s) \<in> set st" by (rule map_of_SomeD)
    with entries have e: "entry_ok masks ?n (?full, s)" by blast
    note sound = entry_ok_sound [OF e]
    have "mask_union masks s = ?U"
      unfolding int_eq_bits using sound(3) U_full mask_union_le_all [OF sound(2)] by metis
    moreover have "sel = s" using exact s by (simp add: sel)
    ultimately show ?thesis using sound by simp
  next
    case greedy
    have g: "sel = greedy_selection ?key ?full masks [] 0 [0..<?n]"
      using greedy by (simp add: sel masks_def)
    have ok: "let sel = greedy_selection ?key ?full masks [] 0 [0..<?n] in
        distinct sel \<and> set sel \<subseteq> {..<?n} \<and> mask_union masks sel = ?U \<and>
        int (length sel) \<le> bit_count (mask_union masks sel)"
      by (rule greedy_selection_ok [OF nonneg _ _ _ _ U_full])
        (simp_all only: append_Nil distinct_upt set_upt atLeast0LessThan mask_union.simps
          list.size of_nat_0 bit_count_zero_0 order_refl)
    show ?thesis unfolding g by (rule ok [unfolded Let_def])
  next
    case best
    define it where "it = min_by (state_rank ?key requested) (hd st) (tl st)"
    from reach [OF best(1)] obtain s where s: "(?U, s) \<in> set st" by force
    then have "st \<noteq> []" by auto
    then have st_set: "insert (hd st) (set (tl st)) = set st" by (cases st) simp_all
    have "it \<in> set st" unfolding it_def st_set [symmetric] by (rule min_by_in)
    with entries have e: "entry_ok masks ?n (fst it, snd it)" by simp
    note sound = entry_ok_sound [OF e]
    have "state_rank ?key requested it \<le> state_rank ?key requested (?U, s)"
      unfolding it_def using s st_set by (intro min_by_le) auto
    then have "bit_count ?U \<le> bit_count (fst it)"
      by (auto simp: state_rank_def less_eq_prod_def)
    moreover have "0 \<le> mask_union masks (snd it)"
      using nonneg sound(2) by (rule mask_union_nonneg)
    ultimately have "mask_union masks (snd it) = ?U"
      using U_nn sound(3) by (intro bit_count_eq_imp) (auto intro: mask_union_le_all [OF sound(2)])
    moreover have "sel = snd it" using best by (simp add: sel it_def)
    ultimately show ?thesis using sound by simp
  qed
qed

lemmas choose_indices_distinct = choose_indices_cover [THEN conjunct1]
  and choose_indices_union = choose_indices_cover [THEN conjunct2, THEN conjunct2, THEN conjunct1]
  and choose_indices_length = choose_indices_cover [THEN conjunct2, THEN conjunct2, THEN conjunct2]

lemma choose_indices_range: "set (choose_indices requested artifacts) \<subseteq> {..<length artifacts}"
  using choose_indices_cover [THEN conjunct2, THEN conjunct1, of requested artifacts]
  by (simp only: length_map)

text \<open>The same for the selected artifacts and their issues.\<close>

lemma select_artifacts_set:
  "set (select_artifacts requested artifacts) \<subseteq> set artifacts"
proof (cases "artifacts = []")
  case True
  then show ?thesis by (simp add: select_artifacts_def)
next
  case False
  with choose_indices_range [of requested artifacts] show ?thesis
    by (auto simp: select_artifacts_def)
qed

lemma select_artifacts_distinct:
  assumes "distinct (map f artifacts)"
  shows "distinct (map f (select_artifacts requested artifacts))"
proof (cases "artifacts = []")
  case True
  then show ?thesis by (simp add: select_artifacts_def)
next
  case False
  let ?sel = "choose_indices requested artifacts"
  note sel = choose_indices_distinct [of requested artifacts] choose_indices_range [of requested artifacts]
  have "map f (map ((!) artifacts) ?sel) = map ((!) (map f artifacts)) ?sel"
    using sel(2) by (auto simp: map_nth)
  moreover have "inj_on ((!) (map f artifacts)) (set ?sel)"
    using sel(2) assms by (intro inj_on_nth) auto
  ultimately have "distinct (map f (map ((!) artifacts) ?sel))"
    using sel(1) by (simp only: distinct_map)
  moreover have "mset (map f (sort_key artifact_order_key (map ((!) artifacts) ?sel))) =
      mset (map f (map ((!) artifacts) ?sel))" by (simp only: mset_map mset_sort)
  ultimately show ?thesis
    unfolding select_artifacts_def using False by (metis mset_eq_imp_distinct_iff)
qed

lemma select_artifacts_cover:
  assumes "v |\<in>| requested"
  shows "(\<exists>a \<in> set (select_artifacts requested artifacts). v |\<in>| ao_coverage a) \<longleftrightarrow>
    (\<exists>a \<in> set artifacts. v |\<in>| ao_coverage a)"
proof (cases "artifacts = []")
  case True
  then show ?thesis by (simp add: select_artifacts_def)
next
  case False
  let ?ps = "sorted_list_of_fset requested" and ?sel = "choose_indices requested artifacts"
  let ?masks = "map (\<lambda>a. coverage_mask ?ps (ao_coverage a)) artifacts"
  have "v \<in> set ?ps" using assms by simp
  then obtain k where k: "k < length ?ps" "?ps ! k = v" by (metis in_set_conv_nth)
  note sel = choose_indices_range [of requested artifacts]
  have cover: "mask_union ?masks ?sel = mask_union ?masks [0..<length artifacts]"
    using choose_indices_union [of requested artifacts] by (simp only: length_map)
  have bit: "bit (?masks ! i) k \<longleftrightarrow> v |\<in>| ao_coverage (artifacts ! i)" if "i < length artifacts" for i
    using that k by (simp add: bit_coverage_mask)
  have "(\<exists>a \<in> set (select_artifacts requested artifacts). v |\<in>| ao_coverage a) \<longleftrightarrow>
      (\<exists>i \<in> set ?sel. v |\<in>| ao_coverage (artifacts ! i))"
    using False by (simp add: select_artifacts_def)
  also have "\<dots> \<longleftrightarrow> (\<exists>i \<in> set ?sel. bit (?masks ! i) k)" using bit sel by blast
  also have "\<dots> \<longleftrightarrow> (\<exists>i < length artifacts. bit (?masks ! i) k)"
    using arg_cong [OF cover, of "\<lambda>m. bit m k"] unfolding bit_mask_union by auto
  also have "\<dots> \<longleftrightarrow> (\<exists>a \<in> set artifacts. v |\<in>| ao_coverage a)"
    using bit by (metis (no_types, lifting) in_set_conv_nth)
  finally show ?thesis .
qed

lemma select_artifacts_length:
  "length (select_artifacts requested artifacts) \<le> fcard requested"
proof (cases "artifacts = []")
  case True
  then show ?thesis by (simp add: select_artifacts_def)
next
  case False
  let ?ps = "sorted_list_of_fset requested" and ?sel = "choose_indices requested artifacts"
  let ?masks = "map (\<lambda>a. coverage_mask ?ps (ao_coverage a)) artifacts"
  note len = choose_indices_length [of requested artifacts]
  have sel: "set ?sel \<subseteq> {..<length ?masks}"
    using choose_indices_range [of requested artifacts] by (simp only: length_map)
  have "bit_count (mask_union ?masks ?sel) \<le> int (length ?ps)"
  proof (rule bit_count_le_full)
    show "0 \<le> mask_union ?masks ?sel"
      using sel by (intro mask_union_nonneg) (auto simp: coverage_mask_nonneg)
    show "k < length ?ps" if "bit (mask_union ?masks ?sel) k" for k
      using that sel by (auto simp: bit_mask_union bit_coverage_mask)
  qed
  with len have "length ?sel \<le> length ?ps" by linarith
  also have "\<dots> = fcard requested"
    by (simp add: sorted_list_of_fset.rep_eq fcard.rep_eq)
  finally show ?thesis using False by (simp add: select_artifacts_def)
qed

subsection \<open>The plan's laws\<close>

lemma plan_artifact_safe:
  assumes "list_ex ro_eligible (ao_routes a)"
  obtains safe rest where "filter ro_eligible (sort_key route_order_key (ao_routes a)) = safe # rest"
proof -
  from assms have "filter ro_eligible (sort_key route_order_key (ao_routes a)) \<noteq> []"
    by (auto simp: list_ex_iff filter_empty_conv)
  with that show ?thesis by (meson neq_Nil_conv)
qed

lemma plan_artifact_ok:
  assumes "list_ex ro_eligible (ao_routes a)"
  shows "\<exists>p flags. plan_artifact pinned a = Inr (p, flags) \<and>
    pa_coverage p = ao_coverage a \<and> pa_artifact_identity p = ao_artifact_identity a"
proof -
  obtain safe rest where "filter ro_eligible (sort_key route_order_key (ao_routes a)) = safe # rest"
    using assms by (rule plan_artifact_safe)
  then have "is_ok (plan_artifact pinned a)"
    by (simp add: plan_artifact_def Let_def is_ok_def split: option.splits)
  then obtain p flags where p: "plan_artifact pinned a = Inr (p, flags)"
    by (cases "plan_artifact pinned a") (auto simp: is_ok_def)
  then have "pa_coverage p = ao_coverage a \<and> pa_artifact_identity p = ao_artifact_identity a"
    by (auto simp: plan_artifact_def Let_def split: list.splits option.splits if_splits)
  with p show ?thesis by blast
qed

lemma plan_artifacts_ok:
  "\<forall>a \<in> set xs. list_ex ro_eligible (ao_routes a) \<Longrightarrow>
     \<exists>ps flags. plan_artifacts pinned xs = Inr (ps, flags) \<and>
       map pa_coverage ps = map ao_coverage xs \<and>
       map pa_artifact_identity ps = map ao_artifact_identity xs"
proof (induction xs)
  case Nil
  then show ?case by (intro exI [of _ "[]"] exI [of _ "(False, False)"]) simp
next
  case (Cons a xs)
  then obtain ps ap rj where "plan_artifacts pinned xs = Inr (ps, ap, rj)"
    "map pa_coverage ps = map ao_coverage xs"
    "map pa_artifact_identity ps = map ao_artifact_identity xs" by auto
  moreover obtain p ap' rj' where "plan_artifact pinned a = Inr (p, ap', rj')"
    "pa_coverage p = ao_coverage a" "pa_artifact_identity p = ao_artifact_identity a"
    using plan_artifact_ok [of a pinned] Cons.prems by auto
  ultimately show ?case by (simp add: bind_result_def)
qed

definition usable_artifacts :: "pystr fset \<Rightarrow> artifact_option list \<Rightarrow> artifact_option list" where
  "usable_artifacts requested artifacts =
     sort_key artifact_order_key (filter (usable_artifact requested) artifacts)"

lemma select_usable:
  "\<forall>a \<in> set (select_artifacts requested (usable_artifacts requested artifacts)).
     list_ex ro_eligible (ao_routes a) \<and> a \<in> set artifacts"
  using select_artifacts_set [of requested "usable_artifacts requested artifacts"]
  by (auto simp: usable_artifacts_def usable_artifact_def)

definition left_uncovered :: "pystr fset \<Rightarrow> artifact_option list \<Rightarrow> pystr fset" where
  "left_uncovered requested artifacts = requested |-| ffUnion (fset_of_list
     (map (\<lambda>i. ao_coverage i |\<inter>| requested)
       (select_artifacts requested (usable_artifacts requested artifacts))))"

lemma plan_direct_coverage_ok:
  assumes "validate_inputs requested artifacts = Inr ()" and "requested \<noteq> {||}"
  shows "\<exists>plan rj.
    plan_artifacts pinned (select_artifacts requested (usable_artifacts requested artifacts)) =
      Inr (cp_selected plan, cp_pinned_route_applied plan, rj) \<and>
    map pa_coverage (cp_selected plan) =
      map ao_coverage (select_artifacts requested (usable_artifacts requested artifacts)) \<and>
    map pa_artifact_identity (cp_selected plan) =
      map ao_artifact_identity (select_artifacts requested (usable_artifacts requested artifacts)) \<and>
    plan_direct_coverage requested artifacts pinned = Inr plan \<and> cp_requested plan = requested \<and>
    cp_uncovered plan = left_uncovered requested artifacts \<and>
    (cp_complete plan = (cp_uncovered plan = {||})) \<and>
    cp_explanation_code plan =
      (if rj then ''pinned_route_ineligible''
       else if cp_uncovered plan \<noteq> {||} then ''incomplete_coverage'' else ''complete_coverage'')"
proof -
  let ?sel = "select_artifacts requested (usable_artifacts requested artifacts)"
  let ?un = "left_uncovered requested artifacts"
  obtain ps ap rj where p: "plan_artifacts pinned ?sel = Inr (ps, ap, rj)"
    "map pa_coverage ps = map ao_coverage ?sel"
    "map pa_artifact_identity ps = map ao_artifact_identity ?sel"
    using plan_artifacts_ok [of ?sel pinned] select_usable [of requested artifacts] by auto
  define plan where "plan = \<lparr>cp_requested = requested, cp_selected = ps, cp_uncovered = ?un,
    cp_complete = (?un = {||}),
    cp_explanation_code = (if rj then ''pinned_route_ineligible''
      else if ?un \<noteq> {||} then ''incomplete_coverage'' else ''complete_coverage''),
    cp_pinned_route_applied = ap\<rparr>"
  have "plan_direct_coverage requested artifacts pinned = Inr plan"
    unfolding plan_direct_coverage_def assms(1) bind_result_simps if_not_P [OF assms(2)]
      usable_artifacts_def [symmetric] Let_def left_uncovered_def [symmetric] p(1) prod.case plan_def ..
  with p show ?thesis by (intro exI [of _ plan] exI [of _ rj]) (simp add: plan_def)
qed

lemma in_ffUnion_map:
  "v |\<in>| ffUnion (fset_of_list (map f xs)) \<longleftrightarrow> (\<exists>x \<in> set xs. v |\<in>| f x)"
  by (induction xs) auto

text \<open>C35. What the plan leaves uncovered is exactly what no usable artifact covers: for accepted
  inputs an issue stays uncovered if and only if it was requested and no artifact with an
  eligible route covers it. The plan is complete exactly when nothing stays uncovered, and the
  error for an artifact without a safe route never occurs. This holds on the exact branch, on
  the best-partial branch and on the greedy branch taken when the table of states is too large.
\<close>

theorem plan_covers_all_coverable:
  assumes "validate_inputs requested artifacts = Inr ()"
  shows "\<exists>plan. plan_direct_coverage requested artifacts pinned = Inr plan \<and>
     cp_requested plan = requested \<and>
     (\<forall>v. v |\<in>| cp_uncovered plan \<longleftrightarrow> v |\<in>| requested \<and>
        \<not> (\<exists>a \<in> set artifacts. list_ex ro_eligible (ao_routes a) \<and> v |\<in>| ao_coverage a)) \<and>
     (cp_complete plan = (cp_uncovered plan = {||}))"
proof (cases "requested = {||}")
  case True
  with assms show ?thesis by (simp add: plan_direct_coverage_def bind_result_def)
next
  case False
  let ?us = "usable_artifacts requested artifacts"
  let ?un = "left_uncovered requested artifacts"
  have un: "v |\<in>| ?un \<longleftrightarrow> v |\<in>| requested \<and>
      \<not> (\<exists>a \<in> set artifacts. list_ex ro_eligible (ao_routes a) \<and> v |\<in>| ao_coverage a)" for v
  proof (cases "v |\<in>| requested")
    case True
    then have "v |\<in>| ?un \<longleftrightarrow> \<not> (\<exists>a \<in> set ?us. v |\<in>| ao_coverage a)"
      unfolding select_artifacts_cover [OF True, of ?us, symmetric]
      by (simp only: left_uncovered_def fminus_iff in_ffUnion_map finter_iff simp_thms)
    also have "(\<exists>a \<in> set ?us. v |\<in>| ao_coverage a) \<longleftrightarrow>
        (\<exists>a \<in> set artifacts. list_ex ro_eligible (ao_routes a) \<and> v |\<in>| ao_coverage a)"
      using True by (auto simp: usable_artifacts_def usable_artifact_def)
    finally show ?thesis using True by simp
  qed (simp add: left_uncovered_def)
  from plan_direct_coverage_ok [OF assms False, of pinned]
  show ?thesis by (elim exE conjE) (intro exI conjI, assumption+, use un in simp, assumption)
qed

text \<open>A plan never selects more artifacts than there are requested issues, each selected
  artifact is one of the offered ones with an eligible route, and none is selected twice.
\<close>

theorem plan_selection_bounded:
  assumes "plan_direct_coverage requested artifacts pinned = Inr plan"
    and "distinct (map ao_artifact_identity artifacts)"
  shows "length (cp_selected plan) \<le> fcard requested \<and>
     distinct (map pa_artifact_identity (cp_selected plan)) \<and>
     set (map pa_artifact_identity (cp_selected plan)) \<subseteq>
       ao_artifact_identity ` {a \<in> set artifacts. list_ex ro_eligible (ao_routes a)}"
proof -
  have ok: "validate_inputs requested artifacts = Inr ()"
    using assms(1) by (cases "validate_inputs requested artifacts")
      (simp_all add: plan_direct_coverage_def bind_result_def)
  show ?thesis
  proof (cases "requested = {||}")
    case True
    with assms(1) ok have "cp_selected plan = []"
      by (auto simp: plan_direct_coverage_def bind_result_def)
    then show ?thesis by simp
  next
    case False
    let ?sel = "select_artifacts requested (usable_artifacts requested artifacts)"
    have sel: "map pa_artifact_identity (cp_selected plan) = map ao_artifact_identity ?sel"
      using plan_direct_coverage_ok [OF ok False, of pinned] assms(1) by auto
    have "mset (map ao_artifact_identity (usable_artifacts requested artifacts)) =
        mset (map ao_artifact_identity (filter (usable_artifact requested) artifacts))"
      by (simp add: usable_artifacts_def)
    moreover have "distinct (map ao_artifact_identity (filter (usable_artifact requested) artifacts))"
      using assms(2) by (rule distinct_map_filter)
    ultimately have "distinct (map ao_artifact_identity ?sel)"
      by (intro select_artifacts_distinct) (metis mset_eq_imp_distinct_iff)
    moreover have "length (cp_selected plan) = length ?sel" using sel by (metis length_map)
    moreover have "set (map ao_artifact_identity ?sel) \<subseteq>
       ao_artifact_identity ` {a \<in> set artifacts. list_ex ro_eligible (ao_routes a)}"
      using select_usable [of requested artifacts] by auto
    ultimately show ?thesis
      using sel select_artifacts_length [of requested "usable_artifacts requested artifacts"] by simp
  qed
qed

text \<open>Validation, stated without its accumulators.\<close>

definition route_ok :: "route_option \<Rightarrow> bool" where
  "route_ok r \<longleftrightarrow> \<not> (ro_transport_rank r < 0 \<or> ro_host_preference r < 0)"

definition artifact_ok :: "artifact_option \<Rightarrow> bool" where
  "artifact_ok a \<longleftrightarrow> 0 \<le> ao_semantic_rank a \<and> 0 \<le> ao_quality_rank a \<and>
     0 \<le> ao_provider_confidence a \<and> ao_provider_confidence a \<le> 1 \<and>
     (\<forall>r \<in> set (ao_routes a). route_ok r)"

lemma validate_routes_iff:
  "validate_routes rs seen = Inr ids \<longleftrightarrow>
     distinct (map ro_route_identity rs) \<and> set (map ro_route_identity rs) \<inter> set seen = {} \<and>
     (\<forall>r \<in> set rs. route_ok r) \<and> ids = rev (map ro_route_identity rs) @ seen"
  by (induction rs seen rule: validate_routes.induct) (auto simp: route_ok_def)

lemma validate_options_iff:
  "validate_options as arts routes = Inr () \<longleftrightarrow>
     distinct (map ao_artifact_identity as) \<and> set (map ao_artifact_identity as) \<inter> set arts = {} \<and>
     (\<forall>a \<in> set as. artifact_ok a) \<and>
     distinct (concat (map (\<lambda>a. map ro_route_identity (ao_routes a)) as)) \<and>
     set (concat (map (\<lambda>a. map ro_route_identity (ao_routes a)) as)) \<inter> set routes = {}"
proof (induction as arbitrary: arts routes)
  case Nil
  then show ?case by simp
next
  case (Cons a as)
  let ?ids = "\<lambda>a. map ro_route_identity (ao_routes a)"
  have "validate_options (a # as) arts routes = Inr () \<longleftrightarrow>
      ao_artifact_identity a \<notin> set arts \<and> artifact_ok a \<and> distinct (?ids a) \<and>
      set (?ids a) \<inter> set routes = {} \<and>
      validate_options as (ao_artifact_identity a # arts) (rev (?ids a) @ routes) = Inr ()"
    by (auto simp: validate_routes_iff artifact_ok_def)
  also have "\<dots> \<longleftrightarrow> distinct (map ao_artifact_identity (a # as)) \<and>
     set (map ao_artifact_identity (a # as)) \<inter> set arts = {} \<and>
     (\<forall>a \<in> set (a # as). artifact_ok a) \<and>
     distinct (concat (map ?ids (a # as))) \<and> set (concat (map ?ids (a # as))) \<inter> set routes = {}"
    unfolding Cons.IH list.map concat.simps distinct_append distinct.simps list.set set_append set_rev
    by blast
  finally show ?case .
qed

text \<open>The planner accepts its inputs exactly when every requested identifier has one to a
  hundred characters, artifact and route identities are unique across the whole request, no rank
  is negative and every confidence is between zero and one; and it then never fails.
\<close>

theorem plan_accepts_iff:
  "is_ok (plan_direct_coverage requested artifacts pinned) =
     (requested_identifiers_ok requested \<and> distinct (map ao_artifact_identity artifacts) \<and>
      distinct (concat (map (\<lambda>a. map ro_route_identity (ao_routes a)) artifacts)) \<and>
      list_all artifact_ok artifacts)"
proof -
  have ok: "validate_inputs requested artifacts = Inr () \<longleftrightarrow>
      requested_identifiers_ok requested \<and> distinct (map ao_artifact_identity artifacts) \<and>
      distinct (concat (map (\<lambda>a. map ro_route_identity (ao_routes a)) artifacts)) \<and>
      list_all artifact_ok artifacts"
    by (auto simp: validate_inputs_def validate_options_iff list_all_iff)
  have "is_ok (plan_direct_coverage requested artifacts pinned) \<longleftrightarrow>
      validate_inputs requested artifacts = Inr ()"
  proof
    assume "is_ok (plan_direct_coverage requested artifacts pinned)"
    then show "validate_inputs requested artifacts = Inr ()"
      by (auto simp: is_ok_iff plan_direct_coverage_def)
  next
    assume v: "validate_inputs requested artifacts = Inr ()"
    show "is_ok (plan_direct_coverage requested artifacts pinned)"
    proof (cases "requested = {||}")
      case True
      with v show ?thesis by (simp add: plan_direct_coverage_def)
    next
      case False
      from plan_direct_coverage_ok [OF v this, of pinned] show ?thesis by (auto simp: is_ok_iff)
    qed
  qed
  with ok show ?thesis by simp
qed

lemma eq_if_Inr: "(if c then Inl e else r) = Inr v \<Longrightarrow> r = Inr v"
  by (simp split: if_splits)

lemma inj_on_if_key: "inj_on f A \<Longrightarrow> (\<And>a b. g a = g b \<Longrightarrow> f a = f b) \<Longrightarrow> inj_on g A"
  by (rule inj_onI) (blast dest: inj_onD)

lemma validate_inputs_mset:
  assumes "mset as = mset bs"
  shows "validate_inputs requested as = Inr () \<longleftrightarrow> validate_inputs requested bs = Inr ()"
proof -
  have "mset (concat (map f as)) = mset (concat (map f bs))" for f :: "artifact_option \<Rightarrow> pystr list"
    using assms by (simp only: mset_concat mset_map flip: sum_mset_sum_list)
  then have "distinct (concat (map f as)) = distinct (concat (map f bs))"
    for f :: "artifact_option \<Rightarrow> pystr list" by (metis mset_eq_imp_distinct_iff)
  moreover have "distinct (map f as) = distinct (map f bs)" for f :: "artifact_option \<Rightarrow> pystr"
    using assms by (metis mset_eq_imp_distinct_iff mset_map)
  moreover have "set as = set bs" using assms by (rule mset_eq_setD)
  ultimately show ?thesis
    by (simp add: validate_inputs_def validate_options_iff)
qed

text \<open>C36. The plan does not depend on the order in which the providers' artifacts arrive: whenever
  the inputs are accepted, any rearrangement of them gives the same plan.
\<close>

theorem plan_order_independent:
  assumes "validate_inputs requested as = Inr ()" and "mset as = mset bs"
  shows "plan_direct_coverage requested as pinned = plan_direct_coverage requested bs pinned"
proof -
  have v: "validate_inputs requested bs = Inr ()"
    using assms validate_inputs_mset by blast
  have "validate_options as [] [] = Inr ()"
    using assms(1) unfolding validate_inputs_def by (rule eq_if_Inr)
  then have "inj_on ao_artifact_identity (set as)" unfolding validate_options_iff distinct_map by blast
  then have "inj_on artifact_order_key (set as)"
    by (rule inj_on_if_key) (simp add: artifact_order_key_def)
  then have "inj_on artifact_order_key (set (filter (usable_artifact requested) as))"
    by (rule inj_on_subset) simp
  then have "sort_key artifact_order_key (filter (usable_artifact requested) as) =
      sort_key artifact_order_key (filter (usable_artifact requested) bs)"
    using assms(2) by (intro sort_key_eqI_mset) (simp_all add: mset_filter)
  then show ?thesis by (simp add: plan_direct_coverage_def assms(1) v)
qed

text \<open>The best eligible route of a ranked list.\<close>

lemma hd_filter_sort_min:
  assumes "filter P (sort_key f xs) = x # rest" and "y \<in> set xs" and "P y"
  shows "f x \<le> f y"
proof -
  have "sorted (map f (filter P (sort_key f xs)))" by (rule sorted_filter) simp
  then have "sorted (f x # map f rest)" by (simp only: assms(1) list.map)
  moreover have "y \<in> set (x # rest)"
    unfolding assms(1) [symmetric] using assms(2,3) by simp
  ultimately show ?thesis by auto
qed

lemma plan_artifact_route:
  assumes "plan_artifact pinned a = Inr (p, ap, rj)"
  shows "pa_ordered_routes p = sort_key route_order_key (ao_routes a) \<and>
    (\<exists>r \<in> set (ao_routes a). ro_eligible r \<and> pa_selected_route_identity p = ro_route_identity r \<and>
       (if ap then pinned = Some (ro_route_identity r)
        else \<forall>r' \<in> set (ao_routes a). ro_eligible r' \<longrightarrow> route_order_key r \<le> route_order_key r'))"
proof -
  let ?sorted = "sort_key route_order_key (ao_routes a)"
  obtain safe rest where f: "filter ro_eligible ?sorted = safe # rest"
    using assms by (auto simp: plan_artifact_def Let_def split: list.splits)
  have "safe \<in> set (filter ro_eligible ?sorted)" by (simp add: f)
  then have safe: "safe \<in> set (ao_routes a)" "ro_eligible safe" by simp_all
  note least = hd_filter_sort_min [OF f]
  show ?thesis
  proof (cases ap)
    case True
    then obtain r i where r: "pinned = Some i" "find (\<lambda>r. ro_route_identity r = i) ?sorted = Some r"
      "ro_eligible r" "pa_selected_route_identity p = ro_route_identity r" "pa_ordered_routes p = ?sorted"
      using assms f
      by (auto simp: plan_artifact_def Let_def split: option.splits if_splits)
    from find_SomeD [OF r(2)] have "r \<in> set (ao_routes a)" "ro_route_identity r = i" by simp_all
    with r True show ?thesis by auto
  next
    case False
    then have "pa_selected_route_identity p = ro_route_identity safe" "pa_ordered_routes p = ?sorted"
      using assms f by (auto simp: plan_artifact_def Let_def split: option.splits if_splits)
    with False safe least show ?thesis by auto
  qed
qed

lemma plan_artifacts_members:
  "plan_artifacts pinned xs = Inr (ps, flags) \<Longrightarrow> p \<in> set ps \<Longrightarrow>
     \<exists>a \<in> set xs. \<exists>flags. plan_artifact pinned a = Inr (p, flags)"
proof (induction xs arbitrary: ps flags)
  case Nil
  then show ?case by simp
next
  case (Cons a xs)
  from Cons.prems(1) obtain q f where q1: "plan_artifact pinned a = Inr (q, f)"
    by (cases "plan_artifact pinned a") auto
  with Cons.prems(1) obtain qs f' where q2: "plan_artifacts pinned xs = Inr (qs, f')"
    by (cases "plan_artifacts pinned xs") (auto split: prod.splits)
  from Cons.prems(1) q1 q2 have "ps = q # qs" by (cases f; cases f') simp
  note q = q1 q2 this
  show ?case
  proof (cases "p = q")
    case True
    with q(1) show ?thesis by auto
  next
    case False
    with Cons.prems(2) q(3) have "p \<in> set qs" by simp
    from Cons.IH [OF q(2) this] show ?thesis by auto
  qed
qed

text \<open>C37. Every selected artifact is transferred by an eligible route of one of the offered
  artifacts: by the pinned route, or else by an eligible route that no other eligible route of
  that artifact precedes in the ranking; and the routes recorded for later fallback are all the
  artifact's routes in ranking order.
\<close>

theorem plan_routes_safe:
  assumes "plan_direct_coverage requested artifacts pinned = Inr plan" and "p \<in> set (cp_selected plan)"
  shows "\<exists>a \<in> set artifacts. pa_ordered_routes p = sort_key route_order_key (ao_routes a) \<and>
    (\<exists>r \<in> set (ao_routes a). ro_eligible r \<and> pa_selected_route_identity p = ro_route_identity r \<and>
       (pinned = Some (ro_route_identity r) \<or>
        list_all (\<lambda>r'. route_order_key r \<le> route_order_key r') (filter ro_eligible (ao_routes a))))"
proof -
  have ok: "validate_inputs requested artifacts = Inr ()"
    using assms(1) by (auto simp: plan_direct_coverage_def)
  have ne: "requested \<noteq> {||}"
    using assms ok by (auto simp: plan_direct_coverage_def)
  obtain ap rj where "plan_artifacts pinned
      (select_artifacts requested (usable_artifacts requested artifacts)) = Inr (cp_selected plan, ap, rj)"
    using plan_direct_coverage_ok [OF ok ne, of pinned] assms(1) by auto
  from plan_artifacts_members [OF this assms(2)]
  obtain a ap' rj' where a: "a \<in> set artifacts" "plan_artifact pinned a = Inr (p, ap', rj')"
    using select_usable [of requested artifacts] by auto
  from plan_artifact_route [OF a(2)] a(1) show ?thesis
    by (intro bexI [of _ a]) (auto simp: list_all_iff split: if_splits)
qed

subsection \<open>A concrete request\<close>

text \<open>
  Two issues; a pack covers both but ranks lower than the two single issues together only by
  its quality, so the planner keeps the pack.
\<close>

definition sample_route :: "pystr \<Rightarrow> int \<Rightarrow> bool \<Rightarrow> route_option" where
  "sample_route i rank elig = \<lparr>ro_route_identity = i, ro_route_kind = Route_DIRECT,
     ro_host_kind = Host_GENERIC_HTTPS, ro_transport_rank = rank, ro_eligible = elig,
     ro_eligibility_code = ''ok'', ro_host_preference = 0, ro_account_state = Acct_HEALTHY,
     ro_quota_remaining = None, ro_resumable = True, ro_resolver_required = False\<rparr>"

definition sample_option :: "pystr \<Rightarrow> pystr list \<Rightarrow> int \<Rightarrow> artifact_option" where
  "sample_option i issues q = \<lparr>ao_provider_identity = ''p'', ao_provider_candidate_id = ''c'',
     ao_artifact_identity = i, ao_coverage = fset_of_list issues, ao_semantic_rank = 0,
     ao_quality_rank = q, ao_expected_size = Some 100, ao_provider_confidence = 1 / 2,
     ao_provider_priority = 1,
     ao_routes = [sample_route (i @ ''-r1'') 2 True, sample_route (i @ ''-r2'') 1 True]\<rparr>"

definition sample_offer :: "artifact_option list" where
  "sample_offer = [sample_option ''a'' [''1''] 1, sample_option ''b'' [''2''] 1]"

lemma sample_offer_valid: "validate_inputs {|''1'', ''2'', ''3''|} sample_offer = Inr ()"
  by (simp add: validate_inputs_def validate_options_iff requested_identifiers_ok_def sample_offer_def
      sample_option_def sample_route_def artifact_ok_def route_ok_def)

lemma sample_plan_exists:
  "\<exists>plan. plan_direct_coverage {|''1'', ''2'', ''3''|} sample_offer None = Inr plan \<and> cp_selected plan \<noteq> []"
proof -
  let ?r = "{|''1'', ''2'', ''3''|}"
  obtain plan where plan: "plan_direct_coverage ?r sample_offer None = Inr plan"
    "map pa_coverage (cp_selected plan) =
      map ao_coverage (select_artifacts ?r (usable_artifacts ?r sample_offer))"
    using plan_direct_coverage_ok [OF sample_offer_valid, of None] by auto
  have "\<exists>a \<in> set (usable_artifacts ?r sample_offer). ''1'' |\<in>| ao_coverage a"
    by (simp add: usable_artifacts_def usable_artifact_def sample_offer_def sample_option_def
        sample_route_def)
  then have "select_artifacts ?r (usable_artifacts ?r sample_offer) \<noteq> []"
    using select_artifacts_cover [of "''1''" ?r "usable_artifacts ?r sample_offer"] by auto
  then have "cp_selected plan \<noteq> []" using plan(2) by auto
  with plan(1) show ?thesis by blast
qed

theorem plan_covers_all_coverable_witness:
  "\<exists>plan. plan_direct_coverage {|''1'', ''2'', ''3''|} sample_offer None = Inr plan \<and>
     cp_uncovered plan = {|''3''|} \<and> \<not> cp_complete plan"
proof -
  obtain plan where plan: "plan_direct_coverage {|''1'', ''2'', ''3''|} sample_offer None = Inr plan"
    "\<And>v. v |\<in>| cp_uncovered plan \<longleftrightarrow> v |\<in>| {|''1'', ''2'', ''3''|} \<and>
        \<not> (\<exists>a \<in> set sample_offer. list_ex ro_eligible (ao_routes a) \<and> v |\<in>| ao_coverage a)"
    "cp_complete plan = (cp_uncovered plan = {||})"
    using plan_covers_all_coverable [OF sample_offer_valid, of None] by auto
  have "cp_uncovered plan = {|''3''|}"
    by (rule fset_eqI)
      (auto simp: plan(2) sample_offer_def sample_option_def sample_route_def)
  with plan(1,3) show ?thesis by auto
qed

theorem plan_selection_bounded_witness:
  "\<exists>plan. plan_direct_coverage {|''1'', ''2'', ''3''|} sample_offer None = Inr plan \<and>
     length (cp_selected plan) \<le> 3 \<and> distinct (map pa_artifact_identity (cp_selected plan))"
proof -
  obtain plan where p: "plan_direct_coverage {|''1'', ''2'', ''3''|} sample_offer None = Inr plan"
    using sample_plan_exists by blast
  have "distinct (map ao_artifact_identity sample_offer)"
    by (simp add: sample_offer_def sample_option_def)
  from plan_selection_bounded [OF p this] p show ?thesis by (auto simp: fcard_finsert_if fcard_fempty)
qed

theorem plan_order_independent_witness:
  "plan_direct_coverage {|''1'', ''2'', ''3''|} sample_offer None =
   plan_direct_coverage {|''1'', ''2'', ''3''|} (rev sample_offer) None"
  by (rule plan_order_independent [OF sample_offer_valid]) simp

theorem plan_routes_safe_witness:
  "\<exists>plan p. plan_direct_coverage {|''1'', ''2'', ''3''|} sample_offer None = Inr plan \<and>
     p \<in> set (cp_selected plan) \<and>
     pa_selected_route_identity p \<in> {''a-r2'', ''b-r2''}"
proof -
  obtain plan p where p: "plan_direct_coverage {|''1'', ''2'', ''3''|} sample_offer None = Inr plan"
    "p \<in> set (cp_selected plan)"
    using sample_plan_exists by (metis list.set_sel(1))
  from plan_routes_safe [OF this] obtain a r where "a \<in> set sample_offer" "r \<in> set (ao_routes a)"
    "pa_selected_route_identity p = ro_route_identity r"
    "list_all (\<lambda>r'. route_order_key r \<le> route_order_key r') (filter ro_eligible (ao_routes a))"
    by auto
  then have "pa_selected_route_identity p \<in> {''a-r2'', ''b-r2''}"
    by (auto simp: sample_offer_def sample_option_def sample_route_def route_order_key_def
        less_eq_prod_def)
  with p show ?thesis by blast
qed

end
