(* ===== verification/Interfaces.thy ===== *)
theory Interfaces
  imports Json_Value
begin

text \<open>
  The two contracts several components share, as locales: a lifecycle given by a transition
  table with terminal states, and a snapshot that carries a revision number and accepts only
  newer revisions or an exact replay.
\<close>

subsection \<open>Lifecycles\<close>

text \<open>
  \<open>succs\<close> is the transition table and \<open>terminal\<close> the set of terminal states. A request for
  the current state is a no-op, a request the table does not allow is refused and leaves the
  state as it is.
\<close>

locale lifecycle =
  fixes succs :: "'s \<Rightarrow> 's list" and terminal :: "'s \<Rightarrow> bool"
  assumes terminal_stuck: "terminal s \<Longrightarrow> succs s = []"
    and succs_irrefl: "s \<notin> set (succs s)"
begin

definition step :: "'s \<Rightarrow> 's \<Rightarrow> bool" where
  "step s t \<longleftrightarrow> t \<in> set (succs s)"

definition request :: "'s \<Rightarrow> 's \<Rightarrow> 's" where
  "request s t = (if t \<in> set (succs s) then t else s)"

fun requests :: "'s \<Rightarrow> 's list \<Rightarrow> 's" where
  "requests s [] = s"
| "requests s (t # ts) = requests (request s t) ts"

lemma request_same [simp]: "request s s = s"
  by (simp add: request_def)

lemma request_terminal: "terminal s \<Longrightarrow> request s t = s"
  by (simp add: request_def terminal_stuck)

lemma requests_terminal: "terminal s \<Longrightarrow> requests s ts = s"
  by (induction ts) (simp_all add: request_terminal)

lemma requests_append: "requests s (ts @ us) = requests (requests s ts) us"
  by (induction ts arbitrary: s) simp_all

lemma terminal_absorbing:
  assumes "step\<^sup>*\<^sup>* s t" and "terminal s"
  shows "t = s"
  using assms by (cases rule: converse_rtranclpE) (auto simp: step_def terminal_stuck)

lemma requests_reachable: "step\<^sup>*\<^sup>* s (requests s ts)"
proof (induction ts arbitrary: s)
  case Nil
  then show ?case by simp
next
  case (Cons t ts)
  have "step\<^sup>*\<^sup>* s (request s t)"
    by (auto simp: request_def step_def)
  with Cons.IH [of "request s t"] show ?case by simp
qed

text \<open>A set of states every way into a target passes through.\<close>

lemma requests_through:
  assumes "requests s ts = goal" and "s \<noteq> goal"
    and entry: "\<And>u. goal \<in> set (succs u) \<Longrightarrow> u \<in> G"
  shows "\<exists>us vs. ts = us @ goal # vs \<and> requests s us \<in> G"
  using assms(1,2)
proof (induction ts arbitrary: s)
  case Nil
  then show ?case by simp
next
  case (Cons t ts)
  show ?case
  proof (cases "request s t = goal")
    case True
    with Cons.prems have "t = goal" and "goal \<in> set (succs s)"
      by (auto simp: request_def split: if_splits)
    with entry show ?thesis by (intro exI [of _ "[]"] exI [of _ ts]) auto
  next
    case False
    with Cons obtain us vs where "ts = us @ goal # vs" and "requests (request s t) us \<in> G"
      by fastforce
    then show ?thesis by (intro exI [of _ "t # us"] exI [of _ vs]) auto
  qed
qed

end

subsection \<open>Revisioned snapshots\<close>

text \<open>
  \<open>valid\<close> delimits the values a caller can pass (dictionaries with distinct keys), \<open>prep\<close>
  checks and detaches a proposed snapshot (\<open>None\<close>: refused), \<open>inv\<close> is what the stored row
  satisfies, \<open>same\<close> is the comparison made for an equal revision.
\<close>

locale revisioned =
  fixes inv :: "'r \<Rightarrow> bool"
    and valid :: "json \<Rightarrow> bool"
    and rev_of :: "'r \<Rightarrow> int"
    and snap_of :: "'r \<Rightarrow> json"
    and prep :: "int \<Rightarrow> json \<Rightarrow> json option"
    and same :: "json \<Rightarrow> 'r \<Rightarrow> bool"
    and store :: "int \<Rightarrow> json \<Rightarrow> 'r \<Rightarrow> 'r"
    and advance :: "'r \<Rightarrow> int \<Rightarrow> json \<Rightarrow> ('e, bool \<times> 'r) result"
  assumes advance_newer: "inv r \<Longrightarrow> valid s \<Longrightarrow> prep n s = Some t \<Longrightarrow> rev_of r < n \<Longrightarrow>
      advance r n s = Inr (True, store n t r)"
    and advance_equal: "inv r \<Longrightarrow> valid s \<Longrightarrow> prep n s = Some t \<Longrightarrow> n = rev_of r \<Longrightarrow>
      (if same t r then advance r n s = Inr (False, r) else \<exists>e. advance r n s = Inl e)"
    and advance_older: "inv r \<Longrightarrow> valid s \<Longrightarrow> prep n s = Some t \<Longrightarrow> n < rev_of r \<Longrightarrow>
      \<exists>e. advance r n s = Inl e"
    and advance_refused: "inv r \<Longrightarrow> valid s \<Longrightarrow> prep n s = None \<Longrightarrow> \<exists>e. advance r n s = Inl e"
    and rev_store: "rev_of (store n t r) = n"
    and snap_store: "snap_of (store n t r) = t"
    and inv_store: "inv r \<Longrightarrow> valid s \<Longrightarrow> prep n s = Some t \<Longrightarrow> inv (store n t r)"
    and same_stored: "inv r \<Longrightarrow> valid s \<Longrightarrow> prep n s = Some t \<Longrightarrow> same t (store n t r)"
begin

text \<open>A caller that ignores refusals keeps the row as it was.\<close>

definition propose :: "'r \<Rightarrow> int \<times> json \<Rightarrow> 'r" where
  "propose r p = (case advance r (fst p) (snd p) of Inl _ \<Rightarrow> r | Inr (_, r') \<Rightarrow> r')"

definition propose_all :: "'r \<Rightarrow> (int \<times> json) list \<Rightarrow> 'r" where
  "propose_all r ps = foldl propose r ps"

abbreviation all_valid :: "(int \<times> json) list \<Rightarrow> bool" where
  "all_valid ps \<equiv> \<forall>p \<in> set ps. valid (snd p)"

lemma propose_eq:
  "inv r \<Longrightarrow> valid s \<Longrightarrow> propose r (n, s) =
     (case prep n s of None \<Rightarrow> r | Some t \<Rightarrow> if rev_of r < n then store n t r else r)"
  using advance_newer [of r s n] advance_equal [of r s n] advance_older [of r s n]
    advance_refused [of r s n]
  by (cases n "rev_of r" rule: linorder_cases; cases "prep n s")
    (auto simp: propose_def split: if_splits)

lemma inv_propose: "inv r \<Longrightarrow> valid (snd p) \<Longrightarrow> inv (propose r p)"
  by (cases p) (auto simp: propose_eq inv_store split: option.splits)

lemma rev_propose_mono: "inv r \<Longrightarrow> valid (snd p) \<Longrightarrow> rev_of r \<le> rev_of (propose r p)"
  by (cases p) (auto simp: propose_eq rev_store split: option.splits)

text \<open>Repeating an accepted call changes nothing and is reported as no change.\<close>

lemma advance_replay:
  assumes "inv r" and "valid s" and "advance r n s = Inr (True, r')"
  shows "advance r' n s = Inr (False, r')"
proof -
  obtain t where t: "prep n s = Some t"
    using advance_refused [of r s n] assms by (cases "prep n s") auto
  have "rev_of r < n"
    using advance_equal [of r s n t] advance_older [of r s n t] assms t
    by (cases n "rev_of r" rule: linorder_cases) (auto split: if_splits)
  with assms t have r': "r' = store n t r"
    using advance_newer by fastforce
  have "inv r'" and "same t r'" and "n = rev_of r'"
    using assms t by (auto simp: r' inv_store same_stored rev_store)
  with advance_equal [of r' s n t] t assms(2) show ?thesis by simp
qed

lemma propose_all_inv: "inv r \<Longrightarrow> all_valid ps \<Longrightarrow> inv (propose_all r ps)"
  unfolding propose_all_def by (induction ps arbitrary: r) (simp_all add: inv_propose)

text \<open>
  After any sequence of proposals the stored revision is the largest one seen among the
  acceptable proposals and the revision it started with.
\<close>

definition acceptable :: "(int \<times> json) list \<Rightarrow> int set" where
  "acceptable ps = {n. \<exists>s. (n, s) \<in> set ps \<and> prep n s \<noteq> None}"

lemma finite_acceptable [simp]: "finite (acceptable ps)"
  by (rule finite_subset [of _ "fst ` set ps"]) (force simp: acceptable_def)+

lemma acceptable_Cons:
  "acceptable ((n, s) # ps) = (if prep n s = None then acceptable ps else insert n (acceptable ps))"
  by (auto simp: acceptable_def)

lemma propose_all_rev:
  "inv r \<Longrightarrow> all_valid ps \<Longrightarrow> rev_of (propose_all r ps) = Max (insert (rev_of r) (acceptable ps))"
proof (induction ps arbitrary: r)
  case Nil
  then show ?case by (simp add: propose_all_def acceptable_def)
next
  case (Cons p ps)
  obtain n s where p: "p = (n, s)" by (cases p)
  have "rev_of (propose_all r (p # ps)) = rev_of (propose_all (propose r p) ps)"
    by (simp add: propose_all_def)
  also have "\<dots> = Max (insert (rev_of (propose r p)) (acceptable ps))"
    using Cons.prems by (intro Cons.IH inv_propose) simp_all
  also have "\<dots> = Max (insert (rev_of r) (acceptable (p # ps)))"
    using Cons.prems
    by (cases "acceptable ps = {}")
      (auto simp: p propose_eq acceptable_Cons rev_store max_def split: option.splits)
  finally show ?case .
qed

text \<open>
  The stored snapshot is the initial one or a checked copy of a proposal of that revision, so
  when equal revisions always carry equal data the order of delivery does not matter.
\<close>

lemma propose_all_snap:
  "inv r \<Longrightarrow> all_valid ps \<Longrightarrow> let q = propose_all r ps in
     (rev_of q = rev_of r \<and> snap_of q = snap_of r) \<or>
     (\<exists>s. (rev_of q, s) \<in> set ps \<and> prep (rev_of q) s = Some (snap_of q))"
proof (induction ps arbitrary: r)
  case Nil
  then show ?case by (simp add: propose_all_def)
next
  case (Cons p ps)
  obtain n s where p: "p = (n, s)" by (cases p)
  have q: "propose_all r (p # ps) = propose_all (propose r p) ps"
    by (simp add: propose_all_def)
  have "inv (propose r p)" and "all_valid ps"
    using Cons.prems by (simp_all add: inv_propose)
  from Cons.IH [OF this] Cons.prems show ?case
    unfolding q Let_def
    by (auto simp: p propose_eq rev_store snap_store split: option.splits if_splits)
qed

lemma propose_all_delivery_order:
  assumes "inv r" and "all_valid ps" and perm: "mset ps = mset qs"
    and consistent: "\<And>n s t. (n, s) \<in> set ps \<Longrightarrow> (n, t) \<in> set ps \<Longrightarrow> s = t"
    and newer: "\<And>n s. (n, s) \<in> set ps \<Longrightarrow> rev_of r < n"
  shows "rev_of (propose_all r ps) = rev_of (propose_all r qs) \<and>
         snap_of (propose_all r ps) = snap_of (propose_all r qs)"
proof -
  have eq: "set ps = set qs" using perm by (metis set_mset_mset)
  with assms(2) have v: "all_valid qs" by simp
  from eq have "acceptable ps = acceptable qs" by (simp add: acceptable_def)
  then have same_rev: "rev_of (propose_all r ps) = rev_of (propose_all r qs)"
    using assms(1,2) v by (simp add: propose_all_rev)
  moreover have "snap_of (propose_all r ps) = snap_of (propose_all r qs)"
    using propose_all_snap [OF assms(1,2)] propose_all_snap [OF assms(1) v]
      same_rev eq consistent newer
    unfolding Let_def by (metis less_irrefl option.inject)
  ultimately show ?thesis by blast
qed

end

subsection \<open>Taking the best element again and again\<close>

text \<open>
  \<open>pick\<close> returns the position of the element to take next: the first one of least key among the
  acceptable ones, on the lists \<open>inv\<close> describes. Repeated picking is then a stable sort.
\<close>

locale repeated_pick =
  fixes pick :: "'a list \<Rightarrow> nat option" and key :: "'a \<Rightarrow> 'k::linorder"
    and ok :: "'a \<Rightarrow> bool" and inv :: "'a list \<Rightarrow> bool"
  assumes pick_None: "inv xs \<Longrightarrow> pick xs = None \<Longrightarrow> x \<in> set xs \<Longrightarrow> \<not> ok x"
    and pick_Some: "inv xs \<Longrightarrow> pick xs = Some i \<Longrightarrow> i < length xs \<and> ok (xs ! i)"
    and pick_least: "inv xs \<Longrightarrow> pick xs = Some i \<Longrightarrow> j < length xs \<Longrightarrow> ok (xs ! j) \<Longrightarrow>
      key (xs ! i) \<le> key (xs ! j) \<and> (j < i \<longrightarrow> key (xs ! i) < key (xs ! j))"
    and inv_pop: "inv xs \<Longrightarrow> inv (pop_at i xs)"
begin

fun pick_all :: "nat \<Rightarrow> 'a list \<Rightarrow> 'a list" where
  "pick_all 0 xs = []"
| "pick_all (Suc n) xs = (case pick xs of None \<Rightarrow> [] | Some i \<Rightarrow> xs ! i # pick_all n (pop_at i xs))"

lemma sort_pick:
  assumes "inv xs" and "pick xs = Some i"
  shows "sort_key key (filter ok xs) = xs ! i # sort_key key (filter ok (pop_at i xs))"
proof -
  from pick_Some [OF assms] have i: "i < length xs" "ok (xs ! i)" by simp_all
  have "\<forall>a \<in> set (filter ok (take i xs)). key (xs ! i) < key a"
    using pick_least [OF assms] i(1) by (auto simp: in_set_conv_nth)
  moreover have "\<forall>b \<in> set (filter ok (drop (Suc i) xs)). key (xs ! i) \<le> key b"
    using pick_least [OF assms] i(1) by (auto simp: in_set_conv_nth)
  moreover have "filter ok xs = filter ok (take i xs) @ xs ! i # filter ok (drop (Suc i) xs)"
    using i(2) by (subst pop_at_split [OF i(1)]) simp
  ultimately show ?thesis by (simp add: sort_key_first_min pop_at_def)
qed

lemma sort_done: "inv xs \<Longrightarrow> pick xs = None \<Longrightarrow> filter ok xs = []"
  using pick_None by (simp add: filter_empty_conv)

lemma pick_all_sort: "inv xs \<Longrightarrow> pick_all n xs = take n (sort_key key (filter ok xs))"
proof (induction n arbitrary: xs)
  case (Suc n)
  then show ?case by (cases "pick xs") (simp_all add: sort_done sort_pick inv_pop)
qed simp

lemma pick_all_all: "inv xs \<Longrightarrow> length xs \<le> n \<Longrightarrow> pick_all n xs = sort_key key (filter ok xs)"
  using le_trans [OF length_filter_le [of ok xs]] by (simp add: pick_all_sort)

end

subsection \<open>Tables of records that expire\<close>

text \<open>
  A table keeps a record per key; \<open>act\<close> is what an operation at a time answers and does to its
  key's record. A record that has gone stale answers like no record, so that a table whose stale
  records are dropped at arbitrary times cannot be told from one that keeps them all.
\<close>

locale expiring_records =
  fixes act :: "rat \<Rightarrow> 'op \<Rightarrow> 'r option \<Rightarrow> 'out \<times> 'r option" and stale :: "rat \<Rightarrow> 'r \<Rightarrow> bool"
  assumes stale_later: "stale t r \<Longrightarrow> t \<le> t' \<Longrightarrow> stale t' r"
    and stale_answer: "stale t r \<Longrightarrow> fst (act t op (Some r)) = fst (act t op None)"
    and stale_result: "stale t r \<Longrightarrow> snd (act t op (Some r)) = snd (act t op None) \<or>
      (snd (act t op (Some r)) = Some r \<and> snd (act t op None) = None)"
begin

text \<open>\<open>y\<close> is \<open>x\<close>, or a stale \<open>x\<close> has been dropped.\<close>

definition pruned :: "rat \<Rightarrow> 'r option \<Rightarrow> 'r option \<Rightarrow> bool" where
  "pruned t x y \<longleftrightarrow> x = y \<or> (y = None \<and> (case x of None \<Rightarrow> True | Some r \<Rightarrow> stale t r))"

definition pruned_table :: "rat \<Rightarrow> ('k \<Rightarrow> 'r option) \<Rightarrow> ('k \<Rightarrow> 'r option) \<Rightarrow> bool" where
  "pruned_table t m n \<longleftrightarrow> (\<forall>k. pruned t (m k) (n k))"

definition table_step :: "rat \<Rightarrow> 'k \<Rightarrow> 'op \<Rightarrow> ('k \<Rightarrow> 'r option) \<Rightarrow> 'out \<times> ('k \<Rightarrow> 'r option)" where
  "table_step t k op m = (fst (act t op (m k)), m(k := snd (act t op (m k))))"

fun table_run :: "(rat \<times> 'k \<times> 'op) list \<Rightarrow> ('k \<Rightarrow> 'r option) \<Rightarrow> 'out list" where
  "table_run [] m = []"
| "table_run ((t, k, op) # es) m = fst (table_step t k op m) # table_run es (snd (table_step t k op m))"

lemma pruned_refl [simp]: "pruned t x x"
  by (simp add: pruned_def)

lemma pruned_table_refl [simp]: "pruned_table t m m"
  by (simp add: pruned_table_def)

lemma pruned_later: "pruned t x y \<Longrightarrow> t \<le> t' \<Longrightarrow> pruned t' x y"
  by (auto simp: pruned_def intro: stale_later split: option.splits)

lemma pruned_trans: "pruned t x y \<Longrightarrow> pruned t y z \<Longrightarrow> pruned t x z"
  by (auto simp: pruned_def)

lemma pruned_act:
  assumes "pruned t x y"
  shows "fst (act t op x) = fst (act t op y)" and "pruned t (snd (act t op x)) (snd (act t op y))"
proof -
  have "fst (act t op x) = fst (act t op y) \<and> pruned t (snd (act t op x)) (snd (act t op y))"
  proof (cases "x = y")
    case False
    with assms obtain r where "x = Some r" "y = None" "stale t r"
      by (auto simp: pruned_def split: option.splits)
    then show ?thesis using stale_answer stale_result [of t r op] by (auto simp: pruned_def)
  qed simp
  then show "fst (act t op x) = fst (act t op y)" and "pruned t (snd (act t op x)) (snd (act t op y))"
    by simp_all
qed

lemma pruned_table_later: "pruned_table t m n \<Longrightarrow> t \<le> t' \<Longrightarrow> pruned_table t' m n"
  unfolding pruned_table_def using pruned_later by blast

lemma pruned_table_trans: "pruned_table t m n \<Longrightarrow> pruned_table t n u \<Longrightarrow> pruned_table t m u"
  unfolding pruned_table_def using pruned_trans by blast

lemma pruned_table_step:
  assumes "pruned_table t m n"
  shows "fst (table_step t k op m) = fst (table_step t k op n)"
    and "pruned_table t (snd (table_step t k op m)) (snd (table_step t k op n))"
  using assms pruned_act [of t "m k" "n k" op] by (simp_all add: table_step_def pruned_table_def)

end

end
