(* ===== verification/Direct_State.thy ===== *)
theory Direct_State
  imports Direct_Models Interfaces
begin

text \<open>
  The state and progress rules of direct acquisition
  (\<open>src/src/pullbox/services/direct_acquisition_state.py\<close>): the two transition tables, the
  operations that apply one transition to a row, the revisioned progress snapshot, and the
  explicit reopening of a terminal attempt.
\<close>

subsection \<open>Transition tables\<close>

fun ACQUISITION_TRANSITIONS :: "acq_state \<Rightarrow> acq_state list" where
  "ACQUISITION_TRANSITIONS Acq_DISCOVERED =
     [Acq_PLANNED, Acq_INTERVENTION, Acq_CANCELLED, Acq_FAILED]"
| "ACQUISITION_TRANSITIONS Acq_PLANNED =
     [Acq_QUEUED, Acq_RESOLVING, Acq_CANCELLED, Acq_FAILED]"
| "ACQUISITION_TRANSITIONS Acq_QUEUED = [Acq_RESOLVING, Acq_CANCELLED, Acq_FAILED]"
| "ACQUISITION_TRANSITIONS Acq_RESOLVING =
     [Acq_QUEUED, Acq_DOWNLOADING, Acq_RETRY_PENDING, Acq_INTERVENTION, Acq_CANCELLED, Acq_FAILED]"
| "ACQUISITION_TRANSITIONS Acq_DOWNLOADING =
     [Acq_QUEUED, Acq_PAUSED, Acq_VALIDATING, Acq_RETRY_PENDING, Acq_INTERVENTION, Acq_CANCELLED,
      Acq_FAILED]"
| "ACQUISITION_TRANSITIONS Acq_PAUSED = [Acq_DOWNLOADING, Acq_CANCELLED, Acq_FAILED]"
| "ACQUISITION_TRANSITIONS Acq_VALIDATING =
     [Acq_QUEUED, Acq_POST_PROCESSING, Acq_RETRY_PENDING, Acq_INTERVENTION, Acq_CANCELLED,
      Acq_FAILED]"
| "ACQUISITION_TRANSITIONS Acq_POST_PROCESSING = [Acq_COMPLETED, Acq_INTERVENTION, Acq_FAILED]"
| "ACQUISITION_TRANSITIONS Acq_RETRY_PENDING =
     [Acq_QUEUED, Acq_RESOLVING, Acq_CANCELLED, Acq_FAILED]"
| "ACQUISITION_TRANSITIONS Acq_INTERVENTION =
     [Acq_PLANNED, Acq_QUEUED, Acq_RESOLVING, Acq_POST_PROCESSING, Acq_CANCELLED, Acq_FAILED]"
| "ACQUISITION_TRANSITIONS Acq_COMPLETED = []"
| "ACQUISITION_TRANSITIONS Acq_CANCELLED = []"
| "ACQUISITION_TRANSITIONS Acq_FAILED = []"

fun ARTIFACT_TRANSITIONS :: "art_state \<Rightarrow> art_state list" where
  "ARTIFACT_TRANSITIONS Art_PLANNED = [Art_RESOLVING, Art_CANCELLED, Art_FAILED]"
| "ARTIFACT_TRANSITIONS Art_RESOLVING =
     [Art_TRANSFERRING, Art_RETRY_PENDING, Art_INTERVENTION, Art_CANCELLED, Art_FAILED]"
| "ARTIFACT_TRANSITIONS Art_TRANSFERRING =
     [Art_PAUSED, Art_VALIDATING, Art_RETRY_PENDING, Art_INTERVENTION, Art_CANCELLED, Art_FAILED]"
| "ARTIFACT_TRANSITIONS Art_PAUSED = [Art_TRANSFERRING, Art_CANCELLED, Art_FAILED]"
| "ARTIFACT_TRANSITIONS Art_VALIDATING = [Art_COMPLETED, Art_INTERVENTION, Art_FAILED]"
| "ARTIFACT_TRANSITIONS Art_RETRY_PENDING = [Art_RESOLVING, Art_CANCELLED, Art_FAILED]"
| "ARTIFACT_TRANSITIONS Art_INTERVENTION =
     [Art_RESOLVING, Art_VALIDATING, Art_CANCELLED, Art_FAILED]"
| "ARTIFACT_TRANSITIONS Art_COMPLETED = []"
| "ARTIFACT_TRANSITIONS Art_CANCELLED = []"
| "ARTIFACT_TRANSITIONS Art_FAILED = []"

definition ACQUISITION_TERMINAL_STATES :: "acq_state list" where
  "ACQUISITION_TERMINAL_STATES = [Acq_COMPLETED, Acq_CANCELLED, Acq_FAILED]"

definition ARTIFACT_TERMINAL_STATES :: "art_state list" where
  "ARTIFACT_TERMINAL_STATES = [Art_COMPLETED, Art_CANCELLED, Art_FAILED]"

subsection \<open>Operations\<close>

text \<open>\<open>ValidationError\<close>, one constructor per message.\<close>

datatype direct_error =
    InvalidAcquisitionTransition acq_state acq_state
  | InvalidArtifactTransition art_state art_state
  | ProgressRevisionConflict int
  | ProgressRevisionStale int
  | NotTerminal
  | PlanRevisionTooSmall
  | PlanRevisionConflict int
  | PlanRevisionStale int
  | PlanNotJson
  | PlanNotObject

text \<open>
  \<open>now\<close> is the reading of the clock the call makes when no time is passed. The pair is the
  returned flag and the row after the call.
\<close>

definition transition_acquisition ::
  "timestamp \<Rightarrow> timestamp option \<Rightarrow> acquisition_attempt \<Rightarrow> acq_state \<Rightarrow>
     (direct_error, bool \<times> acquisition_attempt) result" where
  "transition_acquisition now at_time attempt new_state =
     (let current = aq_state attempt in
      if current = new_state then Inr (False, attempt)
      else if new_state \<notin> set (ACQUISITION_TRANSITIONS current)
      then Inl (InvalidAcquisitionTransition current new_state)
      else
        (let timestamp = or_else at_time now;
             a1 = attempt\<lparr>aq_state := new_state\<rparr>;
             a2 = (if new_state = Acq_RESOLVING \<and> aq_started_at a1 = None
                   then a1\<lparr>aq_started_at := Some timestamp\<rparr> else a1);
             a3 = (if new_state = Acq_CANCELLED
                   then a2\<lparr>aq_cancelled_at := Some timestamp\<rparr> else a2);
             a4 = (if new_state \<in> set ACQUISITION_TERMINAL_STATES
                   then a3\<lparr>aq_completed_at := Some timestamp\<rparr> else a3)
         in Inr (True, a4)))"

definition transition_artifact ::
  "timestamp \<Rightarrow> timestamp option \<Rightarrow> artifact_attempt \<Rightarrow> art_state \<Rightarrow>
     (direct_error, bool \<times> artifact_attempt) result" where
  "transition_artifact now at_time artifact new_state =
     (let current = ar_state artifact in
      if current = new_state then Inr (False, artifact)
      else if new_state \<notin> set (ARTIFACT_TRANSITIONS current)
      then Inl (InvalidArtifactTransition current new_state)
      else
        (let a1 = artifact\<lparr>ar_state := new_state\<rparr>;
             a2 = (if new_state \<in> set ARTIFACT_TERMINAL_STATES
                   then a1\<lparr>ar_completed_at := Some (or_else at_time now)\<rparr> else a1)
         in Inr (True, a2)))"

definition advance_acquisition_progress ::
  "acquisition_attempt \<Rightarrow> int \<Rightarrow> json \<Rightarrow> (direct_error, bool \<times> acquisition_attempt) result" where
  "advance_acquisition_progress attempt revision snapshot =
     (let current_revision = aq_progress_revision attempt in
      if revision = current_revision then
        (if py_eq snapshot (aq_progress_snapshot attempt) then Inr (False, attempt)
         else Inl (ProgressRevisionConflict revision))
      else if revision < current_revision then Inl (ProgressRevisionStale current_revision)
      else Inr (True, attempt\<lparr>aq_progress_revision := revision, aq_progress_snapshot := snapshot\<rparr>))"

definition reopen_terminal_acquisition_for_retry ::
  "acquisition_attempt \<Rightarrow> artifact_attempt \<Rightarrow>
     (direct_error, acquisition_attempt \<times> artifact_attempt) result" where
  "reopen_terminal_acquisition_for_retry attempt artifact =
     (if aq_state attempt \<notin> {Acq_FAILED, Acq_CANCELLED} \<or>
         ar_state artifact \<notin> {Art_FAILED, Art_CANCELLED}
      then Inl NotTerminal
      else
        (let attempt' = attempt\<lparr>aq_state := Acq_RETRY_PENDING, aq_retry_count := 0,
               aq_next_retry_at := None, aq_completed_at := None, aq_cancelled_at := None\<rparr>;
             artifact' = artifact\<lparr>ar_state := Art_RETRY_PENDING, ar_retry_count := 0,
               ar_next_retry_at := None, ar_completed_at := None\<rparr>
         in bind_result
              (advance_acquisition_progress attempt' (aq_progress_revision attempt' + 1)
                 (JObj [(''schema_version'', JInt 1), (''stage'', JStr ''retry_requested''),
                        (''artifact_attempt_id'', JInt (ar_id artifact'))]))
              (\<lambda>(_, attempt''). Inr (attempt'', artifact'))))"

subsection \<open>The tables as lifecycles\<close>

lemmas terminal_defs = ACQUISITION_TERMINAL_STATES_def ARTIFACT_TERMINAL_STATES_def

interpretation acq: lifecycle ACQUISITION_TRANSITIONS "\<lambda>s. s \<in> set ACQUISITION_TERMINAL_STATES"
proof unfold_locales
  show "s \<in> set ACQUISITION_TERMINAL_STATES \<Longrightarrow> ACQUISITION_TRANSITIONS s = []" for s
    by (auto simp: terminal_defs)
  show "s \<notin> set (ACQUISITION_TRANSITIONS s)" for s
    by (cases s) auto
qed

interpretation art: lifecycle ARTIFACT_TRANSITIONS "\<lambda>s. s \<in> set ARTIFACT_TERMINAL_STATES"
proof unfold_locales
  show "s \<in> set ARTIFACT_TERMINAL_STATES \<Longrightarrow> ARTIFACT_TRANSITIONS s = []" for s
    by (auto simp: terminal_defs)
  show "s \<notin> set (ARTIFACT_TRANSITIONS s)" for s
    by (cases s) auto
qed

text \<open>The operation moves the row exactly as the abstract lifecycle does.\<close>

lemma transition_acquisition_refines:
  "(case transition_acquisition now t a s of Inl _ \<Rightarrow> aq_state a | Inr (_, a') \<Rightarrow> aq_state a') =
     acq.request (aq_state a) s"
  by (auto simp: transition_acquisition_def acq.request_def Let_def)

lemma transition_artifact_refines:
  "(case transition_artifact now t a s of Inl _ \<Rightarrow> ar_state a | Inr (_, a') \<Rightarrow> ar_state a') =
     art.request (ar_state a) s"
  by (auto simp: transition_artifact_def art.request_def Let_def)

lemma transition_acquisition_True:
  assumes "transition_acquisition now t a s = Inr (True, a')"
  shows "s \<in> set (ACQUISITION_TRANSITIONS (aq_state a))"
    and "aq_state a' = s"
    and "aq_started_at a' = (if s = Acq_RESOLVING \<and> aq_started_at a = None
           then Some (or_else t now) else aq_started_at a)"
    and "aq_cancelled_at a' = (if s = Acq_CANCELLED then Some (or_else t now) else aq_cancelled_at a)"
    and "aq_completed_at a' = (if s \<in> set ACQUISITION_TERMINAL_STATES
           then Some (or_else t now) else aq_completed_at a)"
  using assms by (auto simp: transition_acquisition_def Let_def split: if_splits)

lemma transition_acquisition_frame:
  assumes "transition_acquisition now t a s = Inr (b, a')"
  shows "aq_progress_revision a' = aq_progress_revision a"
    and "aq_progress_snapshot a' = aq_progress_snapshot a"
    and "aq_plan_revision a' = aq_plan_revision a"
    and "aq_plan_snapshot a' = aq_plan_snapshot a"
    and "aq_retry_count a' = aq_retry_count a"
    and "aq_max_retries a' = aq_max_retries a"
    and "aq_artifact_attempts a' = aq_artifact_attempts a"
  using assms by (auto simp: transition_acquisition_def Let_def split: if_splits)

lemma advance_progress_True:
  assumes "advance_acquisition_progress a r s = Inr (True, a')"
  shows "aq_progress_revision a < r"
    and "a' = a\<lparr>aq_progress_revision := r, aq_progress_snapshot := s\<rparr>"
  using assms by (auto simp: advance_acquisition_progress_def Let_def split: if_splits)

text \<open>The attempt the reopening leaves behind, and the conditions under which it does.\<close>

lemma reopen_Inr:
  "reopen_terminal_acquisition_for_retry a r = Inr (a', r') \<longleftrightarrow>
     aq_state a \<in> {Acq_FAILED, Acq_CANCELLED} \<and> ar_state r \<in> {Art_FAILED, Art_CANCELLED} \<and>
     a' = a\<lparr>aq_state := Acq_RETRY_PENDING, aq_retry_count := 0, aq_next_retry_at := None,
            aq_completed_at := None, aq_cancelled_at := None,
            aq_progress_revision := aq_progress_revision a + 1,
            aq_progress_snapshot := JObj [(''schema_version'', JInt 1),
              (''stage'', JStr ''retry_requested''), (''artifact_attempt_id'', JInt (ar_id r))]\<rparr> \<and>
     r' = r\<lparr>ar_state := Art_RETRY_PENDING, ar_retry_count := 0, ar_next_retry_at := None,
            ar_completed_at := None\<rparr>"
  by (auto simp: reopen_terminal_acquisition_for_retry_def advance_acquisition_progress_def Let_def)

subsection \<open>Steps of one attempt\<close>

text \<open>Every call of this module that changes an acquisition row.\<close>

inductive acq_op :: "acquisition_attempt \<Rightarrow> acquisition_attempt \<Rightarrow> bool" where
  op_transition: "transition_acquisition now t a s = Inr (True, a') \<Longrightarrow> acq_op a a'"
| op_progress: "advance_acquisition_progress a r snap = Inr (True, a') \<Longrightarrow> acq_op a a'"
| op_reopen: "reopen_terminal_acquisition_for_retry a r = Inr (a', r') \<Longrightarrow> acq_op a a'"

inductive_cases acq_op_cases: "acq_op a a'"

text \<open>
  What a row satisfies between calls: the completion time is set exactly in the terminal
  states, the cancellation time exactly in the cancelled one, and the column checks hold.
\<close>

definition acq_inv :: "acquisition_attempt \<Rightarrow> bool" where
  "acq_inv a \<longleftrightarrow>
     (aq_completed_at a \<noteq> None \<longleftrightarrow> aq_state a \<in> set ACQUISITION_TERMINAL_STATES) \<and>
     (aq_cancelled_at a \<noteq> None \<longleftrightarrow> aq_state a = Acq_CANCELLED) \<and>
     acquisition_checks a"

lemma transition_from_nonterminal:
  assumes "s \<in> set (ACQUISITION_TRANSITIONS u)"
  shows "u \<notin> set ACQUISITION_TERMINAL_STATES"
  using assms acq.terminal_stuck by auto

lemma acq_op_inv: "acq_op a a' \<Longrightarrow> acq_inv a \<Longrightarrow> acq_inv a'"
proof (induction rule: acq_op.induct)
  case (op_transition now t a s a')
  note eqs = transition_acquisition_True [OF op_transition(1)] transition_acquisition_frame [OF op_transition(1)]
  have "aq_state a \<notin> set ACQUISITION_TERMINAL_STATES"
    using transition_from_nonterminal [OF eqs(1)] .
  with op_transition(2) show ?case
    by (auto simp: acq_inv_def eqs acquisition_checks_def terminal_defs)
next
  case (op_progress a r snap a')
  then show ?case
    using advance_progress_True [OF op_progress(1)]
    by (auto simp: acq_inv_def acquisition_checks_def)
next
  case (op_reopen a r a' r')
  then show ?case
    by (auto simp: reopen_Inr acq_inv_def acquisition_checks_def terminal_defs)
qed

lemma acq_op_completed: "acq_op a a' \<Longrightarrow> aq_state a = Acq_COMPLETED \<Longrightarrow> aq_state a' = Acq_COMPLETED"
proof (induction rule: acq_op.induct)
  case (op_transition now t a s a')
  from transition_acquisition_True(1) [OF op_transition(1)] op_transition(2) show ?case by simp
qed (auto simp: reopen_Inr dest: advance_progress_True(2))

lemma acq_op_started: "acq_op a a' \<Longrightarrow> aq_started_at a = Some t \<Longrightarrow> aq_started_at a' = Some t"
proof (induction rule: acq_op.induct)
  case (op_transition now t a s a')
  from transition_acquisition_True(3) [OF op_transition(1)] op_transition(2) show ?case by simp
qed (auto simp: reopen_Inr dest: advance_progress_True(2))

lemma acq_op_revision: "acq_op a a' \<Longrightarrow> aq_progress_revision a \<le> aq_progress_revision a'"
proof (induction rule: acq_op.induct)
  case (op_transition now t a s a')
  from transition_acquisition_frame(1) [OF op_transition(1)] show ?case by simp
next
  case (op_progress a r snap a')
  from advance_progress_True [OF op_progress] show ?case by simp
qed (auto simp: reopen_Inr)

lemma acq_op_completes: "acq_op a a' \<Longrightarrow> aq_state a' = Acq_COMPLETED \<Longrightarrow>
    aq_state a \<in> {Acq_COMPLETED, Acq_POST_PROCESSING}"
proof (induction rule: acq_op.induct)
  case (op_transition now t a s a')
  from transition_acquisition_True(1,2) [OF op_transition(1)] op_transition(2) show ?case
    by (cases "aq_state a") auto
qed (auto simp: reopen_Inr dest: advance_progress_True(2))

subsection \<open>Progress as a revisioned snapshot\<close>

definition progress_same :: "json \<Rightarrow> acquisition_attempt \<Rightarrow> bool" where
  "progress_same s a = py_eq s (aq_progress_snapshot a)"

definition store_progress :: "int \<Rightarrow> json \<Rightarrow> acquisition_attempt \<Rightarrow> acquisition_attempt" where
  "store_progress n s a = a\<lparr>aq_progress_revision := n, aq_progress_snapshot := s\<rparr>"

interpretation progress: revisioned "\<lambda>a. json_wf (aq_progress_snapshot a)" json_wf
  aq_progress_revision aq_progress_snapshot "\<lambda>n s. Some s" progress_same store_progress
  advance_acquisition_progress
  by unfold_locales
    (auto simp: progress_same_def store_progress_def advance_acquisition_progress_def Let_def
      intro: py_eq_refl)

text \<open>Applying a list of snapshots, a refused one leaving the row as it is.\<close>

fun apply_progress :: "acquisition_attempt \<Rightarrow> (int \<times> json) list \<Rightarrow> acquisition_attempt" where
  "apply_progress a [] = a"
| "apply_progress a ((n, s) # ps) =
     apply_progress (case advance_acquisition_progress a n s of Inl _ \<Rightarrow> a | Inr (_, a') \<Rightarrow> a') ps"

lemma apply_progress_eq: "apply_progress a ps = progress.propose_all a ps"
  by (induction a ps rule: apply_progress.induct)
    (simp_all add: progress.propose_all_def progress.propose_def)

subsection \<open>Properties\<close>

text \<open>C17. In every row that the operations of the module produce from a row that satisfies the
  invariant, the completion time is set exactly when the state is terminal, the cancellation
  time exactly when it is cancelled, and the column checks of the table hold.\<close>

theorem acquisition_lifecycle_invariant:
  assumes "acq_op\<^sup>*\<^sup>* a a'" and "acq_inv a"
  shows "acq_inv a'"
  using assms by (induction rule: rtranclp_induct) (auto intro: acq_op_inv)

definition sample_attempt :: acquisition_attempt where
  "sample_attempt = \<lparr>aq_id = 7, aq_request_key = ''k'', aq_issue_id = 3, aq_search_log_id = None,
     aq_provider_config_id = Some 1, aq_provider_identity = ''prov'',
     aq_provider_candidate_id = ''cand'', aq_state = Acq_DISCOVERED,
     aq_requested_coverage = JObj [], aq_candidate_snapshot = JObj [], aq_plan_snapshot = JObj [],
     aq_plan_revision = 0, aq_progress_snapshot = JObj [], aq_progress_revision = 0,
     aq_retry_count = 0, aq_max_retries = 3, aq_next_retry_at = None, aq_failure_class = None,
     aq_failure_code = None, aq_error_message = None, aq_replace_existing_file = False,
     aq_started_at = None, aq_completed_at = None, aq_cancelled_at = None,
     aq_library_file_id = None, aq_artifact_attempts = []\<rparr>"

definition sample_resolving :: acquisition_attempt where
  "sample_resolving = sample_attempt\<lparr>aq_state := Acq_FAILED, aq_started_at := Some 10,
     aq_completed_at := Some 20\<rparr>"

lemma sample_run: "acq_op\<^sup>*\<^sup>* sample_attempt (sample_attempt\<lparr>aq_state := Acq_CANCELLED,
    aq_cancelled_at := Some 5, aq_completed_at := Some 5\<rparr>)"
  by (rule r_into_rtranclp, rule op_transition [where now = 5 and t = None and s = Acq_CANCELLED])
    (simp add: transition_acquisition_def sample_attempt_def terminal_defs)

theorem acquisition_lifecycle_invariant_witness:
  "acq_inv (sample_attempt\<lparr>aq_state := Acq_CANCELLED, aq_cancelled_at := Some 5,
     aq_completed_at := Some 5\<rparr>)"
  by (rule acquisition_lifecycle_invariant [OF sample_run])
    (simp add: acq_inv_def sample_attempt_def terminal_defs acquisition_checks_def)

text \<open>C30. A completed acquisition was in post-processing immediately before, and no operation of
  the module, not even an explicit retry, ever takes it out of the completed state.\<close>

theorem completed_only_after_post_processing:
  assumes "acq_op\<^sup>*\<^sup>* a c" and "aq_state a \<noteq> Acq_COMPLETED" and "aq_state c = Acq_COMPLETED"
  shows "(\<exists>p q. acq_op\<^sup>*\<^sup>* a p \<and> acq_op p q \<and> acq_op\<^sup>*\<^sup>* q c \<and> aq_state p = Acq_POST_PROCESSING \<and>
            aq_state q = Acq_COMPLETED) \<and>
         (\<forall>d. acq_op\<^sup>*\<^sup>* c d \<longrightarrow> aq_state d = Acq_COMPLETED)"
proof
  show "\<exists>p q. acq_op\<^sup>*\<^sup>* a p \<and> acq_op p q \<and> acq_op\<^sup>*\<^sup>* q c \<and> aq_state p = Acq_POST_PROCESSING \<and>
      aq_state q = Acq_COMPLETED"
    using assms
  proof (induction rule: rtranclp_induct)
    case base
    then show ?case by simp
  next
    case (step b c)
    then show ?case
      by (cases "aq_state b = Acq_COMPLETED")
        (blast intro: rtranclp.rtrancl_into_rtrancl, use acq_op_completes [OF step(2)] step in blast)
  qed
  have "aq_state d = Acq_COMPLETED" if "acq_op\<^sup>*\<^sup>* c d" for d
    using that assms(3) by (induction rule: rtranclp_induct) (auto intro: acq_op_completed)
  then show "\<forall>d. acq_op\<^sup>*\<^sup>* c d \<longrightarrow> aq_state d = Acq_COMPLETED" by blast
qed

theorem completed_only_after_post_processing_witness:
  "\<exists>p q. acq_op p q \<and> aq_state p = Acq_POST_PROCESSING \<and> aq_state q = Acq_COMPLETED"
proof -
  let ?a = "sample_attempt\<lparr>aq_state := Acq_POST_PROCESSING\<rparr>"
  let ?c = "sample_attempt\<lparr>aq_state := Acq_COMPLETED, aq_completed_at := Some 9\<rparr>"
  have "acq_op ?a ?c"
    by (rule op_transition [where now = 9 and t = None and s = Acq_COMPLETED])
      (simp add: transition_acquisition_def sample_attempt_def terminal_defs)
  then have "acq_op\<^sup>*\<^sup>* ?a ?c" by blast
  from completed_only_after_post_processing [OF this] show ?thesis by auto
qed

text \<open>C31. Snapshots delivered in any order leave the same stored progress: for new revisions that
  each carry one snapshot, the row ends with the same revision and data whatever the order,
  and that revision is the largest one delivered.\<close>

theorem progress_delivery_order:
  assumes "json_wf (aq_progress_snapshot a)" and "\<forall>p \<in> set ps. json_wf (snd p)"
    and "mset ps = mset qs" and "ps \<noteq> []"
    and "\<forall>(n, s) \<in> set ps. aq_progress_revision a < n \<and> (\<forall>t. (n, t) \<in> set ps \<longrightarrow> t = s)"
  shows "aq_progress_revision (apply_progress a ps) = Max (fst ` set ps) \<and>
         aq_progress_revision (apply_progress a ps) = aq_progress_revision (apply_progress a qs) \<and>
         aq_progress_snapshot (apply_progress a ps) = aq_progress_snapshot (apply_progress a qs)"
proof -
  have "progress.acceptable ps = fst ` set ps"
    by (force simp: progress.acceptable_def)
  with progress.propose_all_rev [OF assms(1,2)]
  have "aq_progress_revision (apply_progress a ps) = Max (insert (aq_progress_revision a) (fst ` set ps))"
    by (simp add: apply_progress_eq)
  also have "\<dots> = Max (fst ` set ps)"
  proof -
    obtain p where "p \<in> set ps" using assms(4) by (cases ps) auto
    with assms(5) have "aq_progress_revision a < fst p" and "fst p \<in> fst ` set ps"
      by (auto simp: case_prod_beta)
    then have "aq_progress_revision a < Max (fst ` set ps)"
      by (meson Max_ge finite_imageI finite_set less_le_trans)
    then show ?thesis using assms(4) by simp
  qed
  finally have top: "aq_progress_revision (apply_progress a ps) = Max (fst ` set ps)" .
  have "\<And>n s t. (n, s) \<in> set ps \<Longrightarrow> (n, t) \<in> set ps \<Longrightarrow> s = t"
    and "\<And>n s. (n, s) \<in> set ps \<Longrightarrow> aq_progress_revision a < n"
    using assms(5) by fastforce+
  from progress.propose_all_delivery_order [OF assms(1,2,3) this] top show ?thesis
    by (simp add: apply_progress_eq)
qed

theorem progress_delivery_order_witness:
  "aq_progress_revision (apply_progress sample_attempt [(2, JNull), (1, JBool True)]) =
   aq_progress_revision (apply_progress sample_attempt [(1, JBool True), (2, JNull)])"
proof -
  have "mset [(2, JNull), (1, JBool True)] = mset [(1 :: int, JBool True), (2, JNull)]" by simp
  from progress_delivery_order [OF _ _ this, of sample_attempt] show ?thesis
    by (simp add: sample_attempt_def)
qed

lemma acq_step_rtrancl: "t \<in> set (ACQUISITION_TRANSITIONS s) \<Longrightarrow> acq.step\<^sup>*\<^sup>* t u \<Longrightarrow> acq.step\<^sup>*\<^sup>* s u"
  by (auto simp: acq.step_def intro: converse_rtranclp_into_rtranclp)

lemma acq_post_processing_completes: "acq.step\<^sup>*\<^sup>* Acq_POST_PROCESSING Acq_COMPLETED"
  by (rule acq_step_rtrancl [of Acq_COMPLETED]) simp_all

lemma acq_intervention_reaches: "acq.step\<^sup>*\<^sup>* Acq_INTERVENTION Acq_COMPLETED"
  by (rule acq_step_rtrancl [OF _ acq_post_processing_completes]) simp

lemma acq_resolving_reaches: "acq.step\<^sup>*\<^sup>* Acq_RESOLVING Acq_COMPLETED"
  by (rule acq_step_rtrancl [OF _ acq_intervention_reaches]) simp

lemma acq_downloading_reaches: "acq.step\<^sup>*\<^sup>* Acq_DOWNLOADING Acq_COMPLETED"
  by (rule acq_step_rtrancl [OF _ acq_intervention_reaches]) simp

lemma acq_reaches_completed:
  "s \<notin> set ACQUISITION_TERMINAL_STATES \<Longrightarrow> acq.step\<^sup>*\<^sup>* s Acq_COMPLETED"
  by (cases s)
    (auto simp: terminal_defs acq_post_processing_completes acq_intervention_reaches
      acq_resolving_reaches acq_downloading_reaches
      intro: acq_step_rtrancl [OF _ acq_intervention_reaches]
        acq_step_rtrancl [OF _ acq_resolving_reaches]
        acq_step_rtrancl [OF _ acq_downloading_reaches])

inductive acq_allowed :: "acq_state \<Rightarrow> acq_state \<Rightarrow> bool" where
  "t \<in> set (ACQUISITION_TRANSITIONS s) \<Longrightarrow> acq_allowed s t"

inductive_simps acq_allowed_simps: "acq_allowed s t"

lemma acq_allowed_step: "acq_allowed = acq.step"
  by (intro ext) (simp add: acq_allowed_simps acq.step_def)

text \<open>No non-terminal acquisition state is a dead end: each of the three terminal states can
  be reached from it along the transition table, and a terminal state allows no transition.\<close>

theorem acquisition_no_dead_end:
  "(if s \<in> set ACQUISITION_TERMINAL_STATES then \<forall>t. acq_allowed\<^sup>*\<^sup>* s t = (t = s)
    else list_all (\<lambda>t. acq_allowed\<^sup>*\<^sup>* s t) ACQUISITION_TERMINAL_STATES)"
proof (cases "s \<in> set ACQUISITION_TERMINAL_STATES")
  case True
  then have "acq_allowed\<^sup>*\<^sup>* s t = (t = s)" for t
    unfolding acq_allowed_step by (auto dest: acq.terminal_absorbing)
  with True show ?thesis by simp
next
  case False
  have "acq.step\<^sup>*\<^sup>* s Acq_FAILED"
    by (rule acq_step_rtrancl [of Acq_FAILED]) (use False in \<open>cases s; simp add: terminal_defs\<close>, simp)
  moreover have "acq.step\<^sup>*\<^sup>* s Acq_CANCELLED"
  proof (cases "s = Acq_POST_PROCESSING")
    case True
    then show ?thesis
      by (auto intro!: acq_step_rtrancl [of Acq_INTERVENTION] acq_step_rtrancl [of Acq_CANCELLED Acq_INTERVENTION])
  next
    case other: False
    show ?thesis
      by (rule acq_step_rtrancl [of Acq_CANCELLED])
        (use False other in \<open>cases s; simp add: terminal_defs\<close>, simp)
  qed
  ultimately show ?thesis
    using False acq_reaches_completed [OF False]
    by (simp add: acq_allowed_step terminal_defs)
qed

text \<open>Reopening succeeds exactly for a failed or cancelled attempt with a failed or cancelled
  artifact: both then wait for a retry with a fresh retry budget and no completion time, the
  progress revision moves on by one, and the plan, the start time and the partial transfer are
  kept.\<close>

theorem reopen_terminal_spec:
  "case reopen_terminal_acquisition_for_retry a r of
     Inl e \<Rightarrow> e = NotTerminal \<and>
       \<not> (aq_state a \<in> {Acq_FAILED, Acq_CANCELLED} \<and> ar_state r \<in> {Art_FAILED, Art_CANCELLED})
   | Inr (a', r') \<Rightarrow>
       aq_state a \<in> {Acq_FAILED, Acq_CANCELLED} \<and> ar_state r \<in> {Art_FAILED, Art_CANCELLED} \<and>
       aq_state a' = Acq_RETRY_PENDING \<and> ar_state r' = Art_RETRY_PENDING \<and>
       aq_retry_count a' = 0 \<and> ar_retry_count r' = 0 \<and>
       aq_next_retry_at a' = None \<and> ar_next_retry_at r' = None \<and>
       aq_completed_at a' = None \<and> aq_cancelled_at a' = None \<and> ar_completed_at r' = None \<and>
       aq_progress_revision a' = aq_progress_revision a + 1 \<and>
       aq_plan_snapshot a' = aq_plan_snapshot a \<and> aq_plan_revision a' = aq_plan_revision a \<and>
       aq_started_at a' = aq_started_at a \<and> ar_bytes_transferred r' = ar_bytes_transferred r \<and>
       ar_quarantine_path r' = ar_quarantine_path r"
  by (auto simp: reopen_terminal_acquisition_for_retry_def advance_acquisition_progress_def Let_def)

end
