(* ===== verification/Direct_Plan.thy ===== *)
theory Direct_Plan
  imports Direct_State
begin

text \<open>
  The durable plan of an acquisition
  (\<open>src/src/pullbox/services/direct_acquisition_plan.py\<close>): validation and serialisation of
  ranked planner output, and the recording of a detached, revisioned copy in the row.
\<close>

record plan_input =
  pi_artifact_identity :: pystr
  pi_content_identity :: pystr
  pi_content_rank :: int
  pi_transport_rank :: int
  pi_route_kind :: route_kind
  pi_host_kind :: host_kind
  pi_eligible :: bool
  pi_eligibility_code :: pystr
  pi_host_preference :: int
  pi_account_state :: account_state
  pi_provider_priority :: int
  pi_quota_remaining :: "int option"
  pi_range_supported :: bool
  pi_resolver_required :: bool
  pi_expected_size :: "int option"
  pi_fallback_identity :: "pystr option"

datatype plan_error =
    InvalidIdentity pystr
  | PlanWithoutArtifacts
  | DuplicateArtifactIdentity
  | SelectedArtifactMissing
  | SelectedArtifactIneligible
  | InvalidEligibilityCode
  | NegativeArtifactField pystr
  | NegativeQuotaRemaining
  | NegativeExpectedSize

subsection \<open>Validation\<close>

text \<open>\<open>[A-Za-z0-9][A-Za-z0-9._:-]{0,499}\<close> and \<open>[a-z][a-z0-9_]{0,99}\<close>, matched in full.\<close>

definition identity_char :: "char \<Rightarrow> bool" where
  "identity_char c \<longleftrightarrow> is_ascii_alnum c \<or> c \<in> set ''._:-''"

fun matches_identity :: "pystr \<Rightarrow> bool" where
  "matches_identity [] = False"
| "matches_identity (c # cs) =
     (is_ascii_alnum c \<and> length cs \<le> 499 \<and> list_all identity_char cs)"

fun matches_reason_code :: "pystr \<Rightarrow> bool" where
  "matches_reason_code [] = False"
| "matches_reason_code (c # cs) =
     (is_ascii_lower c \<and> length cs \<le> 99 \<and>
      list_all (\<lambda>d. is_ascii_lower d \<or> is_ascii_digit d \<or> d = CHR ''_'') cs)"

definition validate_identity :: "pystr \<Rightarrow> pystr \<Rightarrow> (plan_error, unit) result" where
  "validate_identity label v = (if matches_identity v then Inr () else Inl (InvalidIdentity label))"

definition negative_field :: "plan_input \<Rightarrow> pystr option" where
  "negative_field a =
     map_option fst (find (\<lambda>(label, v). v < 0)
       [(''content rank'', pi_content_rank a), (''transport rank'', pi_transport_rank a),
        (''host preference'', pi_host_preference a), (''provider priority'', pi_provider_priority a)])"

definition validate_artifact :: "plan_input \<Rightarrow> (plan_error, unit) result" where
  "validate_artifact a =
     bind_result (validate_identity ''artifact identity'' (pi_artifact_identity a)) (\<lambda>_.
     bind_result (validate_identity ''content identity'' (pi_content_identity a)) (\<lambda>_.
     bind_result (case pi_fallback_identity a of None \<Rightarrow> Inr ()
                  | Some f \<Rightarrow> validate_identity ''fallback identity'' f) (\<lambda>_.
     if \<not> matches_reason_code (pi_eligibility_code a) then Inl InvalidEligibilityCode
     else case negative_field a of
       Some label \<Rightarrow> Inl (NegativeArtifactField label)
     | None \<Rightarrow>
         if (case pi_quota_remaining a of None \<Rightarrow> False | Some q \<Rightarrow> q < 0)
         then Inl NegativeQuotaRemaining
         else if (case pi_expected_size a of None \<Rightarrow> False | Some s \<Rightarrow> s < 0)
         then Inl NegativeExpectedSize
         else Inr ())))"

text \<open>The loop over the artifacts, with the identities seen so far.\<close>

fun validate_artifacts :: "plan_input list \<Rightarrow> pystr list \<Rightarrow> (plan_error, unit) result" where
  "validate_artifacts [] seen = Inr ()"
| "validate_artifacts (a # as) seen =
     bind_result (validate_artifact a) (\<lambda>_.
       if pi_artifact_identity a \<in> set seen then Inl DuplicateArtifactIdentity
       else validate_artifacts as (pi_artifact_identity a # seen))"

subsection \<open>Serialisation\<close>

definition serialize_artifact :: "plan_input \<Rightarrow> json" where
  "serialize_artifact a =
     JObj ([(''artifact_identity'', JStr (pi_artifact_identity a)),
       (''content_identity'', JStr (pi_content_identity a)),
       (''content_rank'', JInt (pi_content_rank a)),
       (''transport_rank'', JInt (pi_transport_rank a)),
       (''route_kind'', JStr (route_kind_value (pi_route_kind a))),
       (''host_kind'', JStr (host_kind_value (pi_host_kind a))),
       (''eligible'', JBool (pi_eligible a)),
       (''eligibility_code'', JStr (pi_eligibility_code a)),
       (''host_preference'', JInt (pi_host_preference a)),
       (''account_state'', JStr (account_state_value (pi_account_state a))),
       (''provider_priority'', JInt (pi_provider_priority a)),
       (''quota_remaining'', json_opt_int (pi_quota_remaining a)),
       (''range_supported'', JBool (pi_range_supported a)),
       (''resolver_required'', JBool (pi_resolver_required a)),
       (''expected_size'', json_opt_int (pi_expected_size a))]
       @ (case pi_fallback_identity a of None \<Rightarrow> []
          | Some f \<Rightarrow> [(''fallback_identity'', JStr f)]))"

definition plan_order_key ::
  "plan_input \<Rightarrow> int \<times> bool \<times> int \<times> int \<times> int \<times> pystr" where
  "plan_order_key a = (pi_content_rank a, \<not> pi_eligible a, pi_host_preference a,
     pi_transport_rank a, pi_provider_priority a, pi_artifact_identity a)"

definition build_plan_snapshot ::
  "pystr \<Rightarrow> pystr \<Rightarrow> pystr \<Rightarrow> provider_state \<Rightarrow> plan_input list \<Rightarrow> (plan_error, json) result" where
  "build_plan_snapshot provider_identity provider_candidate_id selected_artifact_identity
     provider_st artifacts =
     bind_result (validate_identity ''provider identity'' provider_identity) (\<lambda>_.
     bind_result (validate_identity ''provider candidate identity'' provider_candidate_id) (\<lambda>_.
     if artifacts = [] then Inl PlanWithoutArtifacts
     else bind_result (validate_artifacts artifacts []) (\<lambda>_.
       case find (\<lambda>a. pi_artifact_identity a = selected_artifact_identity) artifacts of
         None \<Rightarrow> Inl SelectedArtifactMissing
       | Some selected \<Rightarrow>
           if \<not> pi_eligible selected then Inl SelectedArtifactIneligible
           else Inr (JObj [(''schema_version'', JInt 1),
             (''provider_identity'', JStr provider_identity),
             (''provider_candidate_id'', JStr provider_candidate_id),
             (''provider_state'', JStr (provider_state_value provider_st)),
             (''selected_artifact_identity'', JStr selected_artifact_identity),
             (''artifacts'', JList (map serialize_artifact (sort_key plan_order_key artifacts)))]))))"

subsection \<open>Recording\<close>

definition plan_json_copy :: "json \<Rightarrow> (direct_error, json) result" where
  "plan_json_copy v =
     (case json_roundtrip v of None \<Rightarrow> Inl PlanNotJson
      | Some w \<Rightarrow> if is_obj w then Inr w else Inl PlanNotObject)"

definition stored_plan :: "acquisition_attempt \<Rightarrow> json" where
  "stored_plan a = (if truthy (aq_plan_snapshot a) then aq_plan_snapshot a else JObj [])"

definition record_acquisition_plan ::
  "acquisition_attempt \<Rightarrow> int \<Rightarrow> json \<Rightarrow> (direct_error, bool \<times> acquisition_attempt) result" where
  "record_acquisition_plan attempt revision snapshot =
     (if revision < 1 then Inl PlanRevisionTooSmall
      else bind_result (plan_json_copy snapshot) (\<lambda>proposed.
        let current_revision = aq_plan_revision attempt in
        bind_result (plan_json_copy (stored_plan attempt)) (\<lambda>current.
          if revision = current_revision then
            (if py_eq proposed current then Inr (False, attempt)
             else Inl (PlanRevisionConflict revision))
          else if revision < current_revision then Inl (PlanRevisionStale current_revision)
          else Inr (True, attempt\<lparr>aq_plan_revision := revision, aq_plan_snapshot := proposed\<rparr>))))"

subsection \<open>What validation accepts\<close>

definition plan_input_ok :: "plan_input \<Rightarrow> bool" where
  "plan_input_ok a \<longleftrightarrow>
     matches_identity (pi_artifact_identity a) \<and> matches_identity (pi_content_identity a) \<and>
     (\<forall>f. pi_fallback_identity a = Some f \<longrightarrow> matches_identity f) \<and>
     matches_reason_code (pi_eligibility_code a) \<and>
     0 \<le> pi_content_rank a \<and> 0 \<le> pi_transport_rank a \<and> 0 \<le> pi_host_preference a \<and>
     0 \<le> pi_provider_priority a \<and>
     (\<forall>q. pi_quota_remaining a = Some q \<longrightarrow> 0 \<le> q) \<and>
     (\<forall>s. pi_expected_size a = Some s \<longrightarrow> 0 \<le> s)"

lemma validate_identity_iff [simp]: "validate_identity l v = Inr () \<longleftrightarrow> matches_identity v"
  by (simp add: validate_identity_def)

lemma negative_field_None: "negative_field a = None \<longleftrightarrow>
    0 \<le> pi_content_rank a \<and> 0 \<le> pi_transport_rank a \<and> 0 \<le> pi_host_preference a \<and>
    0 \<le> pi_provider_priority a"
  by (auto simp: negative_field_def)

lemma validate_artifact_iff: "validate_artifact a = Inr () \<longleftrightarrow> plan_input_ok a"
  using negative_field_None [of a]
  by (cases "negative_field a")
    (auto simp: validate_artifact_def plan_input_ok_def not_less split: option.splits)

lemma validate_artifacts_iff:
  "validate_artifacts as seen = Inr () \<longleftrightarrow>
     (\<forall>a \<in> set as. plan_input_ok a) \<and> distinct (map pi_artifact_identity as) \<and>
     pi_artifact_identity ` set as \<inter> set seen = {}"
  by (induction as arbitrary: seen) (auto simp: validate_artifact_iff)

lemma find_by_identity:
  assumes "distinct (map pi_artifact_identity as)"
  shows "find (\<lambda>a. pi_artifact_identity a = i) as = Some a \<longleftrightarrow>
    a \<in> set as \<and> pi_artifact_identity a = i"
  using assms by (induction as) (auto simp: image_iff)

lemma plan_order_key_inj:
  "distinct (map pi_artifact_identity as) \<Longrightarrow> inj_on plan_order_key (set as)"
  by (auto simp: inj_on_def plan_order_key_def distinct_map)

text \<open>The conditions under which a plan is built.\<close>

definition plan_acceptable :: "pystr \<Rightarrow> pystr \<Rightarrow> pystr \<Rightarrow> plan_input list \<Rightarrow> bool" where
  "plan_acceptable provider candidate selected as \<longleftrightarrow>
     matches_identity provider \<and> matches_identity candidate \<and> as \<noteq> [] \<and>
     (\<forall>a \<in> set as. plan_input_ok a) \<and> distinct (map pi_artifact_identity as) \<and>
     (\<exists>a \<in> set as. pi_artifact_identity a = selected \<and> pi_eligible a)"

definition plan_document :: "pystr \<Rightarrow> pystr \<Rightarrow> pystr \<Rightarrow> provider_state \<Rightarrow> plan_input list \<Rightarrow> json" where
  "plan_document provider candidate selected st as =
     JObj [(''schema_version'', JInt 1), (''provider_identity'', JStr provider),
       (''provider_candidate_id'', JStr candidate),
       (''provider_state'', JStr (provider_state_value st)),
       (''selected_artifact_identity'', JStr selected),
       (''artifacts'', JList (map serialize_artifact (sort_key plan_order_key as)))]"

lemma build_plan_snapshot_ok:
  assumes "plan_acceptable p c i as"
  shows "build_plan_snapshot p c i st as = Inr (plan_document p c i st as)"
proof -
  from assms obtain a where "a \<in> set as" "pi_artifact_identity a = i" and e: "pi_eligible a"
    by (auto simp: plan_acceptable_def)
  with assms have "find (\<lambda>a. pi_artifact_identity a = i) as = Some a"
    by (simp add: find_by_identity plan_acceptable_def)
  with assms e show ?thesis
    by (simp add: build_plan_snapshot_def plan_acceptable_def plan_document_def
        validate_artifacts_iff [THEN iffD2])
qed

lemma build_plan_snapshot_Inr:
  assumes "build_plan_snapshot p c i st as = Inr s"
  shows "plan_acceptable p c i as"
proof -
  from assms have v: "validate_artifacts as [] = Inr ()"
    and f: "\<exists>a. find (\<lambda>a. pi_artifact_identity a = i) as = Some a \<and> pi_eligible a"
    and rest: "matches_identity p" "matches_identity c" "as \<noteq> []"
    by (auto simp: build_plan_snapshot_def split: if_splits option.splits)
  from f obtain a where "a \<in> set as" "pi_artifact_identity a = i" "pi_eligible a"
    by (auto simp: find_Some_iff in_set_conv_nth)
  with v rest show ?thesis
    by (auto simp: plan_acceptable_def validate_artifacts_iff)
qed

lemma build_plan_snapshot_iff:
  "build_plan_snapshot p c i st as = Inr s \<longleftrightarrow>
     plan_acceptable p c i as \<and> s = plan_document p c i st as"
  using build_plan_snapshot_Inr [of p c i st as s] build_plan_snapshot_ok [of p c i as st] by auto

lemma plan_acceptable_mset:
  assumes "mset as = mset bs"
  shows "plan_acceptable p c i as = plan_acceptable p c i bs"
proof -
  have "set as = set bs" using assms by (metis set_mset_mset)
  moreover have "distinct (map pi_artifact_identity as) = distinct (map pi_artifact_identity bs)"
    by (rule mset_eq_imp_distinct_iff) (simp add: assms)
  moreover have "as = [] \<longleftrightarrow> bs = []" using assms by (metis mset_zero_iff)
  ultimately show ?thesis by (simp add: plan_acceptable_def)
qed

lemma plan_document_mset:
  "mset as = mset bs \<Longrightarrow> distinct (map pi_artifact_identity as) \<Longrightarrow>
     plan_document p c i st as = plan_document p c i st bs"
  using sort_key_eqI_mset [of as bs plan_order_key] plan_order_key_inj [of as]
  by (simp add: plan_document_def)

subsection \<open>The plan as a revisioned snapshot\<close>

definition plan_prep :: "int \<Rightarrow> json \<Rightarrow> json option" where
  "plan_prep n s = (if n < 1 then None
     else case plan_json_copy s of Inl _ \<Rightarrow> None | Inr t \<Rightarrow> Some t)"

definition plan_same :: "json \<Rightarrow> acquisition_attempt \<Rightarrow> bool" where
  "plan_same t a = (case plan_json_copy (stored_plan a) of Inl _ \<Rightarrow> False | Inr u \<Rightarrow> py_eq t u)"

definition plan_store :: "int \<Rightarrow> json \<Rightarrow> acquisition_attempt \<Rightarrow> acquisition_attempt" where
  "plan_store n t a = a\<lparr>aq_plan_revision := n, aq_plan_snapshot := t\<rparr>"

definition plan_inv :: "acquisition_attempt \<Rightarrow> bool" where
  "plan_inv a \<longleftrightarrow> json_wf (stored_plan a) \<and> is_ok (plan_json_copy (stored_plan a))"

lemma plan_json_copy_Inr:
  "plan_json_copy s = Inr t \<longleftrightarrow> json_roundtrip s = Some t \<and> is_obj t"
  by (auto simp: plan_json_copy_def split: option.splits)

lemma plan_json_copy_idem: "plan_json_copy s = Inr t \<Longrightarrow> plan_json_copy t = Inr t"
  by (auto simp: plan_json_copy_Inr json_roundtrip_idem)

lemma stored_plan_store:
  "is_obj t \<Longrightarrow> stored_plan (plan_store n t a) = t"
  by (cases t) (auto simp: stored_plan_def plan_store_def)

interpretation plan: revisioned plan_inv json_wf aq_plan_revision aq_plan_snapshot plan_prep
  plan_same plan_store record_acquisition_plan
proof unfold_locales
  fix r s n t
  assume inv: "plan_inv r" and wf: "json_wf s" and prep: "plan_prep n s = Some t"
  from inv obtain u where u: "plan_json_copy (stored_plan r) = Inr u"
    by (auto simp: plan_inv_def is_ok_iff)
  from prep have n: "\<not> n < 1" and t: "plan_json_copy s = Inr t"
    by (auto simp: plan_prep_def split: if_splits sum.splits)
  note eqs = record_acquisition_plan_def u t n plan_same_def
  show "aq_plan_revision r < n \<Longrightarrow> record_acquisition_plan r n s = Inr (True, plan_store n t r)"
    by (simp add: eqs plan_store_def)
  show "n = aq_plan_revision r \<Longrightarrow> if plan_same t r then record_acquisition_plan r n s = Inr (False, r)
      else \<exists>e. record_acquisition_plan r n s = Inl e"
    using n by (auto simp: eqs)
  show "n < aq_plan_revision r \<Longrightarrow> \<exists>e. record_acquisition_plan r n s = Inl e"
    by (simp add: eqs)
  have obj: "is_obj t" and wft: "json_wf t"
    using t wf by (auto simp: plan_json_copy_Inr intro: json_roundtrip_wf)
  have copy: "plan_json_copy (stored_plan (plan_store n t r)) = Inr t"
    using plan_json_copy_idem [OF t] by (simp add: stored_plan_store obj)
  show "plan_inv (plan_store n t r)"
    using copy wft by (simp add: plan_inv_def stored_plan_store obj)
  show "plan_same t (plan_store n t r)"
    using wft by (simp add: plan_same_def copy py_eq_refl)
next
  fix r s n
  assume "plan_inv r" and "plan_prep n s = None"
  then show "\<exists>e. record_acquisition_plan r n s = Inl e"
    by (auto simp: plan_prep_def record_acquisition_plan_def split: if_splits sum.splits)
qed (simp_all add: plan_store_def)

subsection \<open>Properties\<close>

text \<open>C38. A plan snapshot is built exactly when both provider identities match the identity
  grammar, there is at least one artifact, every artifact passes its field checks, the artifact
  identities are distinct and the selected one is present and eligible; the document then lists
  the artifacts by the documented rank key, and every permutation of the input gives the same
  document.\<close>

theorem plan_snapshot_accepts:
  "(build_plan_snapshot p c i st as = Inr s) =
     (plan_acceptable p c i as \<and> s = plan_document p c i st as) \<and>
   (mset bs = mset as \<and> is_ok (build_plan_snapshot p c i st as) \<longrightarrow>
     build_plan_snapshot p c i st bs = build_plan_snapshot p c i st as)"
proof
  show "(build_plan_snapshot p c i st as = Inr s) =
     (plan_acceptable p c i as \<and> s = plan_document p c i st as)"
    by (rule build_plan_snapshot_iff)
  show "mset bs = mset as \<and> is_ok (build_plan_snapshot p c i st as) \<longrightarrow>
     build_plan_snapshot p c i st bs = build_plan_snapshot p c i st as"
  proof
    assume a: "mset bs = mset as \<and> is_ok (build_plan_snapshot p c i st as)"
    then have ok: "plan_acceptable p c i as" by (auto simp: is_ok_iff build_plan_snapshot_iff)
    with a have "plan_acceptable p c i bs" by (simp add: plan_acceptable_mset [of bs as])
    with a ok show "build_plan_snapshot p c i st bs = build_plan_snapshot p c i st as"
      by (simp add: build_plan_snapshot_ok plan_document_mset [of bs as] plan_acceptable_def)
  qed
qed

definition sample_input :: "pystr \<Rightarrow> int \<Rightarrow> plan_input" where
  "sample_input i rank = \<lparr>pi_artifact_identity = i, pi_content_identity = ''c1'', pi_content_rank = rank,
     pi_transport_rank = 0, pi_route_kind = Route_DIRECT, pi_host_kind = Host_MEGA,
     pi_eligible = True, pi_eligibility_code = ''ok'', pi_host_preference = 5,
     pi_account_state = Acct_HEALTHY, pi_provider_priority = 1, pi_quota_remaining = None,
     pi_range_supported = True, pi_resolver_required = False, pi_expected_size = Some 10,
     pi_fallback_identity = None\<rparr>"

lemma sample_plan_ok: "plan_acceptable ''p1'' ''k1'' ''b'' [sample_input ''a'' 2, sample_input ''b'' 1]"
  by (simp add: plan_acceptable_def plan_input_ok_def sample_input_def identity_char_def
      char_class_defs)

theorem plan_snapshot_accepts_witness:
  "build_plan_snapshot ''p1'' ''k1'' ''b'' Prov_HEALTHY [sample_input ''b'' 1, sample_input ''a'' 2] =
   build_plan_snapshot ''p1'' ''k1'' ''b'' Prov_HEALTHY [sample_input ''a'' 2, sample_input ''b'' 1]"
proof -
  have "mset [sample_input ''b'' 1, sample_input ''a'' 2] = mset [sample_input ''a'' 2, sample_input ''b'' 1]"
    by simp
  with plan_snapshot_accepts [of "''p1''" "''k1''" "''b''" Prov_HEALTHY
      "[sample_input ''a'' 2, sample_input ''b'' 1]" JNull "[sample_input ''b'' 1, sample_input ''a'' 2]"]
    build_plan_snapshot_ok [OF sample_plan_ok]
  show ?thesis by simp
qed



end
