(* ===== verification/Direct_Fallback.thy ===== *)
theory Direct_Fallback
  imports Direct_Plan
begin

text \<open>
  Replacing a transfer route: the automatic fallback after a route failure
  (\<open>src/src/pullbox/services/direct_acquisition_fallback.py\<close>) and the switch a user asks for
  (\<open>src/src/pullbox/services/direct_acquisition_switch.py\<close>), with the part of the blocklist service
  they call. The artifact attempts of a row are a list; the failed or current attempt is the one
  at an index of it, so that a change of the object is a change of the list. The blocklist is
  the set of blocked route identities. The rows of the download history, which both operations
  also write, are not part of this state.
\<close>

datatype route_error =
    StateError direct_error
  | BadRouteIdentity
  | SwitchNotCancelled
  | SwitchArtifactNotCancelled
  | SwitchRouteUnavailable
  | SwitchSelectionInvalid

definition lift_state :: "(direct_error, 'a) result \<Rightarrow> (route_error, 'a) result" where
  "lift_state r = (case r of Inl e \<Rightarrow> Inl (StateError e) | Inr a \<Rightarrow> Inr a)"

type_synonym blocklist = "pystr set"

subsection \<open>The blocklist\<close>

text \<open>\<open>_direct_artifact_block_key\<close> accepts only identities of this form.\<close>

definition block_key_ok :: "pystr \<Rightarrow> bool" where
  "block_key_ok i \<longleftrightarrow> take 6 i = ''route:'' \<and> length i \<le> 100 \<and>
     list_all (\<lambda>c. is_ascii_lower c \<or> is_ascii_digit c \<or> c = CHR '':'') i"

definition add_direct_artifact_entry :: "pystr \<Rightarrow> blocklist \<Rightarrow> (route_error, blocklist) result" where
  "add_direct_artifact_entry i blocked =
     (if \<not> block_key_ok i then Inl BadRouteIdentity
      else if i \<in> blocked then Inr blocked
      else Inr (insert i blocked))"

definition get_blocked_direct_artifact_routes ::
  "pystr list \<Rightarrow> blocklist \<Rightarrow> (route_error, pystr list) result" where
  "get_blocked_direct_artifact_routes identities blocked =
     (if list_all block_key_ok identities then Inr (filter (\<lambda>i. i \<in> blocked) identities)
      else Inl BadRouteIdentity)"

subsection \<open>Reading the plan\<close>

definition ROUTE_SCOPED_FAILURES :: "failure_class list" where
  "ROUTE_SCOPED_FAILURES = [Fail_TRANSIENT_HOST, Fail_PERMANENT_MIRROR,
     Fail_UNSUPPORTED_ARTIFACT_HOST, Fail_ARTIFACT_HOST_AUTH_REQUIRED,
     Fail_ARTIFACT_HOST_CHALLENGE, Fail_HOST_QUOTA, Fail_RESOLVER, Fail_UNSAFE_ROUTE]"

definition PERSISTENT_ROUTE_FAILURES :: "failure_class list" where
  "PERSISTENT_ROUTE_FAILURES =
     [Fail_PERMANENT_MIRROR, Fail_UNSUPPORTED_ARTIFACT_HOST, Fail_UNSAFE_ROUTE]"

definition supports_route_fallback :: "failure_class \<Rightarrow> bool" where
  "supports_route_fallback f \<longleftrightarrow> f \<in> set ROUTE_SCOPED_FAILURES"

definition json_str :: "json option \<Rightarrow> pystr option" where
  "json_str v = (case v of Some (JStr s) \<Rightarrow> Some s | _ \<Rightarrow> None)"

text \<open>\<open>value if isinstance(value, int) else None\<close>; in Python a Boolean is an integer.\<close>

definition json_int :: "json option \<Rightarrow> int option" where
  "json_int v = (case v of Some (JInt n) \<Rightarrow> Some n | Some (JBool b) \<Rightarrow> Some (of_bool b) | _ \<Rightarrow> None)"

definition route_identity :: "json \<Rightarrow> pystr option" where
  "route_identity r = json_str (json_get r ''artifact_identity'')"

definition snapshot_fallback_identity :: "json \<Rightarrow> pystr option" where
  "snapshot_fallback_identity r =
     (case json_str (json_get r ''fallback_identity'') of
        Some s \<Rightarrow> Some s
      | None \<Rightarrow> json_str (json_get r ''content_identity''))"

definition route_fallback_identity :: "json list \<Rightarrow> pystr \<Rightarrow> pystr option" where
  "route_fallback_identity routes i =
     (case find (\<lambda>r. is_obj r \<and> route_identity r = Some i) routes of
        None \<Rightarrow> None
      | Some r \<Rightarrow> snapshot_fallback_identity r)"

definition route_identities :: "json list \<Rightarrow> pystr list" where
  "route_identities routes = List.map_filter (\<lambda>r. if is_obj r then route_identity r else None) routes"

subsection \<open>Automatic fallback\<close>

text \<open>
  \<open>auto_add\<close> is the configuration value that enables automatic entries; an identity the
  blocklist refuses is skipped silently.
\<close>

definition auto_blocklist_failed_route ::
  "bool \<Rightarrow> artifact_attempt \<Rightarrow> blocklist \<Rightarrow> blocklist" where
  "auto_blocklist_failed_route auto_add failed blocked =
     (case ar_failure_class failed of
        None \<Rightarrow> blocked
      | Some f \<Rightarrow>
          if f \<notin> set PERSISTENT_ROUTE_FAILURES then blocked
          else if \<not> auto_add then blocked
          else (case add_direct_artifact_entry (ar_artifact_identity failed) blocked of
                  Inl _ \<Rightarrow> blocked
                | Inr b \<Rightarrow> b))"

definition fallback_candidate ::
  "pystr list \<Rightarrow> pystr list \<Rightarrow> pystr \<Rightarrow> json \<Rightarrow> bool" where
  "fallback_candidate attempted blocked fallback_identity r \<longleftrightarrow>
     is_obj r \<and> json_get r ''eligible'' = Some (JBool True) \<and>
     snapshot_fallback_identity r = Some fallback_identity \<and>
     (case route_identity r of None \<Rightarrow> False | Some i \<Rightarrow> i \<notin> set attempted \<and> i \<notin> set blocked)"

fun mark_route_failed :: "pystr \<Rightarrow> json list \<Rightarrow> json list" where
  "mark_route_failed i [] = []"
| "mark_route_failed i (r # rs) =
     (if is_obj r \<and> route_identity r = Some i
      then json_put ''eligibility_code'' (JStr ''route_failed'') (json_put ''eligible'' (JBool False) r) # rs
      else r # mark_route_failed i rs)"

definition next_sequence_no :: "acquisition_attempt \<Rightarrow> int" where
  "next_sequence_no a = Max (set (map ar_sequence_no (aq_artifact_attempts a))) + 1"

text \<open>A new artifact row after the flush, with the column defaults and the identifier it gets.\<close>

definition new_artifact ::
  "int \<Rightarrow> int \<Rightarrow> pystr \<Rightarrow> route_kind \<Rightarrow> host_kind \<Rightarrow> int option \<Rightarrow> artifact_attempt" where
  "new_artifact new_id seq i rk hk expected =
     \<lparr>ar_id = new_id, ar_sequence_no = seq, ar_artifact_identity = i, ar_route_kind = rk,
      ar_host_kind = hk, ar_state = Art_PLANNED, ar_is_selected = True, ar_expected_size = expected,
      ar_bytes_transferred = 0, ar_etag = None, ar_last_modified_at = None,
      ar_quarantine_path = None, ar_retry_count = 0, ar_max_retries = 3, ar_next_retry_at = None,
      ar_failure_class = None, ar_failure_code = None, ar_error_message = None,
      ar_completed_at = None\<rparr>"

definition route_failure_entry :: "artifact_attempt \<Rightarrow> failure_class \<Rightarrow> pystr \<Rightarrow> json" where
  "route_failure_entry failed fclass fcode = JObj
     [(''artifact_identity'', JStr (ar_artifact_identity failed)),
      (''failure_class'', JStr (failure_class_value fclass)),
      (''failure_code'', JStr fcode),
      (''host_kind'', JStr (host_kind_value (ar_host_kind failed))),
      (''sequence_no'', JInt (ar_sequence_no failed))]"

definition append_entry :: "pystr \<Rightarrow> json \<Rightarrow> json \<Rightarrow> json" where
  "append_entry key entry snapshot =
     json_put key (JList ((case json_get snapshot key of Some (JList xs) \<Rightarrow> xs | _ \<Rightarrow> []) @ [entry]))
       snapshot"

text \<open>The changes once a route has been chosen.\<close>

definition install_fallback ::
  "timestamp \<Rightarrow> int \<Rightarrow> acquisition_attempt \<Rightarrow> nat \<Rightarrow> json \<Rightarrow> json list \<Rightarrow> pystr \<Rightarrow> route_kind \<Rightarrow>
     host_kind \<Rightarrow> int option \<Rightarrow> failure_class \<Rightarrow> pystr \<Rightarrow>
     (route_error, artifact_attempt \<times> acquisition_attempt) result" where
  "install_fallback at_time new_id attempt k snapshot routes i rk hk expected fclass fcode =
     (let failed0 = aq_artifact_attempts attempt ! k in
      bind_result (lift_state (transition_artifact at_time (Some at_time) failed0 Art_FAILED)) (\<lambda>(_, failed1).
      let failed = failed1\<lparr>ar_is_selected := False, ar_next_retry_at := None\<rparr>;
          fallback = new_artifact new_id (next_sequence_no attempt) i rk hk expected;
          attempt1 = attempt\<lparr>aq_artifact_attempts :=
            (aq_artifact_attempts attempt)[k := failed] @ [fallback]\<rparr>;
          snapshot1 = json_put ''artifacts'' (JList (mark_route_failed (ar_artifact_identity failed) routes))
            snapshot;
          snapshot2 = append_entry ''route_failures'' (route_failure_entry failed fclass fcode) snapshot1;
          snapshot3 = json_put ''selected_artifact_identity'' (JStr i) snapshot2
      in bind_result (lift_state (record_acquisition_plan attempt1 (aq_plan_revision attempt1 + 1) snapshot3))
           (\<lambda>(_, attempt2).
         bind_result (lift_state (transition_acquisition at_time (Some at_time) attempt2 Acq_QUEUED))
           (\<lambda>(_, attempt3).
         let attempt4 = attempt3\<lparr>aq_retry_count := 0, aq_next_retry_at := None,
               aq_failure_class := None, aq_failure_code := None, aq_error_message := None\<rparr>
         in bind_result (lift_state (advance_acquisition_progress attempt4
               (aq_progress_revision attempt4 + 1)
               (JObj [(''schema_version'', JInt 1), (''stage'', JStr ''fallback_queued''),
                 (''artifact_attempt_id'', JInt (ar_id fallback)),
                 (''host_kind'', JStr (host_kind_value (ar_host_kind fallback))),
                 (''previous_artifact_attempt_id'', JInt (ar_id failed)),
                 (''previous_failure_code'', json_opt_str (ar_failure_code failed))])))
           (\<lambda>(_, attempt5). Inr (fallback, attempt5))))))"

text \<open>The checks on the chosen route and the failure before anything is changed.\<close>

definition checked_route ::
  "artifact_attempt \<Rightarrow> json \<Rightarrow> (pystr \<times> host_kind \<times> failure_class \<times> pystr) option" where
  "checked_route failed r =
     (case (route_identity r, json_str (json_get r ''host_kind''),
            json_str (json_get r ''route_kind''), ar_failure_class failed, ar_failure_code failed) of
        (Some i, Some host_value, Some route_value, Some fclass, Some fcode) \<Rightarrow>
          (case (parse_host_kind host_value, parse_route_kind route_value) of
             (Some hk, Some rk) \<Rightarrow> if rk \<noteq> Route_DIRECT then None else Some (i, hk, fclass, fcode)
           | _ \<Rightarrow> None)
      | _ \<Rightarrow> None)"

definition queue_next_artifact_route ::
  "bool \<Rightarrow> timestamp \<Rightarrow> int \<Rightarrow> acquisition_attempt \<Rightarrow> nat \<Rightarrow> blocklist \<Rightarrow>
     (route_error, artifact_attempt option \<times> acquisition_attempt \<times> blocklist) result" where
  "queue_next_artifact_route auto_add at_time new_id attempt k blocklist =
     (let snapshot = stored_plan attempt;
          failed = aq_artifact_attempts attempt ! k
      in case json_get snapshot ''artifacts'' of
        Some (JList routes) \<Rightarrow>
          (let blocklist' = auto_blocklist_failed_route auto_add failed blocklist;
               attempted = map ar_artifact_identity (aq_artifact_attempts attempt);
               unchanged = Inr (None, attempt, blocklist')
           in bind_result (get_blocked_direct_artifact_routes (route_identities routes) blocklist')
             (\<lambda>blocked.
             case route_fallback_identity routes (ar_artifact_identity failed) of
               None \<Rightarrow> unchanged
             | Some fid \<Rightarrow>
               (case find (fallback_candidate attempted blocked fid) routes of
                  None \<Rightarrow> unchanged
                | Some next_route \<Rightarrow>
                  (case checked_route failed next_route of
                     None \<Rightarrow> unchanged
                   | Some (i, hk, fclass, fcode) \<Rightarrow>
                       bind_result (install_fallback at_time new_id attempt k snapshot routes
                         i Route_DIRECT hk (json_int (json_get next_route ''expected_size''))
                         fclass fcode)
                       (\<lambda>(fallback, attempt'). Inr (Some fallback, attempt', blocklist'))))))
      | _ \<Rightarrow> Inr (None, attempt, blocklist))"

subsection \<open>The switch a user asks for\<close>

definition MANUALLY_RESELECTABLE_FAILURES :: "failure_class list" where
  "MANUALLY_RESELECTABLE_FAILURES = [Fail_TRANSIENT_HOST, Fail_ARTIFACT_HOST_AUTH_REQUIRED,
     Fail_ARTIFACT_HOST_CHALLENGE, Fail_HOST_QUOTA, Fail_RESOLVER, Fail_USER_ACTION]"

record switch_option =
  so_artifact_identity :: pystr
  so_host_kind :: host_kind
  so_expected_size :: "int option"

record switch_outcome =
  sw_selected :: artifact_attempt
  sw_previous_host :: host_kind
  sw_current_route_blocklisted :: bool

definition selected_artifact :: "acquisition_attempt \<Rightarrow> (route_error, artifact_attempt) result" where
  "selected_artifact a =
     (case filter ar_is_selected (aq_artifact_attempts a) of
        [s] \<Rightarrow> Inr s
      | _ \<Rightarrow> Inl SwitchSelectionInvalid)"

definition snapshot_routes :: "json \<Rightarrow> json list" where
  "snapshot_routes snapshot =
     (case json_get snapshot ''artifacts'' of Some (JList rs) \<Rightarrow> filter is_obj rs | _ \<Rightarrow> [])"

definition is_manually_reselectable :: "artifact_attempt \<Rightarrow> bool" where
  "is_manually_reselectable a \<longleftrightarrow> ar_state a \<in> {Art_CANCELLED, Art_FAILED, Art_INTERVENTION} \<and>
     (case ar_failure_class a of None \<Rightarrow> False | Some f \<Rightarrow> f \<in> set MANUALLY_RESELECTABLE_FAILURES)"

text \<open>\<open>{artifact.artifact_identity: artifact for artifact in attempts}\<close>: the last one wins.\<close>

definition attempted_artifact :: "acquisition_attempt \<Rightarrow> pystr \<Rightarrow> artifact_attempt option" where
  "attempted_artifact a i = find (\<lambda>x. ar_artifact_identity x = i) (rev (aq_artifact_attempts a))"

definition switch_option_of ::
  "acquisition_attempt \<Rightarrow> pystr list \<Rightarrow> pystr \<Rightarrow> pystr \<Rightarrow> json \<Rightarrow> switch_option option" where
  "switch_option_of a blocked current_identity fallback_identity r =
     (case route_identity r of
        None \<Rightarrow> None
      | Some i \<Rightarrow>
          (let previous = attempted_artifact a i;
               reselectable = (case previous of None \<Rightarrow> False | Some p \<Rightarrow> is_manually_reselectable p)
           in if i = current_identity \<or>
                 (json_get r ''eligible'' \<noteq> Some (JBool True) \<and> \<not> reselectable) \<or>
                 (previous \<noteq> None \<and> \<not> reselectable) \<or> i \<in> set blocked \<or>
                 snapshot_fallback_identity r \<noteq> Some fallback_identity
              then None
              else (case (json_str (json_get r ''route_kind''), json_str (json_get r ''host_kind'')) of
                      (Some rv, Some hv) \<Rightarrow>
                        (case (parse_route_kind rv, parse_host_kind hv) of
                           (Some rk, Some hk) \<Rightarrow>
                             if rk \<noteq> Route_DIRECT then None
                             else Some \<lparr>so_artifact_identity = i, so_host_kind = hk,
                                    so_expected_size = json_int (json_get r ''expected_size'')\<rparr>
                         | _ \<Rightarrow> None)
                    | _ \<Rightarrow> None)))"

definition list_source_switch_options ::
  "acquisition_attempt \<Rightarrow> blocklist \<Rightarrow> (route_error, switch_option list) result" where
  "list_source_switch_options a blocklist =
     bind_result (selected_artifact a) (\<lambda>current.
     let routes = snapshot_routes (stored_plan a) in
     case route_fallback_identity routes (ar_artifact_identity current) of
       None \<Rightarrow> Inr []
     | Some fid \<Rightarrow>
         bind_result (get_blocked_direct_artifact_routes (route_identities routes) blocklist)
           (\<lambda>blocked. Inr (List.map_filter
             (switch_option_of a blocked (ar_artifact_identity current) fid) routes)))"

definition mark_route_switched :: "pystr \<Rightarrow> pystr \<Rightarrow> json \<Rightarrow> json" where
  "mark_route_switched current_identity selected_identity r =
     (if route_identity r = Some current_identity
      then json_put ''eligibility_code'' (JStr ''source_switched'') (json_put ''eligible'' (JBool False) r)
      else if route_identity r = Some selected_identity
      then json_put ''eligibility_code'' (JStr ''eligible'') (json_put ''eligible'' (JBool True) r)
      else r)"

definition find_index_of :: "('a \<Rightarrow> bool) \<Rightarrow> 'a list \<Rightarrow> nat option" where
  "find_index_of P xs = find (\<lambda>j. P (xs ! j)) [0..<length xs]"

text \<open>The row of the replacement, existing or new, is reset to a planned, selected transfer.\<close>

definition reset_replacement :: "int option \<Rightarrow> artifact_attempt \<Rightarrow> artifact_attempt" where
  "reset_replacement expected a = a\<lparr>ar_state := Art_PLANNED, ar_is_selected := True,
     ar_expected_size := expected, ar_bytes_transferred := 0, ar_etag := None,
     ar_last_modified_at := None, ar_quarantine_path := None, ar_retry_count := 0,
     ar_next_retry_at := None, ar_failure_class := None, ar_failure_code := None,
     ar_error_message := None, ar_completed_at := None\<rparr>"

definition switch_away :: "artifact_attempt \<Rightarrow> artifact_attempt" where
  "switch_away c = c\<lparr>ar_is_selected := False, ar_next_retry_at := None,
     ar_failure_class := Some Fail_USER_ACTION, ar_failure_code := Some ''source_switched_by_user'',
     ar_error_message := Some ''Switched to another source by user.''\<rparr>"

definition install_replacement ::
  "int \<Rightarrow> acquisition_attempt \<Rightarrow> nat \<Rightarrow> switch_option \<Rightarrow> artifact_attempt \<times> artifact_attempt list" where
  "install_replacement new_id a k opt =
     (let attempts = (aq_artifact_attempts a)[k := switch_away (aq_artifact_attempts a ! k)] in
      case find_index_of (\<lambda>x. ar_artifact_identity x = so_artifact_identity opt) attempts of
        Some j \<Rightarrow>
          (let r = reset_replacement (so_expected_size opt) (attempts ! j) in (r, attempts[j := r]))
      | None \<Rightarrow>
          (let r = reset_replacement (so_expected_size opt)
                 (new_artifact new_id (next_sequence_no a) (so_artifact_identity opt) Route_DIRECT
                   (so_host_kind opt) None)
           in (r, attempts @ [r])))"

definition route_switch_entry :: "artifact_attempt \<Rightarrow> artifact_attempt \<Rightarrow> bool \<Rightarrow> json" where
  "route_switch_entry c r blocklisted = JObj
     [(''from_artifact_identity'', JStr (ar_artifact_identity c)),
      (''from_host_kind'', JStr (host_kind_value (ar_host_kind c))),
      (''to_artifact_identity'', JStr (ar_artifact_identity r)),
      (''to_host_kind'', JStr (host_kind_value (ar_host_kind r))),
      (''blocklisted'', JBool blocklisted), (''sequence_no'', JInt (ar_sequence_no c))]"

definition apply_switch ::
  "int \<Rightarrow> acquisition_attempt \<Rightarrow> nat \<Rightarrow> switch_option \<Rightarrow> bool \<Rightarrow> int option \<Rightarrow>
     (route_error, switch_outcome \<times> acquisition_attempt) result" where
  "apply_switch new_id a k opt block_current discarded_bytes =
     (let current = aq_artifact_attempts a ! k;
          snapshot = stored_plan a;
          routes = map (mark_route_switched (ar_artifact_identity current) (so_artifact_identity opt))
            (snapshot_routes snapshot);
          (replacement, attempts) = install_replacement new_id a k opt;
          snapshot1 = append_entry ''route_switches''
            (route_switch_entry current replacement block_current) snapshot;
          snapshot2 = json_put ''selected_artifact_identity'' (JStr (ar_artifact_identity replacement)) snapshot1;
          snapshot3 = json_put ''artifacts'' (JList routes) snapshot2;
          a1 = a\<lparr>aq_artifact_attempts := attempts\<rparr>
      in bind_result (lift_state (record_acquisition_plan a1 (aq_plan_revision a1 + 1) snapshot3)) (\<lambda>(_, a2).
         let a3 = a2\<lparr>aq_state := Acq_QUEUED, aq_cancelled_at := None, aq_completed_at := None,
               aq_retry_count := 0, aq_next_retry_at := None, aq_failure_class := None,
               aq_failure_code := None, aq_error_message := None\<rparr>
         in bind_result (lift_state (advance_acquisition_progress a3 (aq_progress_revision a3 + 1)
              (JObj [(''schema_version'', JInt 1), (''stage'', JStr ''source_switch_queued''),
                (''artifact_attempt_id'', JInt (ar_id replacement)),
                (''host_kind'', JStr (host_kind_value (ar_host_kind replacement))),
                (''previous_artifact_attempt_id'', JInt (ar_id current)),
                (''previous_host_kind'', JStr (host_kind_value (ar_host_kind current))),
                (''previous_bytes_discarded'',
                  JInt (max 0 (or_else discarded_bytes (ar_bytes_transferred current))))])))
            (\<lambda>(_, a4). Inr (\<lparr>sw_selected = replacement, sw_previous_host = ar_host_kind current,
               sw_current_route_blocklisted = block_current\<rparr>, a4))))"

definition queue_source_switch ::
  "int \<Rightarrow> acquisition_attempt \<Rightarrow> nat \<Rightarrow> pystr option \<Rightarrow> bool \<Rightarrow> int option \<Rightarrow> blocklist \<Rightarrow>
     (route_error, switch_outcome \<times> acquisition_attempt \<times> blocklist) result" where
  "queue_source_switch new_id a k target block_current discarded_bytes blocklist =
     (let current = aq_artifact_attempts a ! k in
      if aq_state a \<noteq> Acq_CANCELLED then Inl SwitchNotCancelled
      else if ar_state current \<noteq> Art_CANCELLED \<or> \<not> ar_is_selected current
      then Inl SwitchArtifactNotCancelled
      else bind_result (list_source_switch_options a blocklist) (\<lambda>options.
        let selected_option = (case target of
              None \<Rightarrow> (case options of [] \<Rightarrow> None | opt # _ \<Rightarrow> Some opt)
            | Some t \<Rightarrow> find (\<lambda>opt. so_artifact_identity opt = t) options)
        in case selected_option of
             None \<Rightarrow> Inl SwitchRouteUnavailable
           | Some opt \<Rightarrow>
               bind_result (if block_current
                            then add_direct_artifact_entry (ar_artifact_identity current) blocklist
                            else Inr blocklist) (\<lambda>blocklist'.
               bind_result (apply_switch new_id a k opt block_current discarded_bytes)
                 (\<lambda>(outcome, a'). Inr (outcome, a', blocklist')))))"

subsection \<open>What the calls change\<close>

lemma lift_state_Inr [simp]: "lift_state r = Inr x \<longleftrightarrow> r = Inr x"
  by (cases r) (simp_all add: lift_state_def)

lemma record_plan_effect:
  assumes "record_acquisition_plan a n s = Inr (b, a')" and "n = aq_plan_revision a + 1"
  obtains t where "json_roundtrip s = Some t" "is_obj t"
    "a' = a\<lparr>aq_plan_revision := n, aq_plan_snapshot := t\<rparr>"
  using assms
  by (auto simp: record_acquisition_plan_def Let_def plan_json_copy_Inr split: if_splits)

lemma transition_acquisition_effect:
  assumes "transition_acquisition now t a s = Inr (b, a')"
  shows "aq_state a' = s" "aq_artifact_attempts a' = aq_artifact_attempts a"
    "aq_plan_revision a' = aq_plan_revision a" "aq_plan_snapshot a' = aq_plan_snapshot a"
    "aq_progress_revision a' = aq_progress_revision a"
  using assms by (auto simp: transition_acquisition_def Let_def split: if_splits)

lemma transition_artifact_effect:
  assumes "transition_artifact now t x s = Inr (b, x')"
  shows "ar_state x' = s" "ar_artifact_identity x' = ar_artifact_identity x"
    "ar_sequence_no x' = ar_sequence_no x"
  using assms by (auto simp: transition_artifact_def Let_def split: if_splits)

lemma advance_progress_next:
  "advance_acquisition_progress a (aq_progress_revision a + 1) s =
     Inr (True, a\<lparr>aq_progress_revision := aq_progress_revision a + 1, aq_progress_snapshot := s\<rparr>)"
  by (simp add: advance_acquisition_progress_def)

text \<open>The plan document a fallback records.\<close>

definition fallback_document ::
  "json \<Rightarrow> json list \<Rightarrow> artifact_attempt \<Rightarrow> pystr \<Rightarrow> failure_class \<Rightarrow> pystr \<Rightarrow> json" where
  "fallback_document snapshot routes failed i fclass fcode =
     json_put ''selected_artifact_identity'' (JStr i)
       (append_entry ''route_failures'' (route_failure_entry failed fclass fcode)
         (json_put ''artifacts'' (JList (mark_route_failed (ar_artifact_identity failed) routes)) snapshot))"

lemma install_fallback_effect:
  assumes "install_fallback at_time new_id a k snapshot routes i rk hk expected fclass fcode = Inr (f, a')"
  obtains failed t where
    "f = new_artifact new_id (next_sequence_no a) i rk hk expected"
    "ar_state failed = Art_FAILED" "\<not> ar_is_selected failed"
    "ar_artifact_identity failed = ar_artifact_identity (aq_artifact_attempts a ! k)"
    "ar_sequence_no failed = ar_sequence_no (aq_artifact_attempts a ! k)"
    "aq_artifact_attempts a' = (aq_artifact_attempts a)[k := failed] @ [f]"
    "aq_state a' = Acq_QUEUED" "aq_plan_revision a' = aq_plan_revision a + 1"
    "aq_progress_revision a' = aq_progress_revision a + 1" "aq_retry_count a' = 0"
    "json_roundtrip (fallback_document snapshot routes failed i fclass fcode) = Some t" "is_obj t"
    "aq_plan_snapshot a' = t"
proof -
  obtain b1 failed1 where t1: "transition_artifact at_time (Some at_time) (aq_artifact_attempts a ! k)
      Art_FAILED = Inr (b1, failed1)"
    using assms by (auto simp: install_fallback_def Let_def)
  define failed where "failed = failed1\<lparr>ar_is_selected := False, ar_next_retry_at := None\<rparr>"
  define f0 where "f0 = new_artifact new_id (next_sequence_no a) i rk hk expected"
  define a1 where "a1 = a\<lparr>aq_artifact_attempts := (aq_artifact_attempts a)[k := failed] @ [f0]\<rparr>"
  note defs = failed_def f0_def a1_def fallback_document_def
  obtain b2 a2 where t2: "record_acquisition_plan a1 (aq_plan_revision a1 + 1)
      (fallback_document snapshot routes failed i fclass fcode) = Inr (b2, a2)"
    using assms t1 by (auto simp: install_fallback_def Let_def defs)
  obtain b3 a3 where t3: "transition_acquisition at_time (Some at_time) a2 Acq_QUEUED = Inr (b3, a3)"
    using assms t1 t2 by (auto simp: install_fallback_def Let_def defs)
  obtain t where t: "json_roundtrip (fallback_document snapshot routes failed i fclass fcode) = Some t"
    "is_obj t" "a2 = a1\<lparr>aq_plan_revision := aq_plan_revision a1 + 1, aq_plan_snapshot := t\<rparr>"
    using t2 by (rule record_plan_effect) simp
  have a': "f = f0 \<and> aq_artifact_attempts a' = aq_artifact_attempts a3 \<and> aq_state a' = aq_state a3 \<and>
      aq_plan_revision a' = aq_plan_revision a3 \<and> aq_plan_snapshot a' = aq_plan_snapshot a3 \<and>
      aq_progress_revision a' = aq_progress_revision a3 + 1 \<and> aq_retry_count a' = 0"
    using assms t1 t2 t3
    by (auto simp: install_fallback_def Let_def defs advance_acquisition_progress_def)
  note e1 = transition_artifact_effect [OF t1] and e3 = transition_acquisition_effect [OF t3]
  show thesis
    by (rule that [of failed t]) (use a' e1 e3 t in \<open>simp_all add: failed_def f0_def a1_def\<close>)
qed

lemma queue_next_cases:
  assumes "queue_next_artifact_route auto_add at_time new_id a k bl = Inr (Some f, a', bl')"
  obtains routes fid r i hk fclass fcode where
    "json_get (stored_plan a) ''artifacts'' = Some (JList routes)"
    "bl' = auto_blocklist_failed_route auto_add (aq_artifact_attempts a ! k) bl"
    "list_all block_key_ok (route_identities routes)"
    "route_fallback_identity routes (ar_artifact_identity (aq_artifact_attempts a ! k)) = Some fid"
    "find (fallback_candidate (map ar_artifact_identity (aq_artifact_attempts a))
       (filter (\<lambda>i. i \<in> bl') (route_identities routes)) fid) routes = Some r"
    "route_identity r = Some i"
    "install_fallback at_time new_id a k (stored_plan a) routes i Route_DIRECT hk
       (json_int (json_get r ''expected_size'')) fclass fcode = Inr (f, a')"
proof -
  let ?failed = "aq_artifact_attempts a ! k"
  define b where "b = auto_blocklist_failed_route auto_add ?failed bl"
  note q = assms [unfolded queue_next_artifact_route_def Let_def]
  obtain routes where routes: "json_get (stored_plan a) ''artifacts'' = Some (JList routes)"
    using q by (auto split: option.splits json.splits)
  note q = q [unfolded routes option.case json.case]
  let ?blocked = "filter (\<lambda>i. i \<in> b) (route_identities routes)"
  have ok: "list_all block_key_ok (route_identities routes)"
    using q by (auto simp: get_blocked_direct_artifact_routes_def split: if_splits)
  then have "get_blocked_direct_artifact_routes (route_identities routes) b = Inr ?blocked"
    by (simp add: get_blocked_direct_artifact_routes_def)
  note q = q [folded b_def, unfolded this bind_result_simps]
  obtain fid where fid: "route_fallback_identity routes (ar_artifact_identity ?failed) = Some fid"
    using q by (auto split: option.splits)
  note q = q [unfolded fid option.case]
  obtain r where r: "find (fallback_candidate (map ar_artifact_identity (aq_artifact_attempts a))
       ?blocked fid) routes = Some r"
    using q by (auto split: option.splits)
  note q = q [unfolded r option.case]
  obtain i hk fclass fcode where c: "checked_route ?failed r = Some (i, hk, fclass, fcode)"
    using q by (auto split: option.splits)
  note q = q [unfolded c option.case prod.case]
  have "route_identity r = Some i"
    using c by (auto simp: checked_route_def split: option.splits if_splits)
  moreover have "bl' = b" and "install_fallback at_time new_id a k (stored_plan a) routes i Route_DIRECT hk
       (json_int (json_get r ''expected_size'')) fclass fcode = Inr (f, a')"
    using q by auto
  ultimately show thesis using that [OF routes _ ok fid _ _] r b_def by blast
qed

subsection \<open>One selected transfer\<close>

text \<open>The attempt at index \<open>k\<close> is the only selected one and the rows are unique.\<close>

definition one_selected :: "acquisition_attempt \<Rightarrow> nat \<Rightarrow> bool" where
  "one_selected a k \<longleftrightarrow> k < length (aq_artifact_attempts a) \<and> artifacts_unique a \<and>
     (\<forall>j < length (aq_artifact_attempts a). ar_is_selected (aq_artifact_attempts a ! j) = (j = k))"

lemma map_update_same: "f x = f (xs ! k) \<Longrightarrow> map f (xs[k := x]) = map f xs"
  by (simp add: map_update) (metis list_update_id list_update_beyond map_update not_le)

lemma next_sequence_no_gt: "x \<in> set (aq_artifact_attempts a) \<Longrightarrow> ar_sequence_no x < next_sequence_no a"
  by (simp add: next_sequence_no_def le_imp_0_less add1_zle_eq [symmetric] zle_add1_eq_le)

lemma one_selected_append:
  assumes "one_selected a k" and "aq_artifact_attempts b = (aq_artifact_attempts a)[k := x] @ [f]"
    and "\<not> ar_is_selected x" "ar_is_selected f"
    and "ar_artifact_identity x = ar_artifact_identity (aq_artifact_attempts a ! k)"
    and "ar_sequence_no x = ar_sequence_no (aq_artifact_attempts a ! k)"
    and "ar_artifact_identity f \<notin> ar_artifact_identity ` set (aq_artifact_attempts a)"
    and "ar_sequence_no f = next_sequence_no a"
  shows "one_selected b (length (aq_artifact_attempts a))"
proof -
  let ?as = "aq_artifact_attempts a"
  have maps: "map ar_artifact_identity (?as[k := x]) = map ar_artifact_identity ?as"
    "map ar_sequence_no (?as[k := x]) = map ar_sequence_no ?as"
    using assms(5,6) by (simp_all only: map_update_same)
  have "ar_sequence_no f \<notin> ar_sequence_no ` set ?as"
    using next_sequence_no_gt [of _ a] assms(8) by force
  then have "artifacts_unique b"
    using assms(1,7) unfolding artifacts_unique_def assms(2) map_append maps one_selected_def by simp
  moreover have "ar_is_selected (aq_artifact_attempts b ! j) = (j = length ?as)"
    if "j < length (aq_artifact_attempts b)" for j
    using that assms(1,3,4) unfolding one_selected_def assms(2)
    by (cases "j = k") (auto simp: nth_append less_Suc_eq)
  ultimately show ?thesis by (simp add: one_selected_def assms(2))
qed

lemma new_artifact_simps [simp]:
  "ar_artifact_identity (new_artifact n s i rk hk e) = i" "ar_is_selected (new_artifact n s i rk hk e)"
  "ar_state (new_artifact n s i rk hk e) = Art_PLANNED" "ar_sequence_no (new_artifact n s i rk hk e) = s"
  "ar_route_kind (new_artifact n s i rk hk e) = rk" "ar_host_kind (new_artifact n s i rk hk e) = hk"
  by (simp_all add: new_artifact_def)

lemma route_identities_simps [simp]:
  "route_identities [] = []"
  "route_identities (r # rs) = (if is_obj r then (case route_identity r of None \<Rightarrow> route_identities rs
     | Some i \<Rightarrow> i # route_identities rs) else route_identities rs)"
  by (simp_all add: route_identities_def List.map_filter_simps split: option.split)

lemma route_identity_put [simp]:
  "k \<noteq> ''artifact_identity'' \<Longrightarrow> is_obj r \<Longrightarrow> route_identity (json_put k v r) = route_identity r"
  by (simp add: route_identity_def)

lemma set_route_identities:
  "i \<in> set (route_identities rs) \<longleftrightarrow> (\<exists>r \<in> set rs. is_obj r \<and> route_identity r = Some i)"
  by (induction rs) (auto split: option.splits)


subsection \<open>Fallback ends\<close>

text \<open>
  The routes of the plan nobody has tried. Every fallback uses one of them, and recording the
  new plan keeps the identities of the routes, so that the number of fallbacks is bounded by the
  number of routes whatever happens between them.
\<close>

definition plan_routes :: "acquisition_attempt \<Rightarrow> json list" where
  "plan_routes a = (case json_get (stored_plan a) ''artifacts'' of Some (JList rs) \<Rightarrow> rs | _ \<Rightarrow> [])"

definition untried :: "acquisition_attempt \<Rightarrow> pystr set" where
  "untried a = set (route_identities (plan_routes a)) - ar_artifact_identity ` set (aq_artifact_attempts a)"

lemma json_roundtrip_get:
  assumes "json_roundtrip d = Some e" and "json_wf d" and "is_obj d"
  shows "json_get e k = (case json_get d k of None \<Rightarrow> None | Some v \<Rightarrow> json_roundtrip v)"
proof -
  obtain xs where d: "d = JObj xs" using assms(3) by (auto simp: is_obj_iff)
  with assms(1) obtain ys where ys: "json_roundtrip_items xs = Some ys" "e = JObj (sort_key fst ys)"
    by auto
  have "distinct (map fst ys)" using assms(2) d by (simp add: json_roundtrip_items_keys [OF ys(1)])
  then show ?thesis by (simp add: d ys(2) map_of_sort_key_fst json_roundtrip_items_lookup [OF ys(1)])
qed

lemma json_roundtrip_str: "json_roundtrip v = Some w \<Longrightarrow> w = JStr s \<longleftrightarrow> v = JStr s"
  by (cases v) auto

lemma json_str_roundtrip:
  assumes "json_roundtrip d = Some e" and "json_wf d" and "is_obj d"
  shows "json_str (json_get e k) = json_str (json_get d k)"
proof (cases "json_get d k")
  case None
  then show ?thesis by (simp add: json_roundtrip_get [OF assms])
next
  case (Some v)
  with json_roundtrip_get [OF assms, of k] show ?thesis
    by (cases v) (auto simp: json_str_def split: option.splits)
qed

lemma is_obj_roundtrip: "json_roundtrip d = Some e \<Longrightarrow> is_obj e = is_obj d"
  by (cases d) auto

lemma json_roundtrip_list_conv:
  "json_roundtrip_list xs = Some ys \<longleftrightarrow> list_all2 (\<lambda>x y. json_roundtrip x = Some y) xs ys"
  by (induction xs arbitrary: ys) (auto simp: list_all2_Cons1 split: option.splits)

lemma json_wf_list_iff: "json_wf_list xs \<longleftrightarrow> (\<forall>x \<in> set xs. json_wf x)"
  by (induction xs) auto

lemma route_identities_roundtrip:
  "json_roundtrip_list rs = Some rs' \<Longrightarrow> json_wf_list rs \<Longrightarrow> route_identities rs' = route_identities rs"
proof (induction rs arbitrary: rs')
  case Nil
  then show ?case by simp
next
  case (Cons r rs)
  then obtain r' qs where r: "json_roundtrip r = Some r'" "json_roundtrip_list rs = Some qs" "rs' = r' # qs"
    by (auto split: option.splits)
  have "is_obj r' = is_obj r" using r(1) by (rule is_obj_roundtrip)
  moreover have "is_obj r \<Longrightarrow> route_identity r' = route_identity r"
    using Cons.prems(2) r(1) by (simp add: route_identity_def json_str_roundtrip)
  moreover have "route_identities qs = route_identities rs"
    using Cons.IH [OF r(2)] Cons.prems(2) by simp
  ultimately show ?case by (simp add: r(3) split: option.split)
qed

lemma route_identities_mark [simp]:
  "route_identities (mark_route_failed i rs) = route_identities rs"
  by (induction rs) (auto split: option.split)

lemma json_wf_get: "json_get d k = Some v \<Longrightarrow> json_wf d \<Longrightarrow> json_wf v"
  by (cases d) (auto simp: json_wf_items_iff dest!: map_of_SomeD)

lemma json_wf_append_entry:
  assumes "json_wf d" and "json_wf e" shows "json_wf (append_entry k e d)"
proof -
  have "\<forall>x \<in> set (case json_get d k of Some (JList xs) \<Rightarrow> xs | _ \<Rightarrow> []). json_wf x"
    using json_wf_get [OF _ assms(1), of k]
    by (cases "json_get d k") (auto simp: json_wf_list_iff split: json.splits)
  then show ?thesis
    unfolding append_entry_def using assms by (intro json_wf_put) (auto simp: json_wf_list_iff)
qed

lemma json_wf_mark: "json_wf_list rs \<Longrightarrow> json_wf_list (mark_route_failed i rs)"
  by (induction rs) (auto simp: json_wf_put)

lemma json_wf_fallback_document:
  assumes "json_wf snapshot" and "json_wf_list routes"
  shows "json_wf (fallback_document snapshot routes failed i fclass fcode)"
  unfolding fallback_document_def
  using assms by (intro json_wf_put json_wf_append_entry) (simp_all add: json_wf_mark route_failure_entry_def)

lemma is_obj_append_entry [simp]: "is_obj (append_entry k e d) = is_obj d"
  by (simp add: append_entry_def)

lemma get_artifacts_document:
  "is_obj snapshot \<Longrightarrow> json_get (fallback_document snapshot routes failed i fclass fcode) ''artifacts'' =
     Some (JList (mark_route_failed (ar_artifact_identity failed) routes))"
  by (simp add: fallback_document_def append_entry_def)

lemma json_roundtrip_items_lookup_None:
  "json_roundtrip d = Some e \<Longrightarrow> json_get d k = Some v \<Longrightarrow> json_roundtrip v \<noteq> None"
proof (cases d)
  case (JObj kvs)
  show "json_roundtrip d = Some e \<Longrightarrow> json_get d k = Some v \<Longrightarrow> json_roundtrip v \<noteq> None"
    unfolding JObj by (induction kvs arbitrary: e) (auto split: option.splits if_splits)
qed auto

lemma fallback_keeps_plan:
  assumes q: "queue_next_artifact_route auto_add at_time new_id a k bl = Inr (Some f, a', bl')"
    and inv: "plan_inv a"
  shows "plan_inv a'" and "route_identities (plan_routes a') = route_identities (plan_routes a)"
    and "ar_artifact_identity f \<in> untried a" and "k < length (aq_artifact_attempts a) \<Longrightarrow>
      ar_artifact_identity ` set (aq_artifact_attempts a') =
      insert (ar_artifact_identity f) (ar_artifact_identity ` set (aq_artifact_attempts a))"
proof -
  let ?as = "aq_artifact_attempts a"
  obtain routes fid r i hk fclass fcode where
    routes: "json_get (stored_plan a) ''artifacts'' = Some (JList routes)"
    and r: "find (fallback_candidate (map ar_artifact_identity ?as)
       (filter (\<lambda>i. i \<in> bl') (route_identities routes)) fid) routes = Some r"
    and i: "route_identity r = Some i"
    and inst: "install_fallback at_time new_id a k (stored_plan a) routes i Route_DIRECT hk
       (json_int (json_get r ''expected_size'')) fclass fcode = Inr (f, a')"
    using q by (rule queue_next_cases)
  have plan: "plan_routes a = routes" by (simp add: plan_routes_def routes)
  from find_SomeD [OF r] i have cand: "r \<in> set routes" "is_obj r" "i \<notin> ar_artifact_identity ` set ?as"
    by (simp_all add: fallback_candidate_def)
  obtain failed t where eff: "f = new_artifact new_id (next_sequence_no a) i Route_DIRECT hk
        (json_int (json_get r ''expected_size''))"
    "ar_artifact_identity failed = ar_artifact_identity (?as ! k)"
    "aq_artifact_attempts a' = ?as[k := failed] @ [f]"
    "json_roundtrip (fallback_document (stored_plan a) routes failed i fclass fcode) = Some t"
    "is_obj t" "aq_plan_snapshot a' = t"
    using inst by (rule install_fallback_effect)
  let ?doc = "fallback_document (stored_plan a) routes failed i fclass fcode"
  have obj: "is_obj (stored_plan a)"
    using routes by (cases "stored_plan a") simp_all
  have wf: "json_wf (stored_plan a)" using inv by (simp add: plan_inv_def)
  then have wfr: "json_wf_list routes" using routes by (auto dest: json_wf_get)
  note wfd = json_wf_fallback_document [OF wf wfr, of failed i fclass fcode]
  have objd: "is_obj ?doc" using obj by (simp add: fallback_document_def)
  have st: "stored_plan a' = t" using eff(5,6) by (cases t) (auto simp: stored_plan_def)
  have "json_wf t" using eff(4) wfd by (rule json_roundtrip_wf)
  moreover have "json_roundtrip t = Some t" using eff(4) by (rule json_roundtrip_idem)
  ultimately show "plan_inv a'"
    using eff(5) by (simp add: plan_inv_def st is_ok_iff plan_json_copy_Inr)
  obtain rs' where rs': "json_roundtrip_list (mark_route_failed (ar_artifact_identity failed) routes) = Some rs'"
    "json_get t ''artifacts'' = Some (JList rs')"
    using json_roundtrip_get [OF eff(4) wfd objd, of "''artifacts''"]
      json_roundtrip_items_lookup_None [OF eff(4) get_artifacts_document [OF obj]]
    by (auto simp: get_artifacts_document obj)
  then have "route_identities rs' = route_identities routes"
    using route_identities_roundtrip [OF rs'(1) json_wf_mark [OF wfr]] by simp
  then show "route_identities (plan_routes a') = route_identities (plan_routes a)"
    by (simp add: plan plan_routes_def [of a'] st rs'(2))
  have "i \<in> set (route_identities routes)"
    using cand i by (simp only: set_route_identities) blast
  with cand eff(1) show "ar_artifact_identity f \<in> untried a" by (simp add: untried_def plan)
  show "k < length ?as \<Longrightarrow> ar_artifact_identity ` set (aq_artifact_attempts a') =
      insert (ar_artifact_identity f) (ar_artifact_identity ` set ?as)"
  proof -
    have "map ar_artifact_identity (?as[k := failed]) = map ar_artifact_identity ?as"
      using eff(2) by (rule map_update_same)
    then have "ar_artifact_identity ` set (?as[k := failed]) = ar_artifact_identity ` set ?as"
      by (metis set_map)
    then show ?thesis by (simp add: eff(3))
  qed
qed

text \<open>
  A run of the acquisition in which \<open>n\<close> fallbacks are queued. Between two of them the row may
  change in any way that keeps its plan and forgets no attempted artifact.
\<close>

inductive fallback_run :: "nat \<Rightarrow> acquisition_attempt \<Rightarrow> acquisition_attempt \<Rightarrow> bool" where
  run_start: "fallback_run 0 a a"
| run_work: "fallback_run n a b \<Longrightarrow> stored_plan c = stored_plan b \<Longrightarrow>
    ar_artifact_identity ` set (aq_artifact_attempts b) \<subseteq> ar_artifact_identity ` set (aq_artifact_attempts c) \<Longrightarrow>
    fallback_run n a c"
| run_fallback: "fallback_run n a b \<Longrightarrow> k < length (aq_artifact_attempts b) \<Longrightarrow>
    queue_next_artifact_route auto_add at_time new_id b k bl = Inr (Some f, c, bl') \<Longrightarrow>
    fallback_run (Suc n) a c"

inductive_cases fallback_run_Suc: "fallback_run (Suc n) a c"

lemma fallback_run_untried:
  "fallback_run n a c \<Longrightarrow> plan_inv a \<Longrightarrow> plan_inv c \<and> card (untried c) + n \<le> card (untried a)"
proof (induction rule: fallback_run.induct)
  case (run_start a)
  then show ?case by simp
next
  case (run_work n a b c)
  then have "untried c \<subseteq> untried b" by (auto simp: untried_def plan_routes_def)
  then have "card (untried c) \<le> card (untried b)" by (intro card_mono) (simp_all add: untried_def)
  with run_work show ?case by (simp add: plan_inv_def)
next
  case (run_fallback n a b k auto_add at_time new_id bl f c bl')
  then have inv: "plan_inv b" by simp
  note keeps = fallback_keeps_plan [OF run_fallback(3) inv]
  have "untried c = untried b - {ar_artifact_identity f}"
    using keeps(2) keeps(4) [OF run_fallback(2)] by (auto simp: untried_def)
  with keeps(3) have "card (untried c) < card (untried b)"
    by (simp only:) (rule card_Diff1_less, simp_all add: untried_def)
  with run_fallback keeps(1) show ?case by simp
qed

lemma length_map_filter_le: "length (List.map_filter f xs) \<le> length xs"
  by (induction xs) (auto simp: List.map_filter_simps split: option.split)

text \<open>C32. Fallback terminates: over a whole run the number of queued fallbacks is at most the
  number of routes in the plan, however the acquisition changes between them as long as its plan
  and its attempted artifacts are kept.\<close>

theorem fallback_terminates:
  assumes "fallback_run n a c" and "plan_inv a"
  shows "n \<le> length (plan_routes a)"
proof -
  have "n \<le> card (untried a)" using fallback_run_untried [OF assms] by simp
  also have "\<dots> \<le> card (set (route_identities (plan_routes a)))"
    by (rule card_mono) (simp_all add: untried_def)
  also have "\<dots> \<le> length (route_identities (plan_routes a))" by (rule card_length)
  also have "\<dots> \<le> length (plan_routes a)"
    unfolding route_identities_def by (rule length_map_filter_le)
  finally show ?thesis .
qed

subsection \<open>The switch\<close>

lemma find_index_of_Some:
  "find_index_of P xs = Some j \<Longrightarrow> j < length xs \<and> P (xs ! j)"
  by (auto simp: find_index_of_def dest: find_SomeD)

lemma find_index_of_None: "find_index_of P xs = None \<Longrightarrow> \<forall>x \<in> set xs. \<not> P x"
  by (auto simp: find_index_of_def find_None_all in_set_conv_nth)

lemma reset_replacement_simps [simp]:
  "ar_artifact_identity (reset_replacement e x) = ar_artifact_identity x"
  "ar_sequence_no (reset_replacement e x) = ar_sequence_no x"
  "ar_is_selected (reset_replacement e x)" "ar_state (reset_replacement e x) = Art_PLANNED"
  "ar_bytes_transferred (reset_replacement e x) = 0" "ar_failure_class (reset_replacement e x) = None"
  by (simp_all add: reset_replacement_def)

lemma switch_away_simps [simp]:
  "ar_artifact_identity (switch_away x) = ar_artifact_identity x"
  "ar_sequence_no (switch_away x) = ar_sequence_no x" "\<not> ar_is_selected (switch_away x)"
  "ar_state (switch_away x) = ar_state x"
  "ar_failure_class (switch_away x) = Some Fail_USER_ACTION"
  by (simp_all add: switch_away_def)

text \<open>The replacement is at some index and is the only selected row; the current one is set aside.\<close>

lemma install_replacement_ok:
  assumes "one_selected a k" and "install_replacement new_id a k opt = (r, rows)"
    and "so_artifact_identity opt \<noteq> ar_artifact_identity (aq_artifact_attempts a ! k)"
    and "aq_artifact_attempts b = rows"
  shows "\<exists>j. one_selected b j \<and> rows ! j = r \<and> j \<noteq> k \<and>
    ar_artifact_identity r = so_artifact_identity opt \<and> ar_state r = Art_PLANNED \<and>
    ar_bytes_transferred r = 0 \<and> rows ! k = switch_away (aq_artifact_attempts a ! k)"
proof -
  let ?as = "aq_artifact_attempts a"
  let ?bs = "?as[k := switch_away (?as ! k)]"
  have k: "k < length ?as" using assms(1) by (simp add: one_selected_def)
  show ?thesis
  proof (cases "find_index_of (\<lambda>x. ar_artifact_identity x = so_artifact_identity opt) ?bs")
    case None
    define f where "f = reset_replacement (so_expected_size opt) (new_artifact new_id (next_sequence_no a)
      (so_artifact_identity opt) Route_DIRECT (so_host_kind opt) None)"
    have rows: "rows = ?bs @ [f]" "r = f"
      using assms(2) None by (auto simp: install_replacement_def Let_def f_def)
    have "map ar_artifact_identity ?bs = map ar_artifact_identity ?as"
      by (rule map_update_same) simp
    then have "ar_artifact_identity ` set ?bs = ar_artifact_identity ` set ?as" by (metis set_map)
    moreover have "so_artifact_identity opt \<notin> ar_artifact_identity ` set ?bs"
      using find_index_of_None [OF None] by force
    ultimately have "one_selected b (length ?as)"
      by (intro one_selected_append [OF assms(1) assms(4) [unfolded rows(1)]]) (simp_all add: f_def)
    then show ?thesis
      using k by (intro exI [of _ "length ?as"]) (simp add: rows nth_append f_def)
  next
    case (Some j)
    note j = find_index_of_Some [OF Some]
    have jk: "j \<noteq> k" using j assms(3) by auto
    define f where "f = reset_replacement (so_expected_size opt) (?as ! j)"
    have rows: "rows = ?bs[j := f]" "r = f"
      using assms(2) Some jk by (auto simp: install_replacement_def Let_def f_def)
    have "map g rows = map g ?as" if "\<And>x. g (switch_away x) = g x" "g f = g (?as ! j)"
      for g :: "artifact_attempt \<Rightarrow> 'x"
    proof -
      have "map g rows = map g ?bs" unfolding rows(1)
        by (rule map_update_same) (use that jk in simp)
      also have "\<dots> = map g ?as" by (rule map_update_same) (rule that)
      finally show ?thesis .
    qed
    from this [of ar_artifact_identity] this [of ar_sequence_no] have "artifacts_unique b"
      using assms(1,4) by (simp add: artifacts_unique_def one_selected_def f_def)
    moreover have "ar_is_selected (rows ! i) = (i = j)" if "i < length rows" for i
      using that assms(1) jk unfolding rows(1) one_selected_def
      by (cases "i = j"; cases "i = k") (simp_all add: f_def)
    ultimately have "one_selected b j" using j assms(4) by (simp add: one_selected_def rows(1))
    then show ?thesis
      using j jk k by (intro exI [of _ j]) (simp add: rows f_def)
  qed
qed

lemma selected_artifact_unique:
  assumes "one_selected a k" shows "selected_artifact a = Inr (aq_artifact_attempts a ! k)"
proof -
  let ?as = "aq_artifact_attempts a"
  have k: "k < length ?as" and sel: "\<And>j. j < length ?as \<Longrightarrow> ar_is_selected (?as ! j) = (j = k)"
    using assms by (simp_all add: one_selected_def)
  have split: "?as = take k ?as @ ?as ! k # drop (Suc k) ?as" using k by (rule id_take_nth_drop)
  have "filter ar_is_selected (take k ?as) = []"
    using sel k by (auto simp: filter_empty_conv in_set_conv_nth)
  moreover have "filter ar_is_selected (drop (Suc k) ?as) = []"
    using sel k by (auto simp: filter_empty_conv in_set_conv_nth)
  ultimately have "filter ar_is_selected ?as = [?as ! k]"
    using sel [OF k] by (subst split) simp
  then show ?thesis by (simp add: selected_artifact_def)
qed

lemma set_map_filter_iff: "y \<in> set (List.map_filter f xs) \<longleftrightarrow> (\<exists>x \<in> set xs. f x = Some y)"
  by (induction xs) (auto simp: List.map_filter_simps split: option.splits)

lemma switch_option_of_Some:
  assumes "switch_option_of a blocked cur fid r = Some opt"
  shows "route_identity r = Some (so_artifact_identity opt)" "so_artifact_identity opt \<noteq> cur"
    "so_artifact_identity opt \<notin> set blocked" "snapshot_fallback_identity r = Some fid"
proof -
  from assms obtain i where i: "route_identity r = Some i"
    by (auto simp: switch_option_of_def split: option.splits)
  with assms have "so_artifact_identity opt = i"
    by (auto simp: switch_option_of_def Let_def split: if_splits option.splits)
  with i assms show "route_identity r = Some (so_artifact_identity opt)" "so_artifact_identity opt \<noteq> cur"
    "so_artifact_identity opt \<notin> set blocked" "snapshot_fallback_identity r = Some fid"
    by (auto simp: switch_option_of_def Let_def split: if_splits)
qed

lemma switch_options_ok:
  assumes "list_source_switch_options a bl = Inr options" and "one_selected a k" and "opt \<in> set options"
  shows "so_artifact_identity opt \<noteq> ar_artifact_identity (aq_artifact_attempts a ! k) \<and>
    so_artifact_identity opt \<notin> bl"
proof -
  let ?cur = "ar_artifact_identity (aq_artifact_attempts a ! k)"
  let ?routes = "snapshot_routes (stored_plan a)"
  obtain fid where fid: "route_fallback_identity ?routes ?cur = Some fid"
    using assms(1,3) by (auto simp: list_source_switch_options_def Let_def
        selected_artifact_unique [OF assms(2)] split: option.splits)
  then obtain r where r: "r \<in> set ?routes" and opt: "switch_option_of a
      (filter (\<lambda>i. i \<in> bl) (route_identities ?routes)) ?cur fid r = Some opt"
    using assms(1,3) by (auto simp: list_source_switch_options_def Let_def set_map_filter_iff
        get_blocked_direct_artifact_routes_def selected_artifact_unique [OF assms(2)] split: if_splits)
  note o = switch_option_of_Some [OF opt]
  have "is_obj r" using r by (auto simp: snapshot_routes_def split: option.splits json.splits)
  with r o(1) have "so_artifact_identity opt \<in> set (route_identities ?routes)"
    by (simp only: set_route_identities) blast
  with o(2,3) show ?thesis by simp
qed

lemma apply_switch_effect:
  assumes "apply_switch new_id a k opt block disc = Inr (out, a')"
  obtains r where "install_replacement new_id a k opt = (r, aq_artifact_attempts a')" "sw_selected out = r"
    "aq_state a' = Acq_QUEUED" "aq_cancelled_at a' = None" "aq_completed_at a' = None"
    "aq_retry_count a' = 0" "aq_plan_revision a' = aq_plan_revision a + 1"
    "aq_progress_revision a' = aq_progress_revision a + 1"
    "sw_previous_host out = ar_host_kind (aq_artifact_attempts a ! k)"
proof -
  obtain r rows where ir: "install_replacement new_id a k opt = (r, rows)"
    by (cases "install_replacement new_id a k opt")
  show thesis
  proof (rule that)
    obtain doc b2 a2 where a2: "record_acquisition_plan (a\<lparr>aq_artifact_attempts := rows\<rparr>)
        (aq_plan_revision (a\<lparr>aq_artifact_attempts := rows\<rparr>) + 1) doc = Inr (b2, a2)"
      and a': "out = \<lparr>sw_selected = r, sw_previous_host = ar_host_kind (aq_artifact_attempts a ! k),
          sw_current_route_blocklisted = block\<rparr>"
        "aq_artifact_attempts a' = aq_artifact_attempts a2" "aq_state a' = Acq_QUEUED"
        "aq_cancelled_at a' = None" "aq_completed_at a' = None" "aq_retry_count a' = 0"
        "aq_plan_revision a' = aq_plan_revision a2" "aq_progress_revision a' = aq_progress_revision a2 + 1"
      using assms by (auto simp: apply_switch_def Let_def ir advance_acquisition_progress_def)
    obtain t where t: "a2 = a\<lparr>aq_artifact_attempts := rows, aq_plan_revision := aq_plan_revision a + 1,
        aq_plan_snapshot := t\<rparr>"
      using a2 by (rule record_plan_effect) simp_all
    show "install_replacement new_id a k opt = (r, aq_artifact_attempts a')" by (simp add: ir a' t)
    show "sw_selected out = r" "aq_state a' = Acq_QUEUED" "aq_cancelled_at a' = None"
      "aq_completed_at a' = None" "aq_retry_count a' = 0"
      "aq_plan_revision a' = aq_plan_revision a + 1"
      "aq_progress_revision a' = aq_progress_revision a + 1"
      "sw_previous_host out = ar_host_kind (aq_artifact_attempts a ! k)"
      by (simp_all add: a' t)
  qed
qed

text \<open>C34. A user switch of a cancelled acquisition leaves exactly one selected transfer, a planned one
  from the start on another route that is not blocked and is the requested one if one was named;
  the previous transfer stays cancelled, set aside as the user's action and blocked only on
  request; the acquisition is queued again with no end times and both revisions advance.\<close>

theorem switch_spec:
  assumes "queue_source_switch new_id a k target block disc bl = Inr (out, a', bl')"
    and "one_selected a k"
  shows "\<exists>j. one_selected a' j \<and> j \<noteq> k \<and> aq_artifact_attempts a' ! j = sw_selected out \<and>
    ar_state (sw_selected out) = Art_PLANNED \<and> ar_bytes_transferred (sw_selected out) = 0 \<and>
    ar_artifact_identity (sw_selected out) \<notin> bl \<and>
    (case target of None \<Rightarrow> True | Some t \<Rightarrow> ar_artifact_identity (sw_selected out) = t) \<and>
    ar_state (aq_artifact_attempts a' ! k) = Art_CANCELLED \<and>
    ar_failure_class (aq_artifact_attempts a' ! k) = Some Fail_USER_ACTION \<and>
    bl' = (if block then insert (ar_artifact_identity (aq_artifact_attempts a ! k)) bl else bl) \<and>
    aq_state a' = Acq_QUEUED \<and> aq_cancelled_at a' = None \<and> aq_completed_at a' = None \<and>
    aq_plan_revision a' = aq_plan_revision a + 1 \<and> aq_progress_revision a' = aq_progress_revision a + 1"
proof -
  let ?cur = "aq_artifact_attempts a ! k"
  have st: "ar_state ?cur = Art_CANCELLED"
    using assms(1) by (auto simp: queue_source_switch_def Let_def split: if_splits)
  obtain options where options: "list_source_switch_options a bl = Inr options"
    using assms(1) by (auto simp: queue_source_switch_def Let_def split: if_splits)
  obtain opt where opt: "opt \<in> set options" "case target of None \<Rightarrow> True | Some t \<Rightarrow> so_artifact_identity opt = t"
    and sw: "apply_switch new_id a k opt block disc = Inr (out, a')"
    and bl: "(if block then add_direct_artifact_entry (ar_artifact_identity ?cur) bl else Inr bl) = Inr bl'"
    using assms(1) options
    by (auto simp: queue_source_switch_def Let_def split: if_splits option.splits list.splits
        dest: find_SomeD)
  note ok = switch_options_ok [OF options assms(2) opt(1)]
  obtain r where r: "install_replacement new_id a k opt = (r, aq_artifact_attempts a')" "sw_selected out = r"
    "aq_state a' = Acq_QUEUED" "aq_cancelled_at a' = None" "aq_completed_at a' = None"
    "aq_plan_revision a' = aq_plan_revision a + 1" "aq_progress_revision a' = aq_progress_revision a + 1"
    using sw by (rule apply_switch_effect)
  have bl': "bl' = (if block then insert (ar_artifact_identity ?cur) bl else bl)"
    using bl by (auto simp: add_direct_artifact_entry_def split: if_splits)
  obtain j where j: "one_selected a' j" "aq_artifact_attempts a' ! j = r" "j \<noteq> k"
    "ar_artifact_identity r = so_artifact_identity opt" "ar_state r = Art_PLANNED"
    "ar_bytes_transferred r = 0" "aq_artifact_attempts a' ! k = switch_away ?cur"
    using install_replacement_ok [OF assms(2) r(1) ok [THEN conjunct1] refl] by blast
  show ?thesis
    by (rule exI [of _ j]) (use j r opt(2) ok st bl' in \<open>simp split: option.splits\<close>)
qed

subsection \<open>A concrete acquisition\<close>

text \<open>Two equivalent routes; the first one, the selected transfer, has failed for good.\<close>

definition sample_route_json :: "pystr \<Rightarrow> json" where
  "sample_route_json i = JObj [(''artifact_identity'', JStr i), (''content_identity'', JStr ''c1''),
     (''eligible'', JBool True), (''expected_size'', JInt 10), (''host_kind'', JStr ''mega''),
     (''route_kind'', JStr ''direct'')]"

definition sample_route_plan :: json where
  "sample_route_plan = JObj [(''artifacts'',
     JList [sample_route_json ''route:a'', sample_route_json ''route:b''])]"

definition sample_switchable :: "acq_state \<Rightarrow> art_state \<Rightarrow> acquisition_attempt" where
  "sample_switchable s t = sample_attempt\<lparr>aq_state := s, aq_plan_snapshot := sample_route_plan,
     aq_plan_revision := 1,
     aq_artifact_attempts := [(new_artifact 1 0 ''route:a'' Route_DIRECT Host_MEGA (Some 10))
       \<lparr>ar_state := t, ar_failure_class := Some Fail_PERMANENT_MIRROR,
        ar_failure_code := Some ''gone''\<rparr>]\<rparr>"

lemma sample_one_selected: "one_selected (sample_switchable s t) 0"
  by (simp add: one_selected_def sample_switchable_def artifacts_unique_def)

lemma sample_plan_inv: "plan_inv (sample_switchable s t)"
  by (simp add: plan_inv_def stored_plan_def sample_switchable_def sample_route_plan_def
      sample_route_json_def plan_json_copy_def)

lemma sample_fallback_runs:
  "\<exists>f a' bl'. queue_next_artifact_route True 50 9 (sample_switchable Acq_RESOLVING Art_RESOLVING) 0 {} =
     Inr (Some f, a', bl')"
proof -
  have "case queue_next_artifact_route True 50 9 (sample_switchable Acq_RESOLVING Art_RESOLVING) 0 {} of
      Inr (Some f, a', bl') \<Rightarrow> True | _ \<Rightarrow> False" by code_simp
  then show ?thesis by (auto split: sum.splits option.splits)
qed


theorem fallback_terminates_witness: "(1::nat) \<le> length (plan_routes (sample_switchable Acq_RESOLVING Art_RESOLVING))"
proof -
  let ?a = "sample_switchable Acq_RESOLVING Art_RESOLVING"
  obtain f a' bl' where q: "queue_next_artifact_route True 50 9 ?a 0 {} = Inr (Some f, a', bl')"
    using sample_fallback_runs by blast
  have "fallback_run (Suc 0) ?a a'"
    by (rule run_fallback [OF run_start _ q]) (simp add: sample_switchable_def)
  from fallback_terminates [OF this sample_plan_inv] show ?thesis by simp
qed

theorem switch_spec_witness:
  "\<exists>out a' bl'. queue_source_switch 9 (sample_switchable Acq_CANCELLED Art_CANCELLED) 0
      (Some ''route:b'') True None {} = Inr (out, a', bl') \<and>
     ar_artifact_identity (sw_selected out) = ''route:b'' \<and> bl' = {''route:a''} \<and>
     (\<exists>j. one_selected a' j \<and> j \<noteq> 0)"
proof -
  have "case queue_source_switch 9 (sample_switchable Acq_CANCELLED Art_CANCELLED) 0
      (Some ''route:b'') True None {} of Inr (out, a', bl') \<Rightarrow> True | _ \<Rightarrow> False" by code_simp
  then obtain out a' bl' where q: "queue_source_switch 9 (sample_switchable Acq_CANCELLED Art_CANCELLED) 0
      (Some ''route:b'') True None {} = Inr (out, a', bl')"
    by (auto split: sum.splits)
  have cur: "ar_artifact_identity (aq_artifact_attempts (sample_switchable Acq_CANCELLED Art_CANCELLED) ! 0) =
      ''route:a''" by (simp add: sample_switchable_def)
  from switch_spec [OF q sample_one_selected] q show ?thesis
    by (auto simp: cur)
qed

end
