(* ===== verification/Provider_Quota.thy ===== *)
theory Provider_Quota
  imports Direct_Models Json_Value
begin

text \<open>
  Provider quota telemetry and the automatic-download reserve
  (\<open>src/src/pullbox/services/direct_provider_quota.py\<close>). Times are microseconds since the epoch.
  \<open>datetime.isoformat\<close> and \<open>datetime.fromisoformat\<close> are the arguments \<open>print_iso\<close> and \<open>parse_iso\<close>: the
  latter returns the moment and whether the text names a time zone. What the code relies on is
  \<open>iso_codec\<close>: an aware moment printed by the one is read back by the other, and the text has
  no letter Z.
\<close>

type_synonym iso_printer = "timestamp \<Rightarrow> pystr"
type_synonym iso_parser = "pystr \<Rightarrow> (timestamp \<times> bool) option"

definition iso_codec :: "iso_printer \<Rightarrow> iso_parser \<Rightarrow> bool" where
  "iso_codec print_iso parse_iso \<longleftrightarrow> (\<forall>t. parse_iso (print_iso t) = Some (t, True) \<and> CHR ''Z'' \<notin> set (print_iso t))"

record quota_snapshot =
  qs_remaining :: "int option"
  qs_limit :: "int option"
  qs_window_seconds :: "int option"
  qs_reset_at :: "timestamp option"
  qs_observed_at :: timestamp

record quota_status =
  dq_remaining :: "int option"
  dq_limit :: "int option"
  dq_window_seconds :: "int option"
  dq_reset_at :: "timestamp option"

definition DEFAULT_AUTOMATIC_QUOTA_RESERVE :: int where
  "DEFAULT_AUTOMATIC_QUOTA_RESERVE = 5"

definition seconds :: "int \<Rightarrow> timestamp" where
  "seconds n = n * 1000000"

definition TRANSIENT_BACKOFF :: timestamp where
  "TRANSIENT_BACKOFF = seconds (15 * 60)"

subsection \<open>Reading the metadata\<close>

definition provider_metadata :: "provider_config \<Rightarrow> json" where
  "provider_metadata p =
     (if is_obj (pc_configuration_metadata p) then pc_configuration_metadata p else JObj [])"

text \<open>\<open>value.replace("Z", "+00:00")\<close>\<close>

definition replace_Z :: "pystr \<Rightarrow> pystr" where
  "replace_Z s = concat (map (\<lambda>c. if c = CHR ''Z'' then ''+00:00'' else [c]) s)"

definition parse_datetime :: "iso_parser \<Rightarrow> json option \<Rightarrow> timestamp option" where
  "parse_datetime parse_iso v =
     (case v of
        Some (JStr s) \<Rightarrow>
          (case parse_iso (replace_Z s) of
             None \<Rightarrow> None
           | Some (t, aware) \<Rightarrow> if \<not> aware then None else Some t)
      | _ \<Rightarrow> None)"

definition automatic_quota_reserve :: "provider_config \<Rightarrow> int" where
  "automatic_quota_reserve p =
     (case json_nonneg_int (json_get (provider_metadata p) ''automatic_quota_reserve'') of
        Some n \<Rightarrow> n
      | None \<Rightarrow> DEFAULT_AUTOMATIC_QUOTA_RESERVE)"

text \<open>\<open>None\<close> is the \<open>ValueError\<close> for a reserve out of range.\<close>

definition set_automatic_quota_reserve :: "provider_config \<Rightarrow> int \<Rightarrow> provider_config option" where
  "set_automatic_quota_reserve p reserve =
     (if reserve < 0 \<or> reserve > 100000 then None
      else Some (p\<lparr>pc_configuration_metadata :=
        json_put ''automatic_quota_reserve'' (JInt reserve) (provider_metadata p)\<rparr>))"

definition provider_supports_quota :: "provider_config \<Rightarrow> bool" where
  "provider_supports_quota p =
     (let manifest = (if is_obj (pc_manifest_snapshot p) then pc_manifest_snapshot p else JObj []);
          capabilities = or_else (json_get manifest ''capabilities'') (JObj [])
      in is_obj capabilities \<and> json_get capabilities ''quota'' = Some (JBool True))"

definition provider_quota_status :: "iso_parser \<Rightarrow> provider_config \<Rightarrow> quota_snapshot option" where
  "provider_quota_status parse_iso p =
     (case json_get (provider_metadata p) ''quota_status'' of
        Some (JObj raw) \<Rightarrow>
          (case parse_datetime parse_iso (json_get (JObj raw) ''observed_at'') of
             None \<Rightarrow> None
           | Some observed_at \<Rightarrow> Some
               \<lparr>qs_remaining = json_nonneg_int (json_get (JObj raw) ''remaining''),
                qs_limit = json_nonneg_int (json_get (JObj raw) ''limit''),
                qs_window_seconds = json_nonneg_int (json_get (JObj raw) ''window_seconds''),
                qs_reset_at = parse_datetime parse_iso (json_get (JObj raw) ''reset_at''),
                qs_observed_at = observed_at\<rparr>)
      | _ \<Rightarrow> None)"

subsection \<open>Recording telemetry and errors\<close>

definition quota_document ::
  "iso_printer \<Rightarrow> int option \<Rightarrow> int option \<Rightarrow> int option \<Rightarrow> timestamp option \<Rightarrow> timestamp \<Rightarrow> json" where
  "quota_document print_iso remaining cap window reset_at observed = JObj
     [(''remaining'', json_opt_int remaining), (''limit'', json_opt_int cap),
      (''window_seconds'', json_opt_int window),
      (''reset_at'', json_opt_str (map_option print_iso reset_at)),
      (''observed_at'', JStr (print_iso observed))]"

definition record_provider_quota ::
  "iso_printer \<Rightarrow> provider_config \<Rightarrow> quota_status \<Rightarrow> timestamp \<Rightarrow> provider_config" where
  "record_provider_quota print_iso p quota observed =
     (let reset_at = (case (dq_reset_at quota, dq_window_seconds quota) of
            (None, Some w) \<Rightarrow> Some (observed + seconds w)
          | (r, _) \<Rightarrow> r);
          metadata = json_pop ''automatic_backoff_until''
            (json_put ''quota_status''
              (quota_document print_iso (dq_remaining quota) (dq_limit quota) (dq_window_seconds quota)
                reset_at observed) (provider_metadata p));
          state' = (if pc_state p \<in> {Prov_RATE_LIMITED, Prov_UNAVAILABLE} \<and>
                (case dq_remaining quota of None \<Rightarrow> True | Some n \<Rightarrow> n > 0)
            then Prov_HEALTHY else pc_state p)
      in p\<lparr>pc_configuration_metadata := metadata, pc_state := state', pc_last_error_code := None\<rparr>)"

definition retry_window_of :: "json option \<Rightarrow> int option" where
  "retry_window_of v = (case v of Some (JInt n) \<Rightarrow> if 0 \<le> n \<and> n \<le> 86400 then Some n else None
                        | _ \<Rightarrow> None)"

definition record_provider_resolution_error ::
  "iso_printer \<Rightarrow> iso_parser \<Rightarrow> provider_config \<Rightarrow> pystr \<Rightarrow> timestamp \<Rightarrow> json option \<Rightarrow> provider_config"
where
  "record_provider_resolution_error print_iso parse_iso p err observed retry_after_seconds =
     (let metadata = provider_metadata p in
      if err = ''source_quota_limited'' then
        (let current = provider_quota_status parse_iso p;
             reset1 = (case current of None \<Rightarrow> None | Some c \<Rightarrow> qs_reset_at c);
             reset2 = (case (reset1, current) of
                 (None, Some c) \<Rightarrow>
                   (case qs_window_seconds c of None \<Rightarrow> None | Some w \<Rightarrow> Some (observed + seconds w))
               | _ \<Rightarrow> reset1);
             retry_window = retry_window_of retry_after_seconds;
             reset3 = (case (reset2, retry_window) of
                 (None, Some w) \<Rightarrow> Some (observed + seconds w)
               | _ \<Rightarrow> reset2)
         in p\<lparr>pc_last_error_code := Some err, pc_state := Prov_RATE_LIMITED,
              pc_configuration_metadata := json_put ''quota_status''
                (quota_document print_iso (Some 0)
                  (case current of None \<Rightarrow> None | Some c \<Rightarrow> qs_limit c)
                  (case current of None \<Rightarrow> retry_window | Some c \<Rightarrow> qs_window_seconds c)
                  reset3 observed) metadata\<rparr>)
      else if err = ''source_authentication_required'' then
        p\<lparr>pc_last_error_code := Some err, pc_state := Prov_AUTHENTICATION_REQUIRED,
          pc_configuration_metadata := metadata\<rparr>
      else if err \<in> {''source_unavailable'', ''source_malformed_response''} then
        p\<lparr>pc_last_error_code := Some err, pc_state := Prov_DEGRADED,
          pc_configuration_metadata := json_put ''automatic_backoff_until''
            (JStr (print_iso (observed + TRANSIENT_BACKOFF))) metadata\<rparr>
      else p\<lparr>pc_last_error_code := Some err, pc_configuration_metadata := metadata\<rparr>)"

subsection \<open>Automatic use\<close>

definition automatic_quota_available :: "iso_parser \<Rightarrow> provider_config \<Rightarrow> timestamp \<Rightarrow> bool" where
  "automatic_quota_available parse_iso p now =
     (let quota = provider_quota_status parse_iso p;
          reset_passed = (case quota of None \<Rightarrow> False
            | Some q \<Rightarrow> (case qs_reset_at q of None \<Rightarrow> False | Some r \<Rightarrow> r \<le> now))
      in if \<not> pc_enabled p then False
         else if pc_state p = Prov_RATE_LIMITED then reset_passed
         else if pc_state p \<in> {Prov_DISABLED, Prov_AUTHENTICATION_REQUIRED, Prov_INCOMPATIBLE,
              Prov_UNAVAILABLE} then False
         else if (case parse_datetime parse_iso
                (json_get (provider_metadata p) ''automatic_backoff_until'') of
              None \<Rightarrow> False | Some until \<Rightarrow> until > now) then False
         else if reset_passed then True
         else (case quota of None \<Rightarrow> True
               | Some q \<Rightarrow> (case qs_remaining q of None \<Rightarrow> True
                           | Some n \<Rightarrow> n > automatic_quota_reserve p)))"

definition refresh_expired_provider_quota ::
  "iso_parser \<Rightarrow> provider_config \<Rightarrow> timestamp \<Rightarrow> bool \<times> provider_config" where
  "refresh_expired_provider_quota parse_iso p now =
     (case provider_quota_status parse_iso p of
        None \<Rightarrow> (False, p)
      | Some quota \<Rightarrow>
          (case qs_reset_at quota of
             None \<Rightarrow> (False, p)
           | Some r \<Rightarrow>
               if r > now then (False, p)
               else (let q = p\<lparr>pc_configuration_metadata :=
                         json_pop ''quota_status'' (provider_metadata p)\<rparr>
                     in (True, if pc_state q = Prov_RATE_LIMITED
                               then q\<lparr>pc_state := Prov_DEGRADED, pc_last_error_code := None\<rparr>
                               else q))))"

subsection \<open>What is read back\<close>

lemma replace_Z_id: "CHR ''Z'' \<notin> set s \<Longrightarrow> replace_Z s = s"
  by (induction s) (auto simp: replace_Z_def)

lemma parse_printed [simp]:
  "iso_codec print_iso parse_iso \<Longrightarrow> parse_datetime parse_iso (Some (JStr (print_iso t))) = Some t"
  by (simp add: parse_datetime_def iso_codec_def replace_Z_id)

lemma parse_printed_opt [simp]:
  "iso_codec print_iso parse_iso \<Longrightarrow>
     parse_datetime parse_iso (Some (json_opt_str (map_option print_iso t))) = t"
  by (cases t) (simp_all add: json_opt_str_def parse_datetime_def iso_codec_def replace_Z_id)

lemma is_obj_metadata [simp]: "is_obj (provider_metadata p)"
  by (simp add: provider_metadata_def)

lemma metadata_of_update [simp]:
  "provider_metadata (p\<lparr>pc_configuration_metadata := d\<rparr>) = (if is_obj d then d else JObj [])"
  "provider_metadata (p\<lparr>pc_state := st\<rparr>) = provider_metadata p"
  "provider_metadata (p\<lparr>pc_last_error_code := e\<rparr>) = provider_metadata p"
  by (simp_all add: provider_metadata_def)

definition nonneg_opt :: "int option \<Rightarrow> bool" where
  "nonneg_opt v \<longleftrightarrow> (case v of None \<Rightarrow> True | Some n \<Rightarrow> 0 \<le> n)"

lemma json_nonneg_opt [simp]: "nonneg_opt v \<Longrightarrow> json_nonneg_int (Some (json_opt_int v)) = v"
  by (cases v) (simp_all add: nonneg_opt_def json_nonneg_int_opt)

lemma status_of_document:
  assumes "iso_codec print_iso parse_iso" and "nonneg_opt remaining" "nonneg_opt cap" "nonneg_opt window"
    and "json_get (provider_metadata p) ''quota_status'' =
      Some (quota_document print_iso remaining cap window reset_at observed)"
  shows "provider_quota_status parse_iso p = Some \<lparr>qs_remaining = remaining, qs_limit = cap,
    qs_window_seconds = window, qs_reset_at = reset_at, qs_observed_at = observed\<rparr>"
  using assms by (simp add: provider_quota_status_def quota_document_def)

lemma status_window_nonneg:
  "provider_quota_status parse_iso p = Some q \<Longrightarrow>
     nonneg_opt (qs_limit q) \<and> nonneg_opt (qs_window_seconds q) \<and> nonneg_opt (qs_remaining q)"
  by (auto simp: provider_quota_status_def nonneg_opt_def json_nonneg_int_Some
      split: option.splits json.splits)

lemma status_cong:
  "provider_metadata p = provider_metadata q \<Longrightarrow>
     provider_quota_status parse_iso p = provider_quota_status parse_iso q"
  by (simp add: provider_quota_status_def)

definition quota_fields_ok :: "quota_status \<Rightarrow> bool" where
  "quota_fields_ok q \<longleftrightarrow> nonneg_opt (dq_remaining q) \<and> nonneg_opt (dq_limit q) \<and>
     nonneg_opt (dq_window_seconds q)"

definition effective_reset :: "quota_status \<Rightarrow> timestamp \<Rightarrow> timestamp option" where
  "effective_reset q observed =
     (case dq_reset_at q of Some r \<Rightarrow> Some r
      | None \<Rightarrow> map_option (\<lambda>w. observed + seconds w) (dq_window_seconds q))"

lemma metadata_record:
  "provider_metadata (record_provider_quota print_iso p q observed) =
     json_pop ''automatic_backoff_until''
       (json_put ''quota_status''
         (quota_document print_iso (dq_remaining q) (dq_limit q) (dq_window_seconds q)
           (effective_reset q observed) observed) (provider_metadata p))"
  by (simp add: record_provider_quota_def Let_def provider_metadata_def effective_reset_def
      split: option.splits)

lemma status_record:
  "iso_codec print_iso parse_iso \<Longrightarrow> quota_fields_ok q \<Longrightarrow>
     provider_quota_status parse_iso (record_provider_quota print_iso p q observed) = Some
       \<lparr>qs_remaining = dq_remaining q, qs_limit = dq_limit q,
        qs_window_seconds = dq_window_seconds q, qs_reset_at = effective_reset q observed,
        qs_observed_at = observed\<rparr>"
  by (rule status_of_document) (simp_all add: quota_fields_ok_def metadata_record)

lemma reserve_record [simp]:
  "automatic_quota_reserve (record_provider_quota print_iso p q observed) = automatic_quota_reserve p"
  by (simp add: automatic_quota_reserve_def metadata_record)


text \<open>The reset moment an exhausted quota gets: known, from the window, or from the retry header.\<close>

definition limited_reset ::
  "quota_snapshot option \<Rightarrow> timestamp \<Rightarrow> json option \<Rightarrow> timestamp option" where
  "limited_reset current observed retry =
     (let retry_reset = map_option (\<lambda>w. observed + seconds w) (retry_window_of retry) in
      case current of None \<Rightarrow> retry_reset
      | Some c \<Rightarrow>
          (case qs_reset_at c of Some r \<Rightarrow> Some r
           | None \<Rightarrow> (case qs_window_seconds c of
               Some w \<Rightarrow> Some (observed + seconds w) | None \<Rightarrow> retry_reset)))"

lemma retry_window_nonneg: "nonneg_opt (retry_window_of retry)"
  by (auto simp: retry_window_of_def nonneg_opt_def split: option.splits json.splits)

lemma status_limited:
  assumes "iso_codec print_iso parse_iso"
  shows "\<exists>q. provider_quota_status parse_iso
      (record_provider_resolution_error print_iso parse_iso p ''source_quota_limited'' observed retry) =
        Some q \<and> qs_remaining q = Some 0 \<and>
      qs_reset_at q = limited_reset (provider_quota_status parse_iso p) observed retry"
proof -
  let ?cur = "provider_quota_status parse_iso p"
  let ?p = "record_provider_resolution_error print_iso parse_iso p ''source_quota_limited'' observed retry"
  let ?cap = "case ?cur of None \<Rightarrow> None | Some c \<Rightarrow> qs_limit c"
  let ?win = "case ?cur of None \<Rightarrow> retry_window_of retry | Some c \<Rightarrow> qs_window_seconds c"
  have md: "provider_metadata ?p = json_put ''quota_status''
      (quota_document print_iso (Some 0) ?cap ?win (limited_reset ?cur observed retry) observed)
      (provider_metadata p)"
    by (simp add: record_provider_resolution_error_def Let_def provider_metadata_def
        limited_reset_def split: option.splits)
  have "nonneg_opt ?cap" "nonneg_opt ?win"
    using status_window_nonneg [of parse_iso p] retry_window_nonneg [of retry]
    by (auto split: option.splits simp: nonneg_opt_def)
  then have "provider_quota_status parse_iso ?p = Some \<lparr>qs_remaining = Some 0, qs_limit = ?cap,
      qs_window_seconds = ?win, qs_reset_at = limited_reset ?cur observed retry,
      qs_observed_at = observed\<rparr>"
    by (intro status_of_document [OF assms]) (simp_all add: nonneg_opt_def md)
  then show ?thesis by simp
qed

text \<open>A provider whose source reports an exhausted quota is not used automatically until its
  reset moment and is usable from that moment on, when it is enabled; with no reset moment known
  it stays unused. Refreshing at or after the reset discards the stale capacity, moves the
  provider to the degraded state and changes nothing when repeated.\<close>

theorem quota_limited_until_reset:
  fixes p :: provider_config and observed :: timestamp and retry :: "json option"
  assumes "iso_codec print_iso parse_iso"
  defines "limited \<equiv> record_provider_resolution_error print_iso parse_iso p ''source_quota_limited''
      observed retry"
    and "reset \<equiv> limited_reset (provider_quota_status parse_iso p) observed retry"
  shows "automatic_quota_available parse_iso limited now =
       (pc_enabled p \<and> (case reset of None \<Rightarrow> False | Some r \<Rightarrow> r \<le> now)) \<and>
     (fst (refresh_expired_provider_quota parse_iso limited now) =
       (case reset of None \<Rightarrow> False | Some r \<Rightarrow> r \<le> now)) \<and>
     (let refreshed = snd (refresh_expired_provider_quota parse_iso limited now) in
        refresh_expired_provider_quota parse_iso refreshed now = (False, refreshed) \<and>
        pc_state refreshed = (case reset of None \<Rightarrow> Prov_RATE_LIMITED
          | Some r \<Rightarrow> if r \<le> now then Prov_DEGRADED else Prov_RATE_LIMITED))"
proof -
  obtain q where q: "provider_quota_status parse_iso limited = Some q" "qs_reset_at q = reset"
    using status_limited [OF assms(1)] unfolding limited_def reset_def by blast
  have st: "pc_state limited = Prov_RATE_LIMITED" and en: "pc_enabled limited = pc_enabled p"
    by (simp_all add: limited_def record_provider_resolution_error_def Let_def)
  have gone: "provider_quota_status parse_iso (limited\<lparr>pc_configuration_metadata :=
      json_pop ''quota_status'' (provider_metadata limited), pc_state := s, pc_last_error_code := e\<rparr>) = None"
    for s e by (simp add: provider_quota_status_def)
  show ?thesis
    by (cases reset)
      (simp_all add: automatic_quota_available_def refresh_expired_provider_quota_def q st en gone
        Let_def)
qed

text \<open>The reserve accepts exactly 0 to 100000, is read back as set, and does not touch the
  recorded telemetry; a provider with known remaining capacity at or below its reserve and no
  reset in the past is never used automatically.\<close>

theorem quota_reserve_protects:
  "(set_automatic_quota_reserve p n = None) = (n < 0 \<or> 100000 < n) \<and>
   (case set_automatic_quota_reserve p n of None \<Rightarrow> True
    | Some p' \<Rightarrow> automatic_quota_reserve p' = n \<and>
        provider_quota_status parse_iso p' = provider_quota_status parse_iso p) \<and>
   \<not> (automatic_quota_available parse_iso p now \<and>
      (case provider_quota_status parse_iso p of None \<Rightarrow> False
       | Some q \<Rightarrow> (case qs_reset_at q of None \<Rightarrow> True | Some r \<Rightarrow> now < r) \<and>
           (case qs_remaining q of None \<Rightarrow> False | Some k \<Rightarrow> k \<le> automatic_quota_reserve p)))"
proof -
  have "automatic_quota_reserve (p\<lparr>pc_configuration_metadata :=
        json_put ''automatic_quota_reserve'' (JInt n) (provider_metadata p)\<rparr>) = n" if "0 \<le> n"
    using that by (simp add: automatic_quota_reserve_def json_nonneg_int_def)
  moreover have "provider_quota_status parse_iso (p\<lparr>pc_configuration_metadata :=
        json_put ''automatic_quota_reserve'' (JInt n) (provider_metadata p)\<rparr>) =
      provider_quota_status parse_iso p"
    by (simp add: provider_quota_status_def)
  ultimately show ?thesis
    by (auto simp: set_automatic_quota_reserve_def automatic_quota_available_def Let_def
        split: option.splits if_splits)
qed

subsection \<open>A concrete provider\<close>

text \<open>A codec that meets the hypothesis, and a provider that has never reported its quota.\<close>

definition unary_print :: iso_printer where
  "unary_print t = (if 0 \<le> t then CHR ''p'' else CHR ''m'') # replicate (nat \<bar>t\<bar>) CHR ''1''"

fun unary_parse :: iso_parser where
  "unary_parse [] = None"
| "unary_parse (c # s) = Some (if c = CHR ''p'' then int (length s) else - int (length s), True)"

lemma unary_codec: "iso_codec unary_print unary_parse"
  by (auto simp: iso_codec_def unary_print_def)

definition sample_provider :: provider_config where
  "sample_provider = \<lparr>pc_id = 1,
     pc_provider_id = ''p'',
     pc_display_name = ''p'',
     pc_endpoint = ''p'',
     pc_enabled = True,
     pc_priority = 1,
     pc_state = Prov_HEALTHY,
     pc_negotiated_protocol = None,
     pc_trust_level = Trust_CUSTOM,
     pc_encrypted_bearer_token = None,
     pc_encrypted_configuration = JNull,
     pc_configuration_metadata = JNull,
     pc_manifest_snapshot = JNull,
     pc_resolver_enabled = True,
     pc_last_health_at = None,
     pc_last_tested_at = None,
     pc_last_error_code = None\<rparr>"

text \<open>Five units left of a reserve of five; the window closes an hour later.\<close>

definition sample_quota :: quota_status where
  "sample_quota = \<lparr>dq_remaining = Some 5, dq_limit = Some 20, dq_window_seconds = Some 3600,
     dq_reset_at = None\<rparr>"


theorem quota_limited_until_reset_witness:
  "\<not> automatic_quota_available unary_parse (record_provider_resolution_error unary_print unary_parse
       sample_provider ''source_quota_limited'' 0 (Some (JInt 60))) 59999999 \<and>
   automatic_quota_available unary_parse (record_provider_resolution_error unary_print unary_parse
       sample_provider ''source_quota_limited'' 0 (Some (JInt 60))) 60000000"
proof -
  have "provider_quota_status unary_parse sample_provider = None"
    by (simp add: provider_quota_status_def sample_provider_def provider_metadata_def)
  then show ?thesis
    unfolding quota_limited_until_reset [OF unary_codec, THEN conjunct1]
    by (simp add: limited_reset_def retry_window_of_def seconds_def sample_provider_def)
qed

end
