(* ===== verification/Job_Queue.thy ===== *)
theory Job_Queue
  imports Interfaces Json_Value "HOL-Library.Option_ord"
begin

text \<open>
  The serial queue of utility jobs (\<open>src/src/pullbox/utilities/job_queue*.py\<close>): the state machine,
  the order of the queue, creation, start, checkpoints, items, completion and recovery. The two
  tables are lists of rows; a text column holding a time is a string, and the clock reading of
  an operation and the identifiers it draws are its arguments. \<open>uj_config\<close> is the value whose JSON
  text the column holds.
\<close>

datatype job_state =
    JS_QUEUED | JS_RUNNING | JS_PAUSING | JS_PAUSED | JS_CANCELLING | JS_CANCELLED
  | JS_COMPLETED | JS_FAILED | JS_ROLLING_BACK | JS_ROLLED_BACK

datatype item_state =
    IS_PENDING | IS_IN_PROGRESS | IS_COMPLETED | IS_FAILED | IS_SKIPPED | IS_ROLLED_BACK
  | IS_ROLLBACK_FAILED

datatype item_result = IR_COMPLETED | IR_FAILED | IR_SKIPPED

definition JOB_ROLLBACK :: pystr where
  "JOB_ROLLBACK = ''rollback''"

record utility_job =
  uj_id :: pystr
  uj_job_type :: pystr
  uj_display_name :: pystr
  uj_state :: job_state
  uj_config :: json
  uj_total_items :: "int option"
  uj_completed_items :: "int option"
  uj_failed_items :: "int option"
  uj_skipped_items :: "int option"
  uj_warning_count :: "int option"
  uj_queue_position :: "int option"
  uj_created_at :: "pystr option"
  uj_started_at :: "pystr option"
  uj_paused_at :: "pystr option"
  uj_completed_at :: "pystr option"
  uj_error_message :: "pystr option"
  uj_created_by :: "pystr option"
  uj_parent_job_id :: "pystr option"

record utility_item =
  ui_id :: pystr
  ui_job_id :: pystr
  ui_item_index :: nat
  ui_state :: item_state
  ui_file_path :: "pystr option"
  ui_operation :: pystr
  ui_before_state :: json
  ui_after_state :: json
  ui_started_at :: "pystr option"
  ui_completed_at :: "pystr option"
  ui_duration_ms :: "int option"
  ui_error_message :: "pystr option"
  ui_warning_message :: "pystr option"
  ui_worker_id :: "int option"

record job_tables =
  jt_jobs :: "utility_job list"
  jt_items :: "utility_item list"

datatype queue_error =
    InvalidTransition job_state job_state
  | JobNotFound pystr
  | ResumeNotPaused job_state
  | NotCancellable job_state
  | RollbackOfRollback
  | NotRollbackable job_state
  | RollbackExists

subsection \<open>The state machine\<close>

fun VALID_TRANSITIONS :: "job_state \<Rightarrow> job_state list" where
  "VALID_TRANSITIONS JS_QUEUED = [JS_RUNNING, JS_CANCELLING, JS_FAILED]"
| "VALID_TRANSITIONS JS_RUNNING = [JS_COMPLETED, JS_PAUSING, JS_CANCELLING, JS_FAILED]"
| "VALID_TRANSITIONS JS_PAUSING = [JS_PAUSED, JS_FAILED]"
| "VALID_TRANSITIONS JS_PAUSED = [JS_RUNNING, JS_CANCELLING]"
| "VALID_TRANSITIONS JS_CANCELLING = [JS_CANCELLED, JS_FAILED]"
| "VALID_TRANSITIONS JS_CANCELLED = [JS_ROLLING_BACK]"
| "VALID_TRANSITIONS JS_COMPLETED = [JS_ROLLING_BACK]"
| "VALID_TRANSITIONS JS_FAILED = []"
| "VALID_TRANSITIONS JS_ROLLING_BACK = [JS_ROLLED_BACK, JS_FAILED]"
| "VALID_TRANSITIONS JS_ROLLED_BACK = []"

definition JOB_TERMINAL_STATES :: "job_state list" where
  "JOB_TERMINAL_STATES = [JS_COMPLETED, JS_FAILED, JS_CANCELLED, JS_ROLLED_BACK]"

definition CANCELLABLE_STATES :: "job_state list" where
  "CANCELLABLE_STATES = [JS_QUEUED, JS_RUNNING, JS_PAUSED]"

definition ROLLBACKABLE_STATES :: "job_state list" where
  "ROLLBACKABLE_STATES = [JS_COMPLETED, JS_CANCELLED]"

definition transition_job_state ::
  "pystr \<Rightarrow> utility_job \<Rightarrow> job_state \<Rightarrow> (queue_error, utility_job) result" where
  "transition_job_state now job new_state =
     (let current = uj_state job in
      if new_state \<notin> set (VALID_TRANSITIONS current) then Inl (InvalidTransition current new_state)
      else
        (let j = job\<lparr>uj_state := new_state\<rparr> in
         Inr (if new_state = JS_RUNNING then j\<lparr>uj_started_at := Some now\<rparr>
              else if new_state = JS_PAUSED then j\<lparr>uj_paused_at := Some now\<rparr>
              else if new_state \<in> set JOB_TERMINAL_STATES
              then j\<lparr>uj_completed_at := Some now, uj_queue_position := None\<rparr>
              else j)))"

subsection \<open>The tables\<close>

text \<open>\<open>session.get\<close> and the write of a changed row.\<close>

definition get_job :: "job_tables \<Rightarrow> pystr \<Rightarrow> utility_job option" where
  "get_job t i = find (\<lambda>j. uj_id j = i) (jt_jobs t)"

definition put_job :: "utility_job \<Rightarrow> job_tables \<Rightarrow> job_tables" where
  "put_job j t = t\<lparr>jt_jobs := map (\<lambda>k. if uj_id k = uj_id j then j else k) (jt_jobs t)\<rparr>"

definition add_job :: "utility_job \<Rightarrow> job_tables \<Rightarrow> job_tables" where
  "add_job j t = t\<lparr>jt_jobs := jt_jobs t @ [j]\<rparr>"

definition with_job ::
  "job_tables \<Rightarrow> pystr \<Rightarrow> (utility_job \<Rightarrow> (queue_error, 'a) result) \<Rightarrow> (queue_error, 'a) result" where
  "with_job t i f = (case get_job t i of None \<Rightarrow> Inl (JobNotFound i) | Some j \<Rightarrow> f j)"

subsection \<open>The order of the queue\<close>

definition queued_jobs :: "job_tables \<Rightarrow> utility_job list" where
  "queued_jobs t = filter (\<lambda>j. uj_state j = JS_QUEUED) (jt_jobs t)"

text \<open>\<open>max(queue_position)\<close> ignores rows without a position and is absent when there is none.\<close>

definition next_queue_position :: "job_tables \<Rightarrow> int" where
  "next_queue_position t =
     (let positions = List.map_filter uj_queue_position (queued_jobs t)
      in if positions = [] then 0 else Max (set positions) + 1)"

text \<open>In SQLite a missing value sorts before every present one.\<close>

definition queue_order_key :: "utility_job \<Rightarrow> int option \<times> pystr option \<times> pystr" where
  "queue_order_key j = (uj_queue_position j, uj_created_at j, uj_id j)"

definition queued_jobs_in_order :: "job_tables \<Rightarrow> utility_job list" where
  "queued_jobs_in_order t = sort_key queue_order_key (queued_jobs t)"

definition resequence_queued_jobs :: "utility_job list \<Rightarrow> job_tables \<Rightarrow> job_tables" where
  "resequence_queued_jobs ordered t =
     fold (\<lambda>(idx, j) u. put_job (j\<lparr>uj_queue_position := Some (int idx)\<rparr>) u) (enumerate 0 ordered) t"

text \<open>A text column is truthy when it is present and not empty.\<close>

definition has_started :: "utility_job \<Rightarrow> bool" where
  "has_started j \<longleftrightarrow> (case uj_started_at j of None \<Rightarrow> False | Some s \<Rightarrow> s \<noteq> [])"

definition build_resume_queue_order :: "utility_job \<Rightarrow> utility_job list \<Rightarrow> utility_job list" where
  "build_resume_queue_order resumed queued =
     filter has_started queued @ [resumed] @ filter (\<lambda>j. \<not> has_started j) queued"

subsection \<open>Creation\<close>

definition build_queued_job ::
  "pystr \<Rightarrow> pystr \<Rightarrow> pystr \<Rightarrow> pystr \<Rightarrow> json \<Rightarrow> int \<Rightarrow> pystr option \<Rightarrow> utility_job" where
  "build_queued_job new_id now job_type display_name config position created_by =
     \<lparr>uj_id = new_id, uj_job_type = job_type, uj_display_name = display_name, uj_state = JS_QUEUED,
      uj_config = config, uj_total_items = Some 0, uj_completed_items = Some 0,
      uj_failed_items = Some 0, uj_skipped_items = Some 0, uj_warning_count = Some 0,
      uj_queue_position = Some position, uj_created_at = Some now, uj_started_at = None,
      uj_paused_at = None, uj_completed_at = None, uj_error_message = None,
      uj_created_by = created_by, uj_parent_job_id = None\<rparr>"

definition build_rollback_job ::
  "pystr \<Rightarrow> pystr \<Rightarrow> utility_job \<Rightarrow> int \<Rightarrow> pystr option \<Rightarrow> utility_job" where
  "build_rollback_job new_id now parent position created_by =
     (build_queued_job new_id now JOB_ROLLBACK (''Rollback: '' @ uj_display_name parent)
       (JObj [(''parent_job_id'', JStr (uj_id parent))]) position created_by)
     \<lparr>uj_parent_job_id := Some (uj_id parent)\<rparr>"

definition create_job ::
  "pystr \<Rightarrow> pystr \<Rightarrow> job_tables \<Rightarrow> pystr \<Rightarrow> pystr \<Rightarrow> json \<Rightarrow> pystr option \<Rightarrow> utility_job \<times> job_tables" where
  "create_job new_id now t job_type display_name config created_by =
     (let j = build_queued_job new_id now job_type display_name config (next_queue_position t) created_by
      in (j, add_job j t))"

text \<open>The latest rollback child by creation time and identifier decides.\<close>

definition latest_rollback :: "job_tables \<Rightarrow> pystr \<Rightarrow> utility_job option" where
  "latest_rollback t parent_id =
     (case sort_key_reverse (\<lambda>j. (uj_created_at j, uj_id j))
        (filter (\<lambda>j. uj_parent_job_id j = Some parent_id \<and> uj_job_type j = JOB_ROLLBACK) (jt_jobs t)) of
        [] \<Rightarrow> None
      | j # _ \<Rightarrow> Some j)"

definition create_rollback_job ::
  "pystr \<Rightarrow> pystr \<Rightarrow> job_tables \<Rightarrow> utility_job \<Rightarrow> pystr option \<Rightarrow>
     (queue_error, utility_job \<times> job_tables) result" where
  "create_rollback_job new_id now t job created_by =
     (if (case latest_rollback t (uj_id job) of None \<Rightarrow> False
          | Some e \<Rightarrow> uj_state e \<notin> {JS_FAILED, JS_CANCELLED})
      then Inl RollbackExists
      else (let r = build_rollback_job new_id now job (next_queue_position t) created_by
            in Inr (r, add_job r t)))"

subsection \<open>Job controls\<close>

definition pause_job :: "pystr \<Rightarrow> job_tables \<Rightarrow> pystr \<Rightarrow> (queue_error, job_tables) result" where
  "pause_job now t i = with_job t i (\<lambda>job.
     bind_result (transition_job_state now job JS_PAUSING) (\<lambda>job'. Inr (put_job job' t)))"

definition resume_job :: "job_tables \<Rightarrow> pystr \<Rightarrow> (queue_error, job_tables) result" where
  "resume_job t i = with_job t i (\<lambda>job.
     if uj_state job \<noteq> JS_PAUSED then Inl (ResumeNotPaused (uj_state job))
     else (let queued = queued_jobs_in_order t;
               job' = job\<lparr>uj_state := JS_QUEUED\<rparr>;
               ordered = build_resume_queue_order job' queued
           in Inr (resequence_queued_jobs ordered (put_job job' t))))"

definition cancel_job ::
  "pystr \<Rightarrow> pystr \<Rightarrow> job_tables \<Rightarrow> pystr \<Rightarrow> bool \<Rightarrow> (queue_error, job_tables) result" where
  "cancel_job new_id now t i rollback = with_job t i (\<lambda>job.
     let current = uj_state job in
     if current \<notin> set CANCELLABLE_STATES then Inl (NotCancellable current)
     else bind_result
       (if current = JS_RUNNING then transition_job_state now job JS_CANCELLING
        else bind_result (transition_job_state now job JS_CANCELLING)
               (\<lambda>j. transition_job_state now j JS_CANCELLED))
       (\<lambda>job'. let t' = put_job job' t in
          if rollback
          then bind_result (create_rollback_job new_id now t' job' None) (\<lambda>(_, t''). Inr t'')
          else Inr t'))"

definition queue_rollback_job ::
  "pystr \<Rightarrow> pystr \<Rightarrow> job_tables \<Rightarrow> pystr \<Rightarrow> pystr option \<Rightarrow>
     (queue_error, utility_job \<times> job_tables) result" where
  "queue_rollback_job new_id now t i created_by = with_job t i (\<lambda>job.
     if uj_job_type job = JOB_ROLLBACK then Inl RollbackOfRollback
     else if uj_state job \<notin> set ROLLBACKABLE_STATES then Inl (NotRollbackable (uj_state job))
     else create_rollback_job new_id now t job created_by)"

text \<open>After a crash: interrupted jobs are paused, items in progress become pending again.\<close>

definition recover_item :: "utility_item \<Rightarrow> utility_item" where
  "recover_item x = (if ui_state x = IS_IN_PROGRESS
     then x\<lparr>ui_state := IS_PENDING, ui_started_at := None, ui_completed_at := None, ui_worker_id := None\<rparr>
     else x)"

definition recover_interrupted_jobs :: "pystr \<Rightarrow> job_tables \<Rightarrow> int \<times> job_tables" where
  "recover_interrupted_jobs now t =
     (let interrupted = filter (\<lambda>j. uj_state j \<in> {JS_RUNNING, JS_PAUSING}) (jt_jobs t)
      in (int (length interrupted),
          \<lparr>jt_jobs = map (\<lambda>j. if uj_state j \<in> {JS_RUNNING, JS_PAUSING}
               then j\<lparr>uj_state := JS_PAUSED, uj_paused_at := Some now\<rparr> else j) (jt_jobs t),
           jt_items = map recover_item (jt_items t)\<rparr>))"

subsection \<open>Starting the next job\<close>

definition load_next_dispatch_candidate :: "job_tables \<Rightarrow> utility_job option" where
  "load_next_dispatch_candidate t =
     (if list_ex (\<lambda>j. uj_state j = JS_RUNNING) (jt_jobs t) then None
      else (case queued_jobs_in_order t of [] \<Rightarrow> None | j # _ \<Rightarrow> Some j))"

definition mark_job_without_executor :: "pystr \<Rightarrow> utility_job \<Rightarrow> utility_job" where
  "mark_job_without_executor now j = j\<lparr>uj_state := JS_FAILED,
     uj_error_message := Some (''No executor registered for job type: '' @ uj_job_type j),
     uj_completed_at := Some now\<rparr>"

definition mark_job_started :: "pystr \<Rightarrow> utility_job \<Rightarrow> (queue_error, utility_job) result" where
  "mark_job_started now j = bind_result (transition_job_state now j JS_RUNNING)
     (\<lambda>j'. Inr (j'\<lparr>uj_started_at := Some now, uj_queue_position := None\<rparr>))"

datatype dispatch_start = Dispatch_idle | Dispatch_missing_executor | Dispatch_started pystr

text \<open>\<open>has_executor\<close> says for which job types an executor class is registered.\<close>

definition start_next_dispatch_job ::
  "(pystr \<Rightarrow> bool) \<Rightarrow> pystr \<Rightarrow> job_tables \<Rightarrow> (queue_error, dispatch_start \<times> job_tables) result" where
  "start_next_dispatch_job has_executor now t =
     (case load_next_dispatch_candidate t of
        None \<Rightarrow> Inr (Dispatch_idle, t)
      | Some job \<Rightarrow>
          if \<not> has_executor (uj_job_type job)
          then Inr (Dispatch_missing_executor, put_job (mark_job_without_executor now job) t)
          else bind_result (mark_job_started now job)
                 (\<lambda>j. Inr (Dispatch_started (uj_id j), put_job j t)))"

subsection \<open>Items\<close>

fun item_result_to_state :: "item_result option \<Rightarrow> item_state" where
  "item_result_to_state None = IS_FAILED"
| "item_result_to_state (Some IR_COMPLETED) = IS_COMPLETED"
| "item_result_to_state (Some IR_FAILED) = IS_FAILED"
| "item_result_to_state (Some IR_SKIPPED) = IS_SKIPPED"

text \<open>\<open>item_data.get("operation", "unknown")\<close> keeps a value that is not a string; the column holds text.\<close>

definition build_generated_job_items ::
  "(nat \<Rightarrow> pystr) \<Rightarrow> pystr \<Rightarrow> json list \<Rightarrow> utility_item list" where
  "build_generated_job_items item_id job_id items_data =
     map (\<lambda>(idx, d). \<lparr>ui_id = item_id idx, ui_job_id = job_id, ui_item_index = idx,
         ui_state = IS_PENDING,
         ui_file_path = (case json_get d ''file_path'' of Some (JStr s) \<Rightarrow> Some s | _ \<Rightarrow> None),
         ui_operation = (case json_get d ''operation'' of Some (JStr s) \<Rightarrow> s | _ \<Rightarrow> ''unknown''),
         ui_before_state = d, ui_after_state = JObj [], ui_started_at = None,
         ui_completed_at = None, ui_duration_ms = None, ui_error_message = None,
         ui_warning_message = None, ui_worker_id = None\<rparr>)
       (enumerate 0 items_data)"

definition pending_items_of :: "job_tables \<Rightarrow> pystr \<Rightarrow> utility_item list" where
  "pending_items_of t job_id =
     sort_key ui_item_index (filter (\<lambda>x. ui_job_id x = job_id \<and> ui_state x = IS_PENDING) (jt_items t))"

text \<open>Items are generated once; \<open>None\<close> is a job that was deleted meanwhile.\<close>

definition prepare_dispatch_items ::
  "(nat \<Rightarrow> pystr) \<Rightarrow> json list \<Rightarrow> job_tables \<Rightarrow> pystr \<Rightarrow> (utility_item list \<times> job_tables) option" where
  "prepare_dispatch_items item_id items_data t job_id =
     (if filter (\<lambda>x. ui_job_id x = job_id) (jt_items t) \<noteq> [] then Some (pending_items_of t job_id, t)
      else (case get_job t job_id of
              None \<Rightarrow> None
            | Some job \<Rightarrow>
                (let t1 = t\<lparr>jt_items := jt_items t @ build_generated_job_items item_id (uj_id job) items_data\<rparr>;
                     t2 = put_job (job\<lparr>uj_total_items := Some (int (length items_data))\<rparr>) t1
                 in Some (pending_items_of t2 job_id, t2))))"

definition mark_item_generation_failed ::
  "pystr \<Rightarrow> pystr \<Rightarrow> job_tables \<Rightarrow> pystr \<Rightarrow> (queue_error, bool \<times> job_tables) result" where
  "mark_item_generation_failed now exc t job_id =
     (case get_job t job_id of
        None \<Rightarrow> Inr (False, t)
      | Some job \<Rightarrow> bind_result (transition_job_state now job JS_FAILED) (\<lambda>j.
          Inr (True, put_job (j\<lparr>uj_error_message := Some (''Item generation failed: '' @ exc)\<rparr>) t)))"

subsection \<open>Checkpoints and batches\<close>

definition prepare_batch_checkpoint ::
  "pystr \<Rightarrow> job_tables \<Rightarrow> pystr \<Rightarrow> (queue_error, bool \<times> job_tables) result" where
  "prepare_batch_checkpoint now t job_id =
     (case get_job t job_id of
        None \<Rightarrow> Inr (True, t)
      | Some job \<Rightarrow>
          if uj_state job = JS_PAUSING
          then bind_result (transition_job_state now job JS_PAUSED) (\<lambda>j. Inr (False, put_job j t))
          else if uj_state job \<in> {JS_CANCELLING, JS_CANCELLED} then Inr (False, t)
          else Inr (True, t))"

definition mark_batch_items_in_progress ::
  "pystr \<Rightarrow> pystr list \<Rightarrow> job_tables \<Rightarrow> job_tables" where
  "mark_batch_items_in_progress started item_ids t =
     t\<lparr>jt_items := map (\<lambda>x. if ui_id x \<in> set item_ids
         then x\<lparr>ui_state := IS_IN_PROGRESS, ui_started_at := Some started, ui_completed_at := None,
                ui_worker_id := None\<rparr> else x) (jt_items t)\<rparr>"

definition lease_dispatch_batch ::
  "pystr \<Rightarrow> utility_item list \<Rightarrow> nat \<Rightarrow> nat \<Rightarrow> job_tables \<Rightarrow> utility_item list \<times> job_tables" where
  "lease_dispatch_batch started pending batch_start batch_size t =
     (let batch = take batch_size (drop batch_start pending)
      in (batch, mark_batch_items_in_progress started (map ui_id batch) t))"

record processed_item =
  pi_item_id :: pystr
  pi_result :: "item_result option"
  pi_before_state :: json
  pi_after_state :: json
  pi_duration_ms :: int
  pi_error_message :: "pystr option"
  pi_warning_message :: "pystr option"
  pi_worker_id :: "int option"

record run_summary =
  rs_completed :: int
  rs_failed :: int
  rs_skipped :: int
  rs_warnings :: int

definition str_truthy :: "pystr option \<Rightarrow> bool" where
  "str_truthy s \<longleftrightarrow> (case s of None \<Rightarrow> False | Some x \<Rightarrow> x \<noteq> [])"

definition build_processed_item_counter_delta :: "processed_item \<Rightarrow> int \<Rightarrow> int \<times> int \<times> int \<times> int" where
  "build_processed_item_counter_delta p warning_increment =
     (of_bool (pi_result p = Some IR_COMPLETED), of_bool (pi_result p = Some IR_FAILED),
      of_bool (pi_result p = Some IR_SKIPPED),
      warning_increment + of_bool (str_truthy (pi_warning_message p)))"

definition apply_processed_item_snapshot ::
  "pystr \<Rightarrow> item_state option \<Rightarrow> pystr option \<Rightarrow> processed_item \<Rightarrow> utility_item \<Rightarrow> utility_item" where
  "apply_processed_item_snapshot completed_at state error_message p x =
     x\<lparr>ui_state := or_else state (item_result_to_state (pi_result p)),
       ui_duration_ms := Some (pi_duration_ms p),
       ui_error_message := (if error_message \<noteq> None then error_message else pi_error_message p),
       ui_warning_message := pi_warning_message p, ui_worker_id := pi_worker_id p,
       ui_completed_at := Some completed_at,
       ui_before_state := (if truthy (pi_before_state p) then pi_before_state p else ui_before_state x),
       ui_after_state := (if truthy (pi_after_state p) then pi_after_state p else ui_after_state x)\<rparr>"

definition apply_job_counter_snapshot :: "run_summary \<Rightarrow> utility_job \<Rightarrow> utility_job" where
  "apply_job_counter_snapshot s j = j\<lparr>uj_completed_items := Some (rs_completed s),
     uj_failed_items := Some (rs_failed s), uj_skipped_items := Some (rs_skipped s),
     uj_warning_count := Some (rs_warnings s)\<rparr>"

definition build_dispatch_summary :: "utility_job option \<Rightarrow> run_summary" where
  "build_dispatch_summary job = (case job of
       None \<Rightarrow> \<lparr>rs_completed = 0, rs_failed = 0, rs_skipped = 0, rs_warnings = 0\<rparr>
     | Some j \<Rightarrow> \<lparr>rs_completed = or_else (uj_completed_items j) 0, rs_failed = or_else (uj_failed_items j) 0,
         rs_skipped = or_else (uj_skipped_items j) 0, rs_warnings = or_else (uj_warning_count j) 0\<rparr>)"

definition get_item :: "job_tables \<Rightarrow> pystr \<Rightarrow> utility_item option" where
  "get_item t i = find (\<lambda>x. ui_id x = i) (jt_items t)"

definition put_item :: "utility_item \<Rightarrow> job_tables \<Rightarrow> job_tables" where
  "put_item x t = t\<lparr>jt_items := map (\<lambda>y. if ui_id y = ui_id x then x else y) (jt_items t)\<rparr>"

definition snapshot_counters :: "run_summary \<Rightarrow> pystr \<Rightarrow> job_tables \<Rightarrow> job_tables" where
  "snapshot_counters s job_id t =
     (case get_job t job_id of None \<Rightarrow> t | Some j \<Rightarrow> put_job (apply_job_counter_snapshot s j) t)"

definition add_delta :: "int \<times> int \<times> int \<times> int \<Rightarrow> run_summary \<Rightarrow> run_summary" where
  "add_delta d s = (case d of (c, f, k, w) \<Rightarrow>
     \<lparr>rs_completed = rs_completed s + c, rs_failed = rs_failed s + f, rs_skipped = rs_skipped s + k,
      rs_warnings = rs_warnings s + w\<rparr>)"

text \<open>
  What happens to one result: it is stored (with the executor's warning increment and message),
  or storing it fails with an error and the item is recorded as failed.
\<close>

datatype persist_outcome = Stored int "pystr option" | Store_failed pystr

definition persist_processed_item_result ::
  "pystr \<Rightarrow> pystr \<Rightarrow> run_summary \<Rightarrow> processed_item \<Rightarrow> int \<Rightarrow> pystr option \<Rightarrow>
     job_tables \<Rightarrow> (run_summary \<times> job_tables) option" where
  "persist_processed_item_result now job_id s p warning_increment warning_message t =
     (case get_item t (pi_item_id p) of
        None \<Rightarrow> None
      | Some x \<Rightarrow>
          (let s' = add_delta (build_processed_item_counter_delta p warning_increment) s;
               x1 = apply_processed_item_snapshot now None None p x;
               x2 = (if str_truthy warning_message \<and> \<not> str_truthy (ui_warning_message x1)
                     then x1\<lparr>ui_warning_message := warning_message\<rparr> else x1)
           in Some (s', snapshot_counters s' job_id (put_item x2 t))))"

definition persist_processed_item_failure ::
  "pystr \<Rightarrow> pystr \<Rightarrow> run_summary \<Rightarrow> processed_item \<Rightarrow> pystr \<Rightarrow> job_tables \<Rightarrow> (run_summary \<times> job_tables) option" where
  "persist_processed_item_failure now job_id s p err t =
     (case get_item t (pi_item_id p) of
        None \<Rightarrow> None
      | Some x \<Rightarrow>
          (let s' = add_delta (0, 1, 0, of_bool (str_truthy (pi_warning_message p))) s
           in Some (s', snapshot_counters s' job_id
                (put_item (apply_processed_item_snapshot now (Some IS_FAILED)
                  (Some (''Result persistence failed: '' @ err)) p x) t))))"

definition build_batch_dispatch_failure_item :: "pystr \<Rightarrow> pystr \<Rightarrow> processed_item" where
  "build_batch_dispatch_failure_item i exc =
     \<lparr>pi_item_id = i, pi_result = Some IR_FAILED, pi_before_state = JObj [], pi_after_state = JObj [],
      pi_duration_ms = 0, pi_error_message = Some (''Batch dispatch failed: '' @ exc),
      pi_warning_message = None, pi_worker_id = None\<rparr>"

definition persist_batch_dispatch_failure_item ::
  "pystr \<Rightarrow> pystr \<Rightarrow> run_summary \<Rightarrow> processed_item \<Rightarrow> job_tables \<Rightarrow> (run_summary \<times> job_tables) option" where
  "persist_batch_dispatch_failure_item now job_id s p t =
     (case get_item t (pi_item_id p) of
        None \<Rightarrow> None
      | Some x \<Rightarrow>
          (let s' = add_delta (0, 1, 0, 0) s
           in Some (s', snapshot_counters s' job_id
                (put_item (apply_processed_item_snapshot now None None p x) t))))"

text \<open>
  One batch. The stream of the worker pool is a list of results with the outcome of storing each
  of them, and an optional error that ends it; then every item of the batch without a stored
  result is recorded as failed.
\<close>

fun consume_stream ::
  "pystr \<Rightarrow> pystr \<Rightarrow> pystr list \<Rightarrow> (processed_item \<times> persist_outcome) list \<Rightarrow> pystr list \<Rightarrow>
     run_summary \<times> job_tables \<Rightarrow> pystr list \<times> run_summary \<times> job_tables" where
  "consume_stream now job_id batch_ids [] seen st = (seen, st)"
| "consume_stream now job_id batch_ids ((p, outcome) # stream) seen (s, t) =
     (if pi_item_id p \<notin> set batch_ids then consume_stream now job_id batch_ids stream seen (s, t)
      else (case (case outcome of
              Stored w m \<Rightarrow> persist_processed_item_result now job_id s p w m t
            | Store_failed err \<Rightarrow> persist_processed_item_failure now job_id s p err t) of
          None \<Rightarrow> consume_stream now job_id batch_ids stream seen (s, t)
        | Some st' \<Rightarrow> consume_stream now job_id batch_ids stream (pi_item_id p # seen) st'))"

definition remaining_batch_item_ids :: "pystr list \<Rightarrow> pystr list \<Rightarrow> pystr list" where
  "remaining_batch_item_ids batch_ids seen = filter (\<lambda>i. i \<notin> set seen) batch_ids"

fun fail_items :: "pystr \<Rightarrow> pystr \<Rightarrow> pystr \<Rightarrow> pystr list \<Rightarrow> run_summary \<times> job_tables \<Rightarrow> run_summary \<times> job_tables" where
  "fail_items now job_id exc [] st = st"
| "fail_items now job_id exc (i # is) (s, t) =
     fail_items now job_id exc is
       (case persist_batch_dispatch_failure_item now job_id s (build_batch_dispatch_failure_item i exc) t of
          None \<Rightarrow> (s, t)
        | Some st' \<Rightarrow> st')"

definition process_dispatch_batch ::
  "pystr \<Rightarrow> pystr \<Rightarrow> utility_item list \<Rightarrow> (processed_item \<times> persist_outcome) list \<Rightarrow> pystr option \<Rightarrow>
     run_summary \<times> job_tables \<Rightarrow> run_summary \<times> job_tables" where
  "process_dispatch_batch now job_id batch stream failure st =
     (let batch_ids = map ui_id batch;
          (seen, st') = consume_stream now job_id batch_ids stream [] st
      in (case failure of
            None \<Rightarrow> st'
          | Some exc \<Rightarrow> fail_items now job_id exc (remaining_batch_item_ids batch_ids seen) st'))"

subsection \<open>Completion\<close>

datatype log_level = Log_INFO | Log_WARNING | Log_ERROR

record completion_decision =
  cd_target_state :: job_state
  cd_message :: pystr
  cd_log_level :: log_level
  cd_error_message :: "pystr option"

text \<open>\<open>str\<close> of an integer is the argument \<open>show_int\<close>.\<close>

definition build_completion_decision ::
  "(int \<Rightarrow> pystr) \<Rightarrow> job_state \<Rightarrow> pystr \<Rightarrow> run_summary \<Rightarrow> completion_decision" where
  "build_completion_decision show_int current job_type s =
     (let c = show_int (rs_completed s); f = show_int (rs_failed s); k = show_int (rs_skipped s) in
      if current = JS_CANCELLING then
        \<lparr>cd_target_state = JS_CANCELLED,
         cd_message = ''Job cancelled. '' @ c @ '' completed, '' @ f @ '' failed, '' @ k @ '' skipped.'',
         cd_log_level = Log_WARNING, cd_error_message = None\<rparr>
      else if rs_failed s > 0 \<and> rs_completed s = 0 then
        \<lparr>cd_target_state = JS_FAILED, cd_message = ''Job failed. All '' @ f @ '' items failed.'',
         cd_log_level = Log_ERROR, cd_error_message = Some (''All '' @ f @ '' items failed'')\<rparr>
      else if job_type = JOB_ROLLBACK \<and> rs_failed s > 0 then
        \<lparr>cd_target_state = JS_FAILED,
         cd_message = ''Rollback failed. '' @ c @ '' rolled back, '' @ f @ '' failed.'',
         cd_log_level = Log_ERROR,
         cd_error_message = Some (''Rollback failed. '' @ c @ '' items rolled back, '' @ f @ '' failed.'')\<rparr>
      else
        \<lparr>cd_target_state = JS_COMPLETED,
         cd_message = ''Job completed. '' @ c @ '' succeeded'' @
           (if rs_failed s > 0 then '', '' @ f @ '' failed'' else []) @
           (if rs_skipped s > 0 then '', '' @ k @ '' skipped'' else []) @ ''.'',
         cd_log_level = Log_INFO, cd_error_message = None\<rparr>)"

datatype finalization = Fin_missing | Fin_paused | Fin_completed

text \<open>\<open>executor_error\<close> is the error message of the executor's own finalisation.\<close>

definition finalize_dispatch_job ::
  "(int \<Rightarrow> pystr) \<Rightarrow> pystr \<Rightarrow> pystr option \<Rightarrow> run_summary \<Rightarrow> pystr \<Rightarrow> job_tables \<Rightarrow> pystr \<Rightarrow>
     (queue_error, finalization \<times> job_tables) result" where
  "finalize_dispatch_job show_int now executor_error s job_type t job_id =
     (case get_job t job_id of
        None \<Rightarrow> Inr (Fin_missing, t)
      | Some job0 \<Rightarrow>
          (let job = apply_job_counter_snapshot s job0 in
           if uj_state job = JS_PAUSED then Inr (Fin_paused, put_job job t)
           else (let d = build_completion_decision show_int (uj_state job) job_type s
                 in bind_result (transition_job_state now job (cd_target_state d)) (\<lambda>j.
                    let j1 = (if str_truthy (cd_error_message d)
                              then j\<lparr>uj_error_message := cd_error_message d\<rparr> else j);
                        j2 = (if str_truthy executor_error then j1\<lparr>uj_error_message := executor_error\<rparr> else j1)
                    in Inr (Fin_completed, put_job j2 t)))))"

subsection \<open>Laws of the state machine\<close>

lemmas job_state_defs = JOB_TERMINAL_STATES_def CANCELLABLE_STATES_def ROLLBACKABLE_STATES_def

interpretation job: lifecycle VALID_TRANSITIONS "\<lambda>s. s \<in> {JS_FAILED, JS_ROLLED_BACK}"
proof unfold_locales
  show "s \<in> {JS_FAILED, JS_ROLLED_BACK} \<Longrightarrow> VALID_TRANSITIONS s = []" for s by auto
  show "s \<notin> set (VALID_TRANSITIONS s)" for s by (cases s) auto
qed

lemma transition_job_effect:
  assumes "transition_job_state now j s = Inr j'"
  shows "s \<in> set (VALID_TRANSITIONS (uj_state j))" "uj_state j' = s" "uj_id j' = uj_id j"
    "uj_job_type j' = uj_job_type j" "s \<in> set JOB_TERMINAL_STATES \<Longrightarrow> uj_completed_at j' = Some now"
  using assms by (auto simp: transition_job_state_def Let_def job_state_defs split: if_splits)

lemma transition_job_ok:
  "is_ok (transition_job_state now j s) \<longleftrightarrow> s \<in> set (VALID_TRANSITIONS (uj_state j))"
  by (simp add: transition_job_state_def Let_def)

subsection \<open>Laws of the tables\<close>

text \<open>
  The invariant of the job table: identifiers are unique, queued jobs have distinct positions
  and finished jobs have an end time.
\<close>

definition queue_inv :: "job_tables \<Rightarrow> bool" where
  "queue_inv t \<longleftrightarrow> distinct (map uj_id (jt_jobs t)) \<and>
     (\<forall>j \<in> set (jt_jobs t). uj_state j = JS_QUEUED \<longrightarrow> uj_queue_position j \<noteq> None) \<and>
     distinct (map uj_queue_position (queued_jobs t)) \<and>
     (\<forall>j \<in> set (jt_jobs t). uj_state j \<in> set JOB_TERMINAL_STATES \<longrightarrow> uj_completed_at j \<noteq> None)"

lemma get_job_Some: "get_job t i = Some j \<Longrightarrow> j \<in> set (jt_jobs t) \<and> uj_id j = i"
  unfolding get_job_def by (rule find_SomeD)

lemma with_job_Inr: "with_job t i f = Inr r \<longleftrightarrow> (\<exists>j. get_job t i = Some j \<and> f j = Inr r)"
  by (auto simp: with_job_def split: option.splits)

lemma jobs_put: "jt_jobs (put_job j t) = map (\<lambda>k. if uj_id k = uj_id j then j else k) (jt_jobs t)"
  by (simp add: put_job_def)

lemma ids_put [simp]: "map uj_id (jt_jobs (put_job j t)) = map uj_id (jt_jobs t)"
  by (simp add: jobs_put)

lemma items_put [simp]: "jt_items (put_job j t) = jt_items t"
  by (simp add: put_job_def)

lemma set_jobs_put:
  "k \<in> set (jt_jobs (put_job j t)) \<Longrightarrow> k = j \<or> (k \<in> set (jt_jobs t) \<and> uj_id k \<noteq> uj_id j)"
  by (auto simp: jobs_put)

lemma queued_put:
  assumes "uj_state j \<noteq> JS_QUEUED"
  shows "queued_jobs (put_job j t) = filter (\<lambda>k. uj_id k \<noteq> uj_id j) (queued_jobs t)"
proof -
  have "filter (\<lambda>j. uj_state j = JS_QUEUED) (map (\<lambda>k. if uj_id k = uj_id j then j else k) ks) =
      filter (\<lambda>k. uj_id k \<noteq> uj_id j) (filter (\<lambda>j. uj_state j = JS_QUEUED) ks)" for ks
    using assms by (induction ks) auto
  then show ?thesis by (simp add: queued_jobs_def jobs_put)
qed

lemma queue_inv_put:
  assumes "queue_inv t" and "uj_state j \<noteq> JS_QUEUED"
    and "uj_state j \<in> set JOB_TERMINAL_STATES \<Longrightarrow> uj_completed_at j \<noteq> None"
  shows "queue_inv (put_job j t)"
  using assms
  by (auto simp: queue_inv_def queued_put distinct_map_filter dest: set_jobs_put)

lemma set_map_filter_position:
  "set (List.map_filter uj_queue_position js) = {p. \<exists>j \<in> set js. uj_queue_position j = Some p}"
  by (induction js) (auto simp: List.map_filter_simps split: option.splits)

lemma next_position_fresh:
  "j \<in> set (queued_jobs t) \<Longrightarrow> uj_queue_position j \<noteq> Some (next_queue_position t)"
proof
  assume j: "j \<in> set (queued_jobs t)" and p: "uj_queue_position j = Some (next_queue_position t)"
  let ?ps = "List.map_filter uj_queue_position (queued_jobs t)"
  have m: "next_queue_position t \<in> set ?ps"
    using j p by (auto simp: set_map_filter_position)
  then have "?ps \<noteq> []" by auto
  then have "next_queue_position t = Max (set ?ps) + 1" by (simp add: next_queue_position_def)
  moreover have "next_queue_position t \<le> Max (set ?ps)" using m by (intro Max_ge) simp_all
  ultimately show False by simp
qed

lemma queue_inv_add:
  assumes "queue_inv t" and "uj_id j \<notin> uj_id ` set (jt_jobs t)" and "uj_state j = JS_QUEUED"
    and "uj_queue_position j = Some (next_queue_position t)"
  shows "queue_inv (add_job j t)"
proof -
  have "queued_jobs (add_job j t) = queued_jobs t @ [j]"
    using assms(3) by (simp add: queued_jobs_def add_job_def)
  moreover have "uj_queue_position j \<notin> uj_queue_position ` set (queued_jobs t)"
    using next_position_fresh [of _ t] assms(4) by (metis (no_types, lifting) imageE)
  ultimately have "distinct (map uj_queue_position (queued_jobs (add_job j t)))"
    using assms(1) by (simp add: queue_inv_def)
  with assms show ?thesis
    by (auto simp: queue_inv_def add_job_def job_state_defs)
qed

subsection \<open>Resuming\<close>

lemma fold_put_jobs:
  "distinct (map uj_id js) \<Longrightarrow> jt_jobs (fold put_job js t) =
     map (\<lambda>k. case find (\<lambda>j. uj_id j = uj_id k) js of None \<Rightarrow> k | Some j \<Rightarrow> j) (jt_jobs t)"
proof (induction js arbitrary: t)
  case Nil
  then show ?case by (simp add: id_def)
next
  case (Cons j js)
  have "find (\<lambda>x. uj_id x = uj_id j) js = None"
    using Cons.prems by (auto simp: find_None_all image_iff)
  with Cons show ?case by (auto simp: jobs_put)
qed

definition positioned :: "utility_job list \<Rightarrow> utility_job list" where
  "positioned ordered = map (\<lambda>(idx, j). j\<lparr>uj_queue_position := Some (int idx)\<rparr>) (enumerate 0 ordered)"

lemma resequence_fold: "resequence_queued_jobs ordered t = fold put_job (positioned ordered) t"
  by (simp add: resequence_queued_jobs_def positioned_def fold_map comp_def case_prod_unfold)

lemma positioned_nth: "i < length ordered \<Longrightarrow>
    positioned ordered ! i = (ordered ! i)\<lparr>uj_queue_position := Some (int i)\<rparr>"
  by (simp add: positioned_def nth_enumerate_eq)

lemma positioned_length [simp]: "length (positioned ordered) = length ordered"
  by (simp add: positioned_def)

lemma positioned_maps [simp]:
  "map uj_id (positioned ordered) = map uj_id ordered"
  "map uj_state (positioned ordered) = map uj_state ordered"
  by (rule nth_equalityI; simp add: positioned_nth)+

lemma positioned_positions: "map uj_queue_position (positioned ordered) = map (\<lambda>i. Some (int i)) [0..<length ordered]"
  by (rule nth_equalityI) (simp_all add: positioned_nth)

lemma positioned_sorted: "sorted (map queue_order_key (positioned ordered))"
  by (rule sorted_wrt_iff_nth_less [THEN iffD2])
    (simp add: positioned_nth queue_order_key_def less_eq_prod_def)

text \<open>Rewriting the rows of the whole queue makes the given order the order of the queue.\<close>

lemma resequence_whole_queue:
  assumes ids: "distinct (map uj_id (jt_jobs t))" and dist: "distinct (map uj_id ordered)"
    and all: "uj_id ` set ordered = uj_id ` set (queued_jobs t)"
    and queued: "\<And>j. j \<in> set ordered \<Longrightarrow> uj_state j = JS_QUEUED"
  shows "queued_jobs_in_order (resequence_queued_jobs ordered t) = positioned ordered"
    and "map uj_id (jt_jobs (resequence_queued_jobs ordered t)) = map uj_id (jt_jobs t)"
    and "filter (\<lambda>j. uj_state j \<noteq> JS_QUEUED) (jt_jobs (resequence_queued_jobs ordered t)) =
      filter (\<lambda>j. uj_state j \<noteq> JS_QUEUED) (jt_jobs t)"
proof -
  let ?ps = "positioned ordered"
  let ?row = "\<lambda>k. case find (\<lambda>j. uj_id j = uj_id k) ?ps of None \<Rightarrow> k | Some j \<Rightarrow> j"
  have dp: "distinct (map uj_id ?ps)" using dist by simp
  have jobs: "jt_jobs (resequence_queued_jobs ordered t) = map ?row (jt_jobs t)"
    unfolding resequence_fold by (rule fold_put_jobs [OF dp])
  have row_id: "uj_id (?row k) = uj_id k" for k
    by (auto split: option.splits dest: find_SomeD)
  then show ids': "map uj_id (jt_jobs (resequence_queued_jobs ordered t)) = map uj_id (jt_jobs t)"
    unfolding jobs by simp
  have qs: "uj_state p = JS_QUEUED" if "p \<in> set ?ps" for p
  proof -
    have "uj_state p \<in> set (map uj_state ?ps)" using that unfolding set_map by (rule imageI)
    then show ?thesis unfolding positioned_maps using queued by auto
  qed
  have ids_ps: "uj_id ` set ?ps = uj_id ` set (queued_jobs t)"
    using all by (metis list.set_map positioned_maps(1))
  have row_queued: "?row k \<in> set ?ps" if "k \<in> set (queued_jobs t)" for k
  proof -
    have "uj_id k \<in> uj_id ` set ?ps" using that ids_ps by simp
    then have "find (\<lambda>j. uj_id j = uj_id k) ?ps \<noteq> None" by (auto simp: find_None_all)
    then show ?thesis by (auto dest: find_SomeD)
  qed
  have row_other: "?row k = k" if "k \<in> set (jt_jobs t)" "uj_state k \<noteq> JS_QUEUED" for k
  proof -
    have "uj_id k \<notin> uj_id ` set (queued_jobs t)"
    proof
      assume "uj_id k \<in> uj_id ` set (queued_jobs t)"
      then obtain q where "q \<in> set (jt_jobs t)" "uj_state q = JS_QUEUED" "uj_id q = uj_id k"
        by (auto simp: queued_jobs_def)
      with that ids show False by (auto simp: distinct_map dest: inj_onD)
    qed
    then have "find (\<lambda>j. uj_id j = uj_id k) ?ps = None"
      unfolding find_None_all using ids_ps by (metis imageI)
    then show ?thesis by simp
  qed
  have state: "uj_state (?row k) = JS_QUEUED \<longleftrightarrow> uj_state k = JS_QUEUED" if "k \<in> set (jt_jobs t)" for k
  proof (cases "uj_state k = JS_QUEUED")
    case True
    with that have "?row k \<in> set ?ps" by (intro row_queued) (simp add: queued_jobs_def)
    with True show ?thesis using qs by blast
  next
    case False
    from row_other [OF that this] show ?thesis by (rule arg_cong)
  qed
  show "filter (\<lambda>j. uj_state j \<noteq> JS_QUEUED) (jt_jobs (resequence_queued_jobs ordered t)) =
      filter (\<lambda>j. uj_state j \<noteq> JS_QUEUED) (jt_jobs t)"
    unfolding jobs filter_map comp_def using state row_other
    by (auto intro!: map_idI simp: filter_cong [of "jt_jobs t", OF refl, of "\<lambda>k. uj_state (?row k) \<noteq> JS_QUEUED" "\<lambda>k. uj_state k \<noteq> JS_QUEUED"])
  have q': "queued_jobs (resequence_queued_jobs ordered t) = map ?row (queued_jobs t)"
    unfolding queued_jobs_def jobs filter_map comp_def
    using state by (auto intro!: arg_cong [where f = "map ?row"] filter_cong)
  have dq': "distinct (map uj_id (queued_jobs (resequence_queued_jobs ordered t)))"
    using ids unfolding queued_jobs_def by (intro distinct_map_filter) (simp only: ids')
  have sub: "set (queued_jobs (resequence_queued_jobs ordered t)) \<subseteq> set ?ps"
    unfolding q' using row_queued by auto
  have "mset (queued_jobs (resequence_queued_jobs ordered t)) = mset ?ps"
  proof -
    have "set (queued_jobs (resequence_queued_jobs ordered t)) = set ?ps"
    proof (rule card_seteq [OF _ sub])
      have "card (set ?ps) = length ?ps" using dp by (simp only: distinct_card distinct_map)
      also have "\<dots> = card (uj_id ` set ?ps)" using dp by (metis distinct_card length_map list.set_map)
      also have "\<dots> = card (uj_id ` set (queued_jobs (resequence_queued_jobs ordered t)))"
        unfolding ids_ps q' using row_id by (simp add: image_image)
      also have "\<dots> \<le> card (set (queued_jobs (resequence_queued_jobs ordered t)))"
        by (rule card_image_le) simp
      finally show "card (set ?ps) \<le> card (set (queued_jobs (resequence_queued_jobs ordered t)))" .
    qed simp
    then show ?thesis using dq' dp by (metis distinct_map set_eq_iff_mset_eq_distinct)
  qed
  moreover have "inj_on queue_order_key (set (queued_jobs (resequence_queued_jobs ordered t)))"
    using dq' by (auto simp: queue_order_key_def distinct_map inj_on_def)
  ultimately have "queued_jobs_in_order (resequence_queued_jobs ordered t) = sort_key queue_order_key ?ps"
    unfolding queued_jobs_in_order_def by (rule sort_key_eqI_mset)
  also have "\<dots> = ?ps" by (rule sort_key_of_sorted [OF positioned_sorted])
  finally show "queued_jobs_in_order (resequence_queued_jobs ordered t) = ?ps" .
qed

lemma queued_id_notin:
  assumes "distinct (map uj_id (jt_jobs t))" and "j \<in> set (jt_jobs t)" and "uj_state j \<noteq> JS_QUEUED"
  shows "uj_id j \<notin> uj_id ` set (queued_jobs t)"
  using assms by (auto simp: queued_jobs_def distinct_map dest: inj_onD)

lemma resume_order_facts:
  assumes inv: "queue_inv t" and res: "resume_job t i = Inr t'"
  obtains job where "get_job t i = Some job" "uj_state job = JS_PAUSED"
    "queued_jobs_in_order t' = positioned (build_resume_queue_order (job\<lparr>uj_state := JS_QUEUED\<rparr>)
       (queued_jobs_in_order t))"
    "map uj_id (jt_jobs t') = map uj_id (jt_jobs t)"
    "filter (\<lambda>j. uj_state j \<noteq> JS_QUEUED) (jt_jobs t') =
       filter (\<lambda>j. uj_state j \<noteq> JS_QUEUED \<and> uj_id j \<noteq> i) (jt_jobs t)"
proof -
  from res obtain job where job: "get_job t i = Some job" "uj_state job = JS_PAUSED"
    and t': "t' = resequence_queued_jobs (build_resume_queue_order (job\<lparr>uj_state := JS_QUEUED\<rparr>)
       (queued_jobs_in_order t)) (put_job (job\<lparr>uj_state := JS_QUEUED\<rparr>) t)"
    by (auto simp: resume_job_def with_job_Inr Let_def split: if_splits)
  let ?job' = "job\<lparr>uj_state := JS_QUEUED\<rparr>"
  let ?qs = "queued_jobs_in_order t" and ?u = "put_job ?job' t"
  let ?ord = "build_resume_queue_order ?job' ?qs"
  from get_job_Some [OF job(1)] have mem: "job \<in> set (jt_jobs t)" "uj_id job = i" by simp_all
  have ids: "distinct (map uj_id (jt_jobs t))" using inv by (simp add: queue_inv_def)
  have set_qs: "set ?qs = set (queued_jobs t)" by (simp add: queued_jobs_in_order_def)
  have notin: "uj_id job \<notin> uj_id ` set (queued_jobs t)"
    using queued_id_notin [OF ids mem(1)] job(2) by simp
  have dq: "distinct (map uj_id ?qs)"
  proof -
    have "mset (map uj_id ?qs) = mset (map uj_id (queued_jobs t))"
      by (simp add: queued_jobs_in_order_def)
    moreover have "distinct (map uj_id (queued_jobs t))"
      using ids unfolding queued_jobs_def by (rule distinct_map_filter)
    ultimately show ?thesis by (metis mset_eq_imp_distinct_iff)
  qed
  have set_ord: "set ?ord = insert ?job' (set (queued_jobs t))"
    using set_qs by (auto simp: build_resume_queue_order_def)
  have "distinct (map uj_id ?ord)"
    using dq notin set_qs distinct_map_filter [OF dq, of has_started]
      distinct_map_filter [OF dq, of "\<lambda>j. \<not> has_started j"]
    by (auto simp: build_resume_queue_order_def distinct_map dest: inj_onD)
  moreover have "set (queued_jobs ?u) = insert ?job' (set (queued_jobs t))"
  proof -
    have ne: "uj_id x \<noteq> uj_id job" if "x \<in> set (queued_jobs t)" for x
      using notin that by (metis imageI)
    then show ?thesis using mem by (auto simp: queued_jobs_def jobs_put image_iff)
  qed
  moreover have "uj_state j = JS_QUEUED" if "j \<in> set ?ord" for j
    using that set_ord by (auto simp: queued_jobs_def)
  moreover have "distinct (map uj_id (jt_jobs ?u))" using ids by simp
  ultimately have whole: "queued_jobs_in_order t' = positioned ?ord"
    "map uj_id (jt_jobs t') = map uj_id (jt_jobs ?u)"
    "filter (\<lambda>j. uj_state j \<noteq> JS_QUEUED) (jt_jobs t') = filter (\<lambda>j. uj_state j \<noteq> JS_QUEUED) (jt_jobs ?u)"
    using resequence_whole_queue [of ?u ?ord] set_ord unfolding t' by simp_all
  have "filter (\<lambda>j. uj_state j \<noteq> JS_QUEUED) (map (\<lambda>k. if uj_id k = i then ?job' else k) ks) =
      filter (\<lambda>j. uj_state j \<noteq> JS_QUEUED \<and> uj_id j \<noteq> i) ks" for ks
    by (induction ks) auto
  with whole show thesis using that [OF job] mem(2) by (simp add: jobs_put)
qed

lemma queued_in_order_distinct_positions:
  "distinct (map uj_queue_position (queued_jobs_in_order t)) =
     distinct (map uj_queue_position (queued_jobs t))"
proof -
  have "mset (map uj_queue_position (queued_jobs_in_order t)) = mset (map uj_queue_position (queued_jobs t))"
    by (simp add: queued_jobs_in_order_def)
  then show ?thesis by (rule mset_eq_imp_distinct_iff)
qed

lemma resume_inv:
  assumes inv: "queue_inv t" and res: "resume_job t i = Inr t'"
  shows "queue_inv t'"
proof -
  obtain job where job: "get_job t i = Some job"
    and q: "queued_jobs_in_order t' = positioned (build_resume_queue_order (job\<lparr>uj_state := JS_QUEUED\<rparr>)
       (queued_jobs_in_order t))"
    and ids: "map uj_id (jt_jobs t') = map uj_id (jt_jobs t)"
    and other: "filter (\<lambda>j. uj_state j \<noteq> JS_QUEUED) (jt_jobs t') =
       filter (\<lambda>j. uj_state j \<noteq> JS_QUEUED \<and> uj_id j \<noteq> i) (jt_jobs t)"
    using inv res by (rule resume_order_facts)
  have "distinct (map uj_queue_position (queued_jobs t'))"
    unfolding queued_in_order_distinct_positions [symmetric] q positioned_positions
    by (simp add: distinct_map inj_on_def)
  moreover have "uj_queue_position j \<noteq> None" if "j \<in> set (jt_jobs t')" "uj_state j = JS_QUEUED" for j
  proof -
    have "j \<in> set (queued_jobs_in_order t')"
      using that by (simp add: queued_jobs_in_order_def queued_jobs_def)
    then have "uj_queue_position j \<in> set (map uj_queue_position (queued_jobs_in_order t'))" by simp
    then show ?thesis unfolding q positioned_positions by auto
  qed
  moreover have "uj_completed_at j \<noteq> None"
    if "j \<in> set (jt_jobs t')" "uj_state j \<in> set JOB_TERMINAL_STATES" for j
  proof -
    have "j \<in> set (filter (\<lambda>j. uj_state j \<noteq> JS_QUEUED) (jt_jobs t'))"
      using that by (auto simp: job_state_defs)
    then have "j \<in> set (jt_jobs t)" unfolding other by simp
    with inv that(2) show ?thesis by (auto simp: queue_inv_def)
  qed
  moreover have "distinct (map uj_id (jt_jobs t'))" unfolding ids using inv by (simp add: queue_inv_def)
  ultimately show ?thesis unfolding queue_inv_def by blast
qed

text \<open>Resuming a paused job puts it behind the jobs that had already started and before the fresh
  ones, keeps both groups in their order, numbers the queue 0, 1, 2 and so on, and the next
  dispatch takes the first of them whenever no job is running.\<close>

theorem resume_order:
  assumes "queue_inv t" and "resume_job t i = Inr t'"
  shows "map uj_id (queued_jobs_in_order t') =
      map uj_id (filter has_started (queued_jobs_in_order t)) @ [i] @
      map uj_id (filter (\<lambda>j. \<not> has_started j) (queued_jobs_in_order t)) \<and>
    map uj_queue_position (queued_jobs_in_order t') =
      map (\<lambda>k. Some (int k)) [0..<length (queued_jobs_in_order t')] \<and>
    load_next_dispatch_candidate t' =
      (if list_ex (\<lambda>j. uj_state j = JS_RUNNING) (jt_jobs t) then None
       else Some (hd (queued_jobs_in_order t')))"
proof -
  obtain job where job: "get_job t i = Some job" "uj_state job = JS_PAUSED"
    and q: "queued_jobs_in_order t' = positioned (build_resume_queue_order (job\<lparr>uj_state := JS_QUEUED\<rparr>)
       (queued_jobs_in_order t))"
    and ids: "map uj_id (jt_jobs t') = map uj_id (jt_jobs t)"
    and other: "filter (\<lambda>j. uj_state j \<noteq> JS_QUEUED) (jt_jobs t') =
       filter (\<lambda>j. uj_state j \<noteq> JS_QUEUED \<and> uj_id j \<noteq> i) (jt_jobs t)"
    using assms by (rule resume_order_facts)
  have "map uj_id (queued_jobs_in_order t') =
      map uj_id (filter has_started (queued_jobs_in_order t)) @ [i] @
      map uj_id (filter (\<lambda>j. \<not> has_started j) (queued_jobs_in_order t))"
    unfolding q positioned_maps by (simp add: build_resume_queue_order_def get_job_Some [OF job(1)])
  moreover have "map uj_queue_position (queued_jobs_in_order t') =
      map (\<lambda>k. Some (int k)) [0..<length (queued_jobs_in_order t')]"
    unfolding q positioned_positions positioned_length ..
  moreover have running: "list_ex (\<lambda>j. uj_state j = JS_RUNNING) (jt_jobs t') =
      list_ex (\<lambda>j. uj_state j = JS_RUNNING) (jt_jobs t)"
  proof -
    have "(\<exists>j \<in> set (jt_jobs t'). uj_state j = JS_RUNNING) \<longleftrightarrow>
        (\<exists>j \<in> set (filter (\<lambda>j. uj_state j \<noteq> JS_QUEUED) (jt_jobs t')). uj_state j = JS_RUNNING)" by auto
    also have "\<dots> \<longleftrightarrow> (\<exists>j \<in> set (jt_jobs t). uj_state j = JS_RUNNING \<and> uj_id j \<noteq> i)"
      unfolding other by auto
    also have "\<dots> \<longleftrightarrow> (\<exists>j \<in> set (jt_jobs t). uj_state j = JS_RUNNING)"
    proof -
      have "uj_id j \<noteq> i" if "j \<in> set (jt_jobs t)" "uj_state j = JS_RUNNING" for j
        using that get_job_Some [OF job(1)] job(2) assms(1)
        by (auto simp: queue_inv_def distinct_map dest: inj_onD)
      then show ?thesis by blast
    qed
    finally show ?thesis by (simp add: list_ex_iff)
  qed
  moreover have "queued_jobs_in_order t' \<noteq> []"
    using calculation(1) by (metis Nil_is_append_conv list.map_disc_iff not_Cons_self2)
  ultimately show ?thesis
    by (cases "queued_jobs_in_order t'") (simp_all add: load_next_dispatch_candidate_def)
qed

subsection \<open>The queue as a whole\<close>

text \<open>
  The dispatcher works through a job in phases while the operations of users and a restart may
  come between any two of its steps. A batch is leased in one step and processed in another, so
  that a pause or a cancellation may arrive while it is processed. An exception in finalisation
  ends the dispatch and leaves the tables as they were.
\<close>

datatype phase =
    Idle
  | Preparing pystr
  | Checking pystr run_summary "utility_item list" nat
  | Leased pystr run_summary "utility_item list" nat
  | Finalizing pystr run_summary

fun phase_job :: "phase \<Rightarrow> pystr option" where
  "phase_job Idle = None"
| "phase_job (Preparing i) = Some i"
| "phase_job (Checking i s ps n) = Some i"
| "phase_job (Leased i s ps n) = Some i"
| "phase_job (Finalizing i s) = Some i"

inductive queue_step :: "job_tables \<times> phase \<Rightarrow> job_tables \<times> phase \<Rightarrow> bool" where
  step_create: "new_id \<notin> uj_id ` set (jt_jobs t) \<Longrightarrow>
    create_job new_id now t job_type name cfg by_user = (j, t') \<Longrightarrow> queue_step (t, ph) (t', ph)"
| step_pause: "pause_job now t i = Inr t' \<Longrightarrow> queue_step (t, ph) (t', ph)"
| step_resume: "resume_job t i = Inr t' \<Longrightarrow> queue_step (t, ph) (t', ph)"
| step_cancel: "new_id \<notin> uj_id ` set (jt_jobs t) \<Longrightarrow> cancel_job new_id now t i rollback = Inr t' \<Longrightarrow>
    queue_step (t, ph) (t', ph)"
| step_rollback: "new_id \<notin> uj_id ` set (jt_jobs t) \<Longrightarrow>
    queue_rollback_job new_id now t i by_user = Inr (j, t') \<Longrightarrow> queue_step (t, ph) (t', ph)"
| step_start: "start_next_dispatch_job has_executor now t = Inr (Dispatch_started i, t') \<Longrightarrow>
    queue_step (t, Idle) (t', Preparing i)"
| step_missing: "start_next_dispatch_job has_executor now t = Inr (Dispatch_missing_executor, t') \<Longrightarrow>
    queue_step (t, Idle) (t', Idle)"
| step_prepare: "prepare_dispatch_items item_id data t i = Some (pending, t') \<Longrightarrow>
    queue_step (t, Preparing i) (t', Checking i (build_dispatch_summary (get_job t i)) pending 0)"
| step_prepare_gone: "prepare_dispatch_items item_id data t i = None \<Longrightarrow>
    queue_step (t, Preparing i) (t, Idle)"
| step_prepare_failed: "mark_item_generation_failed now exc t i = Inr (b, t') \<Longrightarrow>
    queue_step (t, Preparing i) (t', Idle)"
| step_prepare_error: "mark_item_generation_failed now exc t i = Inl e \<Longrightarrow>
    queue_step (t, Preparing i) (t, Idle)"
| step_check_go: "n < length pending \<Longrightarrow> prepare_batch_checkpoint now t i = Inr (True, t') \<Longrightarrow>
    queue_step (t, Checking i s pending n) (t', Leased i s pending n)"
| step_check_stop: "n < length pending \<Longrightarrow> prepare_batch_checkpoint now t i = Inr (False, t') \<Longrightarrow>
    queue_step (t, Checking i s pending n) (t', Finalizing i s)"
| step_check_done: "length pending \<le> n \<Longrightarrow>
    queue_step (t, Checking i s pending n) (t, Finalizing i s)"
| step_batch: "0 < batch_size \<Longrightarrow> lease_dispatch_batch started pending n batch_size t = (batch, t1) \<Longrightarrow>
    process_dispatch_batch now i batch stream failure (s, t1) = (s', t') \<Longrightarrow>
    queue_step (t, Leased i s pending n) (t', Checking i s' pending (n + batch_size))"
| step_finalize: "finalize_dispatch_job show_int now err s job_type t i = Inr (r, t') \<Longrightarrow>
    queue_step (t, Finalizing i s) (t', Idle)"
| step_finalize_error: "finalize_dispatch_job show_int now err s job_type t i = Inl e \<Longrightarrow>
    queue_step (t, Finalizing i s) (t, Idle)"
| step_restart: "recover_interrupted_jobs now t = (n, t') \<Longrightarrow> queue_step (t, ph) (t', Idle)"

inductive_cases queue_stepE: "queue_step (t, ph) (t', ph')"

text \<open>What the invariants see of the job table.\<close>

definition job_sig :: "utility_job \<Rightarrow> pystr \<times> job_state \<times> int option \<times> pystr option" where
  "job_sig j = (uj_id j, uj_state j, uj_queue_position j, uj_completed_at j)"

definition table_sig :: "job_tables \<Rightarrow> (pystr \<times> job_state \<times> int option \<times> pystr option) list" where
  "table_sig t = map job_sig (jt_jobs t)"

lemma queue_inv_sig: "queue_inv t \<longleftrightarrow>
    distinct (map fst (table_sig t)) \<and>
    (\<forall>(i, st, p, c) \<in> set (table_sig t). st = JS_QUEUED \<longrightarrow> p \<noteq> None) \<and>
    distinct (map (\<lambda>(i, st, p, c). p) (filter (\<lambda>(i, st, p, c). st = JS_QUEUED) (table_sig t))) \<and>
    (\<forall>(i, st, p, c) \<in> set (table_sig t). st \<in> set JOB_TERMINAL_STATES \<longrightarrow> c \<noteq> None)"
proof -
  have "map fst (table_sig t) = map uj_id (jt_jobs t)"
    by (simp add: table_sig_def job_sig_def)
  moreover have "map (\<lambda>(i, st, p, c). p) (filter (\<lambda>(i, st, p, c). st = JS_QUEUED) (table_sig t)) =
      map uj_queue_position (queued_jobs t)"
    by (simp add: table_sig_def queued_jobs_def filter_map comp_def job_sig_def)
  ultimately show ?thesis
    unfolding queue_inv_def by (simp only:) (simp add: table_sig_def job_sig_def)
qed

definition running_only :: "pystr option \<Rightarrow> job_tables \<Rightarrow> bool" where
  "running_only p t \<longleftrightarrow> (\<forall>j \<in> set (jt_jobs t). uj_state j = JS_RUNNING \<longrightarrow> p = Some (uj_id j))"

lemma running_only_sig: "running_only p t \<longleftrightarrow>
    (\<forall>(i, st, q, c) \<in> set (table_sig t). st = JS_RUNNING \<longrightarrow> p = Some i)"
  by (simp add: running_only_def table_sig_def job_sig_def)

lemma sig_put:
  assumes "get_job t (uj_id j) = Some k" and "job_sig j = job_sig k" and "distinct (map uj_id (jt_jobs t))"
  shows "table_sig (put_job j t) = table_sig t"
proof -
  have "x = k" if "x \<in> set (jt_jobs t)" "uj_id x = uj_id j" for x
    using assms(3) that get_job_Some [OF assms(1)] by (simp add: distinct_map) (metis inj_onD)
  then have "job_sig (if uj_id x = uj_id j then j else x) = job_sig x" if "x \<in> set (jt_jobs t)" for x
    using assms(2) that by simp
  then show ?thesis by (simp add: table_sig_def jobs_put)
qed

lemma ids_of_sig: "table_sig t = table_sig u \<Longrightarrow> map uj_id (jt_jobs t) = map uj_id (jt_jobs u)"
  unfolding table_sig_def by (drule arg_cong [where f = "map fst"]) (simp add: job_sig_def comp_def)

lemma sig_counters:
  "distinct (map uj_id (jt_jobs t)) \<Longrightarrow> table_sig (snapshot_counters s i t) = table_sig t"
proof (cases "get_job t i")
  case (Some j)
  assume d: "distinct (map uj_id (jt_jobs t))"
  have "table_sig (put_job (apply_job_counter_snapshot s j) t) = table_sig t"
    by (rule sig_put [OF _ _ d, of _ j])
      (use Some get_job_Some [OF Some] in \<open>simp_all add: apply_job_counter_snapshot_def job_sig_def\<close>)
  then show ?thesis by (simp add: snapshot_counters_def Some)
qed (simp add: snapshot_counters_def)

lemma sig_put_item [simp]: "table_sig (put_item x t) = table_sig t"
  by (simp add: table_sig_def put_item_def)

lemma jobs_put_item [simp]: "jt_jobs (put_item x t) = jt_jobs t"
  by (simp add: put_item_def)

lemma sig_consume:
  "consume_stream now i ids stream seen (s, t) = (seen', s', t') \<Longrightarrow> distinct (map uj_id (jt_jobs t)) \<Longrightarrow>
     table_sig t' = table_sig t"
proof (induction now i ids stream seen "(s, t)" arbitrary: s t rule: consume_stream.induct)
  case 1
  then show ?case by simp
next
  case (2 now i ids p outcome stream seen s t)
  let ?r = "case outcome of Stored w m \<Rightarrow> persist_processed_item_result now i s p w m t
    | Store_failed err \<Rightarrow> persist_processed_item_failure now i s p err t"
  have r: "table_sig u = table_sig t" if "?r = Some (s1, u)" for s1 u
    using that 2(5) by (auto simp: persist_processed_item_result_def Let_def
        persist_processed_item_failure_def sig_counters split: persist_outcome.splits option.splits)
  show ?case
  proof (cases "pi_item_id p \<in> set ids")
    case False
    with 2 show ?thesis by simp
  next
    case True
    show ?thesis
    proof (cases ?r)
      case None
      with True 2 show ?thesis by simp
    next
      case (Some st)
      obtain s1 u where st: "st = (s1, u)" by (cases st)
      have u: "table_sig u = table_sig t" using r Some st by simp
      have "distinct (map uj_id (jt_jobs u))" using 2(5) ids_of_sig [OF u] by simp
      with 2(3) [of s1 u] True Some st 2(4) u show ?thesis by simp
    qed
  qed
qed

lemma sig_fail_items:
  "fail_items now i exc is (s, t) = (s', t') \<Longrightarrow> distinct (map uj_id (jt_jobs t)) \<Longrightarrow>
     table_sig t' = table_sig t"
proof (induction "is" arbitrary: s t)
  case Nil
  then show ?case by simp
next
  case (Cons x xs)
  obtain s1 u where u: "(case persist_batch_dispatch_failure_item now i s
      (build_batch_dispatch_failure_item x exc) t of None \<Rightarrow> (s, t) | Some st' \<Rightarrow> st') = (s1, u)"
    by (cases "persist_batch_dispatch_failure_item now i s (build_batch_dispatch_failure_item x exc) t") auto
  then have sig: "table_sig u = table_sig t"
    using Cons.prems(2) by (auto simp: persist_batch_dispatch_failure_item_def Let_def sig_counters
        split: option.splits)
  then have "distinct (map uj_id (jt_jobs u))" using Cons.prems(2) ids_of_sig [OF sig] by simp
  with Cons.IH [of s1 u] Cons.prems(1) u sig show ?case by simp
qed

lemma sig_batch:
  assumes "lease_dispatch_batch started pending n bsize t = (batch, t1)"
    and "process_dispatch_batch now i batch stream failure (s, t1) = (s', t')"
    and "distinct (map uj_id (jt_jobs t))"
  shows "table_sig t' = table_sig t"
proof -
  have t1: "jt_jobs t1 = jt_jobs t"
    using assms(1) by (auto simp: lease_dispatch_batch_def mark_batch_items_in_progress_def Let_def)
  obtain seen s2 t2 where c: "consume_stream now i (map ui_id batch) stream [] (s, t1) = (seen, s2, t2)"
    by (cases "consume_stream now i (map ui_id batch) stream [] (s, t1)") auto
  have sig2: "table_sig t2 = table_sig t1" using sig_consume [OF c] assms(3) t1 by simp
  then have "distinct (map uj_id (jt_jobs t2))" using assms(3) t1 ids_of_sig [OF sig2] by simp
  then have "table_sig t' = table_sig t2"
    using assms(2) c sig_fail_items [of now i _ _ s2 t2 s' t']
    by (auto simp: process_dispatch_batch_def Let_def split: option.splits)
  with sig2 t1 show ?thesis by (simp add: table_sig_def)
qed

text \<open>Every step keeps the invariants.\<close>

lemma running_only_put:
  "running_only p t \<Longrightarrow> (uj_state j = JS_RUNNING \<Longrightarrow> p = Some (uj_id j)) \<Longrightarrow> running_only p (put_job j t)"
  by (auto simp: running_only_def dest: set_jobs_put)

lemma running_only_add: "running_only p t \<Longrightarrow> uj_state j = JS_QUEUED \<Longrightarrow> running_only p (add_job j t)"
  by (auto simp: running_only_def add_job_def)

definition serial_ok :: "pystr option \<Rightarrow> job_tables \<Rightarrow> bool" where
  "serial_ok p t \<longleftrightarrow> queue_inv t \<and> running_only p t"

lemma serial_ok_put:
  assumes "serial_ok p t" and "uj_state j \<notin> {JS_QUEUED, JS_RUNNING}"
    and "uj_state j \<in> set JOB_TERMINAL_STATES \<Longrightarrow> uj_completed_at j \<noteq> None"
  shows "serial_ok p (put_job j t)"
  using assms by (auto simp: serial_ok_def intro!: queue_inv_put running_only_put)

lemma serial_ok_transition:
  assumes "serial_ok p t" and "transition_job_state now j s = Inr j'" and "s \<notin> {JS_QUEUED, JS_RUNNING}"
    and "uj_state j'' = uj_state j'" "uj_completed_at j'' = uj_completed_at j'"
  shows "serial_ok p (put_job j'' t)"
  using assms transition_job_effect [OF assms(2)] by (intro serial_ok_put) auto

lemma serial_ok_add:
  assumes "serial_ok p t" and "uj_id j \<notin> uj_id ` set (jt_jobs t)" and "uj_state j = JS_QUEUED"
    and "uj_queue_position j = Some (next_queue_position t)"
  shows "serial_ok p (add_job j t)"
  using assms by (auto simp: serial_ok_def intro: queue_inv_add running_only_add)

lemma serial_ok_sig: "table_sig t = table_sig u \<Longrightarrow> serial_ok p t = serial_ok p u"
  by (simp add: serial_ok_def queue_inv_sig running_only_sig)

lemma serial_ok_create_rollback:
  assumes "create_rollback_job new_id now t job by_user = Inr (r, t')" and "serial_ok p t"
    and "new_id \<notin> uj_id ` set (jt_jobs t)"
  shows "serial_ok p t'"
  using assms by (auto simp: create_rollback_job_def Let_def build_rollback_job_def build_queued_job_def
      intro!: serial_ok_add split: if_splits)

lemma serial_ok_pause: "pause_job now t i = Inr t' \<Longrightarrow> serial_ok p t \<Longrightarrow> serial_ok p t'"
  by (auto simp: pause_job_def with_job_Inr intro: serial_ok_transition)

lemma serial_ok_resume:
  assumes "resume_job t i = Inr t'" and "serial_ok p t" shows "serial_ok p t'"
proof -
  have inv: "queue_inv t" using assms(2) by (simp add: serial_ok_def)
  obtain job where "filter (\<lambda>j. uj_state j \<noteq> JS_QUEUED) (jt_jobs t') =
       filter (\<lambda>j. uj_state j \<noteq> JS_QUEUED \<and> uj_id j \<noteq> i) (jt_jobs t)"
    using inv assms(1) by (rule resume_order_facts)
  then have other: "set (filter (\<lambda>j. uj_state j \<noteq> JS_QUEUED) (jt_jobs t')) \<subseteq> set (jt_jobs t)" by simp
  have "running_only p t'"
    unfolding running_only_def
  proof (intro ballI impI)
    fix j assume "j \<in> set (jt_jobs t')" "uj_state j = JS_RUNNING"
    then have "j \<in> set (jt_jobs t)" using other by auto
    then show "p = Some (uj_id j)"
      using \<open>uj_state j = JS_RUNNING\<close> assms(2) by (simp add: serial_ok_def running_only_def)
  qed
  with resume_inv [OF inv assms(1)] show ?thesis by (simp add: serial_ok_def)
qed

lemma serial_ok_cancel:
  assumes "cancel_job new_id now t i rollback = Inr t'" and "serial_ok p t"
    and "new_id \<notin> uj_id ` set (jt_jobs t)"
  shows "serial_ok p t'"
proof -
  obtain job job' where "get_job t i = Some job"
    and tr: "(if uj_state job = JS_RUNNING then transition_job_state now job JS_CANCELLING
        else bind_result (transition_job_state now job JS_CANCELLING)
               (\<lambda>j. transition_job_state now j JS_CANCELLED)) = Inr job'"
    and t': "(if rollback
          then bind_result (create_rollback_job new_id now (put_job job' t) job' None) (\<lambda>(_, t''). Inr t'')
          else Inr (put_job job' t)) = Inr t'"
    using assms(1) by (auto simp: cancel_job_def with_job_Inr Let_def split: if_splits)
  have ok: "serial_ok p (put_job job' t)"
    using tr assms(2) by (auto split: if_splits intro: serial_ok_transition)
  have "set (map uj_id (jt_jobs (put_job job' t))) = set (map uj_id (jt_jobs t))" by (simp only: ids_put)
  then have fresh: "new_id \<notin> uj_id ` set (jt_jobs (put_job job' t))"
    using assms(3) by (simp only: set_map simp_thms)
  show ?thesis
    using t' ok serial_ok_create_rollback [OF _ ok fresh] by (auto split: if_splits)
qed

lemma serial_ok_start:
  assumes "start_next_dispatch_job has_executor now t = Inr (d, t')" and "serial_ok None t"
  shows "serial_ok (case d of Dispatch_started i \<Rightarrow> Some i | _ \<Rightarrow> None) t'"
proof (cases "load_next_dispatch_candidate t")
  case None
  with assms show ?thesis by (auto simp: start_next_dispatch_job_def)
next
  case (Some job)
  show ?thesis
  proof (cases "has_executor (uj_job_type job)")
    case False
    with assms Some show ?thesis
      by (auto simp: start_next_dispatch_job_def mark_job_without_executor_def intro!: serial_ok_put)
  next
    case True
    then obtain j where j: "mark_job_started now job = Inr j" "d = Dispatch_started (uj_id j)" "t' = put_job j t"
      using assms(1) Some by (auto simp: start_next_dispatch_job_def)
    then have st: "uj_state j = JS_RUNNING"
      by (auto simp: mark_job_started_def dest: transition_job_effect(2))
    have "queue_inv (put_job j t)"
      using assms(2) st by (intro queue_inv_put) (auto simp: serial_ok_def job_state_defs)
    moreover have "running_only (Some (uj_id j)) (put_job j t)"
      using assms(2) by (auto simp: running_only_def serial_ok_def dest!: set_jobs_put)
    ultimately show ?thesis by (simp add: j(2,3) serial_ok_def)
  qed
qed

lemma serial_ok_recover:
  assumes "recover_interrupted_jobs now t = (n, t')" and "queue_inv t"
  shows "serial_ok q t'"
proof -
  let ?f = "\<lambda>j. if uj_state j \<in> {JS_RUNNING, JS_PAUSING}
               then j\<lparr>uj_state := JS_PAUSED, uj_paused_at := Some now\<rparr> else j"
  have jobs: "jt_jobs t' = map ?f (jt_jobs t)"
    using assms(1) by (auto simp: recover_interrupted_jobs_def Let_def)
  have "filter (\<lambda>j. uj_state j = JS_QUEUED) (map ?f ks) = filter (\<lambda>j. uj_state j = JS_QUEUED) ks" for ks
    by (induction ks) auto
  then have "queued_jobs t' = queued_jobs t" by (simp add: queued_jobs_def jobs)
  moreover have "map uj_id (jt_jobs t') = map uj_id (jt_jobs t)" by (simp add: jobs)
  moreover have "\<forall>j \<in> set (jt_jobs t'). uj_state j \<noteq> JS_RUNNING \<and>
      (uj_state j = JS_QUEUED \<longrightarrow> uj_queue_position j \<noteq> None) \<and>
      (uj_state j \<in> set JOB_TERMINAL_STATES \<longrightarrow> uj_completed_at j \<noteq> None)"
    using assms(2) by (auto simp: serial_ok_def queue_inv_def jobs job_state_defs)
  ultimately show ?thesis
    using assms(2) by (simp add: serial_ok_def queue_inv_def running_only_def)
qed

lemma sig_prepare:
  assumes "prepare_dispatch_items item_id data t i = Some (pending, t')"
    and "distinct (map uj_id (jt_jobs t))"
  shows "table_sig t' = table_sig t"
proof (cases "filter (\<lambda>x. ui_job_id x = i) (jt_items t) = []")
  case True
  then obtain job where job: "get_job t i = Some job"
    and t': "t' = put_job (job\<lparr>uj_total_items := Some (int (length data))\<rparr>)
      (t\<lparr>jt_items := jt_items t @ build_generated_job_items item_id (uj_id job) data\<rparr>)"
    using assms(1) by (auto simp: prepare_dispatch_items_def Let_def split: option.splits)
  let ?u = "t\<lparr>jt_items := jt_items t @ build_generated_job_items item_id (uj_id job) data\<rparr>"
  have "get_job ?u i = Some job" using job by (simp add: get_job_def)
  then have "table_sig t' = table_sig ?u"
    unfolding t' using assms(2) get_job_Some [OF job]
    by (intro sig_put [of _ _ job]) (simp_all add: job_sig_def)
  then show ?thesis by (simp add: table_sig_def)
next
  case False
  with assms(1) show ?thesis by (simp add: prepare_dispatch_items_def)
qed

lemma serial_ok_prepare:
  assumes "prepare_dispatch_items item_id data t i = Some (pending, t')" and "serial_ok p t"
  shows "serial_ok p t'"
proof -
  have "distinct (map uj_id (jt_jobs t))" using assms(2) by (simp add: serial_ok_def queue_inv_def)
  with sig_prepare [OF assms(1)] serial_ok_sig [of t' t] assms(2) show ?thesis by simp
qed

lemma running_drop:
  "serial_ok (Some i) t \<Longrightarrow> (\<And>j. get_job t i = Some j \<Longrightarrow> uj_state j \<noteq> JS_RUNNING) \<Longrightarrow> serial_ok None t"
proof -
  assume ok: "serial_ok (Some i) t" and not: "\<And>j. get_job t i = Some j \<Longrightarrow> uj_state j \<noteq> JS_RUNNING"
  have "uj_state j \<noteq> JS_RUNNING" if mem: "j \<in> set (jt_jobs t)" for j
  proof
    assume run: "uj_state j = JS_RUNNING"
    then have id: "uj_id j = i" using ok mem by (auto simp: serial_ok_def running_only_def)
    then obtain k where k: "get_job t i = Some k"
      using mem by (cases "get_job t i") (auto simp: get_job_def find_None_all)
    from get_job_Some [OF k] have "k = j"
      using mem id ok by (simp add: serial_ok_def queue_inv_def distinct_map) (metis inj_onD)
    with not [OF k] run show False by simp
  qed
  with ok show "serial_ok None t" by (auto simp: serial_ok_def running_only_def)
qed

text \<open>The target chosen for a job that is running or cancelling is always allowed.\<close>

lemma completion_allowed:
  "st \<in> {JS_RUNNING, JS_CANCELLING} \<Longrightarrow>
     cd_target_state (build_completion_decision show_int st jt s) \<in> set (VALID_TRANSITIONS st)"
  by (auto simp: build_completion_decision_def Let_def)

lemma completion_terminal:
  "cd_target_state (build_completion_decision show_int st jt s) \<in> {JS_CANCELLED, JS_FAILED, JS_COMPLETED}"
  by (simp add: build_completion_decision_def Let_def)

lemma serial_ok_finalize:
  assumes "finalize_dispatch_job show_int now err s jt t i = Inr (r, t')" and "serial_ok (Some i) t"
  shows "serial_ok None t'"
proof (cases "get_job t i")
  case None
  with assms have "t' = t" by (simp add: finalize_dispatch_job_def)
  with assms None show ?thesis by (auto intro: running_drop)
next
  case (Some job)
  note mem = get_job_Some [OF Some]
  have only: "j = k" if "j \<in> set (jt_jobs u)" "k \<in> set (jt_jobs u)" "uj_id j = uj_id k"
    "distinct (map uj_id (jt_jobs u))" for j k u
    using that by (simp add: distinct_map) (metis inj_onD)
  have drop: "serial_ok None (put_job j t)"
    if "uj_id j = i" "uj_state j \<notin> {JS_QUEUED, JS_RUNNING}"
      "uj_state j \<in> set JOB_TERMINAL_STATES \<Longrightarrow> uj_completed_at j \<noteq> None" for j
  proof (rule running_drop)
    show "serial_ok (Some i) (put_job j t)" using that assms(2) by (intro serial_ok_put)
    fix k assume "get_job (put_job j t) i = Some k"
    from get_job_Some [OF this] have "k = j" using that(1) by (auto dest: set_jobs_put)
    with that show "uj_state k \<noteq> JS_RUNNING" by simp
  qed
  let ?job = "apply_job_counter_snapshot s job"
  have job: "uj_state ?job = uj_state job" "uj_id ?job = i"
    using mem by (simp_all add: apply_job_counter_snapshot_def)
  show ?thesis
  proof (cases "uj_state job = JS_PAUSED")
    case True
    then have "t' = put_job ?job t" using assms(1) Some job by (simp add: finalize_dispatch_job_def)
    then show ?thesis using drop [of ?job] job True by (simp add: job_state_defs)
  next
    case False
    let ?d = "build_completion_decision show_int (uj_state job) jt s"
    obtain j j2 where j: "transition_job_state now ?job (cd_target_state ?d) = Inr j"
      and j2: "t' = put_job j2 t" "uj_state j2 = uj_state j" "uj_id j2 = uj_id j"
        "uj_completed_at j2 = uj_completed_at j"
      using assms(1) Some job(1) False by (auto simp: finalize_dispatch_job_def Let_def split: if_splits)
    note e = transition_job_effect [OF j]
    have "uj_state j \<notin> {JS_QUEUED, JS_RUNNING}" using e(2) completion_terminal [of show_int "uj_state job" jt s] by auto
    then show ?thesis unfolding j2(1)
      by (intro drop) (use j2 e job in auto)
  qed
qed

lemma finalize_error_state:
  assumes "finalize_dispatch_job show_int now err s jt t i = Inl e"
  obtains job where "get_job t i = Some job" "uj_state job \<notin> {JS_RUNNING, JS_CANCELLING}"
proof -
  obtain job where job: "get_job t i = Some job"
    using assms by (auto simp: finalize_dispatch_job_def split: option.splits)
  have "\<not> is_ok (transition_job_state now (apply_job_counter_snapshot s job)
      (cd_target_state (build_completion_decision show_int (uj_state job) jt s)))"
    using assms job by (auto simp: finalize_dispatch_job_def Let_def apply_job_counter_snapshot_def is_ok_iff
        split: if_splits)
  then have "uj_state job \<notin> {JS_RUNNING, JS_CANCELLING}"
    using completion_allowed [of "uj_state job" show_int jt s]
    by (auto simp: transition_job_ok apply_job_counter_snapshot_def)
  with job that show thesis by blast
qed

lemma serial_ok_checkpoint:
  assumes "prepare_batch_checkpoint now t i = Inr (b, t')" and "serial_ok p t" shows "serial_ok p t'"
  using assms by (auto simp: prepare_batch_checkpoint_def split: option.splits if_splits
      intro: serial_ok_transition)

lemma serial_ok_prepare_failed:
  assumes "mark_item_generation_failed now exc t i = Inr (b, t')" and "serial_ok (Some i) t"
  shows "serial_ok None t'"
proof (cases "get_job t i")
  case None
  with assms show ?thesis by (auto simp: mark_item_generation_failed_def intro: running_drop)
next
  case (Some job)
  then obtain j where j: "transition_job_state now job JS_FAILED = Inr j"
    and t': "t' = put_job (j\<lparr>uj_error_message := Some (''Item generation failed: '' @ exc)\<rparr>) t"
    using assms(1) by (auto simp: mark_item_generation_failed_def)
  note e = transition_job_effect [OF j] and mem = get_job_Some [OF Some]
  show ?thesis
  proof (rule running_drop)
    show "serial_ok (Some i) t'"
      unfolding t' by (rule serial_ok_transition [OF assms(2) j]) simp_all
    fix k assume "get_job t' i = Some k"
    from get_job_Some [OF this] show "uj_state k \<noteq> JS_RUNNING"
      using e mem unfolding t' by (auto dest!: set_jobs_put)
  qed
qed

lemma prepare_error_state:
  assumes "mark_item_generation_failed now exc t i = Inl e"
  obtains job where "get_job t i = Some job" "uj_state job \<notin> {JS_RUNNING, JS_CANCELLING}"
proof -
  obtain job where job: "get_job t i = Some job" "JS_FAILED \<notin> set (VALID_TRANSITIONS (uj_state job))"
    using assms by (auto simp: mark_item_generation_failed_def transition_job_state_def Let_def
        split: option.splits if_splits)
  then have "uj_state job \<notin> {JS_RUNNING, JS_CANCELLING}" by auto
  with job(1) show thesis by (rule that)
qed

lemma serial_ok_step:
  "queue_step c c' \<Longrightarrow> serial_ok (phase_job (snd c)) (fst c) \<Longrightarrow> serial_ok (phase_job (snd c')) (fst c')"
proof (induction rule: queue_step.induct)
  case (step_create new_id t now job_type name cfg by_user j t' ph)
  then show ?case by (auto simp: create_job_def Let_def build_queued_job_def intro!: serial_ok_add)
next
  case (step_rollback new_id t now i by_user j t' ph)
  then show ?case
    by (auto simp: queue_rollback_job_def with_job_Inr split: if_splits intro: serial_ok_create_rollback)
next
  case (step_start has_executor now t i t')
  from serial_ok_start [OF this(1)] step_start(2) show ?case by simp
next
  case (step_missing has_executor now t t')
  from serial_ok_start [OF this(1)] step_missing(2) show ?case by simp
next
  case (step_prepare_gone item_id data t i)
  then have "get_job t i = None"
    by (auto simp: prepare_dispatch_items_def Let_def split: if_splits option.splits)
  with step_prepare_gone show ?case by (auto intro: running_drop)
next
  case (step_prepare_error now exc t i e)
  obtain job where "get_job t i = Some job" "uj_state job \<notin> {JS_RUNNING, JS_CANCELLING}"
    using step_prepare_error(1) by (rule prepare_error_state)
  with step_prepare_error(2) show ?case by (auto intro!: running_drop)
next
  case (step_batch batch_size started pending n t batch t1 now i stream failure s s' t')
  then have "distinct (map uj_id (jt_jobs t))" by (simp add: serial_ok_def queue_inv_def)
  with step_batch have "table_sig t' = table_sig t" by (intro sig_batch)
  with step_batch serial_ok_sig [of t' t] show ?case by simp
next
  case (step_finalize_error show_int now err s job_type t i e)
  obtain job where "get_job t i = Some job" "uj_state job \<notin> {JS_RUNNING, JS_CANCELLING}"
    using step_finalize_error(1) by (rule finalize_error_state)
  with step_finalize_error(2) show ?case by (auto intro!: running_drop)
next
  case (step_restart now t n t' ph)
  then show ?case by (auto intro!: serial_ok_recover simp: serial_ok_def [of _ t])
qed (auto intro: serial_ok_pause serial_ok_resume serial_ok_cancel serial_ok_prepare serial_ok_prepare_failed
    serial_ok_checkpoint serial_ok_finalize)

text \<open>C18. The queue is serial: from tables in which no job runs, whatever users, the dispatcher and
  restarts do in any order, at most one job is running, it is the one the dispatcher is working
  on, identifiers stay unique, queued jobs keep distinct positions and finished jobs have an end
  time.\<close>

theorem queue_is_serial:
  assumes "queue_step\<^sup>*\<^sup>* (t, Idle) (t', ph)" and "queue_inv t"
    and "filter (\<lambda>j. uj_state j = JS_RUNNING) (jt_jobs t) = []"
  shows "queue_inv t' \<and> length (filter (\<lambda>j. uj_state j = JS_RUNNING) (jt_jobs t')) \<le> 1 \<and>
    set (map uj_id (filter (\<lambda>j. uj_state j = JS_RUNNING) (jt_jobs t'))) \<subseteq> set_option (phase_job ph)"
proof -
  have "serial_ok (phase_job Idle) t"
    using assms(2,3) by (auto simp: serial_ok_def running_only_def filter_empty_conv)
  with assms(1) have ok: "serial_ok (phase_job ph) t'"
    by (induction rule: rtranclp_induct2) (auto dest: serial_ok_step)
  let ?run = "filter (\<lambda>j. uj_state j = JS_RUNNING) (jt_jobs t')"
  have sub: "set (map uj_id ?run) \<subseteq> set_option (phase_job ph)"
    using ok by (auto simp: serial_ok_def running_only_def)
  have "distinct (map uj_id ?run)"
    using ok unfolding serial_ok_def queue_inv_def by (intro distinct_map_filter) simp
  then have "length ?run = card (set (map uj_id ?run))"
    by (metis distinct_card length_map)
  also have "\<dots> \<le> card (set_option (phase_job ph))" using sub by (intro card_mono) simp_all
  also have "\<dots> \<le> 1" by (cases "phase_job ph") simp_all
  finally show ?thesis using ok sub by (simp add: serial_ok_def)
qed

subsection \<open>Where a dispatch ends\<close>

text \<open>Every item of the run failed: the one outcome a pausing job may still be given.\<close>

definition all_failed :: "pystr \<Rightarrow> run_summary \<Rightarrow> bool" where
  "all_failed job_type s \<longleftrightarrow> rs_failed s > 0 \<and> (rs_completed s = 0 \<or> job_type = JOB_ROLLBACK)"

text \<open>C29. Finalisation of a dispatched job succeeds exactly when the job was deleted or is running,
  cancelling or paused, or when it can still be failed and all its items failed: a running job
  ends completed or failed, a cancelling job cancelled, a paused job stays paused. In
  particular a job whose pause arrived during its last batch is still pausing, and its
  finalisation is refused.\<close>

theorem finalize_succeeds_iff:
  assumes "get_job t i = Some job"
  shows "is_ok (finalize_dispatch_job show_int now err s jt t i) =
      (uj_state job \<in> {JS_RUNNING, JS_CANCELLING, JS_PAUSED} \<or>
       uj_state job \<in> {JS_PAUSING, JS_QUEUED, JS_ROLLING_BACK} \<and> all_failed jt s) \<and>
    (case finalize_dispatch_job show_int now err s jt t i of
       Inl e \<Rightarrow> uj_state job = JS_PAUSING \<longrightarrow> e = InvalidTransition JS_PAUSING JS_COMPLETED
     | Inr (r, t') \<Rightarrow> (\<exists>j. get_job t' i = Some j \<and> uj_completed_items j = Some (rs_completed s) \<and>
         uj_state j = (if uj_state job = JS_PAUSED then JS_PAUSED
           else if uj_state job = JS_CANCELLING then JS_CANCELLED
           else if all_failed jt s then JS_FAILED else JS_COMPLETED)))"
proof -
  let ?job = "apply_job_counter_snapshot s job"
  have job: "uj_state ?job = uj_state job" "uj_id ?job = uj_id job"
    "uj_completed_items ?job = Some (rs_completed s)"
    by (simp_all add: apply_job_counter_snapshot_def)
  have target: "cd_target_state (build_completion_decision show_int (uj_state job) jt s) =
      (if uj_state job = JS_CANCELLING then JS_CANCELLED
       else if all_failed jt s then JS_FAILED else JS_COMPLETED)"
    by (auto simp: build_completion_decision_def Let_def all_failed_def)
  have get: "get_job (put_job j t) i = Some j" if "uj_id j = i" for j
  proof -
    have "find (\<lambda>k. uj_id k = i) (map (\<lambda>k. if uj_id k = uj_id j then j else k) ks) = Some j"
      if "find (\<lambda>k. uj_id k = i) ks \<noteq> None" for ks
      using that \<open>uj_id j = i\<close> by (induction ks) auto
    then show ?thesis using assms by (simp add: get_job_def jobs_put)
  qed
  show ?thesis
  proof (cases "uj_state job = JS_PAUSED")
    case True
    then show ?thesis
      using get [of ?job] get_job_Some [OF assms] job by (simp add: finalize_dispatch_job_def assms)
  next
    case False
    let ?d = "build_completion_decision show_int (uj_state job) jt s"
    have f: "finalize_dispatch_job show_int now err s jt t i =
        bind_result (transition_job_state now ?job (cd_target_state ?d)) (\<lambda>j.
                    let j1 = (if str_truthy (cd_error_message ?d)
                              then j\<lparr>uj_error_message := cd_error_message ?d\<rparr> else j);
                        j2 = (if str_truthy err then j1\<lparr>uj_error_message := err\<rparr> else j1)
                    in Inr (Fin_completed, put_job j2 t))"
      using False by (simp add: finalize_dispatch_job_def assms job(1) Let_def)
    show ?thesis
    proof (cases "transition_job_state now ?job (cd_target_state ?d)")
      case (Inl e)
      then have e: "cd_target_state ?d \<notin> set (VALID_TRANSITIONS (uj_state job))"
        "e = InvalidTransition (uj_state job) (cd_target_state ?d)"
        by (auto simp: transition_job_state_def Let_def job(1) split: if_splits)
      have r: "finalize_dispatch_job show_int now err s jt t i = Inl e"
        unfolding f Inl by simp
      show ?thesis
        unfolding r using e [unfolded target] False
        by (cases "uj_state job") (auto split: if_splits)
    next
      case (Inr j)
      note e = transition_job_effect [OF Inr]
      have c: "uj_completed_items j = Some (rs_completed s)"
        using Inr job(3) by (auto simp: transition_job_state_def Let_def split: if_splits)
      obtain j2 where r: "finalize_dispatch_job show_int now err s jt t i = Inr (Fin_completed, put_job j2 t)"
        and j2: "uj_id j2 = uj_id j" "uj_state j2 = uj_state j" "uj_completed_items j2 = uj_completed_items j"
        unfolding f Inr by (auto simp: Let_def)
      have "get_job (put_job j2 t) i = Some j2"
        using get [of j2] j2(1) e(3) job(2) get_job_Some [OF assms] by simp
      then show ?thesis
        unfolding r using e(1,2) [unfolded target job(1)] False j2 c
        by (cases "uj_state job") (auto split: if_splits)
    qed
  qed
qed

subsection \<open>A cancellation cut short by a restart\<close>

definition left_cancelling :: "pystr \<Rightarrow> job_tables \<Rightarrow> bool" where
  "left_cancelling i t \<longleftrightarrow> queue_inv t \<and>
     (\<exists>j \<in> set (jt_jobs t). uj_id j = i \<and> uj_state j = JS_CANCELLING)"

lemma left_cancelling_get:
  assumes "left_cancelling i t" and "get_job t i = Some j" shows "uj_state j = JS_CANCELLING"
  using assms get_job_Some [OF assms(2)]
  by (auto simp: left_cancelling_def queue_inv_def distinct_map dest: inj_onD)

lemma left_cancelling_other:
  "left_cancelling i t \<Longrightarrow> j \<in> set (jt_jobs t) \<Longrightarrow> uj_state j \<noteq> JS_CANCELLING \<Longrightarrow> uj_id j \<noteq> i"
  by (auto simp: left_cancelling_def queue_inv_def distinct_map dest: inj_onD)

lemma left_cancelling_put:
  "left_cancelling i t \<Longrightarrow> uj_id j \<noteq> i \<Longrightarrow> queue_inv (put_job j t) \<Longrightarrow> left_cancelling i (put_job j t)"
  by (force simp: left_cancelling_def jobs_put)

lemma left_cancelling_add:
  "left_cancelling i t \<Longrightarrow> queue_inv (add_job j t) \<Longrightarrow> left_cancelling i (add_job j t)"
  by (auto simp: left_cancelling_def add_job_def)

lemma left_cancelling_sig: "table_sig t = table_sig u \<Longrightarrow> left_cancelling i t = left_cancelling i u"
proof -
  assume eq: "table_sig t = table_sig u"
  have "(\<exists>j \<in> set (jt_jobs t). uj_id j = i \<and> uj_state j = JS_CANCELLING) \<longleftrightarrow>
      (\<exists>(k, st, p, c) \<in> set (table_sig t). k = i \<and> st = JS_CANCELLING)" for t
    by (force simp: table_sig_def job_sig_def)
  with eq show ?thesis unfolding left_cancelling_def queue_inv_sig by simp
qed

lemma left_cancelling_step:
  "queue_step c c' \<Longrightarrow> left_cancelling i (fst c) \<Longrightarrow> serial_ok (phase_job (snd c)) (fst c) \<Longrightarrow>
     phase_job (snd c) \<noteq> Some i \<Longrightarrow> left_cancelling i (fst c') \<and> phase_job (snd c') \<noteq> Some i"
proof -
  assume step: "queue_step c c'" and left: "left_cancelling i (fst c)"
    and ser: "serial_ok (phase_job (snd c)) (fst c)" and ph: "phase_job (snd c) \<noteq> Some i"
  have inv': "queue_inv (fst c')" using serial_ok_step [OF step ser] by (simp add: serial_ok_def)
  have other: "uj_id j \<noteq> i" if "get_job t k = Some j" "uj_state j \<noteq> JS_CANCELLING"
    "left_cancelling i t" for j k t
    using that left_cancelling_other get_job_Some by blast
  show ?thesis
    using step left ph inv'
  proof (induction rule: queue_step.induct)
    case (step_create new_id t now job_type name cfg by_user j t' ph)
    then show ?case by (auto simp: create_job_def Let_def intro: left_cancelling_add)
  next
    case (step_pause now t k t' ph)
    then obtain job j where j: "get_job t k = Some job" "transition_job_state now job JS_PAUSING = Inr j"
      "t' = put_job j t" by (auto simp: pause_job_def with_job_Inr)
    have "uj_state job \<noteq> JS_CANCELLING" using transition_job_effect(1) [OF j(2)] by auto
    with other [OF j(1)] step_pause have "uj_id j \<noteq> i" by (simp add: transition_job_effect(3) [OF j(2)])
    with step_pause j show ?case by (auto intro: left_cancelling_put)
  next
    case (step_resume t k t' ph)
    then have "queue_inv t" by (simp add: left_cancelling_def)
    then obtain job where job: "get_job t k = Some job" "uj_state job = JS_PAUSED"
      and f: "filter (\<lambda>j. uj_state j \<noteq> JS_QUEUED) (jt_jobs t') =
         filter (\<lambda>j. uj_state j \<noteq> JS_QUEUED \<and> uj_id j \<noteq> k) (jt_jobs t)"
      using step_resume(1) by (rule resume_order_facts)
    obtain j where j: "j \<in> set (jt_jobs t)" "uj_id j = i" "uj_state j = JS_CANCELLING"
      using step_resume by (auto simp: left_cancelling_def)
    have "uj_id job \<noteq> i" using other [OF job(1)] job(2) step_resume by simp
    then have "k \<noteq> i" using get_job_Some [OF job(1)] by simp
    with j have "j \<in> set (filter (\<lambda>j. uj_state j \<noteq> JS_QUEUED \<and> uj_id j \<noteq> k) (jt_jobs t))" by simp
    then have "j \<in> set (jt_jobs t')" unfolding f [symmetric] by simp
    with j step_resume show ?case by (auto simp: left_cancelling_def)
  next
    case (step_cancel new_id t now k rollback t' ph)
    then obtain job job' where job: "get_job t k = Some job" "uj_state job \<in> set CANCELLABLE_STATES"
      and tr: "(if uj_state job = JS_RUNNING then transition_job_state now job JS_CANCELLING
        else bind_result (transition_job_state now job JS_CANCELLING)
               (\<lambda>j. transition_job_state now j JS_CANCELLED)) = Inr job'"
      and t': "(if rollback
          then bind_result (create_rollback_job new_id now (put_job job' t) job' None) (\<lambda>(_, t''). Inr t'')
          else Inr (put_job job' t)) = Inr t'"
      by (auto simp: cancel_job_def with_job_Inr Let_def split: if_splits)
    have "uj_id job \<noteq> i" using other [OF job(1)] job(2) step_cancel by (auto simp: job_state_defs)
    moreover have "uj_id job' = uj_id job"
      using tr by (auto split: if_splits) (metis transition_job_effect(3))+
    ultimately have "\<exists>j \<in> set (jt_jobs (put_job job' t)). uj_id j = i \<and> uj_state j = JS_CANCELLING"
      using step_cancel(3) by (force simp: left_cancelling_def jobs_put)
    moreover have "set (jt_jobs (put_job job' t)) \<subseteq> set (jt_jobs t')"
      using t' by (auto simp: create_rollback_job_def Let_def add_job_def split: if_splits)
    ultimately show ?case using step_cancel by (auto simp: left_cancelling_def)
  next
    case (step_rollback new_id t now k by_user j t' ph)
    then show ?case
      by (auto simp: queue_rollback_job_def with_job_Inr create_rollback_job_def Let_def split: if_splits
          intro: left_cancelling_add)
  next
    case (step_start has_executor now t k t')
    then obtain job j where c: "load_next_dispatch_candidate t = Some job"
      and j: "transition_job_state now job JS_RUNNING = Inr j" "k = uj_id j"
        "t' = put_job (j\<lparr>uj_started_at := Some now, uj_queue_position := None\<rparr>) t"
      by (auto simp: start_next_dispatch_job_def mark_job_started_def split: option.splits if_splits)
    have "job \<in> set (queued_jobs_in_order t)"
      using c by (auto simp: load_next_dispatch_candidate_def split: if_splits list.splits)
    then have "job \<in> set (jt_jobs t)" "uj_state job = JS_QUEUED"
      by (simp_all add: queued_jobs_in_order_def queued_jobs_def)
    then have "uj_id job \<noteq> i" using left_cancelling_other step_start by force
    then have "uj_id j \<noteq> i" by (simp add: transition_job_effect(3) [OF j(1)])
    with step_start j show ?case by (auto intro: left_cancelling_put)
  next
    case (step_missing has_executor now t t')
    then obtain job where c: "load_next_dispatch_candidate t = Some job"
      and t': "t' = put_job (mark_job_without_executor now job) t"
      by (auto simp: start_next_dispatch_job_def split: option.splits if_splits)
    have "job \<in> set (queued_jobs_in_order t)"
      using c by (auto simp: load_next_dispatch_candidate_def split: if_splits list.splits)
    then have "job \<in> set (jt_jobs t)" "uj_state job = JS_QUEUED"
      by (simp_all add: queued_jobs_in_order_def queued_jobs_def)
    then have "uj_id job \<noteq> i" using left_cancelling_other step_missing by force
    with step_missing t' show ?case
      by (auto simp: mark_job_without_executor_def intro: left_cancelling_put)
  next
    case (step_prepare item_id data t k pending t')
    then have "distinct (map uj_id (jt_jobs t))" by (simp add: left_cancelling_def queue_inv_def)
    with step_prepare sig_prepare [OF step_prepare(1)] left_cancelling_sig [of t' t i] show ?case by simp
  next
    case (step_prepare_failed now exc t k b t')
    then show ?case
      by (auto simp: mark_item_generation_failed_def dest!: transition_job_effect(3) get_job_Some
          split: option.splits intro!: left_cancelling_put)
  next
    case (step_check_go n pending now t k t' s)
    then show ?case
      by (auto simp: prepare_batch_checkpoint_def dest!: transition_job_effect(3) get_job_Some
          split: option.splits if_splits intro!: left_cancelling_put)
  next
    case (step_check_stop n pending now t k t' s)
    then show ?case
      by (auto simp: prepare_batch_checkpoint_def dest!: transition_job_effect(3) get_job_Some
          split: option.splits if_splits intro!: left_cancelling_put)
  next
    case (step_batch batch_size started pending n t batch t1 now k stream failure s s' t')
    then have "distinct (map uj_id (jt_jobs t))" by (simp add: left_cancelling_def queue_inv_def)
    with step_batch have "table_sig t' = table_sig t" by (intro sig_batch)
    with step_batch left_cancelling_sig [of t' t i] show ?case by simp
  next
    case (step_finalize show_int now err s job_type t k r t')
    then have "k \<noteq> i" by simp
    with step_finalize show ?case
      by (auto simp: finalize_dispatch_job_def Let_def apply_job_counter_snapshot_def
          dest!: transition_job_effect(3) get_job_Some
          split: option.splits if_splits intro!: left_cancelling_put)
  next
    case (step_restart now t n t' ph)
    then show ?case
      by (auto simp: recover_interrupted_jobs_def Let_def left_cancelling_def)
  qed auto
qed


subsection \<open>Accounting for a batch\<close>

definition run_total :: "run_summary \<Rightarrow> int" where
  "run_total s = rs_completed s + rs_failed s + rs_skipped s"

definition item_done :: "job_tables \<Rightarrow> pystr \<Rightarrow> bool" where
  "item_done t i \<longleftrightarrow> (case get_item t i of None \<Rightarrow> False
     | Some x \<Rightarrow> ui_state x \<in> {IS_COMPLETED, IS_FAILED, IS_SKIPPED})"

lemma get_item_put:
  "get_item (put_item x t) i = (if i = ui_id x then map_option (\<lambda>_. x) (get_item t i) else get_item t i)"
proof -
  have "find (\<lambda>y. ui_id y = i) (map (\<lambda>y. if ui_id y = ui_id x then x else y) ys) =
      (if i = ui_id x then map_option (\<lambda>_. x) (find (\<lambda>y. ui_id y = i) ys)
       else find (\<lambda>y. ui_id y = i) ys)" for ys
    by (induction ys) auto
  then show ?thesis by (simp add: get_item_def put_item_def)
qed

lemma get_item_id: "get_item t i = Some x \<Longrightarrow> ui_id x = i"
  unfolding get_item_def by (auto dest: find_SomeD)

lemma items_counters [simp]: "jt_items (snapshot_counters s i t) = jt_items t"
  by (simp add: snapshot_counters_def split: option.split)

lemma get_item_counters [simp]: "get_item (snapshot_counters s i t) k = get_item t k"
  by (simp add: get_item_def)

text \<open>Recording one outcome adds one to the total and finishes exactly the item it names.\<close>

definition records_one :: "pystr \<Rightarrow> run_summary \<times> job_tables \<Rightarrow> run_summary \<times> job_tables \<Rightarrow> bool" where
  "records_one k st st' \<longleftrightarrow> run_total (fst st') = run_total (fst st) + 1 \<and> item_done (snd st') k \<and>
     (\<forall>i. i \<noteq> k \<longrightarrow> get_item (snd st') i = get_item (snd st) i)"

lemma snapshot_id [simp]: "ui_id (apply_processed_item_snapshot now st e p x) = ui_id x"
  by (simp add: apply_processed_item_snapshot_def)

lemma persist_result_records:
  assumes "get_item t (pi_item_id p) \<noteq> None" and "pi_result p \<noteq> None"
  shows "\<exists>st'. persist_processed_item_result now i s p w m t = Some st' \<and> records_one (pi_item_id p) (s, t) st'"
proof -
  obtain x r where x: "get_item t (pi_item_id p) = Some x" and r: "pi_result p = Some r" using assms by auto
  then show ?thesis
    using get_item_id [OF x]
    by (cases r) (auto simp: persist_processed_item_result_def Let_def records_one_def run_total_def
        add_delta_def build_processed_item_counter_delta_def item_done_def get_item_put
        apply_processed_item_snapshot_def)
qed

lemma persist_failure_records:
  assumes "get_item t (pi_item_id p) \<noteq> None"
  shows "\<exists>st'. persist_processed_item_failure now i s p e t = Some st' \<and> records_one (pi_item_id p) (s, t) st'"
proof -
  obtain x where x: "get_item t (pi_item_id p) = Some x" using assms by auto
  then show ?thesis
    using get_item_id [OF x]
    by (auto simp: persist_processed_item_failure_def Let_def records_one_def run_total_def
        add_delta_def item_done_def get_item_put apply_processed_item_snapshot_def)
qed

lemma persist_batch_failure_records:
  assumes "get_item t k \<noteq> None"
  shows "\<exists>st'. persist_batch_dispatch_failure_item now i s (build_batch_dispatch_failure_item k e) t = Some st' \<and>
    records_one k (s, t) st'"
proof -
  obtain x where x: "get_item t k = Some x" using assms by auto
  then show ?thesis
    using get_item_id [OF x]
    by (auto simp: persist_batch_dispatch_failure_item_def build_batch_dispatch_failure_item_def Let_def
        records_one_def run_total_def add_delta_def item_done_def get_item_put
        apply_processed_item_snapshot_def)
qed

definition stream_ids :: "pystr list \<Rightarrow> (processed_item \<times> persist_outcome) list \<Rightarrow> pystr list" where
  "stream_ids ids stream = filter (\<lambda>k. k \<in> set ids) (map (pi_item_id \<circ> fst) stream)"

lemma consume_stream_records:
  "consume_stream now i ids stream seen (s, t) = (seen', s', t') \<Longrightarrow> distinct (stream_ids ids stream) \<Longrightarrow>
     (\<forall>k \<in> set ids. get_item t k \<noteq> None) \<Longrightarrow> (\<forall>(p, w) \<in> set stream. pi_result p \<noteq> None) \<Longrightarrow>
     seen' = rev (stream_ids ids stream) @ seen \<and>
     run_total s' = run_total s + int (length (stream_ids ids stream)) \<and>
     (\<forall>k \<in> set (stream_ids ids stream). item_done t' k) \<and>
     (\<forall>k. k \<notin> set (stream_ids ids stream) \<longrightarrow> get_item t' k = get_item t k)"
proof (induction now i ids stream seen "(s, t)" arbitrary: s t rule: consume_stream.induct)
  case 1
  then show ?case by (simp add: stream_ids_def)
next
  case (2 now i ids p outcome stream seen s t)
  show ?case
  proof (cases "pi_item_id p \<in> set ids")
    case False
    with 2 show ?thesis by (simp add: stream_ids_def)
  next
    case True
    let ?r = "case outcome of Stored w m \<Rightarrow> persist_processed_item_result now i s p w m t
      | Store_failed err \<Rightarrow> persist_processed_item_failure now i s p err t"
    have "\<exists>st'. ?r = Some st' \<and> records_one (pi_item_id p) (s, t) st'"
      using 2(6,7) True persist_result_records [of t p] persist_failure_records [of t p]
      by (cases outcome) auto
    then obtain s1 u where r: "?r = Some (s1, u)" and one: "records_one (pi_item_id p) (s, t) (s1, u)" by auto
    have ids: "stream_ids ids ((p, outcome) # stream) = pi_item_id p # stream_ids ids stream"
      using True by (simp add: stream_ids_def)
    have exists: "\<forall>k \<in> set ids. get_item u k \<noteq> None"
      using 2(6) one by (metis (no_types, lifting) item_done_def option.simps(4) records_one_def snd_conv)
    have c: "consume_stream now i ids stream (pi_item_id p # seen) (s1, u) = (seen', s', t')"
      using 2(4) True r by simp
    have d: "distinct (stream_ids ids stream)" and new: "pi_item_id p \<notin> set (stream_ids ids stream)"
      using 2(5) unfolding ids by simp_all
    have IH: "seen' = rev (stream_ids ids stream) @ (pi_item_id p # seen) \<and>
       run_total s' = run_total s1 + int (length (stream_ids ids stream)) \<and>
       (\<forall>k \<in> set (stream_ids ids stream). item_done t' k) \<and>
       (\<forall>k. k \<notin> set (stream_ids ids stream) \<longrightarrow> get_item t' k = get_item u k)"
      using 2(3) [of s1 u] True r c d exists 2(7) by simp
    have "item_done t' (pi_item_id p)"
      using IH new one by (simp add: item_done_def records_one_def)
    with IH one show ?thesis unfolding ids by (simp add: records_one_def)
  qed
qed

lemma fail_items_records:
  "fail_items now i exc ks (s, t) = (s', t') \<Longrightarrow> distinct ks \<Longrightarrow> (\<forall>k \<in> set ks. get_item t k \<noteq> None) \<Longrightarrow>
     run_total s' = run_total s + int (length ks) \<and> (\<forall>k \<in> set ks. item_done t' k) \<and>
     (\<forall>k. k \<notin> set ks \<longrightarrow> get_item t' k = get_item t k)"
proof (induction ks arbitrary: s t)
  case Nil
  then show ?case by simp
next
  case (Cons k ks)
  obtain s1 u where r: "persist_batch_dispatch_failure_item now i s
      (build_batch_dispatch_failure_item k exc) t = Some (s1, u)" and one: "records_one k (s, t) (s1, u)"
    using persist_batch_failure_records [of t k now i s exc] Cons.prems(3) by force
  have "\<forall>k \<in> set ks. get_item u k \<noteq> None"
    using Cons.prems(2,3) one by (auto simp: records_one_def)
  with Cons.IH [of s1 u] Cons.prems r have IH: "run_total s' = run_total s1 + int (length ks) \<and>
      (\<forall>k \<in> set ks. item_done t' k) \<and> (\<forall>k. k \<notin> set ks \<longrightarrow> get_item t' k = get_item u k)" by simp
  with one Cons.prems(2) show ?case by (auto simp: records_one_def item_done_def)
qed

text \<open>C25. A batch is accounted for exactly: when the worker pool reports each item of the batch at most
  once, the three counters together grow by the number of reported items, or by the size of the
  whole batch when the pool breaks off with an error, in which case every item of the batch ends
  completed, failed or skipped and none is left in progress. Results for other items count
  nothing.\<close>

theorem batch_accounting:
  assumes "process_dispatch_batch now i batch stream failure (s, t) = (s', t')"
    and "distinct (map ui_id batch)" and "distinct (stream_ids (map ui_id batch) stream)"
    and "\<forall>k \<in> set (map ui_id batch). get_item t k \<noteq> None" and "\<forall>(p, w) \<in> set stream. pi_result p \<noteq> None"
  shows "run_total s' = run_total s + (case failure of
       None \<Rightarrow> int (length (stream_ids (map ui_id batch) stream)) | Some exc \<Rightarrow> int (length batch)) \<and>
    (\<forall>k \<in> set (map ui_id batch). (failure \<noteq> None \<or> k \<in> set (stream_ids (map ui_id batch) stream)) \<longrightarrow>
       item_done t' k)"
proof -
  let ?ids = "map ui_id batch" and ?sids = "stream_ids (map ui_id batch) stream"
  obtain seen s1 u where c: "consume_stream now i ?ids stream [] (s, t) = (seen, s1, u)"
    by (cases "consume_stream now i ?ids stream [] (s, t)") auto
  note r = consume_stream_records [OF c assms(3-5)]
  show ?thesis
  proof (cases failure)
    case None
    with assms(1) c r show ?thesis by (simp add: process_dispatch_batch_def)
  next
    case (Some exc)
    let ?rest = "remaining_batch_item_ids ?ids seen"
    have rest: "?rest = filter (\<lambda>k. k \<notin> set ?sids) ?ids"
      using r by (simp add: remaining_batch_item_ids_def)
    have f: "fail_items now i exc ?rest (s1, u) = (s', t')"
      using assms(1) c Some by (simp add: process_dispatch_batch_def)
    have "\<forall>k \<in> set ?rest. get_item u k \<noteq> None" using r assms(4) unfolding rest by auto
    moreover have "distinct ?rest" unfolding rest using assms(2) by (rule distinct_filter)
    ultimately have g: "run_total s' = run_total s1 + int (length ?rest) \<and> (\<forall>k \<in> set ?rest. item_done t' k) \<and>
        (\<forall>k. k \<notin> set ?rest \<longrightarrow> get_item t' k = get_item u k)"
      by (intro fail_items_records [OF f])
    have sub: "set ?sids \<subseteq> set ?ids" by (auto simp: stream_ids_def)
    have "length ?sids + length ?rest = length ?ids"
    proof -
      have "set ?ids = set ?sids \<union> set ?rest" using sub unfolding rest by auto
      moreover have "set ?sids \<inter> set ?rest = {}" unfolding rest by auto
      moreover have "distinct ?rest" unfolding rest using assms(2) by (rule distinct_filter)
      ultimately show ?thesis
        using assms(2,3) by (metis List.finite_set card_Un_disjoint distinct_card)
    qed
    moreover have "item_done t' k" if "k \<in> set ?ids" for k
    proof (cases "k \<in> set ?sids")
      case True
      then have "k \<notin> set ?rest" unfolding rest by simp
      with True r g show ?thesis by (simp add: item_done_def)
    next
      case False
      with that g show ?thesis unfolding rest by simp
    qed
    ultimately show ?thesis using r g Some by simp
  qed
qed

text \<open>Recovery leaves no running or pausing job and no item in progress, keeps every other row,
  reports how many jobs it paused, and repeated at once it changes nothing.\<close>

theorem recovery_complete:
  "let (n, t') = recover_interrupted_jobs now t in
     list_all (\<lambda>j. uj_state j \<notin> {JS_RUNNING, JS_PAUSING}) (jt_jobs t') \<and>
     list_all (\<lambda>x. ui_state x \<noteq> IS_IN_PROGRESS) (jt_items t') \<and>
     filter (\<lambda>j. uj_state j \<notin> {JS_RUNNING, JS_PAUSING, JS_PAUSED}) (jt_jobs t') =
       filter (\<lambda>j. uj_state j \<notin> {JS_RUNNING, JS_PAUSING, JS_PAUSED}) (jt_jobs t) \<and>
     n = int (length (filter (\<lambda>j. uj_state j \<in> {JS_RUNNING, JS_PAUSING}) (jt_jobs t))) \<and>
     recover_interrupted_jobs later t' = (0, t')"
proof -
  let ?f = "\<lambda>j. if uj_state j \<in> {JS_RUNNING, JS_PAUSING}
               then j\<lparr>uj_state := JS_PAUSED, uj_paused_at := Some now\<rparr> else j"
  have keep: "filter (\<lambda>j. uj_state j \<notin> {JS_RUNNING, JS_PAUSING, JS_PAUSED}) (map ?f ks) =
      filter (\<lambda>j. uj_state j \<notin> {JS_RUNNING, JS_PAUSING, JS_PAUSED}) ks" for ks
    by (induction ks) auto
  have none: "filter (\<lambda>j. uj_state j \<in> {JS_RUNNING, JS_PAUSING}) (map ?f ks) = []" for ks
    by (induction ks) auto
  have "map (\<lambda>j. if uj_state j \<in> {JS_RUNNING, JS_PAUSING}
      then j\<lparr>uj_state := JS_PAUSED, uj_paused_at := Some later\<rparr> else j) (map ?f ks) = map ?f ks" for ks
    by (induction ks) auto
  moreover have "map recover_item (map recover_item xs) = map recover_item xs" for xs
    by (induction xs) (auto simp: recover_item_def)
  ultimately show ?thesis
    by (simp only: recover_interrupted_jobs_def Let_def prod.case job_tables.simps keep none)
      (auto simp: list_all_iff recover_item_def)
qed

subsection \<open>A concrete queue\<close>

text \<open>One job with one pending item, and the job before it is dispatched.\<close>

definition sample_job :: "pystr \<Rightarrow> job_state \<Rightarrow> int option \<Rightarrow> pystr option \<Rightarrow> utility_job" where
  "sample_job i st pos started = (build_queued_job i ''t0'' ''mass_rename'' ''Rename'' (JObj []) 0 None)
     \<lparr>uj_state := st, uj_queue_position := pos, uj_started_at := started\<rparr>"

definition sample_item :: "pystr \<Rightarrow> nat \<Rightarrow> utility_item" where
  "sample_item i n = \<lparr>ui_id = i, ui_job_id = ''a'', ui_item_index = n, ui_state = IS_PENDING,
     ui_file_path = None, ui_operation = ''rename'', ui_before_state = JObj [], ui_after_state = JObj [],
     ui_started_at = None, ui_completed_at = None, ui_duration_ms = None, ui_error_message = None,
     ui_warning_message = None, ui_worker_id = None\<rparr>"

definition sample_tables :: "job_state \<Rightarrow> job_tables" where
  "sample_tables st = \<lparr>jt_jobs = [sample_job ''a'' st None None, sample_job ''b'' JS_QUEUED (Some 0) (Some ''t1''),
       sample_job ''c'' JS_QUEUED (Some 1) None], jt_items = [sample_item ''x'' 0, sample_item ''y'' 1]\<rparr>"

lemma sample_inv: "st \<in> {JS_PAUSED, JS_CANCELLING, JS_RUNNING, JS_PAUSING} \<Longrightarrow> queue_inv (sample_tables st)"
  by (auto simp: queue_inv_def sample_tables_def sample_job_def build_queued_job_def queued_jobs_def
      job_state_defs)

theorem resume_order_witness:
  "\<exists>t'. resume_job (sample_tables JS_PAUSED) ''a'' = Inr t' \<and>
     map uj_id (queued_jobs_in_order t') = [''b'', ''a'', ''c'']"
proof -
  have "is_ok (resume_job (sample_tables JS_PAUSED) ''a'')" by code_simp
  then obtain t' where r: "resume_job (sample_tables JS_PAUSED) ''a'' = Inr t'" by (auto simp: is_ok_iff)
  have "map uj_id (filter has_started (queued_jobs_in_order (sample_tables JS_PAUSED))) = [''b'']"
    "map uj_id (filter (\<lambda>j. \<not> has_started j) (queued_jobs_in_order (sample_tables JS_PAUSED))) = [''c'']"
    by code_simp+
  with resume_order [OF sample_inv r] r show ?thesis by simp
qed

theorem queue_is_serial_witness:
  "\<exists>t' i. queue_step\<^sup>*\<^sup>* (sample_tables JS_PAUSED, Idle) (t', Preparing i) \<and>
     length (filter (\<lambda>j. uj_state j = JS_RUNNING) (jt_jobs t')) \<le> 1"
proof -
  have "case start_next_dispatch_job (\<lambda>_. True) ''t2'' (sample_tables JS_PAUSED) of
      Inr (Dispatch_started i, t') \<Rightarrow> True | _ \<Rightarrow> False" by code_simp
  then obtain i t' where s: "start_next_dispatch_job (\<lambda>_. True) ''t2'' (sample_tables JS_PAUSED) =
      Inr (Dispatch_started i, t')" by (auto split: sum.splits dispatch_start.splits)
  have run: "queue_step\<^sup>*\<^sup>* (sample_tables JS_PAUSED, Idle) (t', Preparing i)"
    by (rule r_into_rtranclp, rule step_start [OF s])
  have "filter (\<lambda>j. uj_state j = JS_RUNNING) (jt_jobs (sample_tables JS_PAUSED)) = []" by code_simp
  from queue_is_serial [OF run sample_inv this] run show ?thesis by auto
qed

theorem finalize_succeeds_iff_witness:
  "\<not> is_ok (finalize_dispatch_job (\<lambda>_. ''n'') ''t9'' None
      \<lparr>rs_completed = 2, rs_failed = 0, rs_skipped = 0, rs_warnings = 0\<rparr> ''mass_rename''
      (sample_tables JS_PAUSING) ''a'')"
proof -
  have "get_job (sample_tables JS_PAUSING) ''a'' = Some (sample_job ''a'' JS_PAUSING None None)"
    by (simp add: get_job_def sample_tables_def sample_job_def build_queued_job_def)
  from finalize_succeeds_iff [OF this] show ?thesis
    by (simp add: sample_job_def all_failed_def)
qed


definition sample_result :: "pystr \<Rightarrow> processed_item" where
  "sample_result i = \<lparr>pi_item_id = i, pi_result = Some IR_SKIPPED, pi_before_state = JObj [],
     pi_after_state = JObj [], pi_duration_ms = 1, pi_error_message = None,
     pi_warning_message = None, pi_worker_id = None\<rparr>"

theorem batch_accounting_witness:
  "\<exists>s' t'. process_dispatch_batch ''t9'' ''a'' [sample_item ''x'' 0, sample_item ''y'' 1]
      [(sample_result ''y'', Stored 0 None)] (Some ''boom'')
      (\<lparr>rs_completed = 0, rs_failed = 0, rs_skipped = 0, rs_warnings = 0\<rparr>, sample_tables JS_RUNNING) = (s', t') \<and>
     run_total s' = 2 \<and> item_done t' ''x'' \<and> item_done t' ''y''"
proof -
  let ?s = "\<lparr>rs_completed = 0, rs_failed = 0, rs_skipped = 0, rs_warnings = 0\<rparr>"
  obtain s' t' where p: "process_dispatch_batch ''t9'' ''a'' [sample_item ''x'' 0, sample_item ''y'' 1]
      [(sample_result ''y'', Stored 0 None)] (Some ''boom'') (?s, sample_tables JS_RUNNING) = (s', t')"
    by (cases "process_dispatch_batch ''t9'' ''a'' [sample_item ''x'' 0, sample_item ''y'' 1]
      [(sample_result ''y'', Stored 0 None)] (Some ''boom'') (?s, sample_tables JS_RUNNING)")
  have "run_total s' = 2 \<and> item_done t' ''x'' \<and> item_done t' ''y''"
    using batch_accounting [OF p]
    by (simp add: stream_ids_def sample_item_def sample_result_def sample_tables_def get_item_def run_total_def)
  with p show ?thesis by blast
qed

end
