(* ===== verification/Py_Text.thy ===== *)
theory Py_Text
  imports Prelude
begin

text \<open>
  The text operations of Python's standard library that the components use, on code points
  below 256: case, white space and word characters, \<open>split\<close>, \<open>in\<close>, and the fragment of the
  \<open>re\<close> module their patterns are written in (compiled with \<open>re.IGNORECASE\<close>). A pattern is a
  value of \<open>rx\<close>; its matches at a position are listed in the order in which the backtracking
  matcher tries them, so that the first one is the match it returns.
\<close>

subsection \<open>Characters and strings\<close>

definition py_lower_char :: "char \<Rightarrow> char" where
  "py_lower_char c =
     (if (65 \<le> code c \<and> code c \<le> 90) \<or> (192 \<le> code c \<and> code c \<le> 222 \<and> code c \<noteq> 215)
      then char_of (code c + 32) else c)"

definition py_lower :: "pystr \<Rightarrow> pystr" where
  "py_lower s = map py_lower_char s"

definition is_py_space :: "char \<Rightarrow> bool" where
  "is_py_space c \<longleftrightarrow> (9 \<le> code c \<and> code c \<le> 13) \<or> (28 \<le> code c \<and> code c \<le> 32) \<or>
     code c = 133 \<or> code c = 160"

definition is_py_word :: "char \<Rightarrow> bool" where
  "is_py_word c \<longleftrightarrow> is_ascii_alnum c \<or> code c = 95 \<or> code c \<in> {170, 178, 179, 181, 185, 186, 188, 189, 190} \<or>
     (192 \<le> code c \<and> code c \<noteq> 215 \<and> code c \<noteq> 247)"

definition is_py_digit_char :: "char \<Rightarrow> bool" where
  "is_py_digit_char c \<longleftrightarrow> is_ascii_digit c \<or> code c \<in> {178, 179, 185}"

definition py_isdigit :: "pystr \<Rightarrow> bool" where
  "py_isdigit s \<longleftrightarrow> s \<noteq> [] \<and> list_all is_py_digit_char s"

definition py_strip :: "pystr \<Rightarrow> pystr" where
  "py_strip s = rev (dropWhile is_py_space (rev (dropWhile is_py_space s)))"

text \<open>\<open>s.split(sep)\<close> for a separator of one character\<close>

fun py_split :: "char \<Rightarrow> pystr \<Rightarrow> pystr list" where
  "py_split d [] = [[]]"
| "py_split d (c # cs) =
     (if c = d then [] # py_split d cs
      else (case py_split d cs of [] \<Rightarrow> [[c]] | w # ws \<Rightarrow> (c # w) # ws))"

fun starts_with :: "pystr \<Rightarrow> pystr \<Rightarrow> bool" where
  "starts_with [] s = True"
| "starts_with (p # ps) [] = False"
| "starts_with (p # ps) (c # cs) = (p = c \<and> starts_with ps cs)"

fun py_contains :: "pystr \<Rightarrow> pystr \<Rightarrow> bool" where
  "py_contains sub [] = (sub = [])"
| "py_contains sub (c # cs) = (starts_with sub (c # cs) \<or> py_contains sub cs)"

lemma py_split_ne [simp]: "py_split d s \<noteq> []"
  by (induction s) (auto split: list.splits)

text \<open>Joining the parts with the separator gives the text back.\<close>

fun join_with :: "char \<Rightarrow> pystr list \<Rightarrow> pystr" where
  "join_with d [] = []"
| "join_with d [w] = w"
| "join_with d (w # v # ws) = w @ d # join_with d (v # ws)"

lemma join_split: "join_with d (py_split d s) = s"
proof (induction s)
  case Nil
  then show ?case by simp
next
  case (Cons c s)
  obtain w ws where w: "py_split d s = w # ws" by (cases "py_split d s") auto
  with Cons show ?case by (cases ws) auto
qed

lemma starts_with_iff: "starts_with p s \<longleftrightarrow> (\<exists>t. s = p @ t)"
  by (induction p s rule: starts_with.induct) auto

lemma py_contains_iff: "py_contains sub s \<longleftrightarrow> (\<exists>u v. s = u @ sub @ v)"
proof (induction s)
  case Nil
  then show ?case by auto
next
  case (Cons c cs)
  show ?case
  proof
    assume "py_contains sub (c # cs)"
    then consider "starts_with sub (c # cs)" | "py_contains sub cs" by auto
    then show "\<exists>u v. c # cs = u @ sub @ v"
    proof cases
      case 1
      then show ?thesis by (metis append_Nil starts_with_iff)
    next
      case 2
      then show ?thesis using Cons by (metis append_Cons)
    qed
  next
    assume "\<exists>u v. c # cs = u @ sub @ v"
    then obtain u v where uv: "c # cs = u @ sub @ v" by blast
    then show "py_contains sub (c # cs)"
    proof (cases u)
      case Nil
      with uv have "starts_with sub (c # cs)" by (simp add: starts_with_iff)
      then show ?thesis by simp
    next
      case (Cons d us)
      with uv \<open>py_contains sub cs \<longleftrightarrow> _\<close> show ?thesis by auto
    qed
  qed
qed

lemma py_strip_idem [simp]: "py_strip (py_strip s) = py_strip s"
proof -
  let ?t = "dropWhile is_py_space s"
  have a: "py_strip s = rev (dropWhile is_py_space (rev ?t))" by (simp add: py_strip_def)
  have "dropWhile is_py_space (py_strip s) = py_strip s"
  proof (cases "py_strip s")
    case (Cons c cs)
    obtain ys where "?t = py_strip s @ ys"
      by (metis a rev_append rev_rev_ident takeWhile_dropWhile_id)
    with Cons have t: "?t = c # cs @ ys" by (metis append_Cons)
    then have "?t \<noteq> []" and "hd ?t = c" by (simp_all only: list.sel list.distinct not_False_eq_True)
    then have "\<not> is_py_space c" using hd_dropWhile by blast
    with Cons show ?thesis by simp
  qed simp
  moreover have "dropWhile is_py_space (rev (py_strip s)) = rev (py_strip s)"
    by (simp add: a dropWhile_idem)
  ultimately show ?thesis by (simp add: py_strip_def [of "py_strip s"])
qed

subsection \<open>Patterns\<close>

datatype rx =
    REps
  | RChar "char \<Rightarrow> bool"
  | RBound
  | REnd
  | RSeq rx rx
  | RAlt rx rx
  | ROpt rx
  | RMany "char \<Rightarrow> bool"

text \<open>A position is the character before it, if any, and the text from it on.\<close>

type_synonym position = "char option \<times> pystr"

definition at_boundary :: "position \<Rightarrow> bool" where
  "at_boundary p \<longleftrightarrow>
     (case fst p of None \<Rightarrow> False | Some c \<Rightarrow> is_py_word c) \<noteq>
     (case snd p of [] \<Rightarrow> False | c # _ \<Rightarrow> is_py_word c)"

fun many_ends :: "(char \<Rightarrow> bool) \<Rightarrow> char option \<Rightarrow> pystr \<Rightarrow> position list" where
  "many_ends p prev [] = [(prev, [])]"
| "many_ends p prev (c # cs) = (if p c then many_ends p (Some c) cs else []) @ [(prev, c # cs)]"

fun rx_ends :: "rx \<Rightarrow> position \<Rightarrow> position list" where
  "rx_ends REps st = [st]"
| "rx_ends (RChar p) st = (case snd st of [] \<Rightarrow> [] | c # cs \<Rightarrow> if p c then [(Some c, cs)] else [])"
| "rx_ends RBound st = (if at_boundary st then [st] else [])"
| "rx_ends REnd st = (if snd st = [] \<or> snd st = [char_of (10 :: nat)] then [st] else [])"
| "rx_ends (RSeq r q) st = concat (map (rx_ends q) (rx_ends r st))"
| "rx_ends (RAlt r q) st = rx_ends r st @ rx_ends q st"
| "rx_ends (ROpt r) st = rx_ends r st @ [st]"
| "rx_ends (RMany p) st = many_ends p (fst st) (snd st)"

text \<open>\<open>search\<close>: the first match of the leftmost position that has one, as its text\<close>

fun search_from :: "rx \<Rightarrow> char option \<Rightarrow> pystr \<Rightarrow> pystr option" where
  "search_from r prev [] =
     (case rx_ends r (prev, []) of [] \<Rightarrow> None | e # _ \<Rightarrow> Some [])"
| "search_from r prev (c # cs) =
     (case rx_ends r (prev, c # cs) of
        e # _ \<Rightarrow> Some (take (length (c # cs) - length (snd e)) (c # cs))
      | [] \<Rightarrow> search_from r (Some c) cs)"

definition re_search :: "rx \<Rightarrow> pystr \<Rightarrow> pystr option" where
  "re_search r s = search_from r None s"

definition re_found :: "rx \<Rightarrow> pystr \<Rightarrow> bool" where
  "re_found r s \<longleftrightarrow> re_search r s \<noteq> None"

text \<open>Literals match letters of either case; \<open>|\<close> tries its branches from left to right.\<close>

definition rx_lit_char :: "char \<Rightarrow> rx" where
  "rx_lit_char p = RChar (\<lambda>c. py_lower_char c = py_lower_char p)"

text \<open>\<open>$\<close> without \<open>re.MULTILINE\<close> is \<open>REnd\<close>; \<open>match\<close> looks for a match at the beginning only.\<close>

definition re_match :: "rx \<Rightarrow> pystr \<Rightarrow> bool" where
  "re_match r s \<longleftrightarrow> rx_ends r (None, s) \<noteq> []"

fun rx_exact :: "pystr \<Rightarrow> rx" where
  "rx_exact [] = REps"
| "rx_exact (c # cs) = RSeq (RChar (\<lambda>d. d = c)) (rx_exact cs)"

fun rx_lit :: "pystr \<Rightarrow> rx" where
  "rx_lit [] = REps"
| "rx_lit (c # cs) = RSeq (rx_lit_char c) (rx_lit cs)"

fun rx_alts :: "rx list \<Rightarrow> rx" where
  "rx_alts [] = RChar (\<lambda>_. False)"
| "rx_alts [r] = r"
| "rx_alts (r # q # rs) = RAlt r (rx_alts (q # rs))"

fun rx_seq :: "rx list \<Rightarrow> rx" where
  "rx_seq [] = REps"
| "rx_seq [r] = r"
| "rx_seq (r # q # rs) = RSeq r (rx_seq (q # rs))"

definition rx_some :: "(char \<Rightarrow> bool) \<Rightarrow> rx" where
  "rx_some p = RSeq (RChar p) (RMany p)"

subsection \<open>Laws of the matcher\<close>

lemma many_ends_suffix: "(prev', t) \<in> set (many_ends p prev s) \<Longrightarrow> \<exists>u. s = u @ t \<and> list_all p u"
proof (induction p prev s arbitrary: prev' t rule: many_ends.induct)
  case (1 p prev)
  then show ?case by simp
next
  case (2 p prev c cs)
  then show ?case
    by (force split: if_splits intro: exI [of _ "[]"] dest: 2(1))
qed

lemma rx_ends_suffix: "(prev', t) \<in> set (rx_ends r st) \<Longrightarrow> \<exists>u. snd st = u @ t"
proof (induction r arbitrary: st prev' t)
  case (RSeq r q)
  then obtain p1 t1 where m: "(p1, t1) \<in> set (rx_ends r st)" "(prev', t) \<in> set (rx_ends q (p1, t1))"
    by auto
  from RSeq.IH(1) [OF m(1)] RSeq.IH(2) [OF m(2)] show ?case by auto
next
  case (RMany p)
  then show ?case using many_ends_suffix by fastforce
qed (auto split: list.splits if_splits)

lemma search_from_substring: "search_from r prev s = Some w \<Longrightarrow> py_contains w s"
proof (induction r prev s rule: search_from.induct)
  case (1 r prev)
  then show ?case by (auto split: list.splits)
next
  case (2 r prev c cs)
  show ?case
  proof (cases "rx_ends r (prev, c # cs)")
    case Nil
    with 2 show ?thesis by simp
  next
    case (Cons e es)
    with 2(2) have "w = take (length (c # cs) - length (snd e)) (c # cs)" by simp
    then have "c # cs = [] @ w @ drop (length (c # cs) - length (snd e)) (c # cs)"
      by (metis append_Nil append_take_drop_id)
    then show ?thesis unfolding py_contains_iff by blast
  qed
qed

lemma re_search_substring: "re_search r s = Some w \<Longrightarrow> py_contains w s"
  by (simp add: re_search_def search_from_substring)

text \<open>The text a search returns is matched by the pattern at some position.\<close>

lemma search_from_matches:
  assumes "search_from r prev s = Some w"
  shows "\<exists>p u t. (\<exists>v. s = v @ u) \<and> t \<in> set (rx_ends r (p, u)) \<and> u = w @ snd t"
  using assms
proof (induction r prev s rule: search_from.induct)
  case (1 r prev)
  then obtain e es where e: "rx_ends r (prev, []) = e # es" and w: "w = []"
    by (auto split: list.splits)
  have "snd e = []" using rx_ends_suffix [of "fst e" "snd e" r "(prev, [])"] e by simp
  with e w show ?case by (intro exI [of _ prev] exI [of _ "[]"] exI [of _ e]) simp
next
  case (2 r prev c cs)
  show ?case
  proof (cases "rx_ends r (prev, c # cs)")
    case Nil
    with 2 obtain p u t v where "cs = v @ u" "t \<in> set (rx_ends r (p, u))" "u = w @ snd t" by auto
    then show ?thesis by (metis append_Cons)
  next
    case (Cons e es)
    with 2(2) have w: "w = take (length (c # cs) - length (snd e)) (c # cs)" by simp
    obtain u where u: "c # cs = u @ snd e"
      using rx_ends_suffix [of "fst e" "snd e" r "(prev, c # cs)"] Cons by auto
    then have "w = u" using w by (metis append_eq_conv_conj diff_add_inverse2 length_append)
    with u Cons show ?thesis by (intro exI [of _ prev] exI [of _ "c # cs"] exI [of _ e]) auto
  qed
qed

end
