(* ===== verification/Search_Scoring.thy ===== *)
theory Search_Scoring
  imports Py_Text
begin

text \<open>
  Scoring of release candidates (\<open>src/src/pullbox/services/search_scoring.py\<close>), with the
  release row of \<open>src/src/pullbox/providers/base.py\<close>. Scores are exact rationals: rounding of
  float arithmetic is not modelled. The titles' patterns are those of the source, except that
  the en dash a pack range may also be written with is outside the characters of the model. The
  keyword arguments all scoring functions share are one record, \<open>score_opts\<close>.
\<close>

datatype acquisition_protocol = Proto_USENET | Proto_TORRENT | Proto_DIRECT | Proto_DC

fun protocol_value :: "acquisition_protocol \<Rightarrow> pystr" where
  "protocol_value Proto_USENET = ''usenet''"
| "protocol_value Proto_TORRENT = ''torrent''"
| "protocol_value Proto_DIRECT = ''direct''"
| "protocol_value Proto_DC = ''dc''"

record release_result =
  rr_title :: pystr
  rr_indexer_name :: pystr
  rr_download_url :: pystr
  rr_size_bytes :: "int option"
  rr_age_days :: "int option"
  rr_seeders :: "int option"
  rr_leechers :: "int option"
  rr_grabs :: "int option"
  rr_protocol :: acquisition_protocol
  rr_category :: "pystr option"
  rr_published_at :: "timestamp option"
  rr_info_url :: "pystr option"
  rr_indexer_id :: "int option"
  rr_ranking_priority :: int

definition is_torrent :: "release_result \<Rightarrow> bool" where
  "is_torrent r \<longleftrightarrow> rr_protocol r = Proto_TORRENT"

datatype match_confidence = Conf_HIGH | Conf_MEDIUM | Conf_LOW | Conf_UNMATCHED | Conf_MANUAL

fun confidence_value :: "match_confidence \<Rightarrow> pystr" where
  "confidence_value Conf_HIGH = ''high''"
| "confidence_value Conf_MEDIUM = ''medium''"
| "confidence_value Conf_LOW = ''low''"
| "confidence_value Conf_UNMATCHED = ''unmatched''"
| "confidence_value Conf_MANUAL = ''manual''"

subsection \<open>Ranks and lanes\<close>

definition DEFAULT_MIN_SIZE_MB :: int where "DEFAULT_MIN_SIZE_MB = 50"

definition DEFAULT_MAX_SIZE_MB :: int where "DEFAULT_MAX_SIZE_MB = 2000"

definition DIRECT_PROVIDER_NEUTRAL_PRIORITY :: int where "DIRECT_PROVIDER_NEUTRAL_PRIORITY = 25"

definition DEFAULT_SOURCE_PRIORITY :: "pystr list" where
  "DEFAULT_SOURCE_PRIORITY = [''usenet'', ''torrent'', ''direct'', ''dc'']"

definition MATCH_CONFIDENCE_RANK :: "(pystr, int) dict" where
  "MATCH_CONFIDENCE_RANK = [(''high'', 0), (''medium'', 1), (''low'', 2), (''manual'', 3), (''unmatched'', 4)]"

definition match_confidence_rank :: "pystr option \<Rightarrow> int" where
  "match_confidence_rank value = or_else (map_of MATCH_CONFIDENCE_RANK (or_else value '''')) 99"

text \<open>The argument is the list of the strings and other objects (None) of the value.\<close>

definition source_item :: "pystr \<Rightarrow> pystr" where
  "source_item raw = (let item = py_lower (py_strip raw) in if item = ''ddl'' then ''direct'' else item)"

fun normalize_items :: "pystr option list \<Rightarrow> pystr list \<Rightarrow> pystr list" where
  "normalize_items [] acc = acc"
| "normalize_items (None # vs) acc = normalize_items vs acc"
| "normalize_items (Some raw # vs) acc =
     (let item = source_item raw
      in normalize_items vs
           (if item \<in> set DEFAULT_SOURCE_PRIORITY \<and> item \<notin> set acc then acc @ [item] else acc))"

definition normalize_source_priority :: "pystr option list option \<Rightarrow> pystr list option" where
  "normalize_source_priority value =
     (case value of
        None \<Rightarrow> None
      | Some vs \<Rightarrow>
          (let normalized = normalize_items vs []
           in if normalized = [] then None
              else Some (normalized @
                     filter (\<lambda>item. item \<notin> set normalized) DEFAULT_SOURCE_PRIORITY)))"

text \<open>The position of an item in a priority list\<close>

fun index_of :: "'a \<Rightarrow> 'a list \<Rightarrow> int option" where
  "index_of x [] = None"
| "index_of x (y # ys) = (if x = y then Some 0 else map_option (\<lambda>i. i + 1) (index_of x ys))"

definition sort_by_source_priority :: "release_result list \<Rightarrow> pystr list \<Rightarrow> release_result list" where
  "sort_by_source_priority results priority =
     (case normalize_source_priority (Some (map Some priority)) of
        None \<Rightarrow> results
      | Some normalized \<Rightarrow>
          sort_key (\<lambda>r. or_else (index_of (protocol_value (rr_protocol r)) normalized)
            (int (length normalized))) results)"

subsection \<open>Parts of the score\<close>

definition score_indexer_priority :: "int \<Rightarrow> rat" where
  "score_indexer_priority priority =
     (let clamped = max 1 (min priority 50) in of_int (51 - clamped) / 50 * 100)"

definition score_age :: "int option \<Rightarrow> rat" where
  "score_age age_days =
     (case age_days of None \<Rightarrow> 50 | Some d \<Rightarrow> max 30 (100 - of_int d * (2 / 100)))"

definition score_size :: "int option \<Rightarrow> int \<Rightarrow> int \<Rightarrow> rat" where
  "score_size size_bytes min_size_mb max_size_mb =
     (case size_bytes of
        None \<Rightarrow> 50
      | Some b \<Rightarrow>
          (let size_mb = of_int b / 1048576
           in if size_mb < of_int min_size_mb then
                (if min_size_mb > 0 then size_mb / of_int min_size_mb * 100 else 0)
              else if size_mb > of_int max_size_mb then
                (let overshoot = (if max_size_mb > 0
                       then (size_mb - of_int max_size_mb) / of_int max_size_mb else 1)
                 in max 0 (100 - overshoot * 100))
              else 100))"

definition FORMAT_RE :: rx where
  "FORMAT_RE = rx_seq [rx_lit ''.'',
     rx_alts (map rx_lit [''cbz'', ''cbr'', ''cb7'', ''pdf'', ''epub'']), RBound]"

definition TAG_RE :: rx where
  "TAG_RE = rx_seq [RBound, rx_alts (map rx_lit [''cbz'', ''cbr'', ''cb7'']), RBound]"

definition PREFERRED_FORMATS :: "(pystr, int) dict" where
  "PREFERRED_FORMATS = [(''cbz'', 100), (''cbr'', 80), (''cb7'', 60)]"

definition format_scores :: "pystr option \<Rightarrow> (pystr, int) dict" where
  "format_scores preferred_format =
     (case preferred_format of
        None \<Rightarrow> PREFERRED_FORMATS
      | Some f \<Rightarrow>
          if f = [] then PREFERRED_FORMATS
          else AList.update (dropWhile (\<lambda>c. c = CHR ''.'') (py_lower f)) 100
                 [(''cbz'', 80), (''cbr'', 80), (''cb7'', 60)])"

definition score_format :: "pystr \<Rightarrow> pystr option \<Rightarrow> rat" where
  "score_format title preferred_format =
     (let fmt_scores = format_scores preferred_format
      in case re_search FORMAT_RE title of
           Some w \<Rightarrow> of_int (or_else (map_of fmt_scores (py_lower (drop 1 w))) 40)
         | None \<Rightarrow>
             (case re_search TAG_RE title of
                Some w \<Rightarrow> of_int (or_else (map_of fmt_scores (py_lower w)) 40)
              | None \<Rightarrow> 40))"

definition COMIC_CATEGORY_IDS :: "pystr list" where "COMIC_CATEGORY_IDS = [''7030'']"

definition BOOK_CATEGORY_IDS :: "pystr list" where
  "BOOK_CATEGORY_IDS = [''7000'', ''7010'', ''7020'', ''7040'']"

fun category_parts :: "pystr list \<Rightarrow> rat \<Rightarrow> rat" where
  "category_parts [] best = best"
| "category_parts (p # ps) best =
     (let part = py_strip p
      in if part = [] then category_parts ps best
         else if py_isdigit part then
           (if part \<in> set COMIC_CATEGORY_IDS then 15
            else category_parts ps (if part \<in> set BOOK_CATEGORY_IDS then max best 5 else best))
         else
           (let lower = py_lower part
            in if py_contains ''comic'' lower then 15
               else category_parts ps
                 (if py_contains ''book'' lower \<or> py_contains ''ebook'' lower then max best 5 else best)))"

definition score_category :: "pystr option \<Rightarrow> rat" where
  "score_category category =
     (case category of
        None \<Rightarrow> 0
      | Some c \<Rightarrow> if c = [] then 0 else category_parts (py_split CHR '','' c) 0)"

definition score_seeders :: "int option \<Rightarrow> bool \<Rightarrow> int \<times> int \<times> int \<Rightarrow> rat" where
  "score_seeders seeders torrent tiers =
     (case seeders of
        None \<Rightarrow> 0
      | Some n \<Rightarrow>
          if \<not> torrent \<or> n \<le> 0 then 0
          else (case tiers of (t1, t2, t3) \<Rightarrow>
            if n \<le> t1 then 4 else if n \<le> t2 then 8 else if n \<le> t3 then 12 else 15))"

definition score_grabs :: "int option \<Rightarrow> rat" where
  "score_grabs grabs =
     (case grabs of
        None \<Rightarrow> 30
      | Some n \<Rightarrow> if n \<le> 0 then 30 else if n \<le> 10 then 60 else if n \<le> 50 then 80
          else if n \<le> 100 then 90 else 100)"

definition PACK_RE :: rx where
  "PACK_RE = rx_alts
     [rx_seq [ROpt (rx_lit ''#''), rx_some is_ascii_digit, RMany is_py_space, rx_lit ''-'',
        RMany is_py_space, ROpt (rx_lit ''#''), rx_some is_ascii_digit],
      rx_seq [rx_alts [rx_lit ''complete'', rx_lit ''full''], rx_some is_py_space, rx_lit ''collection''],
      rx_seq [RBound, rx_lit ''pack'', RBound]]"

definition score_pack_penalty :: "pystr \<Rightarrow> int option \<Rightarrow> int \<Rightarrow> int \<Rightarrow> rat" where
  "score_pack_penalty title file_count max_file_count penalty =
     (if penalty = 0 then 0
      else if re_found PACK_RE title then of_int penalty
      else case file_count of
             None \<Rightarrow> 0
           | Some n \<Rightarrow> if n > max_file_count then of_int penalty else 0)"

definition LANGUAGE_MAP :: "(pystr, pystr) dict" where
  "LANGUAGE_MAP = [(''fr'', ''fr''), (''fre'', ''fr''), (''french'', ''fr''), (''german'', ''de''),
     (''spanish'', ''es''), (''ita'', ''it''), (''italian'', ''it''), (''portuguese'', ''pt''),
     (''japanese'', ''ja''), (''chinese'', ''zh''), (''korean'', ''ko''), (''dutch'', ''nl''),
     (''polish'', ''pl''), (''russian'', ''ru'')]"

definition LANGUAGE_RE :: rx where
  "LANGUAGE_RE = rx_seq [RBound, rx_alts (map (rx_lit \<circ> fst) LANGUAGE_MAP), RBound]"

text \<open>The dictionary lookup of the matched word cannot fail: see \<open>language_lookup\<close> below.\<close>

definition score_language :: "pystr \<Rightarrow> pystr \<Rightarrow> rat" where
  "score_language title preferred =
     (case re_search LANGUAGE_RE title of
        None \<Rightarrow> 0
      | Some w \<Rightarrow> if map_of LANGUAGE_MAP (py_lower w) = Some preferred then 0 else -30)"

definition SCAN_RE :: rx where
  "SCAN_RE = rx_seq [RBound, rx_alts [rx_lit ''scan'', rx_lit ''c2c''], RBound]"

definition DIGITAL_RE :: rx where
  "DIGITAL_RE = rx_seq [RBound, rx_alts [rx_lit ''digital'', rx_lit ''webrip''], RBound]"

definition score_digital_bonus :: "pystr \<Rightarrow> int \<Rightarrow> rat" where
  "score_digital_bonus title bonus =
     (if bonus = 0 then 0
      else if re_found SCAN_RE title then 0
      else if re_found DIGITAL_RE title then of_int bonus
      else 0)"

subsection \<open>The score\<close>

record score_opts =
  so_min_size_mb :: int
  so_max_size_mb :: int
  so_preferred_format :: "pystr option"
  so_seeder_tiers :: "(int \<times> int \<times> int) option"
  so_score_weights :: "(rat \<times> rat \<times> rat \<times> rat) option"
  so_grabs_weight :: int
  so_pack_penalty :: int
  so_max_file_count :: int
  so_preferred_language :: pystr
  so_digital_bonus :: int

definition default_score_opts :: score_opts where
  "default_score_opts = \<lparr>so_min_size_mb = DEFAULT_MIN_SIZE_MB, so_max_size_mb = DEFAULT_MAX_SIZE_MB,
     so_preferred_format = None, so_seeder_tiers = None, so_score_weights = None, so_grabs_weight = 0,
     so_pack_penalty = -20, so_max_file_count = 5, so_preferred_language = ''en'', so_digital_bonus = 10\<rparr>"

datatype search_error = ZeroDivision

text \<open>The five weights; the normalisation divides by their sum.\<close>

definition resolved_weights ::
  "score_opts \<Rightarrow> (search_error, rat \<times> rat \<times> rat \<times> rat \<times> rat) result" where
  "resolved_weights opts =
     (case or_else (so_score_weights opts) (40 / 100, 30 / 100, 20 / 100, 10 / 100) of (a, b, c, d) \<Rightarrow>
        if so_grabs_weight opts > 0 then
          (let k = (if list_all (\<lambda>w. w < 2) [a, b, c, d] then 100 else 1);
               g = of_int (so_grabs_weight opts);
               total = a * k + b * k + c * k + d * k + g
           in if total = 0 then Inl ZeroDivision
              else Inr (a * k / total, b * k / total, c * k / total, d * k / total, g / total))
        else Inr (a, b, c, d, 0))"

definition weighted_score :: "score_opts \<Rightarrow> release_result \<Rightarrow> int \<Rightarrow> rat \<times> rat \<times> rat \<times> rat \<times> rat \<Rightarrow> rat" where
  "weighted_score opts r priority w =
     (case w of (w_priority, w_age, w_size, w_format, w_grabs) \<Rightarrow>
        (let weighted = score_indexer_priority priority * w_priority +
               score_age (rr_age_days r) * w_age +
               score_size (rr_size_bytes r) (so_min_size_mb opts) (so_max_size_mb opts) * w_size +
               score_format (rr_title r) (so_preferred_format opts) * w_format
         in if w_grabs > 0 then weighted + score_grabs (rr_grabs r) * w_grabs else weighted))"

definition score_bonuses :: "score_opts \<Rightarrow> release_result \<Rightarrow> rat" where
  "score_bonuses opts r =
     score_category (rr_category r) +
     score_seeders (rr_seeders r) (is_torrent r) (or_else (so_seeder_tiers opts) (10, 30, 50)) +
     score_digital_bonus (rr_title r) (so_digital_bonus opts) +
     score_pack_penalty (rr_title r) None (so_max_file_count opts) (so_pack_penalty opts) +
     score_language (rr_title r) (so_preferred_language opts)"

definition score_release ::
  "score_opts \<Rightarrow> int option \<Rightarrow> release_result \<Rightarrow> (search_error, rat) result" where
  "score_release opts indexer_priority r =
     bind_result (resolved_weights opts) (\<lambda>w.
       let resolved_priority = or_else indexer_priority (rr_ranking_priority r)
       in Inr (weighted_score opts r resolved_priority w + score_bonuses opts r))"

subsection \<open>The source order\<close>

text \<open>The sources a value names, each once, in the order of their first mention\<close>

fun recognised :: "pystr option list \<Rightarrow> pystr list" where
  "recognised [] = []"
| "recognised (None # vs) = recognised vs"
| "recognised (Some raw # vs) =
     (if source_item raw \<in> set DEFAULT_SOURCE_PRIORITY
      then source_item raw # filter (\<lambda>i. i \<noteq> source_item raw) (recognised vs)
      else recognised vs)"

lemma normalize_items_recognised:
  "normalize_items vs acc = acc @ filter (\<lambda>i. i \<notin> set acc) (recognised vs)"
proof (induction vs arbitrary: acc rule: recognised.induct)
  case (3 raw vs)
  let ?i = "source_item raw"
  have f: "filter (\<lambda>i. i \<notin> set acc \<and> i \<noteq> ?i) xs = filter (\<lambda>i. i \<noteq> ?i \<and> i \<notin> set acc) xs" for xs
    by (rule filter_cong) auto
  have g: "?i \<in> set acc \<Longrightarrow> filter (\<lambda>i. i \<noteq> ?i \<and> i \<notin> set acc) xs = filter (\<lambda>i. i \<notin> set acc) xs" for xs
    by (rule filter_cong) auto
  from 3 show ?case by (auto simp: Let_def f g conj_commute)
qed simp_all

lemma distinct_recognised: "distinct (recognised vs)"
  by (induction vs rule: recognised.induct) auto

lemma set_recognised: "set (recognised vs) \<subseteq> set DEFAULT_SOURCE_PRIORITY"
  by (induction vs rule: recognised.induct) auto

lemma normalize_source_priority_eq:
  "normalize_source_priority (Some vs) = (if recognised vs = [] then None
     else Some (recognised vs @ filter (\<lambda>i. i \<notin> set (recognised vs)) DEFAULT_SOURCE_PRIORITY))"
  by (simp add: normalize_source_priority_def normalize_items_recognised Let_def)

lemma distinct_default_priority: "distinct DEFAULT_SOURCE_PRIORITY"
  by (simp add: DEFAULT_SOURCE_PRIORITY_def)

lemma normalized_perm:
  assumes "normalize_source_priority v = Some p"
  shows "set p = set DEFAULT_SOURCE_PRIORITY" and "distinct p"
proof -
  obtain vs where v: "v = Some vs" using assms by (cases v) (simp_all add: normalize_source_priority_def)
  with assms have p: "p = recognised vs @ filter (\<lambda>i. i \<notin> set (recognised vs)) DEFAULT_SOURCE_PRIORITY"
    by (simp add: normalize_source_priority_eq split: if_splits)
  show "set p = set DEFAULT_SOURCE_PRIORITY"
    using set_recognised [of vs] by (auto simp: p)
  show "distinct p"
    using distinct_recognised [of vs] distinct_default_priority by (auto simp: p)
qed

lemma source_item_default: "i \<in> set DEFAULT_SOURCE_PRIORITY \<Longrightarrow> source_item i = i"
proof -
  have "list_all (\<lambda>i. source_item i = i) DEFAULT_SOURCE_PRIORITY" by code_simp
  then show "i \<in> set DEFAULT_SOURCE_PRIORITY \<Longrightarrow> source_item i = i" by (auto simp: list_all_iff)
qed

lemma recognised_sources:
  assumes "set p \<subseteq> set DEFAULT_SOURCE_PRIORITY" and "distinct p"
  shows "recognised (map Some p) = p"
  using assms by (induction p) (auto simp: source_item_default intro!: filter_True)

lemma normalized_idem:
  assumes "normalize_source_priority v = Some p"
  shows "normalize_source_priority (Some (map Some p)) = Some p"
proof -
  note p = normalized_perm [OF assms]
  have "recognised (map Some p) = p" using p by (intro recognised_sources) auto
  moreover have "p \<noteq> []" using p(1) by (cases p) (simp_all add: DEFAULT_SOURCE_PRIORITY_def)
  moreover have "filter (\<lambda>i. i \<notin> set p) DEFAULT_SOURCE_PRIORITY = []" by (simp add: p(1) filter_empty_conv)
  ultimately show ?thesis by (simp add: normalize_source_priority_eq)
qed

text \<open>A configured source order always becomes a complete one: the sources the setting names come
  first, in the order of their first mention and each once (the alias DDL read as direct), the
  others follow in the default order, every source occurs exactly once, normalising again
  changes nothing, and there is no order exactly when the setting names no source.\<close>

theorem source_priority_complete:
  "case normalize_source_priority v of
     None \<Rightarrow> (case v of None \<Rightarrow> True | Some vs \<Rightarrow> recognised vs = [])
   | Some p \<Rightarrow> mset p = mset DEFAULT_SOURCE_PRIORITY \<and>
       normalize_source_priority (Some (map Some p)) = Some p \<and>
       (case v of None \<Rightarrow> False
        | Some vs \<Rightarrow> take (length (recognised vs)) p = recognised vs \<and>
            drop (length (recognised vs)) p =
              filter (\<lambda>i. i \<notin> set (recognised vs)) DEFAULT_SOURCE_PRIORITY)"
proof (cases "normalize_source_priority v")
  case None
  then show ?thesis
    by (cases v) (simp_all add: normalize_source_priority_eq split: if_splits)
next
  case (Some p)
  note p = normalized_perm [OF Some]
  have "mset p = mset DEFAULT_SOURCE_PRIORITY"
    using p distinct_default_priority by (simp add: set_eq_iff_mset_eq_distinct)
  moreover note normalized_idem [OF Some]
  moreover obtain vs where v: "v = Some vs"
    using Some by (cases v) (simp_all add: normalize_source_priority_def)
  moreover have "p = recognised vs @ filter (\<lambda>i. i \<notin> set (recognised vs)) DEFAULT_SOURCE_PRIORITY"
    using Some v by (simp add: normalize_source_priority_eq split: if_splits)
  ultimately show ?thesis unfolding Some by simp
qed

subsection \<open>Ranges of the parts\<close>

lemma score_indexer_priority_range: "0 \<le> score_indexer_priority n" "score_indexer_priority n \<le> 100"
  by (auto simp: score_indexer_priority_def Let_def max_def min_def field_simps)

lemma score_indexer_priority_mono: "n \<le> m \<Longrightarrow> score_indexer_priority m \<le> score_indexer_priority n"
  by (auto simp: score_indexer_priority_def Let_def max_def min_def field_simps)

lemma score_age_range:
  "0 \<le> score_age d" "(case d of None \<Rightarrow> True | Some n \<Rightarrow> n \<ge> 0) \<Longrightarrow> score_age d \<le> 100"
  by (auto simp: score_age_def max_def split: option.splits)

lemma score_age_mono: "n \<le> m \<Longrightarrow> score_age (Some m) \<le> score_age (Some n)"
  by (auto simp: score_age_def max_def)

lemma score_size_range:
  assumes "case b of None \<Rightarrow> True | Some n \<Rightarrow> n \<ge> 0"
  shows "0 \<le> score_size b lo hi" "score_size b lo hi \<le> 100"
proof -
  have "0 \<le> score_size b lo hi \<and> score_size b lo hi \<le> 100"
  proof (cases b)
    case None
    then show ?thesis by (simp add: score_size_def)
  next
    case (Some n)
    let ?s = "of_int n / 1048576 :: rat"
    have "0 \<le> ?s" using assms Some by simp
    moreover have "?s / of_int lo * 100 \<le> 100" if "?s < of_int lo" "lo > 0"
      using that by (simp add: field_simps)
    moreover have "0 \<le> (?s - of_int hi) / of_int hi * 100" if "?s > of_int hi" "hi > 0"
      using that by simp
    ultimately show ?thesis using Some by (simp add: score_size_def Let_def max_def)
  qed
  then show "0 \<le> score_size b lo hi" "score_size b lo hi \<le> 100" by simp_all
qed

lemma format_scores_range: "map_of (format_scores f) k = Some n \<Longrightarrow> 40 \<le> n \<and> n \<le> 100"
  by (auto simp: format_scores_def PREFERRED_FORMATS_def dict_get_put split: option.splits if_splits)

lemma format_score_range: "40 \<le> or_else (map_of (format_scores f) k) 40 \<and> or_else (map_of (format_scores f) k) 40 \<le> 100"
  using format_scores_range by (cases "map_of (format_scores f) k") auto

lemma score_format_range: "40 \<le> score_format t f" "score_format t f \<le> 100"
proof -
  have r: "(40 :: rat) \<le> of_int (or_else (map_of (format_scores f) k) 40) \<and>
      of_int (or_else (map_of (format_scores f) k) 40) \<le> (100 :: rat)" for k
    using format_score_range [of f k] by (metis of_int_le_iff of_int_numeral)
  show "40 \<le> score_format t f" "score_format t f \<le> 100"
    using r by (auto simp: score_format_def Let_def split: option.split)
qed

lemma category_parts_range: "0 \<le> b \<Longrightarrow> b \<le> 15 \<Longrightarrow> 0 \<le> category_parts ps b \<and> category_parts ps b \<le> 15"
  by (induction ps b rule: category_parts.induct) (simp_all add: Let_def max_def)

lemma score_category_range: "0 \<le> score_category c" "score_category c \<le> 15"
  using category_parts_range [of 0] by (auto simp: score_category_def split: option.split)

lemma score_seeders_range: "0 \<le> score_seeders n t ts" "score_seeders n t ts \<le> 15"
  by (auto simp: score_seeders_def split: option.split prod.split)

lemma score_seeders_mono: "n \<le> m \<Longrightarrow> score_seeders (Some n) t ts \<le> score_seeders (Some m) t ts"
  by (cases ts) (simp add: score_seeders_def)

lemma score_grabs_range: "0 \<le> score_grabs n" "score_grabs n \<le> 100"
  by (auto simp: score_grabs_def split: option.split)

lemma score_grabs_mono: "n \<le> m \<Longrightarrow> score_grabs (Some n) \<le> score_grabs (Some m)"
  by (simp add: score_grabs_def)

lemma score_digital_range: "0 \<le> b \<Longrightarrow> 0 \<le> score_digital_bonus t b \<and> score_digital_bonus t b \<le> of_int b"
  by (simp add: score_digital_bonus_def)

lemma score_pack_range: "p \<le> 0 \<Longrightarrow> of_int p \<le> score_pack_penalty t n k p \<and> score_pack_penalty t n k p \<le> 0"
  by (auto simp: score_pack_penalty_def split: option.split)

lemma score_language_range: "-30 \<le> score_language t l" "score_language t l \<le> 0"
  by (auto simp: score_language_def split: option.split)

text \<open>The word a language match returns is a key of the table, so its lookup never raises.\<close>

lemma rx_lit_ends:
  "(p', t) \<in> set (rx_ends (rx_lit w) st) \<Longrightarrow> \<exists>u. snd st = u @ t \<and> py_lower u = py_lower w"
proof (induction w arbitrary: st)
  case Nil
  then show ?case by (auto simp: py_lower_def)
next
  case (Cons c w)
  then obtain d ds where d: "snd st = d # ds" "py_lower_char d = py_lower_char c"
    and m: "(p', t) \<in> set (rx_ends (rx_lit w) (Some d, ds))"
    by (cases "snd st") (auto simp: rx_lit_char_def split: if_splits)
  from Cons.IH [OF m] obtain u where "ds = u @ t" "py_lower u = py_lower w" by auto
  with d show ?case by (intro exI [of _ "d # u"]) (simp add: py_lower_def)
qed

lemma rx_alts_ends:
  "rs \<noteq> [] \<Longrightarrow> e \<in> set (rx_ends (rx_alts rs) st) \<longleftrightarrow> (\<exists>r \<in> set rs. e \<in> set (rx_ends r st))"
  by (induction rs rule: rx_alts.induct) auto

lemma word_search:
  assumes "re_search (rx_seq [RBound, rx_alts (map rx_lit ws), RBound]) s = Some w" and "ws \<noteq> []"
  shows "\<exists>v \<in> set ws. py_lower w = py_lower v"
proof -
  obtain p u t where t: "t \<in> set (rx_ends (rx_seq [RBound, rx_alts (map rx_lit ws), RBound]) (p, u))"
    and u: "u = w @ snd t"
    using search_from_matches assms(1) unfolding re_search_def by blast
  then have "t \<in> set (rx_ends (rx_alts (map rx_lit ws)) (p, u))" by (auto split: if_splits)
  then obtain v where v: "v \<in> set ws" "t \<in> set (rx_ends (rx_lit v) (p, u))"
    using assms(2) by (auto simp: rx_alts_ends)
  with rx_lit_ends [of "fst t" "snd t" v "(p, u)"] u show ?thesis by auto
qed

lemma py_lower_idem_keys: "list_all (\<lambda>k. py_lower k = k) (map fst LANGUAGE_MAP)"
  by code_simp

lemma language_lookup:
  assumes "re_search LANGUAGE_RE title = Some w"
  shows "\<exists>l. map_of LANGUAGE_MAP (py_lower w) = Some l"
proof -
  have "LANGUAGE_RE = rx_seq [RBound, rx_alts (map rx_lit (map fst LANGUAGE_MAP)), RBound]"
    by (simp only: LANGUAGE_RE_def map_map)
  then obtain v where "v \<in> set (map fst LANGUAGE_MAP)" "py_lower w = py_lower v"
    using word_search [of "map fst LANGUAGE_MAP" title w] assms by (auto simp: LANGUAGE_MAP_def)
  then have "py_lower w \<in> fst ` set LANGUAGE_MAP"
    using py_lower_idem_keys by (auto simp: list_all_iff)
  then show ?thesis by (metis map_of_eq_None_iff not_None_eq)
qed

subsection \<open>Properties of the score\<close>

text \<open>The weights a configuration may set: percentages of a whole, none negative\<close>

definition weights_ok :: "score_opts \<Rightarrow> bool" where
  "weights_ok opts \<longleftrightarrow> (case so_score_weights opts of None \<Rightarrow> True
     | Some (a, b, c, d) \<Rightarrow> 0 \<le> a \<and> 0 \<le> b \<and> 0 \<le> c \<and> 0 \<le> d \<and> a + b + c + d = 1)"

lemma resolved_weights_ok:
  assumes "weights_ok opts"
  obtains a b c d g where "resolved_weights opts = Inr (a, b, c, d, g)"
    and "0 \<le> a" "0 \<le> b" "0 \<le> c" "0 \<le> d" "0 \<le> g" "a + b + c + d + g = 1"
proof -
  obtain a b c d where w: "or_else (so_score_weights opts) (40 / 100, 30 / 100, 20 / 100, 10 / 100) = (a, b, c, d)"
    by (metis surj_pair)
  have p: "0 \<le> a" "0 \<le> b" "0 \<le> c" "0 \<le> d" "a + b + c + d = 1"
    using w assms by (cases "so_score_weights opts"; auto simp: weights_ok_def)+
  show ?thesis
  proof (cases "so_grabs_weight opts > 0")
    case False
    with w p show ?thesis by (intro that [of a b c d 0]) (simp_all add: resolved_weights_def)
  next
    case True
    define g :: rat where "g = of_int (so_grabs_weight opts)"
    define total where "total = a * 100 + b * 100 + c * 100 + d * 100 + g"
    have g: "0 < g" using True by (simp add: g_def)
    have "total = 100 + g" unfolding total_def using p(5) by (simp add: algebra_simps)
    with g have t: "0 < total" by simp
    have "a < 2 \<and> b < 2 \<and> c < 2 \<and> d < 2" using p by linarith
    with w True t have "resolved_weights opts =
        Inr (a * 100 / total, b * 100 / total, c * 100 / total, d * 100 / total, g / total)"
      by (simp add: resolved_weights_def Let_def total_def g_def)
    moreover have "a * 100 / total + b * 100 / total + c * 100 / total + d * 100 / total + g / total = 1"
      using t by (simp add: total_def flip: add_divide_distrib)
    ultimately show ?thesis using p g t by (intro that) simp_all
  qed
qed

lemma convex_range:
  fixes a b c d g :: rat
  assumes "0 \<le> a" "0 \<le> b" "0 \<le> c" "0 \<le> d" "0 \<le> g" "a + b + c + d + g = 1"
    and "0 \<le> v \<and> v \<le> 100" "0 \<le> w \<and> w \<le> 100" "0 \<le> x \<and> x \<le> 100" "0 \<le> y \<and> y \<le> 100" "0 \<le> z \<and> z \<le> 100"
  shows "0 \<le> v * a + w * b + x * c + y * d + z * g \<and> v * a + w * b + x * c + y * d + z * g \<le> 100"
proof -
  have "v * a \<le> 100 * a" "w * b \<le> 100 * b" "x * c \<le> 100 * c" "y * d \<le> 100 * d" "z * g \<le> 100 * g"
    using assms by (simp_all add: mult_right_mono)
  moreover have "100 * a + 100 * b + 100 * c + 100 * d + 100 * g = 100"
    using assms(6) by linarith
  moreover have "0 \<le> v * a" "0 \<le> w * b" "0 \<le> x * c" "0 \<le> y * d" "0 \<le> z * g"
    using assms by simp_all
  ultimately show ?thesis by linarith
qed

lemma weighted_score_eq:
  "0 \<le> g \<Longrightarrow> weighted_score opts r n (a, b, c, d, g) =
     score_indexer_priority n * a + score_age (rr_age_days r) * b +
     score_size (rr_size_bytes r) (so_min_size_mb opts) (so_max_size_mb opts) * c +
     score_format (rr_title r) (so_preferred_format opts) * d + score_grabs (rr_grabs r) * g"
  by (simp add: weighted_score_def Let_def)

text \<open>What the rows promise of the figures a score reads: none is negative.\<close>

definition figures_ok :: "release_result \<Rightarrow> bool" where
  "figures_ok r \<longleftrightarrow> (case rr_age_days r of None \<Rightarrow> True | Some n \<Rightarrow> n \<ge> 0) \<and>
     (case rr_size_bytes r of None \<Rightarrow> True | Some n \<Rightarrow> n \<ge> 0)"


text \<open>\<open>better\<close>: the second figure is present when the first is, and at least as large.\<close>

definition figure_le :: "int option \<Rightarrow> int option \<Rightarrow> bool" where
  "figure_le x y \<longleftrightarrow> (case (x, y) of (None, None) \<Rightarrow> True | (Some n, Some m) \<Rightarrow> n \<le> m | _ \<Rightarrow> False)"

text \<open>The score is monotone: a release that is newer, comes from an indexer with a better priority
  and has more seeders and more grabs, and is otherwise alike, never scores less.\<close>

theorem score_monotone:
  assumes "weights_ok opts"
    and "q = r\<lparr>rr_age_days := age, rr_seeders := seeders, rr_grabs := grabs, rr_ranking_priority := prio\<rparr>"
    and "figure_le age (rr_age_days r)" and "prio \<le> rr_ranking_priority r"
    and "figure_le (rr_seeders r) seeders" and "figure_le (rr_grabs r) grabs"
    and "score_release opts None r = Inr s" and "score_release opts None q = Inr t"
  shows "s \<le> t"
proof -
  obtain a b c d g where w: "resolved_weights opts = Inr (a, b, c, d, g)"
    and p: "0 \<le> a" "0 \<le> b" "0 \<le> c" "0 \<le> d" "0 \<le> g" "a + b + c + d + g = 1"
    using assms(1) by (rule resolved_weights_ok)
  have age: "score_age (rr_age_days r) \<le> score_age age"
    using assms(3) score_age_mono by (auto simp: figure_le_def split: option.splits)
  have grabs: "score_grabs (rr_grabs r) \<le> score_grabs grabs"
    using assms(6) score_grabs_mono by (auto simp: figure_le_def split: option.splits)
  have seeders: "score_seeders (rr_seeders r) t ts \<le> score_seeders seeders t ts" for t ts
    using assms(5) score_seeders_mono by (auto simp: figure_le_def split: option.splits)
  have "weighted_score opts r (rr_ranking_priority r) (a, b, c, d, g) \<le> weighted_score opts q prio (a, b, c, d, g)"
    unfolding weighted_score_eq [OF p(5)] using p age grabs score_indexer_priority_mono [OF assms(4)]
    by (auto simp: assms(2) intro!: add_mono mult_right_mono)
  moreover have "score_bonuses opts r \<le> score_bonuses opts q"
    using seeders by (simp add: score_bonuses_def assms(2) is_torrent_def)
  ultimately show ?thesis
    using assms(2,7,8) w by (auto simp: score_release_def Let_def)
qed

subsection \<open>A concrete release\<close>

definition sample_release :: release_result where
  "sample_release = \<lparr>rr_title = ''X.cbz'', rr_indexer_name = ''idx'',
     rr_download_url = ''u'', rr_size_bytes = Some 104857600, rr_age_days = Some 100,
     rr_seeders = Some 20, rr_leechers = None, rr_grabs = Some 5, rr_protocol = Proto_TORRENT,
     rr_category = Some ''7030'', rr_published_at = None, rr_info_url = None, rr_indexer_id = None,
     rr_ranking_priority = 10\<rparr>"

lemma sample_score: "score_release default_score_opts None sample_release = Inr (1152 / 10)"
  by code_simp


theorem score_monotone_witness:
  "(1152 / 10 :: rat) \<le> 120"
proof -
  let ?q = "sample_release\<lparr>rr_age_days := Some 100, rr_seeders := Some 40, rr_grabs := Some 5, rr_ranking_priority := 9\<rparr>"
  have "score_release default_score_opts None ?q = Inr (120)" by code_simp
  from score_monotone [OF _ refl _ _ _ _ sample_score this] show ?thesis
    by (simp add: default_score_opts_def weights_ok_def figure_le_def sample_release_def)
qed

end
