(* ===== verification/Search_Selection.thy ===== *)
theory Search_Selection
  imports Search_Scoring Interfaces
begin

text \<open>
  Choosing among validated releases (\<open>src/src/pullbox/services/search_evaluation.py\<close> and
  \<open>src/src/pullbox/services/search_source_selection.py\<close>): the winner of one list, and the ranking
  of indexer, direct and Direct Connect candidates as a fallback list. Validation results are
  compared with \<open>is\<close> in the code, so the record carries the identity of the object, \<open>vr_ref\<close>; tuples
  of the ranking are identified by their position in the list of the remaining ones. Logging
  is left out.
\<close>

subsection \<open>Validated releases\<close>

datatype issue_type =
    Type_ISSUE | Type_ANNUAL | Type_TPB | Type_OMNIBUS | Type_GN | Type_OGN | Type_HC
  | Type_ONE_SHOT | Type_SPECIAL | Type_DELUXE | Type_COMPENDIUM | Type_VOLUME

fun issue_type_value :: "issue_type \<Rightarrow> pystr" where
  "issue_type_value Type_ISSUE = ''issue''"
| "issue_type_value Type_ANNUAL = ''annual''"
| "issue_type_value Type_TPB = ''tpb''"
| "issue_type_value Type_OMNIBUS = ''omnibus''"
| "issue_type_value Type_GN = ''gn''"
| "issue_type_value Type_OGN = ''ogn''"
| "issue_type_value Type_HC = ''hc''"
| "issue_type_value Type_ONE_SHOT = ''one_shot''"
| "issue_type_value Type_SPECIAL = ''special''"
| "issue_type_value Type_DELUXE = ''deluxe''"
| "issue_type_value Type_COMPENDIUM = ''compendium''"
| "issue_type_value Type_VOLUME = ''volume''"

record parsed_release =
  pr_original_title :: pystr
  pr_series_name :: "pystr option"
  pr_issue_number :: "rat option"
  pr_year :: "int option"
  pr_volume :: "pystr option"
  pr_issue_type :: issue_type
  pr_scan_group :: "pystr option"
  pr_file_format :: "pystr option"
  pr_is_pack :: bool
  pr_pack_range :: "pystr option"
  pr_issue_number_text :: "pystr option"
  pr_volume_year :: "int option"

record validation_result =
  vr_ref :: nat
  vr_is_match :: bool
  vr_confidence :: match_confidence
  vr_parsed :: parsed_release
  vr_release :: release_result
  vr_rejection_reason :: "pystr option"
  vr_series_similarity :: rat
  vr_match_type :: pystr
  vr_issue_match :: bool
  vr_year_match :: "bool option"
  vr_issue_type_match :: bool
  vr_size_warning :: "pystr option"
  vr_year_match_basis :: "pystr option"

subsection \<open>The winner of one list\<close>

definition DEFAULT_MIN_SCORE :: rat where "DEFAULT_MIN_SCORE = 10"

text \<open>A complete order has every protocol, so the dictionary lookup of the code cannot fail.\<close>

definition release_source_rank :: "release_result \<Rightarrow> pystr list option \<Rightarrow> int" where
  "release_source_rank r source_priority =
     (case normalize_source_priority (map_option (map Some) source_priority) of
        None \<Rightarrow> 0
      | Some normalized \<Rightarrow> or_else (index_of (protocol_value (rr_protocol r)) normalized) 0)"

fun confidence_bonus :: "match_confidence \<Rightarrow> rat" where
  "confidence_bonus Conf_HIGH = 100"
| "confidence_bonus Conf_MEDIUM = 70"
| "confidence_bonus Conf_LOW = 40"
| "confidence_bonus _ = 0"

definition score_validation_result ::
  "score_opts \<Rightarrow> rat \<Rightarrow> rat \<Rightarrow> int option \<Rightarrow> validation_result \<Rightarrow> (search_error, rat) result" where
  "score_validation_result opts confidence_blend quality_weight indexer_priority v =
     bind_result (score_release opts indexer_priority (vr_release v)) (\<lambda>quality.
       Inr (quality * quality_weight + confidence_bonus (vr_confidence v) * confidence_blend))"

text \<open>The scores of all elements of a list, from left to right\<close>

fun score_all :: "('a \<Rightarrow> (search_error, rat) result) \<Rightarrow> ('a \<Rightarrow> int) \<Rightarrow> 'a list \<Rightarrow>
    (search_error, (int \<times> rat \<times> 'a) list) result" where
  "score_all score lane [] = Inr []"
| "score_all score lane (x # xs) = bind_result (score x) (\<lambda>s.
     bind_result (score_all score lane xs) (\<lambda>rest. Inr ((lane x, s, x) # rest)))"

definition scored_key :: "int \<times> rat \<times> 'a \<Rightarrow> int \<times> rat" where
  "scored_key p = (fst p, - fst (snd p))"

definition best_scored :: "(int \<times> rat \<times> 'a) list \<Rightarrow> 'a option" where
  "best_scored scored =
     (case sort_key scored_key scored of [] \<Rightarrow> None | p # _ \<Rightarrow> Some (snd (snd p)))"

definition select_best_validation ::
  "score_opts \<Rightarrow> rat \<Rightarrow> rat \<Rightarrow> int option \<Rightarrow> pystr list option \<Rightarrow> validation_result list \<Rightarrow>
     (search_error, validation_result option) result" where
  "select_best_validation opts min_score confidence_blend indexer_priority source_priority matched =
     (if matched = [] then Inr None
      else bind_result
        (score_all (score_validation_result opts confidence_blend (1 - confidence_blend) indexer_priority)
           (\<lambda>v. release_source_rank (vr_release v) source_priority) matched)
        (\<lambda>all. Inr (best_scored (filter (\<lambda>p. fst (snd p) \<ge> min_score) all))))"

text \<open>\<open>evaluate_results\<close> resolves absent or zero size bounds and an absent blend to their defaults.
  \<open>evaluate_validated\<close> is its branch for validated results, from the validator's matches on, and
  \<open>evaluate_unvalidated\<close> the branch without a wanted series and issue.\<close>

definition or_default :: "int option \<Rightarrow> int \<Rightarrow> int" where
  "or_default v d = (case v of None \<Rightarrow> d | Some n \<Rightarrow> if n = 0 then d else n)"

definition evaluation_opts :: "int option \<Rightarrow> int option \<Rightarrow> score_opts \<Rightarrow> score_opts" where
  "evaluation_opts min_size_mb max_size_mb opts =
     opts\<lparr>so_min_size_mb := or_default min_size_mb DEFAULT_MIN_SIZE_MB,
          so_max_size_mb := or_default max_size_mb DEFAULT_MAX_SIZE_MB\<rparr>"

definition evaluate_validated ::
  "score_opts \<Rightarrow> int option \<Rightarrow> int option \<Rightarrow> rat option \<Rightarrow> rat \<Rightarrow> int option \<Rightarrow> pystr list option \<Rightarrow>
     validation_result list \<Rightarrow> (search_error, release_result option) result" where
  "evaluate_validated opts min_size_mb max_size_mb confidence_blend min_score indexer_priority
       source_priority validated =
     (if validated = [] then Inr None
      else
        (let blend = or_else confidence_blend (40 / 100); quality_weight = 1 - blend
         in bind_result
              (score_all
                 (score_validation_result (evaluation_opts min_size_mb max_size_mb opts) blend
                    quality_weight indexer_priority)
                 (\<lambda>v. release_source_rank (vr_release v) source_priority) validated)
              (\<lambda>scored.
                case filter (\<lambda>p. fst (snd p) \<ge> min_score) (sort_key scored_key scored) of
                  [] \<Rightarrow> Inr None
                | p # _ \<Rightarrow> Inr (Some (vr_release (snd (snd p)))))))"

definition evaluate_unvalidated ::
  "score_opts \<Rightarrow> int option \<Rightarrow> int option \<Rightarrow> rat \<Rightarrow> int option \<Rightarrow> pystr list option \<Rightarrow>
     release_result list \<Rightarrow> (search_error, release_result option) result" where
  "evaluate_unvalidated opts min_size_mb max_size_mb min_score indexer_priority source_priority results =
     (if results = [] then Inr None
      else bind_result
        (score_all (score_release (evaluation_opts min_size_mb max_size_mb opts) indexer_priority)
           (\<lambda>r. release_source_rank r source_priority) results)
        (\<lambda>scored.
          case filter (\<lambda>p. fst (snd p) \<ge> min_score) (sort_key scored_key scored) of
            [] \<Rightarrow> Inr None
          | p # _ \<Rightarrow> Inr (Some (snd (snd p)))))"

subsection \<open>Candidates of all sources\<close>

record direct_candidate =
  dv_provider_priority :: int
  dv_validation :: validation_result

record dc_route =
  dr_client_config_id :: int
  dr_grouped_result_id :: pystr

record dc_metrics =
  dm_source_count :: int
  dm_free_slots :: int
  dm_connection :: "int option"

record dc_candidate =
  dcv_release :: release_result
  dcv_validation :: validation_result
  dcv_route :: dc_route
  dcv_metrics :: dc_metrics

text \<open>The fields of an issue's search outcome that the ranking reads. A direct match comes with its
  alternates.\<close>

record search_outcome =
  oc_matched :: "validation_result list"
  oc_best_release :: "release_result option"
  oc_best_validation :: "validation_result option"
  oc_direct :: "(direct_candidate \<times> direct_candidate list) list option"
  oc_dc :: "dc_candidate list option"

record source_candidate =
  cd_source :: pystr
  cd_validation :: validation_result
  cd_direct :: "direct_candidate option"
  cd_dc :: "dc_candidate option"

record source_selection =
  ss_source_kind :: pystr
  ss_release :: release_result
  ss_validation :: validation_result
  ss_direct :: "direct_candidate option"
  ss_dc :: "dc_candidate option"

text \<open>The check of \<open>SearchSourceSelection.__post_init__\<close>\<close>

definition selection_valid :: "source_selection \<Rightarrow> bool" where
  "selection_valid s \<longleftrightarrow> (ss_source_kind s = ''direct'') = (ss_direct s \<noteq> None) \<and>
     (ss_source_kind s = ''dc'') = (ss_dc s \<noteq> None) \<and> (ss_direct s = None \<or> ss_dc s = None)"

record eval_kwargs =
  ek_min_score :: "rat option"
  ek_confidence_blend :: "rat option"
  ek_opts :: score_opts

text \<open>The option record holds what \<open>eval_kwargs.get(name, default)\<close> returns for the scoring keywords.\<close>

definition select_for_ranking :: "eval_kwargs \<Rightarrow> pystr list option \<Rightarrow> validation_result list \<Rightarrow>
    (search_error, validation_result option) result" where
  "select_for_ranking kw normalized_priority validations =
     select_best_validation (ek_opts kw) (or_else (ek_min_score kw) DEFAULT_MIN_SCORE)
       (or_else (ek_confidence_blend kw) (40 / 100)) None normalized_priority validations"

definition select_neutral :: "eval_kwargs \<Rightarrow> validation_result list \<Rightarrow>
    (search_error, validation_result option) result" where
  "select_neutral kw validations =
     select_best_validation (ek_opts kw) (or_else (ek_min_score kw) DEFAULT_MIN_SCORE)
       (or_else (ek_confidence_blend kw) (40 / 100)) (Some DIRECT_PROVIDER_NEUTRAL_PRIORITY) None validations"

fun first_index :: "('a \<Rightarrow> bool) \<Rightarrow> 'a list \<Rightarrow> nat option" where
  "first_index P [] = None"
| "first_index P (x # xs) = (if P x then Some 0 else map_option Suc (first_index P xs))"

definition is_object :: "validation_result \<Rightarrow> validation_result \<Rightarrow> bool" where
  "is_object v w \<longleftrightarrow> vr_ref v = vr_ref w"

definition semantic_key :: "source_candidate \<Rightarrow> int \<times> rat" where
  "semantic_key c = (match_confidence_rank (Some (confidence_value (vr_confidence (cd_validation c)))),
     - vr_series_similarity (cd_validation c))"

text \<open>Positions are those of the list of the remaining candidates.\<close>

definition direct_priority_of :: "nat \<times> source_candidate \<Rightarrow> int" where
  "direct_priority_of p = (case cd_direct (snd p) of None \<Rightarrow> 0 | Some d \<Rightarrow> dv_provider_priority d)"

fun first_direct_group :: "eval_kwargs \<Rightarrow> (nat \<times> source_candidate) list \<Rightarrow> (int \<times> rat) list \<Rightarrow>
    (search_error, nat option) result" where
  "first_direct_group kw items [] = Inr None"
| "first_direct_group kw items (k # ks) =
     (let group = sort_key direct_priority_of (filter (\<lambda>p. semantic_key (snd p) = k) items)
      in bind_result (select_neutral kw (map (cd_validation \<circ> snd) group)) (\<lambda>selected.
           case selected of
             None \<Rightarrow> first_direct_group kw items ks
           | Some v \<Rightarrow> Inr (map_option fst (find (\<lambda>p. is_object (cd_validation (snd p)) v) group))))"

definition preferred_direct_candidate :: "eval_kwargs \<Rightarrow> source_candidate list \<Rightarrow>
    (search_error, nat option) result" where
  "preferred_direct_candidate kw remaining =
     (let items = filter (\<lambda>p. cd_direct (snd p) \<noteq> None) (enumerate 0 remaining)
      in first_direct_group kw items (sort (remdups (map (semantic_key \<circ> snd) items))))"

definition dc_route_key :: "source_candidate \<Rightarrow> dc_candidate \<Rightarrow>
    int \<times> rat \<times> int \<times> int \<times> int \<times> int \<times> int \<times> int \<times> pystr" where
  "dc_route_key c dc =
     (match_confidence_rank (Some (confidence_value (vr_confidence (cd_validation c)))),
      - vr_series_similarity (cd_validation c),
      rr_ranking_priority (dcv_release dc),
      (if dm_free_slots (dcv_metrics dc) > 0 then 0 else 1),
      - dm_free_slots (dcv_metrics dc),
      - dm_source_count (dcv_metrics dc),
      - or_else (dm_connection (dcv_metrics dc)) 0,
      dr_client_config_id (dcv_route dc),
      dr_grouped_result_id (dcv_route dc))"

definition dc_item :: "nat \<times> source_candidate \<Rightarrow> (nat \<times> source_candidate \<times> dc_candidate) option" where
  "dc_item p = map_option (\<lambda>dc. (fst p, snd p, dc)) (cd_dc (snd p))"

definition preferred_dc_candidate :: "source_candidate list \<Rightarrow> nat option" where
  "preferred_dc_candidate remaining =
     (case List.map_filter dc_item (enumerate 0 remaining) of
        [] \<Rightarrow> None
      | d # ds \<Rightarrow> Some (fst (min_by (\<lambda>(i, c, dc). dc_route_key c dc) d ds)))"

text \<open>One round of the ranking loop: the position of the candidate that is taken next\<close>

definition pick_next :: "eval_kwargs \<Rightarrow> pystr list option \<Rightarrow> source_candidate list \<Rightarrow>
    (search_error, nat option) result" where
  "pick_next kw normalized_priority remaining =
     bind_result (select_for_ranking kw normalized_priority (map cd_validation remaining)) (\<lambda>selected.
       case selected of
         None \<Rightarrow> Inr None
       | Some v \<Rightarrow>
           (case first_index (\<lambda>c. is_object (cd_validation c) v) remaining of
              None \<Rightarrow> Inr None
            | Some i \<Rightarrow>
                if cd_direct (remaining ! i) \<noteq> None then
                  bind_result (preferred_direct_candidate kw remaining) (\<lambda>j. Inr (Some (or_else j i)))
                else if cd_dc (remaining ! i) \<noteq> None then
                  Inr (Some (or_else (preferred_dc_candidate remaining) i))
                else Inr (Some i)))"

definition selection_of :: "source_candidate \<Rightarrow> source_selection" where
  "selection_of c =
     \<lparr>ss_source_kind = (if cd_direct c \<noteq> None then ''direct'' else if cd_dc c \<noteq> None then ''dc'' else ''indexer''),
      ss_release = vr_release (cd_validation c), ss_validation = cd_validation c,
      ss_direct = cd_direct c, ss_dc = cd_dc c\<rparr>"

lemma first_index_Some:
  "first_index P xs = Some i \<Longrightarrow> i < length xs \<and> P (xs ! i) \<and> (\<forall>j < i. \<not> P (xs ! j))"
  by (induction xs arbitrary: i) (force split: if_splits simp: less_Suc_eq_0_disj)+

lemma first_index_None: "first_index P xs = None \<longleftrightarrow> (\<forall>x \<in> set xs. \<not> P x)"
  by (induction xs) auto

lemma in_enumerate: "p \<in> set (enumerate 0 xs) \<longleftrightarrow> fst p < length xs \<and> snd p = xs ! fst p"
  by (cases p) (auto simp: in_set_enumerate_eq)

lemma first_direct_group_in:
  "first_direct_group kw items ks = Inr (Some i) \<Longrightarrow> \<exists>p \<in> set items. fst p = i"
proof (induction kw items ks rule: first_direct_group.induct)
  case (1 kw items)
  then show ?case by simp
next
  case (2 kw items k ks)
  from 2(2) obtain sel where
    s: "select_neutral kw (map (cd_validation \<circ> snd)
          (sort_key direct_priority_of (filter (\<lambda>p. semantic_key (snd p) = k) items))) = Inr sel"
    by (auto simp: Let_def)
  show ?case
  proof (cases sel)
    case None
    with 2 s show ?thesis by (auto simp: Let_def)
  next
    case (Some v)
    with 2(2) s show ?thesis by (force simp: Let_def dest!: find_SomeD)
  qed
qed

lemma preferred_direct_in:
  assumes "preferred_direct_candidate kw xs = Inr (Some i)"
  shows "i < length xs \<and> cd_direct (xs ! i) \<noteq> None"
  using first_direct_group_in assms unfolding preferred_direct_candidate_def Let_def
  by (fastforce simp: in_enumerate)

lemma preferred_dc_in:
  assumes "preferred_dc_candidate xs = Some i"
  shows "i < length xs \<and> cd_dc (xs ! i) \<noteq> None"
proof -
  let ?k = "\<lambda>(i, c, dc). dc_route_key c dc"
  obtain d ds where d: "List.map_filter dc_item (enumerate 0 xs) = d # ds" and i: "i = fst (min_by ?k d ds)"
    using assms by (auto simp: preferred_dc_candidate_def split: list.splits)
  have "min_by ?k d ds \<in> set (List.map_filter dc_item (enumerate 0 xs))"
    using min_by_in [of ?k d ds] by (simp add: d)
  with i show ?thesis by (auto simp: List.map_filter_def dc_item_def in_enumerate)
qed

text \<open>The candidate taken next is the winner of the remaining ones, or the preferred one of its kind.\<close>

lemma pick_next_cases:
  assumes "pick_next kw np xs = Inr (Some i)"
  obtains v w where "select_for_ranking kw np (map cd_validation xs) = Inr (Some v)"
    and "first_index (\<lambda>c. is_object (cd_validation c) v) xs = Some w"
    and "i = w \<or> (cd_direct (xs ! w) \<noteq> None \<and> preferred_direct_candidate kw xs = Inr (Some i)) \<or>
      (cd_dc (xs ! w) \<noteq> None \<and> preferred_dc_candidate xs = Some i)"
proof -
  obtain sel where sel: "select_for_ranking kw np (map cd_validation xs) = Inr sel"
    using assms by (auto simp: pick_next_def)
  obtain v where v: "sel = Some v" using assms sel by (cases sel) (simp_all add: pick_next_def)
  obtain w where w: "first_index (\<lambda>c. is_object (cd_validation c) v) xs = Some w"
    using assms sel v by (cases "first_index (\<lambda>c. is_object (cd_validation c) v) xs") (simp_all add: pick_next_def)
  have rest: "(if cd_direct (xs ! w) \<noteq> None
      then bind_result (preferred_direct_candidate kw xs) (\<lambda>j. Inr (Some (or_else j w)))
      else if cd_dc (xs ! w) \<noteq> None then Inr (Some (or_else (preferred_dc_candidate xs) w))
      else Inr (Some w)) = Inr (Some i)"
    using assms by (simp add: pick_next_def sel v w)
  show ?thesis
  proof (rule that [of v w])
    show "select_for_ranking kw np (map cd_validation xs) = Inr (Some v)" using sel v by simp
    show "first_index (\<lambda>c. is_object (cd_validation c) v) xs = Some w" by (rule w)
    show "i = w \<or> (cd_direct (xs ! w) \<noteq> None \<and> preferred_direct_candidate kw xs = Inr (Some i)) \<or>
      (cd_dc (xs ! w) \<noteq> None \<and> preferred_dc_candidate xs = Some i)"
      using rest by (auto simp: or_else_def split: if_splits option.splits)
  qed
qed

lemma pick_next_in:
  assumes "pick_next kw np xs = Inr (Some i)"
  shows "i < length xs"
  using assms
proof (rule pick_next_cases)
  fix v w
  assume "first_index (\<lambda>c. is_object (cd_validation c) v) xs = Some w"
    and "i = w \<or> (cd_direct (xs ! w) \<noteq> None \<and> preferred_direct_candidate kw xs = Inr (Some i)) \<or>
      (cd_dc (xs ! w) \<noteq> None \<and> preferred_dc_candidate xs = Some i)"
  then show ?thesis using first_index_Some preferred_direct_in preferred_dc_in by blast
qed

function rank_loop :: "eval_kwargs \<Rightarrow> pystr list option \<Rightarrow> int option \<Rightarrow> source_candidate list \<Rightarrow>
    source_selection list \<Rightarrow> (search_error, source_selection list) result" where
  "rank_loop kw np limit remaining ranked =
     (if remaining = [] \<or> (case limit of None \<Rightarrow> False | Some n \<Rightarrow> int (length ranked) \<ge> n) then Inr ranked
      else (case pick_next kw np remaining of
              Inl e \<Rightarrow> Inl e
            | Inr None \<Rightarrow> Inr ranked
            | Inr (Some i) \<Rightarrow>
                rank_loop kw np limit (pop_at i remaining) (ranked @ [selection_of (remaining ! i)])))"
  by auto
termination
  by (relation "measure (\<lambda>(kw, np, limit, remaining, ranked). length remaining)")
    (auto intro: length_pop_at dest: pick_next_in)

declare rank_loop.simps [simp del]

text \<open>The candidates of an outcome, and the winner its evaluation has already chosen\<close>

definition direct_matches :: "search_outcome \<Rightarrow> direct_candidate list" where
  "direct_matches oc = (case oc_direct oc of None \<Rightarrow> []
     | Some ms \<Rightarrow> concat (map (\<lambda>(primary, alternates). primary # alternates) ms))"

definition dc_matches :: "search_outcome \<Rightarrow> dc_candidate list" where
  "dc_matches oc = or_else (oc_dc oc) []"

definition preselected :: "search_outcome \<Rightarrow> source_selection option" where
  "preselected oc =
     (if direct_matches oc = [] \<and> dc_matches oc = [] then
        (case (oc_best_validation oc, oc_best_release oc) of
           (Some v, Some r) \<Rightarrow>
             Some \<lparr>ss_source_kind = ''indexer'', ss_release = r, ss_validation = v, ss_direct = None, ss_dc = None\<rparr>
         | _ \<Rightarrow> None)
      else None)"

definition indexer_candidate :: "validation_result \<Rightarrow> source_candidate" where
  "indexer_candidate v = \<lparr>cd_source = protocol_value (rr_protocol (vr_release v)), cd_validation = v,
     cd_direct = None, cd_dc = None\<rparr>"

definition source_candidates :: "search_outcome \<Rightarrow> source_candidate list" where
  "source_candidates oc =
     (let indexer_matches = (case (preselected oc, oc_best_validation oc) of
            (Some _, Some b) \<Rightarrow> filter (\<lambda>v. \<not> is_object v b) (oc_matched oc)
          | _ \<Rightarrow> oc_matched oc);
          candidates = map indexer_candidate indexer_matches;
          candidates' = (if preselected oc = None \<and> candidates = []
            then map indexer_candidate (case oc_best_validation oc of None \<Rightarrow> [] | Some b \<Rightarrow> [b])
            else candidates)
      in candidates' @
         map (\<lambda>d. \<lparr>cd_source = ''direct'', cd_validation = dv_validation d, cd_direct = Some d, cd_dc = None\<rparr>)
           (direct_matches oc) @
         map (\<lambda>d. \<lparr>cd_source = ''dc'', cd_validation = dcv_validation d, cd_direct = None, cd_dc = Some d\<rparr>)
           (dc_matches oc))"

definition order_candidates :: "pystr list option \<Rightarrow> source_candidate list \<Rightarrow> source_candidate list" where
  "order_candidates normalized_priority candidates =
     (case normalized_priority of
        None \<Rightarrow> candidates
      | Some p \<Rightarrow> sort_key (\<lambda>c. or_else (index_of (cd_source c) p) 0) candidates)"

definition rank_search_sources ::
  "search_outcome \<Rightarrow> eval_kwargs \<Rightarrow> pystr list option \<Rightarrow> int option \<Rightarrow>
     (search_error, source_selection list) result" where
  "rank_search_sources oc kw source_priority limit =
     (if (case limit of None \<Rightarrow> False | Some n \<Rightarrow> n \<le> 0) then Inr []
      else
        (let ranked = (case preselected oc of None \<Rightarrow> [] | Some s \<Rightarrow> [s])
         in if ranked \<noteq> [] \<and> limit = Some 1 then Inr ranked
            else
              (let np = normalize_source_priority (map_option (map Some) source_priority)
               in rank_loop kw np limit (order_candidates np (source_candidates oc)) ranked)))"

definition select_search_source ::
  "search_outcome \<Rightarrow> eval_kwargs \<Rightarrow> pystr list option \<Rightarrow> (search_error, source_selection option) result" where
  "select_search_source oc kw source_priority =
     bind_result (rank_search_sources oc kw source_priority (Some 1)) (\<lambda>ranked.
       Inr (case ranked of [] \<Rightarrow> None | s # _ \<Rightarrow> Some s))"

subsection \<open>The winner of a list\<close>

lemma score_all_Inr:
  "score_all score lane xs = Inr ps \<longleftrightarrow>
     (\<forall>x \<in> set xs. is_ok (score x)) \<and> ps = map (\<lambda>x. (lane x, projr (score x), x)) xs"
proof (induction xs arbitrary: ps)
  case Nil
  then show ?case by auto
next
  case (Cons x xs)
  then show ?case by (cases "score x") auto
qed

lemma score_all_ok: "is_ok (score_all score lane xs) \<longleftrightarrow> (\<forall>x \<in> set xs. is_ok (score x))"
  by (simp add: is_ok_iff score_all_Inr)

text \<open>The head of the sorted and filtered list, in either order of the two passes\<close>

definition first_of :: "'a list \<Rightarrow> 'a option" where
  "first_of xs = (case xs of [] \<Rightarrow> None | x # _ \<Rightarrow> Some x)"

lemma first_of_simps [simp]: "first_of [] = None" "first_of (x # xs) = Some x"
  by (simp_all add: first_of_def)

lemma first_of_map: "first_of (map f xs) = map_option f (first_of xs)"
  by (cases xs) (simp_all add: first_of_def)

lemma best_scored_eq:
  "best_scored (filter (\<lambda>p. fst (snd p) \<ge> m) (map (\<lambda>x. (lane x, f x, x)) xs)) =
     first_of (sort_key (\<lambda>x. (lane x, - f x)) (filter (\<lambda>x. f x \<ge> m) xs))"
proof -
  have "sort_key scored_key (filter (\<lambda>p. fst (snd p) \<ge> m) (map (\<lambda>x. (lane x, f x, x)) xs)) =
      map (\<lambda>x. (lane x, f x, x)) (sort_key (\<lambda>x. (lane x, - f x)) (filter (\<lambda>x. f x \<ge> m) xs))"
    by (simp add: filter_map sort_key_map scored_key_def comp_def)
  then show ?thesis
    by (simp add: best_scored_def first_of_def split: list.split)
qed

text \<open>Whether scoring fails depends on the options only.\<close>

lemma score_release_ok: "is_ok (score_release opts n r) \<longleftrightarrow> is_ok (resolved_weights opts)"
  by (cases "resolved_weights opts") (simp_all add: score_release_def Let_def)

lemma score_validation_ok:
  "is_ok (score_validation_result opts b q n v) \<longleftrightarrow> is_ok (resolved_weights opts)"
  using score_release_ok [of opts n "vr_release v"]
  by (cases "score_release opts n (vr_release v)") (simp_all add: score_validation_result_def)

definition final_score :: "score_opts \<Rightarrow> rat \<Rightarrow> int option \<Rightarrow> validation_result \<Rightarrow> rat" where
  "final_score opts blend n v = projr (score_validation_result opts blend (1 - blend) n v)"

definition preference :: "score_opts \<Rightarrow> rat \<Rightarrow> int option \<Rightarrow> pystr list option \<Rightarrow> validation_result \<Rightarrow> int \<times> rat" where
  "preference opts blend n sp v = (release_source_rank (vr_release v) sp, - final_score opts blend n v)"

lemma select_best_eq:
  "select_best_validation opts m blend n sp vs = (if vs = [] then Inr None
     else if is_ok (resolved_weights opts)
     then Inr (first_of (sort_key (preference opts blend n sp) (filter (\<lambda>v. final_score opts blend n v \<ge> m) vs)))
     else Inl ZeroDivision)"
proof (cases "vs = [] \<or> is_ok (resolved_weights opts)")
  case True
  let ?all = "score_all (score_validation_result opts blend (1 - blend) n)
    (\<lambda>v. release_source_rank (vr_release v) sp) vs"
  show ?thesis
  proof (cases "vs = []")
    case True
    then show ?thesis by (simp add: select_best_validation_def)
  next
    case False
    with True have "?all = Inr (map (\<lambda>v. (release_source_rank (vr_release v) sp, final_score opts blend n v, v)) vs)"
      by (simp add: score_all_Inr score_validation_ok final_score_def)
    with True False show ?thesis
      by (simp add: select_best_validation_def best_scored_eq preference_def [abs_def])
  qed
next
  case False
  then have "\<not> is_ok (score_all (score_validation_result opts blend (1 - blend) n)
    (\<lambda>v. release_source_rank (vr_release v) sp) vs)"
    by (cases vs) (auto simp: score_all_ok score_validation_ok simp del: score_all.simps)
  then have "score_all (score_validation_result opts blend (1 - blend) n)
    (\<lambda>v. release_source_rank (vr_release v) sp) vs = Inl ZeroDivision"
    by (metis (full_types) is_ok_simps(1) search_error.exhaust sum.exhaust)
  with False show ?thesis by (simp add: select_best_validation_def)
qed

lemma first_of_sort_key:
  assumes "first_of (sort_key k (filter P xs)) = Some x"
  shows "x \<in> set xs \<and> P x \<and> (\<forall>y \<in> set xs. P y \<longrightarrow> k x \<le> k y)"
proof -
  obtain ys where ys: "sort_key k (filter P xs) = x # ys"
    using assms by (auto simp: first_of_def split: list.splits)
  have s: "set (x # ys) = {y \<in> set xs. P y}" by (simp flip: ys)
  have "sorted (map k (x # ys))" by (simp flip: ys)
  with s show ?thesis by auto
qed

lemma first_of_sort_key_None: "first_of (sort_key k xs) = None \<longleftrightarrow> xs = []"
  by (auto simp: first_of_def split: list.splits dest: arg_cong [of _ _ length])

text \<open>The winner of a list is a matched release that reaches the minimum score, from the best
  source lane that has such a release and with the highest score in that lane; there is no
  winner exactly when no release reaches the minimum; and the choice fails exactly when the
  configured weights sum to zero, whatever the releases are.\<close>

theorem select_best_spec:
  "case select_best_validation opts m blend n sp vs of
     Inl e \<Rightarrow> vs \<noteq> [] \<and> \<not> is_ok (resolved_weights opts)
   | Inr None \<Rightarrow> filter (\<lambda>v. final_score opts blend n v \<ge> m) vs = []
   | Inr (Some v) \<Rightarrow> v \<in> set vs \<and> final_score opts blend n v \<ge> m \<and>
       list_all (\<lambda>w. release_source_rank (vr_release v) sp < release_source_rank (vr_release w) sp \<or>
          (release_source_rank (vr_release v) sp = release_source_rank (vr_release w) sp \<and>
           final_score opts blend n w \<le> final_score opts blend n v))
         (filter (\<lambda>w. final_score opts blend n w \<ge> m) vs)"
proof -
  let ?P = "\<lambda>v. final_score opts blend n v \<ge> m" and ?k = "preference opts blend n sp"
  show ?thesis
  proof (cases "vs = [] \<or> \<not> is_ok (resolved_weights opts)")
    case True
    then show ?thesis by (auto simp: select_best_eq)
  next
    case False
    then have e: "select_best_validation opts m blend n sp vs = Inr (first_of (sort_key ?k (filter ?P vs)))"
      by (simp add: select_best_eq)
    show ?thesis
    proof (cases "first_of (sort_key ?k (filter ?P vs))")
      case None
      then show ?thesis by (simp add: e first_of_sort_key_None)
    next
      case (Some v)
      from first_of_sort_key [OF Some] show ?thesis
        by (auto simp: e Some preference_def less_eq_prod_def list_all_iff)
    qed
  qed
qed

text \<open>Evaluating a list of validated releases, which sorts all of them before it drops those below the
  minimum, chooses the same release as the selection used for ranking, which drops first and
  sorts then; both fail on the same configurations.\<close>

theorem evaluation_selects_best:
  "evaluate_validated opts lo hi blend m n sp vs =
     bind_result (select_best_validation (evaluation_opts lo hi opts) m (or_else blend (40 / 100)) n sp vs)
       (\<lambda>best. Inr (map_option vr_release best))"
proof -
  let ?o = "evaluation_opts lo hi opts"
  define b where b: "b = or_else blend (40 / 100)"
  let ?f = "final_score ?o b n" and ?lane = "\<lambda>v. release_source_rank (vr_release v) sp"
  let ?all = "score_all (score_validation_result ?o b (1 - b) n) ?lane vs"
  show ?thesis
  proof (cases "vs = []")
    case True
    then show ?thesis by (simp add: evaluate_validated_def select_best_eq)
  next
    case False
    show ?thesis
    proof (cases "is_ok (resolved_weights ?o)")
      case True
      then have a: "?all = Inr (map (\<lambda>v. (?lane v, ?f v, v)) vs)"
        by (simp add: score_all_Inr score_validation_ok final_score_def)
      have s: "filter (\<lambda>p. fst (snd p) \<ge> m) (sort_key scored_key (map (\<lambda>v. (?lane v, ?f v, v)) vs)) =
          map (\<lambda>v. (?lane v, ?f v, v)) (sort_key (preference ?o b n sp) (filter (\<lambda>v. ?f v \<ge> m) vs))"
        by (simp add: filter_sort_key filter_map sort_key_map scored_key_def comp_def preference_def [abs_def])
      show ?thesis
        unfolding evaluate_validated_def Let_def b [symmetric] a select_best_eq
        using False True by (simp add: s first_of_def split: list.split)
    next
      case no: False
      then have "\<not> is_ok ?all" using False
        by (cases vs) (auto simp: score_all_ok score_validation_ok simp del: score_all.simps)
      then have "?all = Inl ZeroDivision" by (metis (full_types) is_ok_simps(1) search_error.exhaust sum.exhaust)
      with False no show ?thesis
        unfolding evaluate_validated_def Let_def b [symmetric] select_best_eq by simp
    qed
  qed
qed

subsection \<open>One round of the ranking\<close>

definition min_score_of :: "eval_kwargs \<Rightarrow> rat" where
  "min_score_of kw = or_else (ek_min_score kw) DEFAULT_MIN_SCORE"

definition ranking_score :: "eval_kwargs \<Rightarrow> validation_result \<Rightarrow> rat" where
  "ranking_score kw v = final_score (ek_opts kw) (or_else (ek_confidence_blend kw) (40 / 100)) None v"

definition ranking_key :: "eval_kwargs \<Rightarrow> pystr list option \<Rightarrow> validation_result \<Rightarrow> int \<times> rat" where
  "ranking_key kw sp v = preference (ek_opts kw) (or_else (ek_confidence_blend kw) (40 / 100)) None sp v"

definition acceptable :: "eval_kwargs \<Rightarrow> validation_result \<Rightarrow> bool" where
  "acceptable kw v \<longleftrightarrow> ranking_score kw v \<ge> min_score_of kw"

lemma ranking_key_eq: "ranking_key kw sp v = (release_source_rank (vr_release v) sp, - ranking_score kw v)"
  by (simp add: ranking_key_def preference_def ranking_score_def)

lemma select_for_ranking_eq:
  "select_for_ranking kw sp vs = (if vs = [] then Inr None
     else if is_ok (resolved_weights (ek_opts kw))
     then Inr (first_of (sort_key (ranking_key kw sp) (filter (acceptable kw) vs)))
     else Inl ZeroDivision)"
  unfolding select_for_ranking_def select_best_eq ranking_key_def [abs_def] acceptable_def [abs_def]
    ranking_score_def min_score_of_def by (rule refl)

text \<open>The same object is the same value.\<close>

definition coherent :: "source_candidate list \<Rightarrow> bool" where
  "coherent xs \<longleftrightarrow> (\<forall>c \<in> set xs. \<forall>d \<in> set xs.
     is_object (cd_validation c) (cd_validation d) \<longrightarrow> cd_validation c = cd_validation d)"

lemma coherent_pop: "coherent xs \<Longrightarrow> coherent (pop_at i xs)"
  unfolding coherent_def using set_pop_at [of i xs] by (meson subsetD)

lemma pick_next_None:
  assumes "pick_next kw np xs = Inr None" and "c \<in> set xs"
  shows "\<not> acceptable kw (cd_validation c)"
proof -
  obtain sel where sel: "select_for_ranking kw np (map cd_validation xs) = Inr sel"
    using assms(1) by (auto simp: pick_next_def)
  then have e: "sel = first_of (sort_key (ranking_key kw np) (filter (acceptable kw) (map cd_validation xs)))"
    using assms(2) by (auto simp: select_for_ranking_eq split: if_splits)
  show ?thesis
  proof (cases sel)
    case None
    with e have "filter (acceptable kw) (map cd_validation xs) = []" by (metis first_of_sort_key_None)
    with assms(2) show ?thesis by (auto simp: filter_empty_conv)
  next
    case (Some v)
    with e have "v \<in> set (map cd_validation xs)" using first_of_sort_key by metis
    then have "first_index (\<lambda>c. is_object (cd_validation c) v) xs \<noteq> None"
      by (auto simp: first_index_None is_object_def)
    with assms(1) sel Some show ?thesis
      by (auto simp: pick_next_def split: option.splits if_splits)
  qed
qed

text \<open>The round's winner \<open>w\<close>: an acceptable candidate of least key.\<close>

lemma pick_next_winner:
  assumes "pick_next kw np xs = Inr (Some i)" and "coherent xs"
  obtains w where "w < length xs" and "acceptable kw (cd_validation (xs ! w))"
    and "\<forall>c \<in> set xs. acceptable kw (cd_validation c) \<longrightarrow>
      ranking_key kw np (cd_validation (xs ! w)) \<le> ranking_key kw np (cd_validation c)"
    and "i = w \<or> (cd_direct (xs ! w) \<noteq> None \<and> cd_direct (xs ! i) \<noteq> None) \<or>
      (cd_dc (xs ! w) \<noteq> None \<and> cd_dc (xs ! i) \<noteq> None)"
  using assms(1)
proof (rule pick_next_cases)
  fix v w
  assume sel: "select_for_ranking kw np (map cd_validation xs) = Inr (Some v)"
    and w: "first_index (\<lambda>c. is_object (cd_validation c) v) xs = Some w"
    and i: "i = w \<or> (cd_direct (xs ! w) \<noteq> None \<and> preferred_direct_candidate kw xs = Inr (Some i)) \<or>
      (cd_dc (xs ! w) \<noteq> None \<and> preferred_dc_candidate xs = Some i)"
  have e: "first_of (sort_key (ranking_key kw np) (filter (acceptable kw) (map cd_validation xs))) = Some v"
    using sel by (simp add: select_for_ranking_eq split: if_splits)
  note v = first_of_sort_key [OF e]
  from first_index_Some [OF w] have l: "w < length xs" and o: "is_object (cd_validation (xs ! w)) v" by auto
  from v obtain c where "c \<in> set xs" "v = cd_validation c" by auto
  with o l assms(2) have "cd_validation (xs ! w) = v" unfolding coherent_def by (metis nth_mem)
  with v l i show ?thesis by (intro that [of w]) (auto dest: preferred_direct_in preferred_dc_in)
qed

subsection \<open>Indexer results: ranking is a stable sort\<close>

definition plain_candidates :: "eval_kwargs \<Rightarrow> source_candidate list \<Rightarrow> bool" where
  "plain_candidates kw xs \<longleftrightarrow> is_ok (resolved_weights (ek_opts kw)) \<and>
     (\<forall>c \<in> set xs. cd_direct c = None \<and> cd_dc c = None) \<and> distinct (map (vr_ref \<circ> cd_validation) xs)"

lemma plain_pop: "plain_candidates kw xs \<Longrightarrow> plain_candidates kw (pop_at i xs)"
  using set_pop_at [of i xs] distinct_map_pop_at unfolding plain_candidates_def by blast

lemma plain_coherent: "plain_candidates kw xs \<Longrightarrow> coherent xs"
  unfolding plain_candidates_def coherent_def is_object_def
  by (metis comp_apply distinct_map inj_onD)

definition plain_pick :: "eval_kwargs \<Rightarrow> pystr list option \<Rightarrow> source_candidate list \<Rightarrow> nat option" where
  "plain_pick kw np xs = (case pick_next kw np xs of Inl e \<Rightarrow> None | Inr p \<Rightarrow> p)"


lemma plain_pick_eq:
  "plain_candidates kw xs \<Longrightarrow> pick_next kw np xs = Inr (plain_pick kw np xs)"
proof -
  assume p: "plain_candidates kw xs"
  then obtain sel where sel: "select_for_ranking kw np (map cd_validation xs) = Inr sel"
    by (cases "xs = []") (simp_all add: select_for_ranking_eq plain_candidates_def)
  have "is_ok (pick_next kw np xs)"
    using p first_index_Some
    by (fastforce simp: pick_next_def sel plain_candidates_def split: option.split)
  then show ?thesis by (cases "pick_next kw np xs") (simp_all add: plain_pick_def)
qed

text \<open>On indexer results the winner is the first acceptable candidate of least key.\<close>

lemma plain_pick_first:
  assumes p: "plain_candidates kw xs" and "plain_pick kw np xs = Some i"
  shows "i < length xs \<and> acceptable kw (cd_validation (xs ! i))"
    and "j < length xs \<Longrightarrow> acceptable kw (cd_validation (xs ! j)) \<Longrightarrow>
      ranking_key kw np (cd_validation (xs ! i)) \<le> ranking_key kw np (cd_validation (xs ! j)) \<and>
      (j < i \<longrightarrow> ranking_key kw np (cd_validation (xs ! i)) < ranking_key kw np (cd_validation (xs ! j)))"
proof -
  let ?k = "ranking_key kw np" and ?vs = "map cd_validation xs"
  have pick: "pick_next kw np xs = Inr (Some i)" using assms by (simp add: plain_pick_eq)
  then obtain v where sel: "select_for_ranking kw np ?vs = Inr (Some v)"
    and fi: "first_index (\<lambda>c. is_object (cd_validation c) v) xs = Some i"
  proof (rule pick_next_cases)
    fix v w
    assume a: "select_for_ranking kw np ?vs = Inr (Some v)"
      "first_index (\<lambda>c. is_object (cd_validation c) v) xs = Some w"
      "i = w \<or> (cd_direct (xs ! w) \<noteq> None \<and> preferred_direct_candidate kw xs = Inr (Some i)) \<or>
       (cd_dc (xs ! w) \<noteq> None \<and> preferred_dc_candidate xs = Some i)"
    then have "w < length xs" using first_index_Some by blast
    then have "xs ! w \<in> set xs" by simp
    then have "cd_direct (xs ! w) = None \<and> cd_dc (xs ! w) = None"
      using p unfolding plain_candidates_def by blast
    with a(3) have "i = w" by simp
    with a that show thesis by blast
  qed
  have e: "first_of (sort_key ?k (filter (acceptable kw) ?vs)) = Some v"
    using sel by (simp add: select_for_ranking_eq split: if_splits)
  note v = first_of_sort_key [OF e]
  from first_index_Some [OF fi] have l: "i < length xs" and o: "is_object (cd_validation (xs ! i)) v" by auto
  from v obtain m where m: "m < length xs" "v = cd_validation (xs ! m)" by (auto simp: in_set_conv_nth)
  with o l p have "i = m"
    unfolding plain_candidates_def is_object_def
    by (metis (no_types, lifting) comp_apply distinct_conv_nth length_map nth_map)
  with m have iv: "cd_validation (xs ! i) = v" by simp
  with v l show "i < length xs \<and> acceptable kw (cd_validation (xs ! i))" by simp
  assume j: "j < length xs" "acceptable kw (cd_validation (xs ! j))"
  have "?k v < ?k (cd_validation (xs ! j))" if "j < i"
  proof (rule ccontr)
    let ?u = "cd_validation (xs ! j)"
    assume "\<not> ?k v < ?k ?u"
    with v j have eq: "?k ?u = ?k v" by (metis antisym_conv2 imageI image_set nth_mem)
    have "hd (filter (\<lambda>x. ?k x = ?k v) (sort_key ?k (filter (acceptable kw) ?vs))) = v"
      using e by (auto simp: first_of_def split: list.splits)
    then have h: "hd (filter (\<lambda>x. ?k x = ?k v \<and> acceptable kw x) ?vs) = v"
      by (simp add: sort_key_stable conj_commute)
    have "?vs = take i ?vs @ v # drop (Suc i) ?vs"
      using l iv by (metis id_take_nth_drop length_map nth_map)
    then have f: "filter (\<lambda>x. ?k x = ?k v \<and> acceptable kw x) ?vs =
        filter (\<lambda>x. ?k x = ?k v \<and> acceptable kw x) (take i ?vs) @
        filter (\<lambda>x. ?k x = ?k v \<and> acceptable kw x) (v # drop (Suc i) ?vs)" by (metis filter_append)
    have "?u \<in> set (filter (\<lambda>x. ?k x = ?k v \<and> acceptable kw x) (take i ?vs))"
      using j that l eq by (auto simp: in_set_conv_nth intro!: exI [of _ j])
    then obtain y ys where y: "filter (\<lambda>x. ?k x = ?k v \<and> acceptable kw x) (take i ?vs) = y # ys"
      by (cases "filter (\<lambda>x. ?k x = ?k v \<and> acceptable kw x) (take i ?vs)") auto
    with f h have "y = v" by simp
    then have "v \<in> set (take i ?vs)" using y by (metis filter_is_subset list.set_intros(1) subsetD)
    then obtain n where "n < i" "cd_validation (xs ! n) = v" using l by (auto simp: in_set_conv_nth)
    with l iv p show False
      unfolding plain_candidates_def
      by (metis (no_types, lifting) comp_apply distinct_conv_nth length_map less_trans nat_neq_iff nth_map)
  qed
  with v j iv show "?k (cd_validation (xs ! i)) \<le> ?k (cd_validation (xs ! j)) \<and>
      (j < i \<longrightarrow> ?k (cd_validation (xs ! i)) < ?k (cd_validation (xs ! j)))" by auto
qed

interpretation plain: repeated_pick "plain_pick kw np" "\<lambda>c. ranking_key kw np (cd_validation c)"
  "\<lambda>c. acceptable kw (cd_validation c)" "plain_candidates kw" for kw np
proof unfold_locales
  fix xs :: "source_candidate list" and x
  assume "plain_candidates kw xs" and "plain_pick kw np xs = None" and "x \<in> set xs"
  then show "\<not> acceptable kw (cd_validation x)" using pick_next_None plain_pick_eq by metis
qed (use plain_pick_first plain_pop in blast)+

subsection \<open>The whole ranking\<close>

definition take_limit :: "int option \<Rightarrow> 'a list \<Rightarrow> 'a list" where
  "take_limit limit xs = (case limit of None \<Rightarrow> xs | Some n \<Rightarrow> take (nat n) xs)"

definition room :: "int option \<Rightarrow> 'a list \<Rightarrow> bool" where
  "room limit ranked \<longleftrightarrow> (case limit of None \<Rightarrow> True | Some n \<Rightarrow> int (length ranked) \<le> n)"

lemma rank_loop_stop:
  "room limit ranked \<Longrightarrow> remaining = [] \<or> (case limit of None \<Rightarrow> False | Some n \<Rightarrow> int (length ranked) \<ge> n) \<Longrightarrow>
    rank_loop kw np limit remaining ranked = Inr ranked"
  by (subst rank_loop.simps) simp

lemma rank_loop_plain:
  assumes "plain_candidates kw xs" and "room limit ranked"
  shows "rank_loop kw np limit xs ranked = Inr (take_limit limit (ranked @ map selection_of
    (sort_key (\<lambda>c. ranking_key kw np (cd_validation c)) (filter (\<lambda>c. acceptable kw (cd_validation c)) xs))))"
  using assms
proof (induction kw np limit xs ranked rule: rank_loop.induct)
  case (1 kw np limit xs ranked)
  show ?case
  proof (cases "xs = [] \<or> (case limit of None \<Rightarrow> False | Some n \<Rightarrow> int (length ranked) \<ge> n)")
    case True
    with rank_loop_stop [OF 1(3) True] 1(3) show ?thesis
      by (auto simp: take_limit_def room_def split: option.splits)
  next
    case go: False
    note pick = plain_pick_eq [OF 1(2), of np]
    show ?thesis
    proof (cases "plain_pick kw np xs")
      case None
      with go pick 1(3) plain.sort_done [OF 1(2) None] show ?thesis
        by (subst rank_loop.simps) (auto simp: take_limit_def room_def split: option.splits)
    next
      case (Some i)
      with pick have p: "pick_next kw np xs = Inr (Some i)" by simp
      have "room limit (ranked @ [selection_of (xs ! i)])"
        using go 1(3) by (auto simp: room_def split: option.splits)
      from 1(1) [OF go p refl plain_pop [OF 1(2)] this] go p plain.sort_pick [OF 1(2) Some] show ?thesis
        by (subst rank_loop.simps) simp
    qed
  qed
qed

lemma rank_loop_extends: "rank_loop kw np limit xs ranked = Inr rs \<Longrightarrow> \<exists>ts. rs = ranked @ ts"
proof (induction kw np limit xs ranked rule: rank_loop.induct)
  case (1 kw np limit xs ranked)
  show ?case
  proof (cases "xs = [] \<or> (case limit of None \<Rightarrow> False | Some n \<Rightarrow> int (length ranked) \<ge> n)")
    case True
    with 1(2) show ?thesis by (subst (asm) rank_loop.simps) simp
  next
    case False
    with 1(2) obtain p where p: "pick_next kw np xs = Inr p"
      by (subst (asm) rank_loop.simps) (auto split: sum.splits)
    with False 1(2) show ?thesis
      using 1(1) [OF False p] by (subst (asm) rank_loop.simps) (cases p, auto)
  qed
qed

text \<open>A limit cuts the unlimited ranking off.\<close>

lemma rank_loop_prefix:
  "rank_loop kw np None xs ranked = Inr rs \<Longrightarrow> int (length ranked) \<le> n \<Longrightarrow>
    rank_loop kw np (Some n) xs ranked = Inr (take (nat n) rs)"
proof (induction kw np "None :: int option" xs ranked rule: rank_loop.induct)
  case (1 kw np xs ranked)
  show ?case
  proof (cases "xs = [] \<or> int (length ranked) = n")
    case True
    have "\<exists>ts. rs = ranked @ ts" using 1(2) by (rule rank_loop_extends)
    moreover have "xs = [] \<Longrightarrow> rs = ranked" using 1(2) by (simp add: rank_loop.simps)
    moreover have "rank_loop kw np (Some n) xs ranked = Inr ranked"
      using True by (subst rank_loop.simps) auto
    ultimately show ?thesis using True 1(3) by auto
  next
    case False
    with 1(2) obtain p where p: "pick_next kw np xs = Inr p"
      by (subst (asm) rank_loop.simps) (auto split: sum.splits)
    show ?thesis
    proof (cases p)
      case None
      with False 1(2,3) p show ?thesis by (auto simp: rank_loop.simps [of kw np _ xs])
    next
      case (Some i)
      from False 1(2) p Some have
        "rank_loop kw np None (pop_at i xs) (ranked @ [selection_of (xs ! i)]) = Inr rs"
        by (subst (asm) rank_loop.simps) simp
      with 1(1) [of p i] False 1(3) p Some
      have "rank_loop kw np (Some n) (pop_at i xs) (ranked @ [selection_of (xs ! i)]) = Inr (take (nat n) rs)"
        by simp
      with False 1(3) p Some show ?thesis by (subst rank_loop.simps) simp
    qed
  qed
qed

text \<open>Every candidate is ranked or left over, and what is left over is not acceptable.\<close>

lemma rank_loop_complete:
  "rank_loop kw np None xs ranked = Inr rs \<Longrightarrow>
    \<exists>ys zs. rs = ranked @ map selection_of ys \<and> mset ys + mset zs = mset xs \<and>
      (\<forall>z \<in> set zs. \<not> acceptable kw (cd_validation z))"
proof (induction kw np "None :: int option" xs ranked rule: rank_loop.induct)
  case (1 kw np xs ranked)
  show ?case
  proof (cases "xs = []")
    case True
    with 1(2) show ?thesis by (simp add: rank_loop.simps)
  next
    case False
    with 1(2) obtain p where p: "pick_next kw np xs = Inr p"
      by (subst (asm) rank_loop.simps) (auto split: sum.splits)
    show ?thesis
    proof (cases p)
      case None
      with False 1(2) p have "rs = ranked" by (simp add: rank_loop.simps)
      then show ?thesis using pick_next_None p None by (intro exI [of _ "[]"] exI [of _ xs]) auto
    next
      case (Some i)
      from False 1(2) p Some have
        "rank_loop kw np None (pop_at i xs) (ranked @ [selection_of (xs ! i)]) = Inr rs"
        by (subst (asm) rank_loop.simps) simp
      with 1(1) [of p i] False p Some obtain ys zs where
        r: "rs = (ranked @ [selection_of (xs ! i)]) @ map selection_of ys"
        and m: "mset ys + mset zs = mset (pop_at i xs)"
        and z: "\<forall>z \<in> set zs. \<not> acceptable kw (cd_validation z)" by auto
      have "i < length xs" using p Some by (auto intro: pick_next_in)
      then have "mset (xs ! i # ys) + mset zs = mset xs"
        using mset_pop_at m by (metis mset.simps(2) union_mset_add_mset_left)
      with r z show ?thesis by (intro exI [of _ "xs ! i # ys"] exI [of _ zs]) simp
    qed
  qed
qed

lemma selection_of_valid: "cd_direct c = None \<or> cd_dc c = None \<Longrightarrow> selection_valid (selection_of c)"
  by (auto simp: selection_of_def selection_valid_def)

definition normal_order :: "pystr list option \<Rightarrow> pystr list option" where
  "normal_order sp = normalize_source_priority (map_option (map Some) sp)"

lemma lane_normal_order [simp]: "release_source_rank r (normal_order sp) = release_source_rank r sp"
proof (cases "normal_order sp")
  case None
  then show ?thesis by (simp add: release_source_rank_def normal_order_def normalize_source_priority_def)
next
  case (Some p)
  then have "normalize_source_priority (map_option (map Some) (normal_order sp)) = normal_order sp"
    using normalized_idem by (simp add: normal_order_def)
  then show ?thesis by (simp add: release_source_rank_def normal_order_def)
qed

lemma ranking_key_normal [simp]: "ranking_key kw (normal_order sp) = ranking_key kw sp"
  by (rule ext) (simp add: ranking_key_eq)

lemma rank_search_sources_eq:
  "rank_search_sources oc kw sp limit =
     (if (case limit of None \<Rightarrow> False | Some n \<Rightarrow> n \<le> 0) then Inr []
      else if preselected oc \<noteq> None \<and> limit = Some 1 then Inr [the (preselected oc)]
      else rank_loop kw (normal_order sp) limit (order_candidates (normal_order sp) (source_candidates oc))
             (case preselected oc of None \<Rightarrow> [] | Some s \<Rightarrow> [s]))"
  by (cases "preselected oc") (simp_all add: rank_search_sources_def normal_order_def Let_def)

text \<open>Asking for fewer fallbacks never changes them: with a limit, the ranking is the beginning of the
  unlimited ranking, and none for a limit of zero or less.\<close>

theorem rank_limit_prefix:
  assumes "rank_search_sources oc kw sp None = Inr rs"
  shows "rank_search_sources oc kw sp (Some n) = Inr (take (nat n) rs) \<and>
    select_search_source oc kw sp = Inr (case rs of [] \<Rightarrow> None | s # _ \<Rightarrow> Some s)"
proof -
  let ?pre = "case preselected oc of None \<Rightarrow> [] | Some s \<Rightarrow> [s]"
  let ?xs = "order_candidates (normal_order sp) (source_candidates oc)"
  have loop: "rank_loop kw (normal_order sp) None ?xs ?pre = Inr rs"
    using assms by (simp add: rank_search_sources_eq)
  obtain ts where ts: "rs = ?pre @ ts" using rank_loop_extends [OF loop] by blast
  have lim: "rank_search_sources oc kw sp (Some n) = Inr (take (nat n) rs)" for n
  proof -
    consider "n \<le> 0" | "n = 1" "preselected oc \<noteq> None" | "int (length ?pre) \<le> n" "0 < n" "\<not> (n = 1 \<and> preselected oc \<noteq> None)"
      by (cases "preselected oc"; force)
    then show ?thesis
    proof cases
      case 1
      then show ?thesis by (simp add: rank_search_sources_eq)
    next
      case 2
      with ts show ?thesis by (auto simp: rank_search_sources_eq)
    next
      case 3
      from rank_loop_prefix [OF loop 3(1)] 3(2,3) show ?thesis by (auto simp: rank_search_sources_eq)
    qed
  qed
  show ?thesis using lim [of n] lim [of 1] by (cases rs) (simp_all add: select_search_source_def)
qed

lemma mset_order_candidates [simp]: "mset (order_candidates np xs) = mset xs"
  by (simp add: order_candidates_def split: option.split)

lemma source_candidates_adapters: "c \<in> set (source_candidates oc) \<Longrightarrow> cd_direct c = None \<or> cd_dc c = None"
  by (auto simp: source_candidates_def Let_def indexer_candidate_def split: option.splits if_splits)

text \<open>The unlimited ranking is complete: it is the winner of the evaluation, if that is taken over,
  followed by candidates each at most once; every candidate left out stays below the minimum
  score; and each entry carries exactly the acquisition adapter of its kind.\<close>

theorem rank_complete:
  assumes "rank_search_sources oc kw sp None = Inr rs"
  shows "list_all selection_valid rs \<and>
    (\<exists>ys zs. rs = (case preselected oc of None \<Rightarrow> [] | Some s \<Rightarrow> [s]) @ map selection_of ys \<and>
       mset ys + mset zs = mset (source_candidates oc) \<and>
       list_all (\<lambda>z. ranking_score kw (cd_validation z) < min_score_of kw) zs)"
proof -
  let ?pre = "case preselected oc of None \<Rightarrow> [] | Some s \<Rightarrow> [s]"
  have "rank_loop kw (normal_order sp) None (order_candidates (normal_order sp) (source_candidates oc)) ?pre = Inr rs"
    using assms by (simp add: rank_search_sources_eq)
  from rank_loop_complete [OF this] obtain ys zs where r: "rs = ?pre @ map selection_of ys"
    and m: "mset ys + mset zs = mset (source_candidates oc)"
    and z: "\<forall>z \<in> set zs. \<not> acceptable kw (cd_validation z)" by auto
  have "set ys \<subseteq> set (source_candidates oc)"
    by (metis m mset_subset_eq_add_left set_mset_mono set_mset_mset)
  then have "list_all selection_valid (map selection_of ys)"
    using source_candidates_adapters [of _ oc] selection_of_valid by (fastforce simp: list_all_iff)
  moreover have "list_all selection_valid ?pre"
    by (auto simp: preselected_def selection_valid_def split: option.split)
  ultimately show ?thesis using r m z by (fastforce simp: list_all_iff acceptable_def)
qed

subsection \<open>The ranking returns\<close>

lemma select_neutral_ok: "is_ok (resolved_weights (ek_opts kw)) \<Longrightarrow> is_ok (select_neutral kw vs)"
  by (simp add: select_neutral_def select_best_eq)

lemma first_direct_group_ok:
  assumes "is_ok (resolved_weights (ek_opts kw))"
  shows "is_ok (first_direct_group kw items ks)"
proof (induction ks)
  case (Cons k ks)
  obtain sel where "select_neutral kw (map (cd_validation \<circ> snd)
      (sort_key direct_priority_of (filter (\<lambda>p. semantic_key (snd p) = k) items))) = Inr sel"
    using select_neutral_ok [OF assms] unfolding is_ok_iff by blast
  with Cons show ?case by (cases sel) (simp_all add: Let_def)
qed simp

lemma pick_next_ok:
  assumes "is_ok (resolved_weights (ek_opts kw))"
  shows "is_ok (pick_next kw np xs)"
proof -
  obtain sel where "select_for_ranking kw np (map cd_validation xs) = Inr sel"
    using assms by (cases "xs = []") (simp_all add: select_for_ranking_eq)
  moreover obtain j where "preferred_direct_candidate kw xs = Inr j"
    using first_direct_group_ok [OF assms] unfolding preferred_direct_candidate_def is_ok_iff by metis
  ultimately show ?thesis by (auto simp: pick_next_def split: option.split)
qed

lemma rank_loop_ok:
  "is_ok (resolved_weights (ek_opts kw)) \<Longrightarrow> is_ok (rank_loop kw np limit xs ranked)"
proof (induction kw np limit xs ranked rule: rank_loop.induct)
  case (1 kw np limit xs ranked)
  show ?case
  proof (cases "xs = [] \<or> (case limit of None \<Rightarrow> False | Some n \<Rightarrow> int (length ranked) \<ge> n)")
    case True
    then show ?thesis by (subst rank_loop.simps) simp
  next
    case False
    obtain p where p: "pick_next kw np xs = Inr p"
      using pick_next_ok [OF 1(2)] unfolding is_ok_iff by blast
    with False 1(1) [OF False p] 1(2) show ?thesis by (subst rank_loop.simps) (cases p, auto)
  qed
qed

lemma rank_ok: "is_ok (resolved_weights (ek_opts kw)) \<Longrightarrow> is_ok (rank_search_sources oc kw sp limit)"
  by (simp add: rank_search_sources_eq rank_loop_ok)

subsection \<open>Lanes\<close>

definition lane :: "pystr list option \<Rightarrow> source_candidate \<Rightarrow> int" where
  "lane sp c = release_source_rank (vr_release (cd_validation c)) sp"

text \<open>Direct and Direct Connect candidates carry releases of their own protocol.\<close>

definition adapters_typed :: "source_candidate list \<Rightarrow> bool" where
  "adapters_typed xs \<longleftrightarrow> (\<forall>c \<in> set xs.
     (cd_direct c \<noteq> None \<longrightarrow> rr_protocol (vr_release (cd_validation c)) = Proto_DIRECT) \<and>
     (cd_dc c \<noteq> None \<longrightarrow> rr_protocol (vr_release (cd_validation c)) = Proto_DC))"

lemma adapters_typed_pop: "adapters_typed xs \<Longrightarrow> adapters_typed (pop_at i xs)"
  unfolding adapters_typed_def using set_pop_at [of i xs] by (meson subsetD)

lemma typed_same_lane:
  assumes "adapters_typed xs" and "i < length xs" and "w < length xs"
    and "i = w \<or> (cd_direct (xs ! w) \<noteq> None \<and> cd_direct (xs ! i) \<noteq> None) \<or>
      (cd_dc (xs ! w) \<noteq> None \<and> cd_dc (xs ! i) \<noteq> None)"
  shows "lane sp (xs ! i) = lane sp (xs ! w)"
  using assms nth_mem [OF assms(2)] nth_mem [OF assms(3)]
  by (auto simp: adapters_typed_def lane_def release_source_rank_def split: option.split)

lemma rank_loop_lanes:
  "rank_loop kw np None xs ranked = Inr rs \<Longrightarrow> adapters_typed xs \<Longrightarrow> coherent xs \<Longrightarrow>
    \<exists>ys. rs = ranked @ map selection_of ys \<and> sorted (map (lane np) ys) \<and>
      (\<forall>y \<in> set ys. \<exists>c \<in> set xs. acceptable kw (cd_validation c) \<and> lane np c = lane np y)"
proof (induction kw np "None :: int option" xs ranked rule: rank_loop.induct)
  case (1 kw np xs ranked)
  show ?case
  proof (cases "xs = []")
    case True
    with 1(2) show ?thesis by (simp add: rank_loop.simps)
  next
    case False
    with 1(2) obtain p where p: "pick_next kw np xs = Inr p"
      by (subst (asm) rank_loop.simps) (auto split: sum.splits)
    show ?thesis
    proof (cases p)
      case None
      with False 1(2) p have "rs = ranked" by (simp add: rank_loop.simps)
      then show ?thesis by (intro exI [of _ "[]"]) simp
    next
      case (Some i)
      from False 1(2) p Some have
        "rank_loop kw np None (pop_at i xs) (ranked @ [selection_of (xs ! i)]) = Inr rs"
        by (subst (asm) rank_loop.simps) simp
      with 1(1) [of p i] False p Some adapters_typed_pop [OF 1(3)] coherent_pop [OF 1(4)] obtain ys where
        r: "rs = (ranked @ [selection_of (xs ! i)]) @ map selection_of ys"
        and s: "sorted (map (lane np) ys)"
        and b: "\<forall>y \<in> set ys. \<exists>c \<in> set (pop_at i xs). acceptable kw (cd_validation c) \<and> lane np c = lane np y"
        by auto
      have pick: "pick_next kw np xs = Inr (Some i)" using p Some by simp
      then obtain w where w: "w < length xs" "acceptable kw (cd_validation (xs ! w))"
        and least: "\<forall>c \<in> set xs. acceptable kw (cd_validation c) \<longrightarrow>
          ranking_key kw np (cd_validation (xs ! w)) \<le> ranking_key kw np (cd_validation c)"
        and iw: "i = w \<or> (cd_direct (xs ! w) \<noteq> None \<and> cd_direct (xs ! i) \<noteq> None) \<or>
          (cd_dc (xs ! w) \<noteq> None \<and> cd_dc (xs ! i) \<noteq> None)"
        using 1(4) by (rule pick_next_winner)
      have l: "lane np (xs ! i) = lane np (xs ! w)"
        using typed_same_lane [OF 1(3) pick_next_in [OF pick] w(1) iw] .
      have up: "lane np (xs ! w) \<le> lane np c" if "c \<in> set xs" "acceptable kw (cd_validation c)" for c
        using least that by (force simp: ranking_key_eq less_eq_prod_def lane_def)
      have "lane np (xs ! i) \<le> lane np y" if "y \<in> set ys" for y
        using b that up l set_pop_at [of i xs] by (metis subsetD)
      with s have "sorted (map (lane np) (xs ! i # ys))" by simp
      moreover have "\<exists>c \<in> set xs. acceptable kw (cd_validation c) \<and> lane np c = lane np y"
        if "y \<in> set (xs ! i # ys)" for y
        using that w l b set_pop_at [of i xs] by (metis nth_mem set_ConsD subsetD)
      ultimately show ?thesis using r by (intro exI [of _ "xs ! i # ys"]) auto
    qed
  qed
qed

text \<open>C15. The ranking respects the source order: when no winner is taken over from the evaluation, all
  entries of a source come before those of every source that the configured order puts later,
  although direct and Direct Connect entries are chosen by rules of their own.\<close>

theorem rank_respects_source_order:
  assumes "rank_search_sources oc kw sp None = Inr rs" and "preselected oc = None"
    and "coherent (source_candidates oc)" and "adapters_typed (source_candidates oc)"
  shows "sorted (map (\<lambda>s. release_source_rank (ss_release s) sp) rs)"
proof -
  let ?xs = "order_candidates (normal_order sp) (source_candidates oc)"
  have s: "set ?xs = set (source_candidates oc)" by (metis mset_order_candidates set_mset_mset)
  have "coherent ?xs" "adapters_typed ?xs"
    using assms(3,4) by (simp_all only: coherent_def adapters_typed_def s)
  moreover have "rank_loop kw (normal_order sp) None ?xs [] = Inr rs"
    using assms(1,2) by (simp add: rank_search_sources_eq)
  ultimately obtain ys where "rs = map selection_of ys" "sorted (map (lane (normal_order sp)) ys)"
    using rank_loop_lanes by fastforce
  then show ?thesis by (simp add: comp_def lane_def [abs_def] selection_of_def)
qed

subsection \<open>Ranking indexer results\<close>

lemma insort_key_cong_on:
  "f x = g x \<Longrightarrow> (\<And>y. y \<in> set xs \<Longrightarrow> f y = g y) \<Longrightarrow> insort_key f x xs = insort_key g x xs"
  by (induction xs) auto

lemma sort_key_cong_on: "(\<And>y. y \<in> set xs \<Longrightarrow> f y = g y) \<Longrightarrow> sort_key f xs = sort_key g xs"
  by (induction xs) (auto intro: insort_key_cong_on)

definition indexer_selection :: "validation_result \<Rightarrow> source_selection" where
  "indexer_selection v = selection_of (indexer_candidate v)"

lemma order_then_sort:
  assumes "\<forall>c \<in> set xs. cd_source c = protocol_value (rr_protocol (vr_release (cd_validation c)))"
  shows "sort_key (\<lambda>c. ranking_key kw sp (cd_validation c))
      (filter P (order_candidates (normal_order sp) xs)) =
    sort_key (\<lambda>c. ranking_key kw sp (cd_validation c)) (filter P xs)"
proof (cases "normal_order sp")
  case None
  then show ?thesis by (simp add: order_candidates_def)
next
  case (Some p)
  have "order_candidates (normal_order sp) xs = sort_key (lane sp) xs"
    using assms by (auto simp: order_candidates_def Some lane_def release_source_rank_def
        Some [unfolded normal_order_def] intro: sort_key_cong_on)
  then show ?thesis
    by (simp add: filter_sort_key) (rule sort_key_refine, simp add: ranking_key_eq lane_def)
qed

text \<open>C14. For indexer results the ranking is the stable sort of the matches that reach the minimum score,
  by source lane and then by descending score: choosing the best of the rest again and again,
  and starting from the winner the evaluation has chosen, both give this list, cut off at the
  limit.\<close>

theorem ranking_is_stable_sort:
  assumes "direct_matches oc = []" and "dc_matches oc = []" and "is_ok (resolved_weights (ek_opts kw))"
    and "distinct (map vr_ref (oc_matched oc))"
    and "oc_best_validation oc = None \<or>
      (select_for_ranking kw sp (oc_matched oc) = Inr (oc_best_validation oc) \<and>
       oc_best_release oc = map_option vr_release (oc_best_validation oc))"
  shows "rank_search_sources oc kw sp limit = Inr (take_limit limit (map indexer_selection
    (sort_key (\<lambda>v. (release_source_rank (vr_release v) sp, - ranking_score kw v))
      (filter (\<lambda>v. ranking_score kw v \<ge> min_score_of kw) (oc_matched oc)))))"
proof -
  let ?k = "\<lambda>c. ranking_key kw sp (cd_validation c)" and ?P = "\<lambda>c. acceptable kw (cd_validation c)"
  define ms where "ms = oc_matched oc"
  define best where "best = sort_key (ranking_key kw sp) (filter (acceptable kw) ms)"
  have cands: "sort_key ?k (filter ?P (order_candidates (normal_order sp) (map indexer_candidate vs))) =
      map indexer_candidate (sort_key (ranking_key kw sp) (filter (acceptable kw) vs))" for vs
    by (subst order_then_sort)
      (simp_all add: indexer_candidate_def filter_map sort_key_map comp_def)
  have plain: "plain_candidates kw (order_candidates (normal_order sp) (map indexer_candidate vs))"
    if "distinct (map vr_ref vs)" for vs
  proof -
    have m: "mset (order_candidates (normal_order sp) (map indexer_candidate vs)) = mset (map indexer_candidate vs)"
      by simp
    then have "set (order_candidates (normal_order sp) (map indexer_candidate vs)) = indexer_candidate ` set vs"
      by (metis set_mset_mset set_map)
    moreover have "mset (map (vr_ref \<circ> cd_validation) (order_candidates (normal_order sp) (map indexer_candidate vs))) =
        mset (map vr_ref vs)"
      by (simp only: mset_map m) (simp add: indexer_candidate_def multiset.map_comp comp_def)
    then have "distinct (map (vr_ref \<circ> cd_validation) (order_candidates (normal_order sp) (map indexer_candidate vs)))"
      using that mset_eq_imp_distinct_iff by blast
    ultimately show ?thesis using assms(3) by (simp add: plain_candidates_def indexer_candidate_def)
  qed
  have loop: "rank_loop kw (normal_order sp) limit (order_candidates (normal_order sp) (map indexer_candidate vs)) pre =
      Inr (take_limit limit (pre @ map indexer_selection (sort_key (ranking_key kw sp) (filter (acceptable kw) vs))))"
    if "distinct (map vr_ref vs)" "room limit pre" for vs pre
    using rank_loop_plain [OF plain [OF that(1)] that(2), of "normal_order sp"]
    by (simp add: cands indexer_selection_def [abs_def] comp_def)
  have goal: "rank_search_sources oc kw sp limit = Inr (take_limit limit (map indexer_selection best))"
  proof (cases "limit = None \<or> (\<exists>n. limit = Some n \<and> 0 < n)")
    case False
    then show ?thesis by (cases limit) (auto simp: rank_search_sources_eq take_limit_def)
  next
    case pos: True
    show ?thesis
    proof (cases "oc_best_validation oc")
      case None
      then have "preselected oc = None" "source_candidates oc = map indexer_candidate ms"
        using assms(1,2) by (simp_all add: preselected_def source_candidates_def Let_def ms_def)
      with loop [of ms "[]"] pos assms(4) show ?thesis
        by (auto simp: rank_search_sources_eq best_def ms_def room_def)
    next
      case (Some b)
      with assms(5) have sel: "select_for_ranking kw sp ms = Inr (Some b)" and r: "oc_best_release oc = Some (vr_release b)"
        by (simp_all add: ms_def)
      obtain rest where b: "best = b # rest"
        using sel by (auto simp: best_def select_for_ranking_eq first_of_def split: if_splits list.splits)
      have bm: "b \<in> set ms" using sel by (auto simp: select_for_ranking_eq dest: first_of_sort_key split: if_splits)
      have pre: "preselected oc = Some (indexer_selection b)"
        using assms(1,2) Some r
        by (simp add: preselected_def indexer_selection_def indexer_candidate_def selection_of_def)
      define others where "others = filter (\<lambda>v. \<not> is_object v b) ms"
      have so: "source_candidates oc = map indexer_candidate others"
        using assms(1,2) Some pre by (simp add: source_candidates_def Let_def others_def ms_def)
      have d: "distinct (map vr_ref ms)" using assms(4) by (simp add: ms_def)
      have ob: "others = filter (\<lambda>v. v \<noteq> b) ms"
        unfolding others_def using d bm by (auto simp: is_object_def distinct_map inj_on_def intro!: filter_cong)
      have "sort_key (ranking_key kw sp) (filter (acceptable kw) others) = filter (\<lambda>v. v \<noteq> b) best"
        by (simp add: ob best_def filter_sort_key conj_commute)
      moreover have "distinct best" using d by (simp add: best_def distinct_map)
      then have "filter (\<lambda>v. v \<noteq> b) best = rest" by (auto simp: b intro!: filter_True)
      ultimately have "rank_loop kw (normal_order sp) limit
          (order_candidates (normal_order sp) (source_candidates oc)) [indexer_selection b] =
          Inr (take_limit limit (map indexer_selection best))"
        using loop [of others "[indexer_selection b]"] pos d
        by (auto simp: so b room_def others_def distinct_map_filter)
      with pos pre b show ?thesis
        by (auto simp: rank_search_sources_eq take_limit_def)
    qed
  qed
  then show ?thesis
    by (simp add: best_def ms_def ranking_key_eq [abs_def] acceptable_def [abs_def])
qed

subsection \<open>A concrete search\<close>

definition sample_parsed :: parsed_release where
  "sample_parsed = \<lparr>pr_original_title = ''X'', pr_series_name = Some ''X'', pr_issue_number = Some 1,
     pr_year = None, pr_volume = None, pr_issue_type = Type_ISSUE, pr_scan_group = None,
     pr_file_format = None, pr_is_pack = False, pr_pack_range = None, pr_issue_number_text = None,
     pr_volume_year = None\<rparr>"

definition sample_validation :: "nat \<Rightarrow> acquisition_protocol \<Rightarrow> int \<Rightarrow> validation_result" where
  "sample_validation ref protocol prio =
     \<lparr>vr_ref = ref, vr_is_match = True, vr_confidence = Conf_HIGH, vr_parsed = sample_parsed,
      vr_release = sample_release\<lparr>rr_title := ''X'', rr_protocol := protocol, rr_ranking_priority := prio\<rparr>,
      vr_rejection_reason = None, vr_series_similarity = 1, vr_match_type = ''primary'',
      vr_issue_match = True, vr_year_match = None, vr_issue_type_match = True,
      vr_size_warning = None, vr_year_match_basis = None\<rparr>"

definition sample_kwargs :: eval_kwargs where
  "sample_kwargs = \<lparr>ek_min_score = None, ek_confidence_blend = None, ek_opts = default_score_opts\<rparr>"

definition sample_direct :: direct_candidate where
  "sample_direct = \<lparr>dv_provider_priority = 1, dv_validation = sample_validation 3 Proto_DIRECT 25\<rparr>"

definition sample_search :: search_outcome where
  "sample_search = \<lparr>oc_matched = [sample_validation 1 Proto_TORRENT 30, sample_validation 2 Proto_USENET 40],
     oc_best_release = None, oc_best_validation = None, oc_direct = Some [(sample_direct, [])], oc_dc = None\<rparr>"

definition sample_indexer_search :: search_outcome where
  "sample_indexer_search = sample_search\<lparr>oc_direct := None\<rparr>"

lemma sample_weights: "is_ok (resolved_weights (ek_opts sample_kwargs))"
  by (simp add: sample_kwargs_def default_score_opts_def resolved_weights_def)

lemma sample_ranking_ok: "\<exists>rs. rank_search_sources oc sample_kwargs sp None = Inr rs"
  using rank_ok [OF sample_weights] by (simp add: is_ok_iff)

lemmas sample_search_defs = sample_search_def sample_indexer_search_def sample_direct_def
  sample_validation_def sample_release_def preselected_def direct_matches_def dc_matches_def

theorem rank_limit_prefix_witness:
  "\<exists>rs. rank_search_sources sample_search sample_kwargs (Some [''ddl'']) None = Inr rs \<and>
     rank_search_sources sample_search sample_kwargs (Some [''ddl'']) (Some 2) = Inr (take 2 rs)"
  using sample_ranking_ok rank_limit_prefix [of sample_search sample_kwargs "Some [''ddl'']" _ 2] by force

theorem rank_complete_witness:
  "\<exists>ys zs. mset ys + mset zs = mset (source_candidates sample_search) \<and>
     list_all (\<lambda>z. ranking_score sample_kwargs (cd_validation z) < min_score_of sample_kwargs) zs"
  using sample_ranking_ok [of sample_search None] rank_complete [of sample_search sample_kwargs None] by blast

theorem rank_respects_source_order_witness:
  "\<exists>rs. rank_search_sources sample_search sample_kwargs (Some [''ddl'']) None = Inr rs \<and>
     sorted (map (\<lambda>s. release_source_rank (ss_release s) (Some [''ddl''])) rs)"
proof -
  obtain rs where rs: "rank_search_sources sample_search sample_kwargs (Some [''ddl'']) None = Inr rs"
    using sample_ranking_ok by blast
  have "preselected sample_search = None" by (simp add: sample_search_defs)
  moreover have "coherent (source_candidates sample_search)" and "adapters_typed (source_candidates sample_search)"
    by (simp_all add: coherent_def adapters_typed_def source_candidates_def indexer_candidate_def
        sample_search_defs is_object_def)
  ultimately show ?thesis using rank_respects_source_order [OF rs] rs by blast
qed

theorem ranking_is_stable_sort_witness:
  "rank_search_sources sample_indexer_search sample_kwargs None (Some 5) =
     Inr (take 5 (map indexer_selection
       (sort_key (\<lambda>v. (release_source_rank (vr_release v) None, - ranking_score sample_kwargs v))
         (filter (\<lambda>v. ranking_score sample_kwargs v \<ge> min_score_of sample_kwargs)
           [sample_validation 1 Proto_TORRENT 30, sample_validation 2 Proto_USENET 40]))))"
proof -
  have "direct_matches sample_indexer_search = []" "dc_matches sample_indexer_search = []"
    "oc_best_validation sample_indexer_search = None" "distinct (map vr_ref (oc_matched sample_indexer_search))"
    and m: "oc_matched sample_indexer_search = [sample_validation 1 Proto_TORRENT 30, sample_validation 2 Proto_USENET 40]"
    by (simp_all add: sample_search_defs)
  with ranking_is_stable_sort [of sample_indexer_search sample_kwargs None "Some 5"] sample_weights
  show ?thesis by (simp add: take_limit_def m)
qed

end
