(* ===== verification/Throttling.thy ===== *)
theory Throttling
  imports Interfaces Py_Text
begin

text \<open>
  The limits on how often things may be done: the login limiter
  (\<open>src/src/pullbox/core/rate_limiter.py\<close>) with the login request that uses it, the API limiter
  (\<open>src/src/pullbox/core/api_rate_limiter.py\<close>), and the circuit breaker in front of a resolver
  (\<open>src/src/pullbox/providers/direct/resolver.py\<close>). Every method runs under the limiter's lock, so one
  call is one step. Readings of the monotonic clock are rational arguments; the check methods
  read it twice, first for the clean-up (\<open>tc\<close>) and then for the decision (\<open>t\<close>).
\<close>

subsection \<open>The login limiter\<close>

record attempt_record =
  at_count :: int
  at_window_start :: rat
  at_locked_until :: "rat option"

record login_limiter =
  ll_max_attempts :: int
  ll_window_seconds :: rat
  ll_lockout_seconds :: rat
  ll_records :: "(pystr, attempt_record) dict"
  ll_last_cleanup :: rat

definition new_login_limiter :: "int \<Rightarrow> rat \<Rightarrow> rat \<Rightarrow> rat \<Rightarrow> login_limiter" where
  "new_login_limiter max_attempts window_seconds lockout_seconds t =
     \<lparr>ll_max_attempts = max_attempts, ll_window_seconds = window_seconds,
      ll_lockout_seconds = lockout_seconds, ll_records = [], ll_last_cleanup = t\<rparr>"

definition CLEANUP_INTERVAL_SECONDS :: rat where "CLEANUP_INTERVAL_SECONDS = 60"

text \<open>The error carries the seconds and the minutes of its message.\<close>

datatype throttle_error = LoginRateLimited int int | RateLimited | CircuitOpen | ResolverBusy

definition record_stale :: "rat \<Rightarrow> rat \<Rightarrow> attempt_record \<Rightarrow> bool" where
  "record_stale window_seconds t r \<longleftrightarrow> t - at_window_start r > window_seconds \<and>
     (case at_locked_until r of None \<Rightarrow> True | Some u \<Rightarrow> t \<ge> u)"

definition login_cleanup :: "rat \<Rightarrow> login_limiter \<Rightarrow> login_limiter" where
  "login_cleanup t l =
     (if t - ll_last_cleanup l < CLEANUP_INTERVAL_SECONDS then l
      else l\<lparr>ll_last_cleanup := t, ll_records := filter (\<lambda>(ip, r). \<not> record_stale (ll_window_seconds l) t r) (ll_records l)\<rparr>)"

definition lockout_error :: "rat \<Rightarrow> rat \<Rightarrow> throttle_error" where
  "lockout_error t until =
     (let remaining = until - t
      in LoginRateLimited (max 1 \<lfloor>remaining + 999 / 1000\<rfloor>) (max 1 \<lfloor>(remaining + 59999 / 1000) / 60\<rfloor>))"

definition check_rate_limit ::
  "rat \<Rightarrow> rat \<Rightarrow> pystr \<Rightarrow> login_limiter \<Rightarrow> throttle_error option \<times> login_limiter" where
  "check_rate_limit tc t ip l =
     (let l1 = login_cleanup tc l
      in case map_of (ll_records l1) ip of
           None \<Rightarrow> (None, l1)
         | Some r \<Rightarrow>
             (case at_locked_until r of
                None \<Rightarrow> (None, l1)
              | Some u \<Rightarrow>
                  if t < u then (Some (lockout_error t u), l1)
                  else (None, l1\<lparr>ll_records := AList.delete ip (ll_records l1)\<rparr>)))"

definition record_failure :: "rat \<Rightarrow> pystr \<Rightarrow> login_limiter \<Rightarrow> login_limiter" where
  "record_failure t ip l =
     (let fresh = l\<lparr>ll_records := AList.update ip
            \<lparr>at_count = 1, at_window_start = t, at_locked_until = None\<rparr> (ll_records l)\<rparr>
      in case map_of (ll_records l) ip of
           None \<Rightarrow> fresh
         | Some r \<Rightarrow>
             if t - at_window_start r > ll_window_seconds l then fresh
             else
               (let r1 = r\<lparr>at_count := at_count r + 1\<rparr>;
                    r2 = (if at_count r1 \<ge> ll_max_attempts l
                      then r1\<lparr>at_locked_until := Some (t + ll_lockout_seconds l)\<rparr> else r1)
                in l\<lparr>ll_records := AList.update ip r2 (ll_records l)\<rparr>))"

definition record_success :: "pystr \<Rightarrow> login_limiter \<Rightarrow> login_limiter" where
  "record_success ip l = l\<lparr>ll_records := AList.delete ip (ll_records l)\<rparr>"

definition reset_login :: "pystr \<Rightarrow> login_limiter \<Rightarrow> login_limiter" where
  "reset_login ip l = l\<lparr>ll_records := AList.delete ip (ll_records l)\<rparr>"

text \<open>What a login request does with the limiter: refused, failed or successful. \<open>authentic\<close> is the
  answer of the password check.\<close>

datatype login_outcome = Login_refused throttle_error | Login_failed | Login_ok

definition login_request ::
  "rat \<Rightarrow> rat \<Rightarrow> rat \<Rightarrow> pystr \<Rightarrow> bool \<Rightarrow> login_limiter \<Rightarrow> login_outcome \<times> login_limiter" where
  "login_request tc t t' ip authentic l =
     (case check_rate_limit tc t ip l of
        (Some e, l1) \<Rightarrow> (Login_refused e, l1)
      | (None, l1) \<Rightarrow>
          if authentic then (Login_ok, record_success ip l1)
          else (Login_failed, record_failure t' ip l1))"

subsection \<open>The API limiter\<close>

datatype tier = TIER1 | TIER2 | TIER3 | EXEMPT

record window_counter =
  wc_count :: int
  wc_window_start :: rat

record api_limiter =
  al_tier1 :: int
  al_tier2 :: int
  al_tier3 :: int
  al_enabled :: bool
  al_counters :: "(pystr, (tier, window_counter) dict) dict"
  al_last_cleanup :: rat

definition WINDOW_SECONDS :: rat where "WINDOW_SECONDS = 60"

fun tier_limit :: "api_limiter \<Rightarrow> tier \<Rightarrow> int" where
  "tier_limit l TIER1 = al_tier1 l"
| "tier_limit l TIER2 = al_tier2 l"
| "tier_limit l TIER3 = al_tier3 l"
| "tier_limit l EXEMPT = 0"

definition TIER1_PATTERNS :: "rx list" where
  "TIER1_PATTERNS =
     [rx_seq [rx_exact ''/api/v1/series/'', rx_some is_ascii_digit, rx_exact ''/search'', REnd],
      rx_seq [rx_exact ''/api/v1/series/'', rx_some is_ascii_digit, rx_exact ''/refresh'', REnd],
      rx_exact ''/api/v1/search/'',
      rx_seq [rx_exact ''/api/v1/system/backup'', REnd],
      rx_exact ''/api/v1/system/restore/'',
      rx_seq [rx_exact ''/api/v1/library/scan'', REnd]]"

definition EXEMPT_PREFIXES :: "pystr list" where
  "EXEMPT_PREFIXES = [''/ping'', ''/health'', ''/static/'', ''/covers/'']"

definition EXEMPT_API_PATTERNS :: "rx list" where
  "EXEMPT_API_PATTERNS =
     [rx_seq [rx_exact ''/api/v1/series/'', rx_some is_ascii_digit, rx_exact ''/cover'', REnd],
      rx_seq [rx_exact ''/api/v1/issues/'', rx_some is_ascii_digit, rx_exact ''/cover'', REnd]]"

definition RATE_LIMITED_PREFIXES :: "pystr list" where "RATE_LIMITED_PREFIXES = [''/api/'']"

definition WRITE_METHODS :: "pystr list" where
  "WRITE_METHODS = [''POST'', ''PUT'', ''PATCH'', ''DELETE'']"

definition classify :: "pystr \<Rightarrow> pystr \<Rightarrow> tier" where
  "classify path http_method =
     (if \<not> list_ex (\<lambda>p. starts_with p path) RATE_LIMITED_PREFIXES then EXEMPT
      else if list_ex (\<lambda>p. starts_with p path) EXEMPT_PREFIXES then EXEMPT
      else if list_ex (\<lambda>r. re_match r path) EXEMPT_API_PATTERNS then EXEMPT
      else if list_ex (\<lambda>r. re_match r path) TIER1_PATTERNS then TIER1
      else if http_method \<in> set WRITE_METHODS then TIER2
      else TIER3)"

definition counter_stale :: "rat \<Rightarrow> window_counter \<Rightarrow> bool" where
  "counter_stale t c \<longleftrightarrow> t - wc_window_start c \<ge> WINDOW_SECONDS"

definition api_cleanup :: "rat \<Rightarrow> api_limiter \<Rightarrow> api_limiter" where
  "api_cleanup t l =
     (if t - al_last_cleanup l < CLEANUP_INTERVAL_SECONDS then l
      else l\<lparr>al_last_cleanup := t,
             al_counters := filter (\<lambda>(ip, tiers). tiers \<noteq> [])
               (map (\<lambda>(ip, tiers). (ip, filter (\<lambda>(k, c). \<not> counter_stale t c) tiers)) (al_counters l))\<rparr>)"

definition api_check ::
  "rat \<Rightarrow> rat \<Rightarrow> pystr \<Rightarrow> pystr \<Rightarrow> pystr \<Rightarrow> api_limiter \<Rightarrow> throttle_error option \<times> api_limiter" where
  "api_check tc t ip path http_method l =
     (if \<not> al_enabled l then (None, l)
      else
        (let k = classify path http_method
         in if k = EXEMPT then (None, l)
            else
              (let l1 = api_cleanup tc l;
                   tiers = or_else (map_of (al_counters l1) ip) [];
                   put = (\<lambda>tiers. l1\<lparr>al_counters := AList.update ip tiers (al_counters l1)\<rparr>);
                   fresh = put (AList.update k \<lparr>wc_count = 1, wc_window_start = t\<rparr> tiers)
               in case map_of tiers k of
                    None \<Rightarrow> (None, fresh)
                  | Some c \<Rightarrow>
                      if counter_stale t c then (None, fresh)
                      else if wc_count c \<ge> tier_limit l1 k then (Some RateLimited, put tiers)
                      else (None, put (AList.update k (c\<lparr>wc_count := wc_count c + 1\<rparr>) tiers)))))"

definition api_counter :: "api_limiter \<Rightarrow> pystr \<Rightarrow> tier \<Rightarrow> window_counter option" where
  "api_counter l ip k = map_of (or_else (map_of (al_counters l) ip) []) k"

definition get_remaining :: "rat \<Rightarrow> pystr \<Rightarrow> pystr \<Rightarrow> pystr \<Rightarrow> api_limiter \<Rightarrow> int" where
  "get_remaining t ip path http_method l =
     (let k = classify path http_method
      in if k = EXEMPT then 0
         else
           (case map_of (al_counters l) ip of
              None \<Rightarrow> tier_limit l k
            | Some tiers \<Rightarrow>
                (case map_of tiers k of
                   None \<Rightarrow> tier_limit l k
                 | Some c \<Rightarrow> if counter_stale t c then tier_limit l k
                     else max 0 (tier_limit l k - wc_count c))))"

definition get_limit :: "pystr \<Rightarrow> pystr \<Rightarrow> api_limiter \<Rightarrow> int" where
  "get_limit path http_method l =
     (let k = classify path http_method in if k = EXEMPT then 0 else tier_limit l k)"

subsection \<open>The circuit breaker\<close>

datatype breaker_state = Breaker_closed | Breaker_open | Breaker_half_open

record circuit_breaker =
  cb_failure_threshold :: int
  cb_cooldown_seconds :: rat
  cb_max_concurrency :: int
  cb_active :: int
  cb_failures :: int
  cb_state :: breaker_state
  cb_opened_at :: "rat option"

definition new_circuit_breaker :: "int \<Rightarrow> rat \<Rightarrow> int \<Rightarrow> circuit_breaker option" where
  "new_circuit_breaker failure_threshold cooldown_seconds max_concurrency =
     (if failure_threshold < 1 \<or> cooldown_seconds \<le> 0 \<or> max_concurrency < 1 \<or> max_concurrency > 4 then None
      else Some \<lparr>cb_failure_threshold = failure_threshold, cb_cooldown_seconds = cooldown_seconds,
        cb_max_concurrency = max_concurrency, cb_active = 0, cb_failures = 0,
        cb_state = Breaker_closed, cb_opened_at = None\<rparr>)"

text \<open>Entering and leaving the body of \<open>slot\<close>. An open breaker has an opening time, which the code
  asserts.\<close>

definition enter_slot :: "rat \<Rightarrow> circuit_breaker \<Rightarrow> throttle_error option \<times> circuit_breaker" where
  "enter_slot t b =
     (let cooling = (cb_state b = Breaker_open \<and>
            (case cb_opened_at b of None \<Rightarrow> True | Some o1 \<Rightarrow> t - o1 < cb_cooldown_seconds b));
          b1 = (if cb_state b = Breaker_open then b\<lparr>cb_state := Breaker_half_open\<rparr> else b)
      in if cooling then (Some CircuitOpen, b)
         else if cb_active b1 \<ge> cb_max_concurrency b1 \<or> (cb_state b1 = Breaker_half_open \<and> cb_active b1 > 0)
         then (Some ResolverBusy, b1)
         else (None, b1\<lparr>cb_active := cb_active b1 + 1\<rparr>))"

definition leave_slot :: "circuit_breaker \<Rightarrow> circuit_breaker" where
  "leave_slot b = b\<lparr>cb_active := cb_active b - 1\<rparr>"

definition breaker_success :: "circuit_breaker \<Rightarrow> circuit_breaker" where
  "breaker_success b = b\<lparr>cb_failures := 0, cb_opened_at := None, cb_state := Breaker_closed\<rparr>"

definition breaker_failure :: "rat \<Rightarrow> circuit_breaker \<Rightarrow> circuit_breaker" where
  "breaker_failure t b =
     (let b1 = b\<lparr>cb_failures := cb_failures b + 1\<rparr>
      in if cb_failures b1 \<ge> cb_failure_threshold b1
         then b1\<lparr>cb_opened_at := Some t, cb_state := Breaker_open\<rparr> else b1)"

subsection \<open>The login limiter as a table of expiring records\<close>

datatype login_op = Op_check | Op_failure | Op_clear

text \<open>What a call does to the record of its address, clean-up apart\<close>

definition count_failure :: "int \<Rightarrow> rat \<Rightarrow> rat \<Rightarrow> rat \<Rightarrow> attempt_record option \<Rightarrow> attempt_record" where
  "count_failure M W L t x =
     (case x of
        None \<Rightarrow> \<lparr>at_count = 1, at_window_start = t, at_locked_until = None\<rparr>
      | Some r \<Rightarrow>
          if t - at_window_start r > W then \<lparr>at_count = 1, at_window_start = t, at_locked_until = None\<rparr>
          else r\<lparr>at_count := at_count r + 1,
                 at_locked_until := (if at_count r + 1 \<ge> M then Some (t + L) else at_locked_until r)\<rparr>)"

definition login_act :: "int \<Rightarrow> rat \<Rightarrow> rat \<Rightarrow> rat \<Rightarrow> login_op \<Rightarrow> attempt_record option \<Rightarrow>
    throttle_error option \<times> attempt_record option" where
  "login_act M W L t op x =
     (case op of
        Op_check \<Rightarrow>
          (case x of
             None \<Rightarrow> (None, None)
           | Some r \<Rightarrow>
               (case at_locked_until r of
                  None \<Rightarrow> (None, Some r)
                | Some u \<Rightarrow> if t < u then (Some (lockout_error t u), Some r) else (None, None)))
      | Op_failure \<Rightarrow> (None, Some (count_failure M W L t x))
      | Op_clear \<Rightarrow> (None, None))"

interpretation login: expiring_records "login_act M W L" "record_stale W" for M W L
proof unfold_locales
  fix t t' r
  assume "record_stale W t r" and "t \<le> t'"
  then show "record_stale W t' r" by (auto simp: record_stale_def split: option.splits)
next
  fix t r op
  assume s: "record_stale W t r"
  then show "fst (login_act M W L t op (Some r)) = fst (login_act M W L t op None)"
    by (cases op) (auto simp: login_act_def record_stale_def split: option.splits)
  from s show "snd (login_act M W L t op (Some r)) = snd (login_act M W L t op None) \<or>
      (snd (login_act M W L t op (Some r)) = Some r \<and> snd (login_act M W L t op None) = None)"
    by (cases op) (auto simp: login_act_def record_stale_def count_failure_def split: option.splits)
qed

definition login_wf :: "int \<Rightarrow> rat \<Rightarrow> rat \<Rightarrow> login_limiter \<Rightarrow> bool" where
  "login_wf M W L l \<longleftrightarrow> ll_max_attempts l = M \<and> ll_window_seconds l = W \<and> ll_lockout_seconds l = L \<and>
     distinct (map fst (ll_records l))"

definition login_table :: "login_limiter \<Rightarrow> pystr \<Rightarrow> attempt_record option" where
  "login_table l = map_of (ll_records l)"

lemma map_of_filter_pair:
  "distinct (map fst xs) \<Longrightarrow>
    map_of (filter (\<lambda>(k, v). P v) xs) k = (case map_of xs k of None \<Rightarrow> None | Some v \<Rightarrow> if P v then Some v else None)"
  by (induction xs) (auto simp: map_of_eq_None_iff split: option.splits)

lemma distinct_filter_pair: "distinct (map fst xs) \<Longrightarrow> distinct (map fst (filter P xs))"
  by (simp add: distinct_map_filter)

lemma login_cleanup_wf: "login_wf M W L l \<Longrightarrow> login_wf M W L (login_cleanup t l)"
  by (simp add: login_wf_def login_cleanup_def distinct_filter_pair)

lemma login_cleanup_pruned:
  "login_wf M W L l \<Longrightarrow> login.pruned_table W t (login_table l) (login_table (login_cleanup t l))"
  by (auto simp: login_wf_def login_cleanup_def login_table_def login.pruned_table_def login.pruned_def
      map_of_filter_pair split: option.split)

lemma check_rate_limit_step:
  assumes "login_wf M W L l" and "check_rate_limit tc t ip l = (out, l')"
  shows "login_wf M W L l'"
    and "(out, login_table l') = login.table_step M W L t ip Op_check (login_table (login_cleanup tc l))"
proof -
  note wf = login_cleanup_wf [OF assms(1), of tc]
  have "login_wf M W L l' \<and>
      (out, login_table l') = login.table_step M W L t ip Op_check (login_table (login_cleanup tc l))"
  proof (cases "map_of (ll_records (login_cleanup tc l)) ip")
    case None
    with assms(2) wf show ?thesis
      by (auto simp: check_rate_limit_def Let_def login.table_step_def login_act_def login_table_def fun_upd_idem_iff)
  next
    case (Some r)
    show ?thesis
    proof (cases "at_locked_until r")
      case None
      with Some assms(2) wf show ?thesis
        by (simp add: check_rate_limit_def Let_def login.table_step_def login_act_def login_table_def map_upd_triv
            del: map_of_eq_Some_iff)
    next
      case (Some u)
      with \<open>map_of (ll_records (login_cleanup tc l)) ip = Some r\<close> assms(2) wf show ?thesis
        by (cases "t < u")
          (auto simp: check_rate_limit_def Let_def login.table_step_def login_act_def login_table_def
            login_wf_def delete_conv' distinct_delete fun_upd_idem_iff map_upd_triv simp del: map_of_eq_Some_iff)
    qed
  qed
  then show "login_wf M W L l'"
    and "(out, login_table l') = login.table_step M W L t ip Op_check (login_table (login_cleanup tc l))" by simp_all
qed

lemma record_failure_step:
  assumes "login_wf M W L l"
  shows "login_wf M W L (record_failure t ip l)"
    and "login_table (record_failure t ip l) = snd (login.table_step M W L t ip Op_failure (login_table l))"
  using assms
  by (auto simp: record_failure_def Let_def login.table_step_def login_act_def login_table_def count_failure_def
      login_wf_def update_conv' distinct_update split: option.splits)

lemma record_success_step:
  assumes "login_wf M W L l"
  shows "login_wf M W L (record_success ip l)" "login_wf M W L (reset_login ip l)"
    and "login_table (record_success ip l) = snd (login.table_step M W L t ip Op_clear (login_table l))"
    and "login_table (reset_login ip l) = snd (login.table_step M W L t ip Op_clear (login_table l))"
  using assms
  by (auto simp: record_success_def reset_login_def login.table_step_def login_act_def login_table_def
      login_wf_def delete_conv' distinct_delete)

subsection \<open>The clean-up cannot be observed\<close>

text \<open>A call of the limiter: the two clock readings, the address and the method.\<close>

datatype login_method = Call_check | Call_failure | Call_success | Call_reset

type_synonym login_call = "rat \<times> rat \<times> pystr \<times> login_method"

fun login_op_of :: "login_method \<Rightarrow> login_op" where
  "login_op_of Call_check = Op_check"
| "login_op_of Call_failure = Op_failure"
| "login_op_of Call_success = Op_clear"
| "login_op_of Call_reset = Op_clear"

fun login_call :: "login_call \<Rightarrow> login_limiter \<Rightarrow> throttle_error option \<times> login_limiter" where
  "login_call (tc, t, ip, Call_check) l = check_rate_limit tc t ip l"
| "login_call (tc, t, ip, Call_failure) l = (None, record_failure t ip l)"
| "login_call (tc, t, ip, Call_success) l = (None, record_success ip l)"
| "login_call (tc, t, ip, Call_reset) l = (None, reset_login ip l)"

fun login_calls :: "login_call list \<Rightarrow> login_limiter \<Rightarrow> throttle_error option list" where
  "login_calls [] l = []"
| "login_calls (c # cs) l = fst (login_call c l) # login_calls cs (snd (login_call c l))"

text \<open>The abstract limiter: one record per address, never cleaned up.\<close>

fun login_spec :: "int \<Rightarrow> rat \<Rightarrow> rat \<Rightarrow> login_call list \<Rightarrow> (pystr \<Rightarrow> attempt_record option) \<Rightarrow>
    throttle_error option list" where
  "login_spec M W L [] m = []"
| "login_spec M W L ((tc, t, ip, c) # cs) m =
     (case login_act M W L t (login_op_of c) (m ip) of
        (out, x) \<Rightarrow> out # login_spec M W L cs (m(ip := x)))"

text \<open>The readings of a run, in the order in which they are taken\<close>

definition call_times :: "login_call list \<Rightarrow> rat list" where
  "call_times cs = concat (map (\<lambda>(tc, t, _). [tc, t]) cs)"

lemma call_times_Cons [simp]: "call_times ((tc, t, x) # cs) = tc # t # call_times cs"
  by (simp add: call_times_def)

lemma call_times_Nil [simp]: "call_times [] = []"
  by (simp add: call_times_def)

lemma login_call_step:
  assumes "login_wf M W L l" and "login.pruned_table W tc m (login_table l)" and "tc \<le> t"
  shows "login_wf M W L (snd (login_call (tc, t, ip, c) l))"
    and "fst (login_call (tc, t, ip, c) l) = fst (login.table_step M W L t ip (login_op_of c) m)"
    and "login.pruned_table W t (snd (login.table_step M W L t ip (login_op_of c) m))
      (login_table (snd (login_call (tc, t, ip, c) l)))"
proof -
  have p: "login.pruned_table W t m (login_table l)"
    by (rule login.pruned_table_later [OF assms(2,3)])
  have pc: "login.pruned_table W t m (login_table (login_cleanup tc l))"
    by (rule login.pruned_table_later
        [OF login.pruned_table_trans [OF assms(2) login_cleanup_pruned [OF assms(1)]] assms(3)])
  have "login_wf M W L (snd (login_call (tc, t, ip, c) l)) \<and>
      fst (login_call (tc, t, ip, c) l) = fst (login.table_step M W L t ip (login_op_of c) m) \<and>
      login.pruned_table W t (snd (login.table_step M W L t ip (login_op_of c) m))
        (login_table (snd (login_call (tc, t, ip, c) l)))"
  proof (cases c)
    case Call_check
    obtain out l' where o: "check_rate_limit tc t ip l = (out, l')" by force
    from check_rate_limit_step [OF assms(1) o] login.pruned_table_step [OF pc, where M = M and L = L and k = ip and op = Op_check]
    show ?thesis by (simp add: Call_check o) (metis fst_conv snd_conv)
  next
    case Call_failure
    with record_failure_step [OF assms(1)] login.pruned_table_step [OF p, where M = M and L = L and k = ip and op = Op_failure]
    show ?thesis by (simp add: login.table_step_def login_act_def)
  next
    case Call_success
    with record_success_step [OF assms(1)] login.pruned_table_step [OF p, where M = M and L = L and k = ip and op = Op_clear]
    show ?thesis by (simp add: login.table_step_def login_act_def)
  next
    case Call_reset
    with record_success_step [OF assms(1)] login.pruned_table_step [OF p, where M = M and L = L and k = ip and op = Op_clear]
    show ?thesis by (simp add: login.table_step_def login_act_def)
  qed
  then show "login_wf M W L (snd (login_call (tc, t, ip, c) l))"
    and "fst (login_call (tc, t, ip, c) l) = fst (login.table_step M W L t ip (login_op_of c) m)"
    and "login.pruned_table W t (snd (login.table_step M W L t ip (login_op_of c) m))
      (login_table (snd (login_call (tc, t, ip, c) l)))" by simp_all
qed

lemma login_calls_spec:
  assumes "login_wf M W L l" and "login.pruned_table W t0 m (login_table l)" and "sorted (t0 # call_times cs)"
  shows "login_calls cs l = login_spec M W L cs m"
  using assms
proof (induction cs arbitrary: l m t0)
  case Nil
  then show ?case by simp
next
  case (Cons c cs)
  obtain tc t ip k where c: "c = (tc, t, ip, k)" by (metis surj_pair)
  have "t0 \<le> tc" "tc \<le> t" and s: "sorted (t # call_times cs)" using Cons.prems(3) by (auto simp: c)
  note step = login_call_step [OF Cons.prems(1) login.pruned_table_later [OF Cons.prems(2) \<open>t0 \<le> tc\<close>] \<open>tc \<le> t\<close>,
      of ip k]
  from Cons.IH [OF step(1,3) s] step(2) show ?case
    by (simp add: c login.table_step_def case_prod_beta fun_upd_def)
qed

text \<open>C19. The periodic clean-up of the login limiter is unobservable: whatever calls are made from
  whatever addresses, the answers are those of a limiter that keeps one record per address and
  never drops any, as long as the clock does not run backwards.\<close>

theorem login_limiter_refines_spec:
  assumes "sorted (t0 # call_times cs)"
  shows "login_calls cs (new_login_limiter M W L t0) = login_spec M W L cs (\<lambda>_. None)"
proof (rule login_calls_spec [OF _ _ assms])
  show "login_wf M W L (new_login_limiter M W L t0)" by (simp add: login_wf_def new_login_limiter_def)
  show "login.pruned_table W t0 (\<lambda>_. None) (login_table (new_login_limiter M W L t0))"
    by (simp add: login_table_def new_login_limiter_def)
qed

theorem login_limiter_refines_spec_witness:
  "login_calls [(1, 1, ''a'', Call_failure), (2, 2, ''a'', Call_failure), (90, 90, ''b'', Call_check),
     (91, 91, ''a'', Call_check)] (new_login_limiter 2 10 50 0) =
   login_spec 2 10 50 [(1, 1, ''a'', Call_failure), (2, 2, ''a'', Call_failure), (90, 90, ''b'', Call_check),
     (91, 91, ''a'', Call_check)] (\<lambda>_. None)"
  by (rule login_limiter_refines_spec) simp

subsection \<open>How many passwords can be tried\<close>

text \<open>A login request: its three clock readings, the address and whether the password was right.\<close>

type_synonym login_attempt = "rat \<times> rat \<times> rat \<times> pystr \<times> bool"

fun login_requests :: "login_attempt list \<Rightarrow> login_limiter \<Rightarrow> (rat \<times> pystr \<times> login_outcome) list" where
  "login_requests [] l = []"
| "login_requests ((tc, t, t', ip, authentic) # es) l =
     (t', ip, fst (login_request tc t t' ip authentic l)) #
     login_requests es (snd (login_request tc t t' ip authentic l))"

definition attempt_times :: "login_attempt list \<Rightarrow> rat list" where
  "attempt_times es = concat (map (\<lambda>(tc, t, t', _). [tc, t, t']) es)"

lemma attempt_times_simps [simp]:
  "attempt_times [] = []"
  "attempt_times ((tc, t, t', x) # es) = tc # t # t' # attempt_times es"
  by (simp_all add: attempt_times_def)

text \<open>The wrong passwords tried from an address in an interval, counted in the run's answers\<close>

definition tried_in :: "rat \<Rightarrow> rat \<Rightarrow> pystr \<Rightarrow> (rat \<times> pystr \<times> login_outcome) list \<Rightarrow> int" where
  "tried_in t0 t1 ip rs = int (length (filter (\<lambda>(t, i, out). i = ip \<and> out = Login_failed \<and> t0 \<le> t \<and> t < t1) rs))"

lemma tried_in_Cons: "tried_in t0 t1 ip ((t, i, out) # rs) =
    (if i = ip \<and> out = Login_failed \<and> t0 \<le> t \<and> t < t1 then 1 else 0) + tried_in t0 t1 ip rs"
  by (simp add: tried_in_def)

text \<open>The record of the address after \<open>n\<close> wrong passwords in the interval from \<open>t0\<close> of length \<open>d\<close>\<close>

definition guess_inv :: "int \<Rightarrow> rat \<Rightarrow> rat \<Rightarrow> rat \<Rightarrow> int \<Rightarrow> attempt_record option \<Rightarrow> bool" where
  "guess_inv M t0 d now n x \<longleftrightarrow> (now < t0 \<longrightarrow> n = 0) \<and>
     (case x of
        None \<Rightarrow> n \<le> M - 2
      | Some r \<Rightarrow> 1 \<le> at_count r \<and> at_count r \<le> M \<and> at_window_start r \<le> now \<and>
          (at_locked_until r = None \<longleftrightarrow> at_count r < M) \<and>
          (if at_window_start r \<ge> t0
           then n \<le> M - 2 + at_count r \<and> (\<forall>u. at_locked_until r = Some u \<longrightarrow> t0 + d \<le> u)
           else n + 1 \<le> at_count r \<and> (\<forall>u. at_locked_until r = Some u \<longrightarrow> n = 0 \<or> t0 + d \<le> u)))"

lemma guess_inv_bound: "guess_inv M t0 d now n x \<Longrightarrow> 2 \<le> M \<Longrightarrow> n \<le> 2 * M - 2"
  by (auto simp: guess_inv_def split: option.splits if_splits)

lemma guess_inv_later:
  "guess_inv M t0 d now n x \<Longrightarrow> now \<le> now' \<Longrightarrow> guess_inv M t0 d now' n x"
  by (auto simp: guess_inv_def split: option.splits if_splits)

lemma guess_inv_pruned:
  assumes "guess_inv M t0 d now n x" and "login.pruned W now x y" and "now < t0 + d" "d \<le> W" "2 \<le> M"
  shows "guess_inv M t0 d now n y"
proof (cases "x = y")
  case False
  then obtain r where r: "x = Some r" "y = None" "record_stale W now r"
    using assms(2) by (auto simp: login.pruned_def split: option.splits)
  then have w: "now - at_window_start r > W" by (simp add: record_stale_def)
  then have "\<not> at_window_start r \<ge> t0" using assms(3,4) by linarith
  with assms(1) r have i: "n + 1 \<le> at_count r" "at_count r \<le> M" "at_locked_until r = None \<longleftrightarrow> at_count r < M"
    "\<forall>u. at_locked_until r = Some u \<longrightarrow> n = 0 \<or> t0 + d \<le> u" "now < t0 \<longrightarrow> n = 0"
    by (auto simp: guess_inv_def)
  have "n \<le> M - 2"
  proof (cases "at_locked_until r")
    case None
    with i show ?thesis by auto
  next
    case (Some u)
    with r(3) have "u \<le> now" by (simp add: record_stale_def)
    with Some i(4) assms(3,5) show ?thesis by auto
  qed
  with i(5) r(2) show ?thesis by (simp add: guess_inv_def)
qed (use assms in simp)

text \<open>A failure that the check has let through\<close>

lemma guess_inv_failure:
  assumes "guess_inv M t0 d now n x" and "now \<le> t" "t < t0 + d" "d \<le> W" "d \<le> L" "2 \<le> M"
    and "case x of None \<Rightarrow> True | Some r \<Rightarrow> at_locked_until r = None"
  shows "guess_inv M t0 d t (if t0 \<le> t then n + 1 else n) (Some (count_failure M W L t x))"
proof -
  have early: "t < t0 \<Longrightarrow> n = 0" using assms(1,2) by (auto simp: guess_inv_def)
  have fresh: "n \<le> M - 2 \<Longrightarrow> guess_inv M t0 d t (if t0 \<le> t then n + 1 else n)
      (Some \<lparr>at_count = 1, at_window_start = t, at_locked_until = None\<rparr>)"
    using early assms(6) by (auto simp: guess_inv_def)
  show ?thesis
  proof (cases x)
    case None
    with assms(1) fresh show ?thesis by (simp add: guess_inv_def count_failure_def)
  next
    case (Some r)
    with assms(1,7) have r: "1 \<le> at_count r" "at_count r < M" "at_locked_until r = None"
      "at_window_start r \<le> now"
      "if at_window_start r \<ge> t0 then n \<le> M - 2 + at_count r else n + 1 \<le> at_count r"
      by (auto simp: guess_inv_def split: if_splits)
    show ?thesis
    proof (cases "t - at_window_start r > W")
      case True
      then have "\<not> at_window_start r \<ge> t0" using assms(3,4) by linarith
      with r have "n \<le> M - 2" by auto
      with fresh Some True show ?thesis by (simp add: count_failure_def)
    next
      case False
      then show ?thesis
        using Some r early assms(2,3,5) by (auto simp: guess_inv_def count_failure_def)
    qed
  qed
qed

lemma login_request_guess:
  assumes "login_wf M W L l" and inv: "guess_inv M t0 d now n (login_table l ip)"
    and "now \<le> tc" "tc \<le> t" "t \<le> t'" "t' < t0 + d" "d \<le> W" "d \<le> L" "2 \<le> M"
    and "j = ip \<Longrightarrow> \<not> authentic" and "login_request tc t t' j authentic l = (out, l')"
  shows "login_wf M W L l' \<and>
    guess_inv M t0 d t' (if j = ip \<and> out = Login_failed \<and> t0 \<le> t' then n + 1 else n) (login_table l' ip)"
proof -
  obtain e l1 where c: "check_rate_limit tc t j l = (e, l1)" by force
  note wf1 = check_rate_limit_step(1) [OF assms(1) c]
  let ?m = "login_table (login_cleanup tc l)"
  have pr: "login.pruned W tc (login_table l ip) (?m ip)"
    using login_cleanup_pruned [OF assms(1), of tc] by (simp add: login.pruned_table_def)
  have i1: "guess_inv M t0 d t n (?m ip)"
    using guess_inv_later [OF guess_inv_pruned [OF guess_inv_later [OF inv assms(3)] pr _ assms(7,9)] assms(4)]
      assms(4-6) by linarith
  have step: "(e, login_table l1) = login.table_step M W L t j Op_check ?m"
    using check_rate_limit_step(2) [OF assms(1) c] .
  show ?thesis
  proof (cases "j = ip")
    case False
    then have same: "login_table l1 ip = ?m ip" using step by (simp add: login.table_step_def)
    have "login_table l' ip = ?m ip \<and> login_wf M W L l'"
    proof (cases e)
      case (Some err)
      with assms(11) c same wf1 show ?thesis by (auto simp: login_request_def)
    next
      case None
      with assms(11) c same wf1 False record_success_step(1) [OF wf1]
        record_success_step(3) [OF wf1, where t = 0] record_failure_step [OF wf1]
      show ?thesis by (cases authentic) (auto simp: login_request_def login.table_step_def)
    qed
    with False i1 assms(5) show ?thesis by (auto intro: guess_inv_later)
  next
    case True
    note no = assms(10) [OF True]
    show ?thesis
    proof (cases e)
      case (Some err)
      with step True have "login_table l1 ip = ?m ip"
        by (auto simp: login.table_step_def login_act_def split: option.splits if_splits)
      with Some assms(11) c wf1 i1 assms(5) show ?thesis
        by (auto simp: login_request_def intro: guess_inv_later)
    next
      case None
      have ok: "guess_inv M t0 d t n (login_table l1 ip) \<and>
          (case login_table l1 ip of None \<Rightarrow> True | Some r \<Rightarrow> at_locked_until r = None)"
      proof (cases "?m ip")
        case None
        with step True i1 show ?thesis by (auto simp: login.table_step_def login_act_def)
      next
        case r: (Some r)
        show ?thesis
        proof (cases "at_locked_until r")
          case None
          with r step True i1 show ?thesis by (auto simp: login.table_step_def login_act_def)
        next
          case (Some u)
          with r step True \<open>e = None\<close> have u: "u \<le> t" and l1: "login_table l1 ip = None"
            by (auto simp: login.table_step_def login_act_def split: if_splits)
          with i1 r Some assms(5,6,9) show ?thesis
            by (auto simp: guess_inv_def split: if_splits)
        qed
      qed
      have "out = Login_failed" "l' = record_failure t' j l1"
        using None no assms(11) c by (auto simp: login_request_def)
      moreover have "login_table (record_failure t' j l1) ip = Some (count_failure M W L t' (login_table l1 ip))"
        using record_failure_step(2) [OF wf1] True by (simp add: login.table_step_def login_act_def)
      ultimately show ?thesis
        using guess_inv_failure [OF conjunct1 [OF ok] assms(5,6,7,8,9) conjunct2 [OF ok]]
          record_failure_step(1) [OF wf1] True by auto
    qed
  qed
qed

lemma login_request_wf:
  "login_wf M W L l \<Longrightarrow> login_wf M W L (snd (login_request tc t t' ip a l))"
  by (cases "check_rate_limit tc t ip l")
    (auto simp: login_request_def dest: check_rate_limit_step(1) intro: record_failure_step record_success_step
      split: option.split)

lemma guesses_bounded:
  assumes "login_wf M W L l" and "sorted (now # attempt_times es)"
    and "(t0 + d \<le> now \<and> n \<le> 2 * M - 2) \<or> guess_inv M t0 d now n (login_table l ip)"
    and "\<forall>(tc, t, t', i, authentic) \<in> set es. i = ip \<longrightarrow> \<not> authentic"
    and "d \<le> W" "d \<le> L" "2 \<le> M"
  shows "n + tried_in t0 (t0 + d) ip (login_requests es l) \<le> 2 * M - 2"
  using assms
proof (induction es arbitrary: l now n)
  case Nil
  then show ?case using guess_inv_bound by (auto simp: tried_in_def)
next
  case (Cons e es)
  obtain tc t t' j a where e: "e = (tc, t, t', j, a)" by (metis surj_pair)
  obtain out l' where o: "login_request tc t t' j a l = (out, l')" by force
  have times: "now \<le> tc" "tc \<le> t" "t \<le> t'" and s: "sorted (t' # attempt_times es)"
    using Cons.prems(2) by (auto simp: e)
  have wf: "login_wf M W L l'" using login_request_wf [OF Cons.prems(1), of tc t t' j a] o by simp
  have no: "j = ip \<Longrightarrow> \<not> a" and rest: "\<forall>(tc, t, t', i, authentic) \<in> set es. i = ip \<longrightarrow> \<not> authentic"
    using Cons.prems(4) by (auto simp: e)
  have n: "n \<le> 2 * M - 2" using Cons.prems(3,7) guess_inv_bound by blast
  let ?hit = "j = ip \<and> out = Login_failed \<and> t0 \<le> t' \<and> t' < t0 + d"
  have "(t0 + d \<le> t' \<and> (if ?hit then n + 1 else n) \<le> 2 * M - 2) \<or>
      guess_inv M t0 d t' (if ?hit then n + 1 else n) (login_table l' ip)"
  proof (cases "t' < t0 + d")
    case True
    with Cons.prems(3) times have "guess_inv M t0 d now n (login_table l ip)" by auto
    from login_request_guess [OF Cons.prems(1) this times True Cons.prems(5-7) no o] True show ?thesis by simp
  next
    case False
    with n show ?thesis by simp
  qed
  from Cons.IH [OF wf s this rest Cons.prems(5-7)] show ?case
    unfolding e login_requests.simps o fst_conv snd_conv tried_in_Cons by (cases ?hit) auto
qed



subsection \<open>The API limiter as a table of expiring counters\<close>

text \<open>The only operation: a request of the tier with this limit\<close>

definition api_act :: "rat \<Rightarrow> int \<Rightarrow> window_counter option \<Rightarrow> throttle_error option \<times> window_counter option" where
  "api_act t limit x =
     (case x of
        None \<Rightarrow> (None, Some \<lparr>wc_count = 1, wc_window_start = t\<rparr>)
      | Some c \<Rightarrow>
          if counter_stale t c then (None, Some \<lparr>wc_count = 1, wc_window_start = t\<rparr>)
          else if wc_count c \<ge> limit then (Some RateLimited, Some c)
          else (None, Some (c\<lparr>wc_count := wc_count c + 1\<rparr>)))"

interpretation api: expiring_records api_act counter_stale
  by unfold_locales (auto simp: api_act_def counter_stale_def)

definition api_wf :: "api_limiter \<Rightarrow> bool" where
  "api_wf l \<longleftrightarrow> distinct (map fst (al_counters l)) \<and> (\<forall>(ip, tiers) \<in> set (al_counters l). distinct (map fst tiers))"

definition api_table :: "api_limiter \<Rightarrow> pystr \<times> tier \<Rightarrow> window_counter option" where
  "api_table l p = api_counter l (fst p) (snd p)"

lemma api_wf_tiers: "api_wf l \<Longrightarrow> map_of (al_counters l) ip = Some tiers \<Longrightarrow> distinct (map fst tiers)"
  by (auto simp: api_wf_def dest: map_of_SomeD)

lemma map_of_map_pair: "map_of (map (\<lambda>(k, v). (k, f v)) xs) k = map_option f (map_of xs k)"
  by (induction xs) auto

lemma api_cleanup_wf: "api_wf l \<Longrightarrow> api_wf (api_cleanup t l)"
proof -
  assume wf: "api_wf l"
  let ?f = "\<lambda>(ip, tiers). (ip, filter (\<lambda>(k, c). \<not> counter_stale t c) tiers)"
  have "map fst (map ?f (al_counters l)) = map fst (al_counters l)" by (simp add: case_prod_beta comp_def)
  then have "distinct (map fst (filter (\<lambda>(ip, tiers). tiers \<noteq> []) (map ?f (al_counters l))))"
    using wf by (metis api_wf_def distinct_filter_pair)
  with wf show ?thesis by (auto simp: api_wf_def api_cleanup_def intro: distinct_filter_pair)
qed

lemma api_cleanup_lookup:
  assumes "api_wf l" and "\<not> t - al_last_cleanup l < CLEANUP_INTERVAL_SECONDS"
  shows "api_table (api_cleanup t l) (ip, k) =
    (case api_table l (ip, k) of None \<Rightarrow> None | Some c \<Rightarrow> if counter_stale t c then None else Some c)"
proof -
  let ?g = "filter (\<lambda>(k, c). \<not> counter_stale t c)"
  have d: "distinct (map fst (map (\<lambda>(ip, tiers). (ip, ?g tiers)) (al_counters l)))"
    using assms(1) by (simp add: api_wf_def case_prod_beta comp_def)
  have "map_of (al_counters (api_cleanup t l)) ip = (case map_of (al_counters l) ip of
      None \<Rightarrow> None | Some tiers \<Rightarrow> if ?g tiers \<noteq> [] then Some (?g tiers) else None)"
    using assms(2) map_of_filter_pair [OF d, of "\<lambda>tiers. tiers \<noteq> []" ip]
    by (simp add: api_cleanup_def map_of_map_pair split: option.split)
  moreover have "map_of (?g tiers) k = (case map_of tiers k of None \<Rightarrow> None
      | Some c \<Rightarrow> if counter_stale t c then None else Some c)" if "map_of (al_counters l) ip = Some tiers" for tiers
    using map_of_filter_pair [OF api_wf_tiers [OF assms(1) that], of "\<lambda>c. \<not> counter_stale t c" k]
    by (auto split: option.split)
  ultimately show ?thesis
    by (cases "map_of (al_counters l) ip")
      (auto simp: api_table_def api_counter_def split: option.splits dest: arg_cong [of _ "[]" "\<lambda>xs. map_of xs k"])
qed

lemma api_cleanup_pruned: "api_wf l \<Longrightarrow> api.pruned_table t (api_table l) (api_table (api_cleanup t l))"
proof (cases "t - al_last_cleanup l < CLEANUP_INTERVAL_SECONDS")
  case True
  then show ?thesis by (simp add: api_cleanup_def)
next
  case False
  assume "api_wf l"
  from api_cleanup_lookup [OF this False] show ?thesis
    by (auto simp: api.pruned_table_def api.pruned_def split: option.split)
qed

lemma api_cleanup_limits [simp]:
  "tier_limit (api_cleanup t l) k = tier_limit l k" "al_enabled (api_cleanup t l) = al_enabled l"
  by (cases k; simp add: api_cleanup_def)+

lemma tier_limit_counters [simp]: "tier_limit (l\<lparr>al_counters := x\<rparr>) k = tier_limit l k"
  by (cases k) simp_all

text \<open>Storing the counters of an address\<close>

definition store_tiers :: "pystr \<Rightarrow> (tier, window_counter) dict \<Rightarrow> api_limiter \<Rightarrow> api_limiter" where
  "store_tiers ip tiers l = l\<lparr>al_counters := AList.update ip tiers (al_counters l)\<rparr>"

definition tiers_of :: "pystr \<Rightarrow> api_limiter \<Rightarrow> (tier, window_counter) dict" where
  "tiers_of ip l = or_else (map_of (al_counters l) ip) []"

lemma set_update_values: "p \<in> set (AList.update k v d) \<Longrightarrow> p \<in> set d \<or> p = (k, v)"
  by (induction d) (auto split: if_splits)

lemma store_tiers_wf: "api_wf l \<Longrightarrow> distinct (map fst tiers) \<Longrightarrow> api_wf (store_tiers ip tiers l)"
  by (auto simp: api_wf_def store_tiers_def distinct_update dest!: set_update_values)

lemma store_tiers_table:
  "api_table (store_tiers ip tiers l) = (\<lambda>p. if fst p = ip then map_of tiers (snd p) else api_table l p)"
  by (rule ext) (simp add: api_table_def api_counter_def store_tiers_def dict_get_put)

lemma tiers_of_wf: "api_wf l \<Longrightarrow> distinct (map fst (tiers_of ip l))"
  using api_wf_tiers by (cases "map_of (al_counters l) ip") (auto simp: tiers_of_def)

lemma tiers_of_table: "map_of (tiers_of ip l) k = api_table l (ip, k)"
  by (simp add: tiers_of_def api_table_def api_counter_def)

lemma api_check_step:
  assumes "api_wf l" and "al_enabled l" and "classify path http_method \<noteq> EXEMPT"
    and "api_check tc t ip path http_method l = (out, l')"
  shows "api_wf l' \<and> al_enabled l' \<and> (\<forall>k. tier_limit l' k = tier_limit l k) \<and>
    (out, api_table l') = api.table_step t (ip, classify path http_method)
      (tier_limit l (classify path http_method)) (api_table (api_cleanup tc l))"
proof -
  let ?k = "classify path http_method" and ?l1 = "api_cleanup tc l"
  note wf1 = api_cleanup_wf [OF assms(1), of tc]
  let ?ts = "tiers_of ip ?l1"
  have d: "distinct (map fst ?ts)" by (rule tiers_of_wf [OF wf1])
  have upd: "api_wf (store_tiers ip (AList.update ?k c ?ts) ?l1) \<and>
      api_table (store_tiers ip (AList.update ?k c ?ts) ?l1) = (api_table ?l1)((ip, ?k) := Some c)" for c
    using store_tiers_wf [OF wf1 distinct_update [OF d]]
    by (auto simp: store_tiers_table dict_get_put tiers_of_table fun_eq_iff)
  have same: "api_wf (store_tiers ip ?ts ?l1) \<and> api_table (store_tiers ip ?ts ?l1) = api_table ?l1"
    using store_tiers_wf [OF wf1 d] by (auto simp: store_tiers_table tiers_of_table fun_eq_iff)
  have c: "(out, l') = (case map_of ?ts ?k of
      None \<Rightarrow> (None, store_tiers ip (AList.update ?k \<lparr>wc_count = 1, wc_window_start = t\<rparr> ?ts) ?l1)
    | Some c \<Rightarrow>
        if counter_stale t c then (None, store_tiers ip (AList.update ?k \<lparr>wc_count = 1, wc_window_start = t\<rparr> ?ts) ?l1)
        else if wc_count c \<ge> tier_limit ?l1 ?k then (Some RateLimited, store_tiers ip ?ts ?l1)
        else (None, store_tiers ip (AList.update ?k (c\<lparr>wc_count := wc_count c + 1\<rparr>) ?ts) ?l1))"
    using assms(2,3) unfolding assms(4) [symmetric] api_check_def Let_def store_tiers_def tiers_of_def
    by simp
  have lim: "al_enabled (store_tiers ip x ?l1) \<and> (\<forall>k. tier_limit (store_tiers ip x ?l1) k = tier_limit l k)" for x
    using assms(2) by (simp add: store_tiers_def)
  show ?thesis
  proof (cases "api_table ?l1 (ip, ?k)")
    case None
    with c upd lim show ?thesis by (simp add: tiers_of_table api.table_step_def api_act_def)
  next
    case (Some w)
    with c upd lim same show ?thesis
      by (auto simp: tiers_of_table api.table_step_def api_act_def map_upd_triv)
  qed
qed

subsection \<open>How many requests get through\<close>

text \<open>A request: the two clock readings, the address, the path and the method.\<close>

type_synonym api_request = "rat \<times> rat \<times> pystr \<times> pystr \<times> pystr"

fun api_requests :: "api_request list \<Rightarrow> api_limiter \<Rightarrow> (rat \<times> pystr \<times> tier \<times> throttle_error option) list" where
  "api_requests [] l = []"
| "api_requests ((tc, t, ip, path, http_method) # es) l =
     (case api_check tc t ip path http_method l of
        (out, l') \<Rightarrow> (t, ip, classify path http_method, out) # api_requests es l')"

definition request_times :: "api_request list \<Rightarrow> rat list" where
  "request_times es = concat (map (\<lambda>(tc, t, _). [tc, t]) es)"

lemma request_times_simps [simp]:
  "request_times [] = []" "request_times ((tc, t, x) # es) = tc # t # request_times es"
  by (simp_all add: request_times_def)

definition admitted_in :: "rat \<Rightarrow> rat \<Rightarrow> pystr \<Rightarrow> tier \<Rightarrow>
    (rat \<times> pystr \<times> tier \<times> throttle_error option) list \<Rightarrow> int" where
  "admitted_in t0 t1 ip k rs =
     int (length (filter (\<lambda>(t, i, j, out). i = ip \<and> j = k \<and> out = None \<and> t0 \<le> t \<and> t < t1) rs))"

lemma admitted_in_Cons: "admitted_in t0 t1 ip k ((t, i, j, out) # rs) =
    (if i = ip \<and> j = k \<and> out = None \<and> t0 \<le> t \<and> t < t1 then 1 else 0) + admitted_in t0 t1 ip k rs"
  by (simp add: admitted_in_def)

definition window_inv :: "int \<Rightarrow> rat \<Rightarrow> rat \<Rightarrow> int \<Rightarrow> window_counter option \<Rightarrow> bool" where
  "window_inv limit t0 now n x \<longleftrightarrow> (now < t0 \<longrightarrow> n = 0) \<and>
     (case x of
        None \<Rightarrow> n \<le> limit - 1
      | Some c \<Rightarrow> 1 \<le> wc_count c \<and> wc_count c \<le> limit \<and> wc_window_start c \<le> now \<and>
          (if wc_window_start c \<ge> t0 then n \<le> limit - 1 + wc_count c else n + 1 \<le> wc_count c))"

lemma window_inv_bound: "window_inv limit t0 now n x \<Longrightarrow> 1 \<le> limit \<Longrightarrow> n \<le> 2 * limit - 1"
  by (auto simp: window_inv_def split: option.splits if_splits)

lemma window_inv_later: "window_inv limit t0 now n x \<Longrightarrow> now \<le> now' \<Longrightarrow> window_inv limit t0 now' n x"
  by (auto simp: window_inv_def split: option.splits if_splits)

lemma window_inv_stale:
  assumes "window_inv limit t0 now n (Some c)" and "counter_stale now c" and "now < t0 + WINDOW_SECONDS"
  shows "n \<le> limit - 1"
proof -
  have "\<not> wc_window_start c \<ge> t0" using assms(2,3) by (simp add: counter_stale_def)
  with assms(1) show ?thesis by (auto simp: window_inv_def)
qed

lemma window_inv_pruned:
  assumes "window_inv limit t0 now n x" and "api.pruned now x y" and "now < t0 + WINDOW_SECONDS"
  shows "window_inv limit t0 now n y"
proof (cases "x = y")
  case False
  then obtain c where "x = Some c" "y = None" "counter_stale now c"
    using assms(2) by (auto simp: api.pruned_def split: option.splits)
  with window_inv_stale assms(1,3) show ?thesis by (auto simp: window_inv_def)
qed (use assms in simp)

lemma window_inv_act:
  assumes "window_inv limit t0 now n x" and "now \<le> t" and "t < t0 + WINDOW_SECONDS" and "1 \<le> limit"
    and "api_act t limit x = (out, y)"
  shows "window_inv limit t0 t (if out = None \<and> t0 \<le> t then n + 1 else n) y"
proof -
  note i = window_inv_later [OF assms(1,2)]
  have fresh: "n \<le> limit - 1 \<Longrightarrow>
      window_inv limit t0 t (if t0 \<le> t then n + 1 else n) (Some \<lparr>wc_count = 1, wc_window_start = t\<rparr>)"
    using i assms(4) by (auto simp: window_inv_def)
  show ?thesis
  proof (cases x)
    case None
    with assms(5) i fresh show ?thesis by (auto simp: api_act_def window_inv_def)
  next
    case (Some c)
    show ?thesis
    proof (cases "counter_stale t c")
      case True
      with window_inv_stale [OF i [unfolded Some] True assms(3)] fresh Some assms(5)
      show ?thesis by (auto simp: api_act_def)
    next
      case False
      with Some assms(5) i show ?thesis
        by (auto simp: api_act_def window_inv_def split: if_splits)
    qed
  qed
qed

lemma requests_bounded:
  assumes "api_wf l" "al_enabled l" and "sorted (now # request_times es)" and "k \<noteq> EXEMPT"
    and "(t0 + WINDOW_SECONDS \<le> now \<and> n \<le> 2 * tier_limit l k - 1) \<or> window_inv (tier_limit l k) t0 now n (api_table l (ip, k))"
    and "1 \<le> tier_limit l k"
  shows "n + admitted_in t0 (t0 + WINDOW_SECONDS) ip k (api_requests es l) \<le> 2 * tier_limit l k - 1"
  using assms
proof (induction es arbitrary: l now n)
  case Nil
  then show ?case using window_inv_bound by (auto simp: admitted_in_def)
next
  case (Cons e es)
  obtain tc t j path me where e: "e = (tc, t, j, path, me)" by (metis surj_pair)
  obtain out l' where o: "api_check tc t j path me l = (out, l')" by force
  let ?k = "classify path me" and ?lim = "tier_limit l k"
  have times: "now \<le> tc" "tc \<le> t" and s: "sorted (t # request_times es)" using Cons.prems(3) by (auto simp: e)
  let ?hit = "j = ip \<and> ?k = k \<and> out = None \<and> t0 \<le> t \<and> t < t0 + WINDOW_SECONDS"
  have n: "n \<le> 2 * ?lim - 1" using Cons.prems(5,6) window_inv_bound by blast
  have "api_wf l' \<and> al_enabled l' \<and> tier_limit l' k = ?lim \<and>
      ((t0 + WINDOW_SECONDS \<le> t \<and> (if ?hit then n + 1 else n) \<le> 2 * ?lim - 1) \<or>
       window_inv ?lim t0 t (if ?hit then n + 1 else n) (api_table l' (ip, k)))"
  proof (cases "?k = EXEMPT")
    case True
    then have "l' = l" using o Cons.prems(2) by (simp add: api_check_def)
    moreover have "\<not> ?hit" using True Cons.prems(4) by auto
    moreover have "t0 + WINDOW_SECONDS \<le> t \<or> window_inv ?lim t0 t n (api_table l (ip, k))"
      using Cons.prems(5) times by (auto intro: window_inv_later)
    ultimately show ?thesis using Cons.prems(1,2) n by auto
  next
    case False
    note step = api_check_step [OF Cons.prems(1,2) False o]
    let ?m = "api_table (api_cleanup tc l)"
    have "t0 + WINDOW_SECONDS \<le> t \<or> window_inv ?lim t0 t (if ?hit then n + 1 else n) (api_table l' (ip, k))"
    proof (cases "t < t0 + WINDOW_SECONDS")
      case True
      with Cons.prems(5) times have "window_inv ?lim t0 tc n (api_table l (ip, k))"
        by (auto intro: window_inv_later)
      moreover have "api.pruned tc (api_table l (ip, k)) (?m (ip, k))"
        using api_cleanup_pruned [OF Cons.prems(1), of tc] by (simp add: api.pruned_table_def)
      ultimately have i: "window_inv ?lim t0 tc n (?m (ip, k))"
        using window_inv_pruned True times by (meson le_less_trans)
      show ?thesis
      proof (cases "j = ip \<and> ?k = k")
        case at_key: True
        then have "api_act t ?lim (?m (ip, k)) = (out, api_table l' (ip, k))"
          using step by (auto simp: api.table_step_def)
        from window_inv_act [OF i times(2) True Cons.prems(6) this] at_key True show ?thesis by auto
      next
        case False
        then have "api_table l' (ip, k) = ?m (ip, k)" using step by (auto simp: api.table_step_def)
        with i times(2) False show ?thesis by (auto intro: window_inv_later)
      qed
    qed auto
    with step n show ?thesis by auto
  qed
  with Cons.IH [of l' t "if ?hit then n + 1 else n"] s Cons.prems(4,6)
  have "(if ?hit then n + 1 else n) + admitted_in t0 (t0 + WINDOW_SECONDS) ip k (api_requests es l') \<le> 2 * ?lim - 1"
    by simp
  then show ?case unfolding e api_requests.simps o prod.case admitted_in_Cons by (cases ?hit) auto
qed

definition new_api_limiter :: "int \<Rightarrow> int \<Rightarrow> int \<Rightarrow> rat \<Rightarrow> api_limiter" where
  "new_api_limiter tier1 tier2 tier3 t = \<lparr>al_tier1 = tier1, al_tier2 = tier2, al_tier3 = tier3,
     al_enabled = True, al_counters = [], al_last_cleanup = t\<rparr>"

text \<open>The API limiter admits at most (2 * limit - 1) requests of a tier from an address in any 60
  seconds, whatever else is requested, when the limit is at least one. The bound is reached: the
  window starts anew with the first request after it, it does not slide.\<close>

theorem api_requests_bounded:
  assumes "sorted (t1 # request_times es)" and "k \<noteq> EXEMPT" and "1 \<le> tier_limit (new_api_limiter a b c t1) k"
  shows "admitted_in t0 (t0 + 60) ip k (api_requests es (new_api_limiter a b c t1)) \<le>
    2 * tier_limit (new_api_limiter a b c t1) k - 1"
proof -
  let ?l = "new_api_limiter a b c t1"
  have "api_wf ?l" "al_enabled ?l" by (simp_all add: api_wf_def new_api_limiter_def)
  moreover have "window_inv (tier_limit ?l k) t0 t1 0 (api_table ?l (ip, k))"
    using assms(3) by (simp add: window_inv_def api_table_def api_counter_def new_api_limiter_def)
  ultimately show ?thesis
    using requests_bounded [of ?l t1 es k t0 0 ip] assms by (simp add: WINDOW_SECONDS_def)
qed

theorem api_requests_bounded_witness:
  "admitted_in 59 119 ''a'' TIER3 (api_requests [(0, 0, ''a'', ''/api/x'', ''GET''), (59, 59, ''a'', ''/api/x'', ''GET'')]
     (new_api_limiter 10 30 120 0)) \<le> 239"
  using api_requests_bounded [of 0 "[(0, 0, ''a'', ''/api/x'', ''GET''), (59, 59, ''a'', ''/api/x'', ''GET'')]"
      TIER3 10 30 120 59 "''a''"]
  by (simp add: new_api_limiter_def)

lemma get_remaining_table:
  "classify path me \<noteq> EXEMPT \<Longrightarrow> get_remaining t ip path me l =
     (case api_table l (ip, classify path me) of
        None \<Rightarrow> tier_limit l (classify path me)
      | Some c \<Rightarrow> if counter_stale t c then tier_limit l (classify path me)
          else max 0 (tier_limit l (classify path me) - wc_count c))"
  by (auto simp: get_remaining_def api_table_def api_counter_def Let_def split: option.split)

text \<open>The reported remaining requests are exact: a request is admitted just when at least one
  remains, and each admitted request takes one.\<close>

theorem api_remaining_exact:
  assumes "api_wf l" and "al_enabled l" and "classify path me \<noteq> EXEMPT"
    and "1 \<le> tier_limit l (classify path me)" and "tc \<le> t"
  shows "case api_check tc t ip path me l of (out, l') \<Rightarrow>
    (out = None) = (0 < get_remaining t ip path me l) \<and>
    get_remaining t ip path me l' = get_remaining t ip path me l - (if out = None then 1 else 0)"
proof -
  obtain out l' where o: "api_check tc t ip path me l = (out, l')" by force
  let ?k = "classify path me" and ?m = "api_table (api_cleanup tc l)"
  note step = api_check_step [OF assms(1-3) o]
  then have a: "api_act t (tier_limit l ?k) (?m (ip, ?k)) = (out, api_table l' (ip, ?k))"
    by (auto simp: api.table_step_def)
  have "api.pruned t (api_table l (ip, ?k)) (?m (ip, ?k))"
    using api.pruned_later [OF _ assms(5)] api_cleanup_pruned [OF assms(1), of tc]
    by (simp add: api.pruned_table_def)
  then have r: "get_remaining t ip path me l = (case ?m (ip, ?k) of None \<Rightarrow> tier_limit l ?k
      | Some c \<Rightarrow> if counter_stale t c then tier_limit l ?k else max 0 (tier_limit l ?k - wc_count c))"
    by (auto simp: get_remaining_table [OF assms(3)] api.pruned_def split: option.splits)
  have r': "get_remaining t ip path me l' = (case api_table l' (ip, ?k) of None \<Rightarrow> tier_limit l ?k
      | Some c \<Rightarrow> if counter_stale t c then tier_limit l ?k else max 0 (tier_limit l ?k - wc_count c))"
    using step by (simp add: get_remaining_table [OF assms(3)] split: option.split)
  have now: "\<not> counter_stale t \<lparr>wc_count = 1, wc_window_start = t\<rparr>"
    by (simp add: counter_stale_def WINDOW_SECONDS_def)
  have up: "counter_stale t (c\<lparr>wc_count := n\<rparr>) = counter_stale t c" for c n by (simp add: counter_stale_def)
  show ?thesis
    using a [symmetric] assms(4) by (auto simp: o r r' api_act_def now up split: option.splits if_splits)
qed

theorem api_remaining_exact_witness:
  "case api_check 0 0 ''a'' ''/api/x'' ''GET'' (new_api_limiter 10 30 120 0) of (out, l') \<Rightarrow>
    (out = None) = (0 < get_remaining 0 ''a'' ''/api/x'' ''GET'' (new_api_limiter 10 30 120 0)) \<and>
    get_remaining 0 ''a'' ''/api/x'' ''GET'' l' =
      get_remaining 0 ''a'' ''/api/x'' ''GET'' (new_api_limiter 10 30 120 0) - (if out = None then 1 else 0)"
proof (rule api_remaining_exact)
  have k: "classify ''/api/x'' ''GET'' = TIER3" by code_simp
  show "classify ''/api/x'' ''GET'' \<noteq> EXEMPT" by (simp add: k)
  show "1 \<le> tier_limit (new_api_limiter 10 30 120 0) (classify ''/api/x'' ''GET'')"
    by (simp add: k new_api_limiter_def)
qed (simp_all add: api_wf_def new_api_limiter_def)

text \<open>The bound is attained: with a limit of two, three requests get through within two seconds.\<close>

lemma api_window_does_not_slide:
  "admitted_in 59 61 ''a'' TIER3 (api_requests
     [(0, 0, ''a'', ''/api/x'', ''GET''), (59, 59, ''a'', ''/api/x'', ''GET''),
      (60, 60, ''a'', ''/api/x'', ''GET''), (60, 60, ''a'', ''/api/x'', ''GET'')]
     (new_api_limiter 2 2 2 0)) = 3"
  by code_simp

subsection \<open>The breaker fails fast and recovers\<close>

datatype breaker_event = Ev_enter rat | Ev_leave | Ev_failure rat | Ev_success

fun breaker_step :: "breaker_event \<Rightarrow> circuit_breaker \<Rightarrow> throttle_error option \<times> circuit_breaker" where
  "breaker_step (Ev_enter t) b = enter_slot t b"
| "breaker_step Ev_leave b = (None, leave_slot b)"
| "breaker_step (Ev_failure t) b = (None, breaker_failure t b)"
| "breaker_step Ev_success b = (None, breaker_success b)"

fun breaker_run :: "breaker_event list \<Rightarrow> circuit_breaker \<Rightarrow> (breaker_event \<times> throttle_error option) list \<times> circuit_breaker" where
  "breaker_run [] b = ([], b)"
| "breaker_run (e # es) b =
     (case breaker_step e b of (out, b1) \<Rightarrow> (case breaker_run es b1 of (outs, b2) \<Rightarrow> ((e, out) # outs, b2)))"

fun event_time :: "breaker_event \<Rightarrow> rat option" where
  "event_time (Ev_enter t) = Some t"
| "event_time (Ev_failure t) = Some t"
| "event_time _ = None"

definition refused_fast :: "breaker_event \<times> throttle_error option \<Rightarrow> bool" where
  "refused_fast p = (case p of (Ev_enter t, out) \<Rightarrow> out = Some CircuitOpen | _ \<Rightarrow> True)"

definition opened_since :: "rat \<Rightarrow> rat \<Rightarrow> circuit_breaker \<Rightarrow> bool" where
  "opened_since t0 c b \<longleftrightarrow> cb_state b = Breaker_open \<and> cb_cooldown_seconds b = c \<and>
     cb_failures b \<ge> cb_failure_threshold b \<and> (\<exists>t \<ge> t0. cb_opened_at b = Some t)"

lemma opened_since_step:
  assumes "opened_since t0 c b" and "e \<noteq> Ev_success"
    and "case event_time e of None \<Rightarrow> True | Some t \<Rightarrow> t0 \<le> t \<and> t < t0 + c"
    and "breaker_step e b = (out, b')"
  shows "opened_since t0 c b' \<and> refused_fast (e, out)"
  using assms
  by (cases e) (auto simp: opened_since_def refused_fast_def enter_slot_def leave_slot_def breaker_failure_def Let_def
      split: if_splits)

lemma opened_since_run:
  "opened_since t0 c b \<Longrightarrow> Ev_success \<notin> set es \<Longrightarrow>
    \<forall>e \<in> set es. case event_time e of None \<Rightarrow> True | Some t \<Rightarrow> t0 \<le> t \<and> t < t0 + c \<Longrightarrow>
    breaker_run es b = (outs, b') \<Longrightarrow> list_all refused_fast outs"
proof (induction es arbitrary: b outs b')
  case Nil
  then show ?case by simp
next
  case (Cons e es)
  obtain out b1 where s: "breaker_step e b = (out, b1)" by force
  obtain os b2 where r: "breaker_run es b1 = (os, b2)" by force
  have "opened_since t0 c b1 \<and> refused_fast (e, out)"
    by (rule opened_since_step [OF Cons.prems(1) _ _ s]) (use Cons.prems(2,3) in auto)
  with Cons.IH [OF _ _ _ r] Cons.prems s r show ?case by auto
qed

text \<open>C21. A resolver that keeps failing is left alone: once the failures in a row reach the threshold,
  every request in the cool-down that follows is refused at once, whatever requests already
  under way do, unless one of them succeeds; and after the cool-down the next request is let
  through as soon as none is under way.\<close>

theorem breaker_protects:
  assumes "cb_failure_threshold b \<le> cb_failures b + 1" and "0 < cb_max_concurrency b"
    and "breaker_run es (breaker_failure t0 b) = (outs, b')" and "Ev_success \<notin> set es"
    and "\<forall>e \<in> set es. case event_time e of None \<Rightarrow> True | Some t \<Rightarrow> t0 \<le> t \<and> t < t0 + cb_cooldown_seconds b"
  shows "list_all refused_fast outs \<and>
    (fst (enter_slot (t0 + cb_cooldown_seconds b) (breaker_failure t0 b)) = None) = (cb_active b \<le> 0)"
proof -
  have "opened_since t0 (cb_cooldown_seconds b) (breaker_failure t0 b)"
    using assms(1) by (simp add: opened_since_def breaker_failure_def Let_def)
  from opened_since_run [OF this assms(4,5,3)] show ?thesis
    using assms(1,2) by (auto simp: enter_slot_def breaker_failure_def Let_def)
qed

definition sample_breaker :: circuit_breaker where
  "sample_breaker = \<lparr>cb_failure_threshold = 3, cb_cooldown_seconds = 60, cb_max_concurrency = 1, cb_active = 0,
     cb_failures = 2, cb_state = Breaker_closed, cb_opened_at = None\<rparr>"

theorem breaker_protects_witness:
  "list_all refused_fast (fst (breaker_run [Ev_enter 30, Ev_failure 40, Ev_enter 59] (breaker_failure 10 sample_breaker)))"
  using breaker_protects [of sample_breaker "[Ev_enter 30, Ev_failure 40, Ev_enter 59]" 10]
  by (simp add: sample_breaker_def case_prod_beta)

end
