(* ===== verification/Reader_State.thy ===== *)
theory Reader_State
  imports Prelude
begin

text \<open>
  The private reading state of a user and an issue
  (\<open>src/src/pullbox/services/reader_state_service.py\<close>, the row of \<open>src/src/pullbox/models/reader.py\<close>):
  resume position, completion and the want-to-read mark. Every command is one statement, an
  insert that turns into a conditional update when the row exists; the row of the one user and
  issue a command names is an option, and \<open>now\<close> is the command's reading of the clock. The row a
  command has read before it writes (\<open>before\<close>) is an argument of its own.
\<close>

record reader_row =
  rd_last_page_index :: "int option"
  rd_content_revision :: "pystr option"
  rd_page_count :: "int option"
  rd_progress_updated_at :: "timestamp option"
  rd_last_opened_at :: "timestamp option"
  rd_completed_at :: "timestamp option"
  rd_completion_updated_at :: "timestamp option"
  rd_want_to_read :: bool
  rd_want_to_read_updated_at :: "timestamp option"
  rd_state_version :: int
  rd_updated_at :: timestamp

text \<open>The column values an insert does not give\<close>

definition default_row :: "timestamp \<Rightarrow> reader_row" where
  "default_row now =
     \<lparr>rd_last_page_index = None, rd_content_revision = None, rd_page_count = None,
      rd_progress_updated_at = None, rd_last_opened_at = None, rd_completed_at = None,
      rd_completion_updated_at = None, rd_want_to_read = False, rd_want_to_read_updated_at = None,
      rd_state_version = 1, rd_updated_at = now\<rparr>"

subsection \<open>Snapshots\<close>

definition calculate_reader_position_percent :: "int option \<Rightarrow> int option \<Rightarrow> int" where
  "calculate_reader_position_percent last_page_index page_count =
     (case (last_page_index, page_count) of
        (Some i, Some n) \<Rightarrow>
          if i < 0 \<or> n \<le> 0 then 0 else max 1 (min 100 (((i + 1) * 100) div n))
      | _ \<Rightarrow> 0)"

definition has_progress :: "reader_row \<Rightarrow> bool" where
  "has_progress r \<longleftrightarrow> rd_last_page_index r \<noteq> None \<and> rd_content_revision r \<noteq> None \<and> rd_page_count r \<noteq> None"

definition is_completed :: "reader_row \<Rightarrow> bool" where
  "is_completed r \<longleftrightarrow> rd_completed_at r \<noteq> None"

definition is_explicitly_unread :: "reader_row \<Rightarrow> bool" where
  "is_explicitly_unread r \<longleftrightarrow> rd_completed_at r = None \<and> rd_completion_updated_at r \<noteq> None"

definition position_percent :: "reader_row \<Rightarrow> int" where
  "position_percent r = (if \<not> has_progress r then 0
     else calculate_reader_position_percent (rd_last_page_index r) (rd_page_count r))"

definition is_continue_candidate :: "reader_row \<Rightarrow> bool" where
  "is_continue_candidate r \<longleftrightarrow> has_progress r \<and> \<not> is_completed r \<and>
     (case (rd_last_page_index r, rd_page_count r) of (Some i, Some n) \<Rightarrow> i < n - 1 | _ \<Rightarrow> False)"

subsection \<open>Events and transitions\<close>

datatype completion_origin = Origin_AUTOMATIC | Origin_MANUAL | Origin_REREAD

text \<open>\<open>COMPLETION_CHANGED\<close> with version, time, completed and origin, and \<open>WANT_TO_READ_CHANGED\<close> with
  version, time and mark\<close>

datatype reader_event =
    Completion_changed int timestamp bool completion_origin
  | Want_to_read_changed int timestamp bool

record reader_transition =
  rt_before :: "reader_row option"
  rt_after :: reader_row
  rt_changed :: bool
  rt_events :: "reader_event list"

text \<open>The insert, the update and its condition: what \<open>_execute_state_command\<close> returns.\<close>

definition upsert :: "reader_row \<Rightarrow> (reader_row \<Rightarrow> bool) \<Rightarrow> (reader_row \<Rightarrow> reader_row) \<Rightarrow>
    reader_row option \<Rightarrow> reader_row \<times> bool" where
  "upsert inserted condition update row =
     (case row of
        None \<Rightarrow> (inserted, True)
      | Some r \<Rightarrow> if condition r then (update r, True) else (r, False))"

text \<open>The assignments of the two updates\<close>

definition complete_set :: "timestamp \<Rightarrow> reader_row \<Rightarrow> reader_row" where
  "complete_set now r = r\<lparr>
     rd_completed_at := (if rd_completed_at r = None then Some now else rd_completed_at r),
     rd_completion_updated_at := (if rd_completed_at r = None then Some now else rd_completion_updated_at r),
     rd_want_to_read := False,
     rd_want_to_read_updated_at := (if rd_want_to_read r then Some now else rd_want_to_read_updated_at r),
     rd_state_version := rd_state_version r + 1, rd_updated_at := now\<rparr>"

definition uncomplete_set :: "timestamp \<Rightarrow> reader_row \<Rightarrow> reader_row" where
  "uncomplete_set now r = r\<lparr>rd_completed_at := None, rd_completion_updated_at := Some now,
     rd_state_version := rd_state_version r + 1, rd_updated_at := now\<rparr>"

definition set_reader_completion ::
  "timestamp \<Rightarrow> bool \<Rightarrow> reader_row option \<Rightarrow> reader_row option \<Rightarrow> reader_transition" where
  "set_reader_completion now completed before row =
     (let inserted = (default_row now)\<lparr>rd_completed_at := (if completed then Some now else None),
            rd_completion_updated_at := Some now\<rparr>;
          (after, changed) =
            (if completed
             then upsert inserted (\<lambda>r. rd_completed_at r = None \<or> rd_want_to_read r) (complete_set now) row
             else upsert inserted (\<lambda>r. rd_completed_at r \<noteq> None \<or> rd_completion_updated_at r = None)
                    (uncomplete_set now) row)
      in \<lparr>rt_before = before, rt_after = after, rt_changed = changed,
          rt_events =
            (if changed \<and> rd_completion_updated_at after = Some now
             then [Completion_changed (rd_state_version after) now completed Origin_MANUAL] else []) @
            (if changed \<and> rd_want_to_read_updated_at after = Some now
             then [Want_to_read_changed (rd_state_version after) now False] else [])\<rparr>)"

definition set_want_to_read ::
  "timestamp \<Rightarrow> bool \<Rightarrow> reader_row option \<Rightarrow> reader_row option \<Rightarrow> reader_transition" where
  "set_want_to_read now enabled before row =
     (let (after, changed) =
            upsert ((default_row now)\<lparr>rd_want_to_read := enabled, rd_want_to_read_updated_at := Some now\<rparr>)
              (\<lambda>r. rd_want_to_read r \<noteq> enabled \<or> rd_want_to_read_updated_at r = None)
              (\<lambda>r. r\<lparr>rd_want_to_read := enabled, rd_want_to_read_updated_at := Some now,
                 rd_state_version := rd_state_version r + 1, rd_updated_at := now\<rparr>) row
      in \<lparr>rt_before = before, rt_after = after, rt_changed = changed,
          rt_events = (if changed then [Want_to_read_changed (rd_state_version after) now enabled] else [])\<rparr>)"

record progress_update =
  pu_revision :: pystr
  pu_page_index :: int
  pu_page_count :: int
  pu_completion_candidate :: bool
  pu_expected_revision :: pystr
  pu_expected_page_count :: int
  pu_reread_started :: bool

datatype reader_error =
  Stale_revision | Page_count_mismatch | Page_out_of_range | Completion_not_final | Reread_not_first_page

definition validate_update :: "progress_update \<Rightarrow> (reader_error, unit) result" where
  "validate_update u =
     (if pu_revision u \<noteq> pu_expected_revision u then Inl Stale_revision
      else if pu_page_count u \<noteq> pu_expected_page_count u \<or> pu_page_count u \<le> 0 then Inl Page_count_mismatch
      else if pu_page_index u < 0 \<or> pu_page_index u \<ge> pu_page_count u then Inl Page_out_of_range
      else if pu_completion_candidate u \<and> pu_page_index u \<noteq> pu_page_count u - 1 then Inl Completion_not_final
      else if pu_reread_started u \<and> (pu_page_index u \<noteq> 0 \<or> pu_completion_candidate u)
      then Inl Reread_not_first_page
      else Inr ())"

definition progress_row :: "timestamp \<Rightarrow> progress_update \<Rightarrow> reader_row \<Rightarrow> reader_row" where
  "progress_row now u r = r\<lparr>rd_last_page_index := Some (pu_page_index u),
     rd_content_revision := Some (pu_revision u), rd_page_count := Some (pu_page_count u),
     rd_progress_updated_at := Some now, rd_last_opened_at := Some now, rd_updated_at := now\<rparr>"

text \<open>The values of the insert, the assignments of the update, and the events; \<open>clear\<close> is
  \<open>clear_completion\<close>.\<close>

definition progress_insert :: "timestamp \<Rightarrow> progress_update \<Rightarrow> bool \<Rightarrow> reader_row" where
  "progress_insert now u clear = progress_row now u ((default_row now)\<lparr>
     rd_completed_at := (if pu_completion_candidate u then Some now else None),
     rd_completion_updated_at := (if pu_completion_candidate u \<or> clear then Some now else None)\<rparr>)"

definition progress_set :: "timestamp \<Rightarrow> progress_update \<Rightarrow> bool \<Rightarrow> reader_row \<Rightarrow> reader_row" where
  "progress_set now u clear r =
     (let excluded = progress_insert now u clear;
          completes = (rd_completed_at excluded \<noteq> None \<and> rd_completed_at r = None)
      in progress_row now u (r\<lparr>
           rd_completed_at := (if clear then None
             else if completes then rd_completed_at excluded else rd_completed_at r),
           rd_completion_updated_at := (if clear then rd_completion_updated_at excluded
             else if completes then rd_completion_updated_at excluded else rd_completion_updated_at r),
           rd_want_to_read := (if rd_completed_at excluded \<noteq> None then False else rd_want_to_read r),
           rd_want_to_read_updated_at :=
             (if rd_completed_at excluded \<noteq> None \<and> rd_want_to_read r then Some now
              else rd_want_to_read_updated_at r),
           rd_state_version := rd_state_version r + 1\<rparr>))"

definition progress_events :: "timestamp \<Rightarrow> progress_update \<Rightarrow> bool \<Rightarrow> reader_row \<Rightarrow> reader_event list" where
  "progress_events now u clear after =
     (if clear then [Completion_changed (rd_state_version after) now False Origin_REREAD]
      else if \<not> pu_reread_started u \<and> rd_completion_updated_at after = Some now
      then [Completion_changed (rd_state_version after) now True Origin_AUTOMATIC] else []) @
     (if rd_want_to_read_updated_at after = Some now
      then [Want_to_read_changed (rd_state_version after) now False] else [])"

definition update_reader_progress ::
  "timestamp \<Rightarrow> progress_update \<Rightarrow> reader_row option \<Rightarrow> reader_row option \<Rightarrow>
     (reader_error, reader_transition) result" where
  "update_reader_progress now u before row =
     bind_result (validate_update u) (\<lambda>_.
       let clear = (pu_reread_started u \<and> (case before of None \<Rightarrow> False | Some b \<Rightarrow> rd_completed_at b \<noteq> None));
           (after, changed) = upsert (progress_insert now u clear) (\<lambda>_. True) (progress_set now u clear) row
       in Inr \<lparr>rt_before = before, rt_after = after, rt_changed = changed,
            rt_events = progress_events now u clear after\<rparr>)"

subsection \<open>Commands\<close>

datatype reader_command = Set_completion bool | Set_want bool | Progress progress_update

text \<open>A command in its own transaction reads the row it then writes; a refused update changes
  nothing.\<close>

definition run_command :: "timestamp \<Rightarrow> reader_command \<Rightarrow> reader_row option \<Rightarrow>
    (reader_error, reader_transition) result" where
  "run_command now c row =
     (case c of
        Set_completion b \<Rightarrow> Inr (set_reader_completion now b row row)
      | Set_want b \<Rightarrow> Inr (set_want_to_read now b row row)
      | Progress u \<Rightarrow> update_reader_progress now u row row)"

definition row_after :: "timestamp \<Rightarrow> reader_command \<Rightarrow> reader_row option \<Rightarrow> reader_row option" where
  "row_after now c row = (case run_command now c row of Inl _ \<Rightarrow> row | Inr tr \<Rightarrow> Some (rt_after tr))"

fun rows_after :: "(timestamp \<times> reader_command) list \<Rightarrow> reader_row option \<Rightarrow> reader_row option" where
  "rows_after [] row = row"
| "rows_after ((now, c) # cs) row = rows_after cs (row_after now c row)"

fun events_of :: "(timestamp \<times> reader_command) list \<Rightarrow> reader_row option \<Rightarrow> reader_event list" where
  "events_of [] row = []"
| "events_of ((now, c) # cs) row =
     (case run_command now c row of Inl _ \<Rightarrow> [] | Inr tr \<Rightarrow> rt_events tr) @ events_of cs (row_after now c row)"

subsection \<open>What a row promises\<close>

definition not_after :: "timestamp option \<Rightarrow> timestamp \<Rightarrow> bool" where
  "not_after x t \<longleftrightarrow> (case x of None \<Rightarrow> True | Some s \<Rightarrow> s \<le> t)"

lemma not_after_simps [simp]: "not_after None t" "not_after (Some s) t \<longleftrightarrow> s \<le> t"
  by (simp_all add: not_after_def)

definition position_ok :: "reader_row \<Rightarrow> bool" where
  "position_ok r \<longleftrightarrow> (case (rd_last_page_index r, rd_content_revision r, rd_page_count r) of
     (None, None, None) \<Rightarrow> True | (Some i, Some _, Some n) \<Rightarrow> 0 \<le> i \<and> i < n | _ \<Rightarrow> False)"

definition reader_ok :: "reader_row \<Rightarrow> bool" where
  "reader_ok r \<longleftrightarrow> position_ok r \<and> (is_completed r \<longrightarrow> rd_completion_updated_at r \<noteq> None) \<and>
     (rd_want_to_read r \<longrightarrow> rd_want_to_read_updated_at r \<noteq> None) \<and> 1 \<le> rd_state_version r \<and>
     not_after (rd_completed_at r) (rd_updated_at r) \<and> not_after (rd_completion_updated_at r) (rd_updated_at r) \<and>
     not_after (rd_want_to_read_updated_at r) (rd_updated_at r) \<and>
     not_after (rd_progress_updated_at r) (rd_updated_at r) \<and> not_after (rd_last_opened_at r) (rd_updated_at r)"

definition row_ok :: "reader_row option \<Rightarrow> bool" where
  "row_ok row \<longleftrightarrow> (case row of None \<Rightarrow> True | Some r \<Rightarrow> reader_ok r)"

text \<open>The clock reading of a command is later than everything the row records.\<close>

definition fresh_clock :: "timestamp \<Rightarrow> reader_row option \<Rightarrow> bool" where
  "fresh_clock now row \<longleftrightarrow> (case row of None \<Rightarrow> True | Some r \<Rightarrow> rd_updated_at r < now)"

fun clock_runs :: "timestamp list \<Rightarrow> bool" where
  "clock_runs [] = True"
| "clock_runs [t] = True"
| "clock_runs (t # u # ts) = (t < u \<and> clock_runs (u # ts))"

lemmas command_defs = run_command_def set_reader_completion_def set_want_to_read_def upsert_def
  default_row_def Let_def

lemma validate_update_ok:
  "validate_update u = Inr () \<longleftrightarrow> pu_revision u = pu_expected_revision u \<and> pu_page_count u = pu_expected_page_count u \<and>
     0 \<le> pu_page_index u \<and> pu_page_index u < pu_page_count u \<and>
     (pu_completion_candidate u \<longrightarrow> pu_page_index u = pu_page_count u - 1) \<and>
     (pu_reread_started u \<longrightarrow> pu_page_index u = 0 \<and> \<not> pu_completion_candidate u)"
  by (auto simp: validate_update_def)

lemma not_after_mono: "not_after x s \<Longrightarrow> s \<le> t \<Longrightarrow> not_after x t"
  by (cases x) simp_all

lemma completion_set_simps [simp]:
  "rd_updated_at (complete_set now r) = now" "rd_state_version (complete_set now r) = rd_state_version r + 1"
  "rd_updated_at (uncomplete_set now r) = now" "rd_state_version (uncomplete_set now r) = rd_state_version r + 1"
  by (simp_all add: complete_set_def uncomplete_set_def)

lemma complete_set_ok: "reader_ok r \<Longrightarrow> rd_updated_at r \<le> now \<Longrightarrow> reader_ok (complete_set now r)"
  using not_after_mono by (auto simp: reader_ok_def complete_set_def position_ok_def is_completed_def)

lemma uncomplete_set_ok: "reader_ok r \<Longrightarrow> rd_updated_at r \<le> now \<Longrightarrow> reader_ok (uncomplete_set now r)"
  using not_after_mono by (auto simp: reader_ok_def uncomplete_set_def position_ok_def is_completed_def)

lemma progress_row_ok:
  assumes "validate_update u = Inr ()" and "is_completed r \<longrightarrow> rd_completion_updated_at r \<noteq> None"
    and "rd_want_to_read r \<longrightarrow> rd_want_to_read_updated_at r \<noteq> None" and "1 \<le> rd_state_version r"
    and "not_after (rd_completed_at r) now" "not_after (rd_completion_updated_at r) now"
    and "not_after (rd_want_to_read_updated_at r) now"
  shows "reader_ok (progress_row now u r)"
  using assms by (simp add: reader_ok_def progress_row_def position_ok_def validate_update_ok is_completed_def)

lemma progress_command:
  assumes "run_command now (Progress u) row = Inr tr"
  defines "clear \<equiv> pu_reread_started u \<and> (case row of None \<Rightarrow> False | Some b \<Rightarrow> is_completed b)"
  shows "validate_update u = Inr ()" and "rt_changed tr"
    and "rt_after tr = (case row of None \<Rightarrow> progress_insert now u clear | Some r \<Rightarrow> progress_set now u clear r)"
    and "rt_events tr = progress_events now u clear (rt_after tr)"
proof -
  have c: "clear = (pu_reread_started u \<and> (case row of None \<Rightarrow> False | Some b \<Rightarrow> rd_completed_at b \<noteq> None))"
    by (simp add: clear_def is_completed_def split: option.split)
  show "validate_update u = Inr ()" "rt_changed tr"
    "rt_after tr = (case row of None \<Rightarrow> progress_insert now u clear | Some r \<Rightarrow> progress_set now u clear r)"
    "rt_events tr = progress_events now u clear (rt_after tr)"
    using assms(1) unfolding c
    by (cases row; auto simp: run_command_def update_reader_progress_def upsert_def Let_def)+
qed

text \<open>A command either leaves the row and its version as they are and is reported unchanged, or it
  takes the row to its next version.\<close>

lemma run_command_ok:
  assumes "run_command now c row = Inr tr" and "row_ok row"
    and "case row of None \<Rightarrow> True | Some r \<Rightarrow> rd_updated_at r \<le> now"
  shows "reader_ok (rt_after tr) \<and> rd_updated_at (rt_after tr) \<le> now \<and>
    (if rt_changed tr
     then rd_updated_at (rt_after tr) = now \<and>
       rd_state_version (rt_after tr) = (case row of None \<Rightarrow> 1 | Some r \<Rightarrow> rd_state_version r + 1)
     else row = Some (rt_after tr) \<and> rt_events tr = [])"
proof (cases c)
  case (Set_completion b)
  show ?thesis
  proof (cases row)
    case None
    with Set_completion assms(1) show ?thesis
      by (cases b) (auto simp: command_defs reader_ok_def position_ok_def is_completed_def)
  next
    case (Some r)
    with Set_completion assms complete_set_ok [of r now] uncomplete_set_ok [of r now] show ?thesis
      by (cases b) (auto simp: command_defs row_ok_def split: if_splits)
  qed
next
  case (Set_want b)
  show ?thesis
  proof (cases row)
    case None
    with Set_want assms(1) show ?thesis
      by (auto simp: command_defs reader_ok_def position_ok_def is_completed_def)
  next
    case (Some r)
    with assms(2,3) have "reader_ok r" "rd_updated_at r \<le> now" by (simp_all add: row_ok_def)
    with not_after_mono have "reader_ok (r\<lparr>rd_want_to_read := b, rd_want_to_read_updated_at := Some now,
        rd_state_version := rd_state_version r + 1, rd_updated_at := now\<rparr>)"
      by (auto simp: reader_ok_def position_ok_def is_completed_def)
    with Set_want assms Some show ?thesis
      by (auto simp: command_defs row_ok_def split: if_splits)
  qed
next
  case (Progress u)
  note pc = progress_command [OF assms(1) [unfolded Progress]]
  show ?thesis
  proof (cases row)
    case None
    with pc(3) have "reader_ok (rt_after tr)"
      using pc(1) by (auto simp: progress_insert_def default_row_def is_completed_def intro!: progress_row_ok)
    with pc(2,3) None show ?thesis by (simp add: progress_insert_def progress_row_def default_row_def)
  next
    case (Some r)
    have r: "reader_ok r" "rd_updated_at r \<le> now" using assms(2,3) Some by (simp_all add: row_ok_def)
    then have "not_after (rd_completed_at r) now" "not_after (rd_completion_updated_at r) now"
      "not_after (rd_want_to_read_updated_at r) now"
      by (auto simp: reader_ok_def not_after_def split: option.splits)
    with r have "reader_ok (progress_set now u c r)" if "c \<longrightarrow> \<not> pu_completion_candidate u" for c
      unfolding progress_set_def Let_def using that
      by (intro progress_row_ok [OF pc(1)])
        (auto simp: progress_insert_def progress_row_def reader_ok_def is_completed_def)
    with pc Some show ?thesis
      by (auto simp: progress_set_def progress_row_def validate_update_ok Let_def)
  qed
qed

lemma row_after_ok:
  assumes "row_ok row" and "fresh_clock now row"
  shows "row_ok (row_after now c row) \<and>
    (case row_after now c row of None \<Rightarrow> True | Some r \<Rightarrow> rd_updated_at r \<le> now)"
proof (cases "run_command now c row")
  case (Inl e)
  with assms show ?thesis by (auto simp: row_after_def fresh_clock_def split: option.splits)
next
  case (Inr tr)
  with run_command_ok [OF Inr assms(1)] assms(2) show ?thesis
    by (auto simp: row_after_def row_ok_def fresh_clock_def split: option.splits)
qed

lemma clock_runs_fresh:
  "case row of None \<Rightarrow> True | Some r \<Rightarrow> rd_updated_at r \<le> t \<Longrightarrow> clock_runs (t # u # ts) \<Longrightarrow> fresh_clock u row"
  by (auto simp: fresh_clock_def split: option.splits)

text \<open>C23. Whatever commands a reader sends, the stored state stays consistent: the position is absent as
  a whole or a page of the content it names, a completed issue knows when that was decided and a
  marked one when it was marked, no time lies in the future, and the version counts exactly the
  commands that changed something.\<close>

theorem reader_state_invariant:
  assumes "run_command now c row = Inr tr" and "row_ok row"
    and "case row of None \<Rightarrow> True | Some r \<Rightarrow> rd_updated_at r \<le> now"
  shows "row_ok (Some (rt_after tr)) \<and> rd_updated_at (rt_after tr) \<le> now \<and>
    (row \<noteq> Some (rt_after tr)) = rt_changed tr \<and>
    rd_state_version (rt_after tr) =
      (case row of None \<Rightarrow> 0 | Some r \<Rightarrow> rd_state_version r) + (if rt_changed tr then 1 else 0)"
  using run_command_ok [OF assms] by (auto simp: row_ok_def split: option.splits if_splits)

subsection \<open>Events\<close>

text \<open>What a listener knows: whether the issue is completed and whether it is marked\<close>

type_synonym reader_view = "bool \<times> bool"

definition view_of :: "reader_row option \<Rightarrow> reader_view" where
  "view_of row = (case row of None \<Rightarrow> (False, False) | Some r \<Rightarrow> (is_completed r, rd_want_to_read r))"

fun apply_event :: "reader_event \<Rightarrow> reader_view \<Rightarrow> reader_view" where
  "apply_event (Completion_changed v t c origin) (completed, want) = (c, want)"
| "apply_event (Want_to_read_changed v t w) (completed, want) = (completed, w)"

definition replay :: "reader_event list \<Rightarrow> reader_view \<Rightarrow> reader_view" where
  "replay es view = fold apply_event es view"

lemma replay_simps [simp]:
  "replay [] v = v" "replay (e # es) v = replay es (apply_event e v)" "replay (es @ fs) v = replay fs (replay es v)"
  by (simp_all add: replay_def)

lemma not_now: "reader_ok r \<Longrightarrow> rd_updated_at r < now \<Longrightarrow>
    rd_completion_updated_at r \<noteq> Some now \<and> rd_want_to_read_updated_at r \<noteq> Some now"
  by (auto simp: reader_ok_def not_after_def)

lemma command_events:
  assumes "run_command now c row = Inr tr" and "row_ok row" and "fresh_clock now row"
  shows "replay (rt_events tr) (view_of row) = view_of (Some (rt_after tr))"
proof (cases c)
  case (Progress u)
  note pc = progress_command [OF assms(1) [unfolded Progress]]
  show ?thesis
  proof (cases row)
    case None
    with pc show ?thesis
      by (simp add: view_of_def is_completed_def progress_insert_def progress_events_def progress_row_def
          default_row_def validate_update_ok)
  next
    case (Some r)
    then have n: "rd_completion_updated_at r \<noteq> Some now" "rd_want_to_read_updated_at r \<noteq> Some now"
      using assms(2,3) not_now [of r now] by (auto simp: row_ok_def fresh_clock_def)
    with pc Some show ?thesis
      by (auto simp: view_of_def is_completed_def progress_set_def progress_insert_def progress_events_def
          progress_row_def validate_update_ok default_row_def Let_def)
  qed
next
  case (Set_completion b)
  show ?thesis
  proof (cases row)
    case None
    with Set_completion assms(1) show ?thesis
      by (cases b) (auto simp: command_defs view_of_def is_completed_def split: if_splits)
  next
    case (Some r)
    then have n: "rd_completion_updated_at r \<noteq> Some now" "rd_want_to_read_updated_at r \<noteq> Some now"
      using assms(2,3) not_now [of r now] by (auto simp: row_ok_def fresh_clock_def)
    with Set_completion assms(1) Some show ?thesis
      by (cases b) (auto simp: command_defs complete_set_def uncomplete_set_def view_of_def is_completed_def
          split: if_splits)
  qed
next
  case (Set_want b)
  with assms show ?thesis
    by (cases row) (auto simp: command_defs view_of_def is_completed_def split: if_splits)
qed

text \<open>C24. The events are a faithful feed: a listener that starts with what the row says and applies the
  events of any sequence of commands, refused ones included, knows at every moment whether the
  issue is completed and whether it is marked, as long as the clock advances between commands.\<close>

theorem reader_events_replay:
  assumes "row_ok row" and "case row of None \<Rightarrow> True | Some r \<Rightarrow> rd_updated_at r \<le> t0"
    and "clock_runs (t0 # map fst cs)"
  shows "replay (events_of cs row) (view_of row) = view_of (rows_after cs row)"
  using assms
proof (induction cs arbitrary: row t0)
  case Nil
  then show ?case by simp
next
  case (Cons p cs)
  obtain now c where p: "p = (now, c)" by force
  have fresh: "fresh_clock now row" using clock_runs_fresh [OF Cons.prems(2)] Cons.prems(3) by (simp add: p)
  have "replay (case run_command now c row of Inl _ \<Rightarrow> [] | Inr tr \<Rightarrow> rt_events tr) (view_of row) =
      view_of (row_after now c row)"
    using command_events [OF _ Cons.prems(1) fresh, of c]
    by (cases "run_command now c row") (simp_all add: row_after_def)
  with Cons.IH [of "row_after now c row" now] row_after_ok [OF Cons.prems(1) fresh, of c] Cons.prems(3)
  show ?case by (simp add: p)
qed

text \<open>When two commands read the same time, a page turn can announce a completion that has just been
  taken back: the event is derived from the time, not from the change.\<close>

lemma clock_tie_announces_completion:
  "\<exists>tr. run_command 5 (Progress \<lparr>pu_revision = ''r'', pu_page_index = 0, pu_page_count = 2,
        pu_completion_candidate = False, pu_expected_revision = ''r'', pu_expected_page_count = 2,
        pu_reread_started = False\<rparr>) (row_after 5 (Set_completion False) None) = Inr tr \<and>
     \<not> is_completed (rt_after tr) \<and> rt_events tr = [Completion_changed 2 5 True Origin_AUTOMATIC]"
  by (simp add: row_after_def command_defs update_reader_progress_def validate_update_def progress_set_def
      progress_insert_def progress_row_def progress_events_def is_completed_def)

subsection \<open>Completion is kept\<close>

text \<open>The commands that may take a completion back: marking as unread, and starting to read again\<close>

definition takes_back :: "reader_command \<Rightarrow> bool" where
  "takes_back c = (case c of Set_completion b \<Rightarrow> \<not> b | Set_want b \<Rightarrow> False | Progress u \<Rightarrow> pu_reread_started u)"

lemma completion_kept_step:
  assumes "row = Some r" and "rd_completed_at r = Some t" and "\<not> takes_back c"
  shows "\<exists>r'. row_after now c row = Some r' \<and> rd_completed_at r' = Some t \<and>
    rd_completion_updated_at r' = rd_completion_updated_at r"
proof (cases c)
  case (Set_completion b)
  with assms show ?thesis
    by (auto simp: takes_back_def row_after_def command_defs complete_set_def)
next
  case (Set_want b)
  with assms show ?thesis by (auto simp: row_after_def command_defs)
next
  case (Progress u)
  with assms(3) have "\<not> pu_reread_started u" by (simp add: takes_back_def)
  with Progress assms show ?thesis
    by (cases "validate_update u")
      (auto simp: row_after_def run_command_def update_reader_progress_def upsert_def progress_set_def
        progress_row_def progress_insert_def Let_def)
qed

text \<open>A completion is never lost by reading on: through any sequence of commands, refused ones
  included, a completed issue keeps the moment of its completion, unless the reader marks it as
  unread or starts reading it again.\<close>

theorem reader_completion_kept:
  assumes "row = Some r" and "rd_completed_at r = Some t" and "list_all (\<lambda>(now, c). \<not> takes_back c) cs"
  shows "\<exists>r'. rows_after cs row = Some r' \<and> rd_completed_at r' = Some t \<and>
    rd_completion_updated_at r' = rd_completion_updated_at r"
  using assms
proof (induction cs arbitrary: row r)
  case Nil
  then show ?case by simp
next
  case (Cons p cs)
  obtain now c where p: "p = (now, c)" by force
  from completion_kept_step [OF Cons.prems(1,2), of c now] Cons.prems(3) obtain r1
    where "row_after now c row = Some r1" "rd_completed_at r1 = Some t"
      "rd_completion_updated_at r1 = rd_completion_updated_at r" by (auto simp: p)
  with Cons.IH [of "row_after now c row" r1] Cons.prems(3) show ?case by (auto simp: p)
qed

subsection \<open>The position shown\<close>

lemma percent_range:
  assumes "0 \<le> i" and "i < n"
  shows "1 \<le> calculate_reader_position_percent (Some i) (Some n)"
    "calculate_reader_position_percent (Some i) (Some n) \<le> 100"
    "(calculate_reader_position_percent (Some i) (Some n) = 100) = (i = n - 1)"
proof -
  let ?p = "((i + 1) * 100) div n"
  have n: "0 < n" using assms by simp
  show "1 \<le> calculate_reader_position_percent (Some i) (Some n)"
    "calculate_reader_position_percent (Some i) (Some n) \<le> 100"
    using assms by (simp_all add: calculate_reader_position_percent_def)
  have "?p \<ge> 100 \<longleftrightarrow> i = n - 1"
  proof
    assume "?p \<ge> 100"
    then have "100 * n \<le> ?p * n" using n by (intro mult_right_mono) simp_all
    also have "?p * n \<le> (i + 1) * 100" using n by (simp add: minus_mod_eq_div_mult [symmetric])
    finally show "i = n - 1" using assms by simp
  qed (use n in simp)
  then show "(calculate_reader_position_percent (Some i) (Some n) = 100) = (i = n - 1)"
    using assms by (auto simp: calculate_reader_position_percent_def max_def min_def)
qed

text \<open>The percentage shown for a consistent state is between 1 and 100 as soon as there is a position
  and 0 before, it is 100 exactly on the last page, and an issue is offered for continuing
  exactly when it has a position, shows less than 100 and is not completed.\<close>

theorem reader_position_percent:
  assumes "reader_ok r"
  shows "position_percent r \<le> 100 \<and> (0 < position_percent r) = has_progress r \<and>
    (position_percent r = 100) = (\<exists>n. rd_page_count r = Some n \<and> rd_last_page_index r = Some (n - 1)) \<and>
    is_continue_candidate r = (has_progress r \<and> position_percent r < 100 \<and> \<not> is_completed r)"
proof (cases "rd_page_count r")
  case None
  with assms show ?thesis
    by (auto simp: reader_ok_def position_ok_def position_percent_def has_progress_def is_continue_candidate_def
        split: option.splits)
next
  case (Some n)
  with assms obtain i v where i: "rd_last_page_index r = Some i" "rd_content_revision r = Some v" "0 \<le> i" "i < n"
    by (auto simp: reader_ok_def position_ok_def split: option.splits)
  from percent_range [OF i(3,4)] i Some show ?thesis
    by (auto simp: position_percent_def has_progress_def is_continue_candidate_def)
qed

subsection \<open>A concrete reader\<close>

definition sample_progress :: "int \<Rightarrow> bool \<Rightarrow> reader_command" where
  "sample_progress i final = Progress \<lparr>pu_revision = ''r'', pu_page_index = i, pu_page_count = 4,
     pu_completion_candidate = final, pu_expected_revision = ''r'', pu_expected_page_count = 4,
     pu_reread_started = False\<rparr>"

definition sample_row :: reader_row where
  "sample_row = \<lparr>rd_last_page_index = Some 3, rd_content_revision = Some ''r'', rd_page_count = Some 4,
     rd_progress_updated_at = Some 7, rd_last_opened_at = Some 7, rd_completed_at = Some 7,
     rd_completion_updated_at = Some 7, rd_want_to_read = False, rd_want_to_read_updated_at = None,
     rd_state_version = 2, rd_updated_at = 7\<rparr>"

lemma sample_row_ok: "reader_ok sample_row"
  by (simp add: reader_ok_def sample_row_def position_ok_def is_completed_def)

theorem reader_state_invariant_witness:
  "\<exists>tr. run_command 9 (Set_want True) (Some sample_row) = Inr tr \<and> row_ok (Some (rt_after tr)) \<and>
     rd_state_version (rt_after tr) = 3"
proof -
  obtain tr where tr: "run_command 9 (Set_want True) (Some sample_row) = Inr tr" by (simp add: run_command_def)
  then have "rt_changed tr" by (auto simp: command_defs sample_row_def)
  with reader_state_invariant [OF tr] tr sample_row_ok show ?thesis by (simp add: row_ok_def sample_row_def)
qed

theorem reader_events_replay_witness:
  "replay (events_of [(8, Set_want True), (9, sample_progress 0 False), (10, Set_completion False)] (Some sample_row))
     (True, False) = view_of (rows_after [(8, Set_want True), (9, sample_progress 0 False),
       (10, Set_completion False)] (Some sample_row))"
  using reader_events_replay [of "Some sample_row" 7 "[(8, Set_want True), (9, sample_progress 0 False),
      (10, Set_completion False)]"] sample_row_ok
  by (simp add: row_ok_def view_of_def is_completed_def sample_row_def)

theorem reader_completion_kept_witness:
  "\<exists>r'. rows_after [(8, Set_want True), (9, sample_progress 0 False), (10, Set_completion True)] (Some sample_row) =
     Some r' \<and> rd_completed_at r' = Some 7"
  using reader_completion_kept [OF refl, of sample_row 7 "[(8, Set_want True), (9, sample_progress 0 False),
      (10, Set_completion True)]"]
  by (auto simp: sample_row_def takes_back_def sample_progress_def)

theorem reader_position_percent_witness: "position_percent sample_row = 100"
  using reader_position_percent [OF sample_row_ok] by (simp add: sample_row_def)

end
