(* ===== verification/Py_Format.thy ===== *)
theory Py_Format
  imports Py_Text
begin

text \<open>
  More text operations of Python's standard library, those the naming components build names
  with: \<open>replace\<close>, \<open>split()\<close>, \<open>rstrip(chars)\<close>, case mappings, the length in UTF-8, decimal
  output, and the laws of names made of single-spaced words. As in \<open>Py_Text\<close>, code points are
  below 256; the letters whose upper case is above (\<mu> and \<ydieresis>) are left as they are.
\<close>

subsection \<open>Operations\<close>

function py_replace :: "pystr \<Rightarrow> pystr \<Rightarrow> pystr \<Rightarrow> pystr" where
  "py_replace old new [] = []"
| "py_replace old new (c # cs) =
     (if old \<noteq> [] \<and> starts_with old (c # cs) then new @ py_replace old new (drop (length old - 1) cs)
      else c # py_replace old new cs)"
  by pat_completeness auto
termination by (relation "measure (\<lambda>(_, _, s). length s)") auto

text \<open>\<open>split()\<close>: the words between runs of white space\<close>

fun py_words :: "pystr \<Rightarrow> pystr list" where
  "py_words [] = []"
| "py_words (c # cs) =
     (if is_py_space c then py_words cs
      else (case cs of
              [] \<Rightarrow> [[c]]
            | d # _ \<Rightarrow>
                if is_py_space d then [c] # py_words cs
                else (case py_words cs of [] \<Rightarrow> [[c]] | w # ws \<Rightarrow> (c # w) # ws)))"

definition rstrip_chars :: "char list \<Rightarrow> pystr \<Rightarrow> pystr" where
  "rstrip_chars cs s = rev (dropWhile (\<lambda>c. c \<in> set cs) (rev s))"

definition lstrip_chars :: "char list \<Rightarrow> pystr \<Rightarrow> pystr" where
  "lstrip_chars cs s = dropWhile (\<lambda>c. c \<in> set cs) s"

definition py_rstrip :: "pystr \<Rightarrow> pystr" where
  "py_rstrip s = rev (dropWhile is_py_space (rev s))"

definition ends_with :: "pystr \<Rightarrow> pystr \<Rightarrow> bool" where
  "ends_with p s \<longleftrightarrow> starts_with (rev p) (rev s)"

definition is_lower_letter :: "char \<Rightarrow> bool" where
  "is_lower_letter c \<longleftrightarrow> is_ascii_lower c \<or> (224 \<le> code c \<and> code c \<le> 254 \<and> code c \<noteq> 247)"

definition py_upper :: "pystr \<Rightarrow> pystr" where
  "py_upper s = concat (map (\<lambda>c. if code c = 223 then ''SS''
      else [if is_lower_letter c then char_of (code c - 32) else c]) s)"

definition py_casefold :: "pystr \<Rightarrow> pystr" where
  "py_casefold s = concat (map (\<lambda>c. if code c = 223 then ''ss'' else [py_lower_char c]) s)"

text \<open>\<open>title()\<close>: letters after a character without case are capitals, all others small\<close>

definition is_cased :: "char \<Rightarrow> bool" where
  "is_cased c \<longleftrightarrow> is_lower_letter c \<or> py_lower_char c \<noteq> c \<or> code c \<in> {170, 181, 186, 223, 255}"

fun title_from :: "bool \<Rightarrow> pystr \<Rightarrow> pystr" where
  "title_from after_cased [] = []"
| "title_from after_cased (c # cs) =
     (if after_cased then [py_lower_char c]
      else if code c = 223 then ''Ss''
      else [if is_lower_letter c then char_of (code c - 32) else c]) @ title_from (is_cased c) cs"

definition py_title :: "pystr \<Rightarrow> pystr" where
  "py_title s = title_from False s"

text \<open>\<open>len(s.encode("utf-8"))\<close>\<close>

definition utf8_len :: "pystr \<Rightarrow> nat" where
  "utf8_len s = sum_list (map (\<lambda>c. if code c < 128 then 1 else 2) s)"

text \<open>\<open>str\<close> of an integer, and \<open>zfill\<close> for a text without sign\<close>

definition digit_char :: "nat \<Rightarrow> char" where
  "digit_char d = char_of (48 + d)"

fun nat_digits :: "nat \<Rightarrow> pystr" where
  "nat_digits n = (if n < 10 then [digit_char n] else nat_digits (n div 10) @ [digit_char (n mod 10)])"

declare nat_digits.simps [simp del]

definition py_str_int :: "int \<Rightarrow> pystr" where
  "py_str_int i = (if i < 0 then CHR ''-'' # nat_digits (nat (- i)) else nat_digits (nat i))"

definition pad_left :: "char \<Rightarrow> nat \<Rightarrow> pystr \<Rightarrow> pystr" where
  "pad_left c w s = replicate (w - length s) c @ s"

definition digits_value :: "pystr \<Rightarrow> nat" where
  "digits_value s = foldl (\<lambda>v c. 10 * v + (code c - 48)) 0 s"

subsection \<open>Decimal output\<close>

lemma code_digit_char [simp]: "d < 10 \<Longrightarrow> code (digit_char d) = 48 + d"
  by (simp add: code_def digit_char_def)

lemma digit_char_digit: "d < 10 \<Longrightarrow> is_ascii_digit (digit_char d)"
  by (simp add: is_ascii_digit_def)

lemma nat_digits_digits: "list_all is_ascii_digit (nat_digits n)"
proof (induction n rule: nat_digits.induct)
  case (1 n)
  show ?case by (subst nat_digits.simps) (use 1 in \<open>auto simp: digit_char_digit\<close>)
qed

lemma nat_digits_ne [simp]: "nat_digits n \<noteq> []"
  by (subst nat_digits.simps) simp

lemma digits_value_snoc [simp]: "digits_value (s @ [c]) = 10 * digits_value s + (code c - 48)"
  by (simp add: digits_value_def)

lemma digits_value_nat_digits [simp]: "digits_value (nat_digits n) = n"
proof (induction n rule: nat_digits.induct)
  case (1 n)
  show ?case
  proof (cases "n < 10")
    case True
    then show ?thesis by (subst nat_digits.simps) (simp add: digits_value_def)
  next
    case False
    with 1 show ?thesis by (subst nat_digits.simps) simp
  qed
qed

lemma nat_digits_inj: "nat_digits m = nat_digits n \<Longrightarrow> m = n"
  by (metis digits_value_nat_digits)

subsection \<open>Words\<close>

definition is_word :: "pystr \<Rightarrow> bool" where
  "is_word w \<longleftrightarrow> w \<noteq> [] \<and> list_all (\<lambda>c. \<not> is_py_space c) w"

definition tidy :: "pystr \<Rightarrow> bool" where
  "tidy s \<longleftrightarrow> (\<exists>ws. list_all is_word ws \<and> s = join_with CHR '' '' ws)"

lemma space_is_space [simp]: "is_py_space CHR '' ''"
  by (simp add: is_py_space_def code_def)

lemma py_words_are_words: "list_all is_word (py_words s)"
  by (induction s) (auto simp: is_word_def split: list.splits)

lemma py_words_word_append: "is_word w \<Longrightarrow> py_words (w @ CHR '' '' # s) = w # py_words s"
proof (induction w)
  case (Cons c w)
  then show ?case
  proof (cases w)
    case (Cons d w')
    with Cons.prems Cons.IH show ?thesis by (auto simp: is_word_def)
  qed (simp add: is_word_def)
qed (simp add: is_word_def)

lemma py_words_word: "is_word w \<Longrightarrow> py_words w = [w]"
proof (induction w)
  case (Cons c w)
  then show ?case by (cases w) (auto simp: is_word_def)
qed (simp add: is_word_def)

lemma py_words_join: "list_all is_word ws \<Longrightarrow> py_words (join_with CHR '' '' ws) = ws"
  by (induction "CHR '' ''" ws rule: join_with.induct) (simp_all add: py_words_word py_words_word_append)

lemma tidy_iff: "tidy s \<longleftrightarrow> join_with CHR '' '' (py_words s) = s"
  using py_words_are_words py_words_join unfolding tidy_def by metis

lemma tidy_join_words [simp]: "tidy (join_with CHR '' '' (py_words s))"
  unfolding tidy_def using py_words_are_words by blast

lemma set_join_with: "set (join_with d ws) \<subseteq> insert d (\<Union> (set ` set ws))"
  by (induction d ws rule: join_with.induct) auto

lemma set_py_words: "w \<in> set (py_words s) \<Longrightarrow> set w \<subseteq> set s"
proof (induction s arbitrary: w)
  case (Cons c cs)
  show ?case
  proof (cases cs)
    case Nil
    with Cons.prems show ?thesis by (auto split: if_splits)
  next
    case (Cons d ds)
    note IH = Cons.IH [unfolded Cons]
    from Cons.prems [unfolded Cons] show ?thesis
      unfolding Cons using IH
      by (subst (asm) py_words.simps(2), cases "py_words (d # ds)") (auto simp del: py_words.simps split: if_splits; blast)+
  qed
qed simp

lemma set_collapse: "set (join_with CHR '' '' (py_words s)) \<subseteq> insert CHR '' '' (set s)"
  using set_join_with set_py_words by fastforce

lemma tidy_Nil [simp]: "tidy []"
  by (simp add: tidy_iff)

lemma is_word_take: "is_word w \<Longrightarrow> n \<noteq> 0 \<Longrightarrow> is_word (take n w)"
  by (auto simp: is_word_def list_all_iff dest: in_set_takeD)

text \<open>A beginning of a tidy text that does not end in a space is tidy.\<close>

lemma tidy_take:
  assumes "list_all is_word ws" and "p @ q = join_with CHR '' '' ws" and "p = [] \<or> last p \<noteq> CHR '' ''"
  shows "tidy p"
  using assms
proof (induction "CHR '' ''" ws arbitrary: p rule: join_with.induct)
  case 1
  then show ?case by simp
next
  case (2 w)
  show ?case
  proof (cases p)
    case (Cons c p')
    with 2 have "p = take (length p) w" by (metis append_eq_conv_conj join_with.simps(2))
    moreover have "is_word (take (length p) w)" using 2 Cons by (intro is_word_take) simp_all
    ultimately have "is_word p" by simp
    then show ?thesis unfolding tidy_def by (intro exI [of _ "[p]"]) simp
  qed simp
next
  case (3 w v ws)
  show ?case
  proof (cases "length p \<le> length w")
    case True
    from 3(3) have "p = take (length p) (w @ CHR '' '' # join_with CHR '' '' (v # ws))"
      by (metis append_eq_conv_conj join_with.simps(3))
    with True have p: "p = take (length p) w" by simp
    show ?thesis
    proof (cases p)
      case (Cons c p')
      have "is_word (take (length p) w)" using 3(2) Cons by (intro is_word_take) simp_all
      with p have "is_word p" by simp
      then show ?thesis unfolding tidy_def by (intro exI [of _ "[p]"]) simp
    qed simp
  next
    case False
    with 3(3) obtain r where r: "p = w @ r" "r @ q = CHR '' '' # join_with CHR '' '' (v # ws)" "r \<noteq> []"
      by (auto simp: append_eq_append_conv2)
    then obtain p' where p': "r = CHR '' '' # p'" "p' @ q = join_with CHR '' '' (v # ws)" by (cases r) auto
    with 3(4) r have "p' \<noteq> []" and "p' = [] \<or> last p' \<noteq> CHR '' ''" by auto
    with 3 p' have "tidy p'" by simp
    then obtain us where us: "list_all is_word us" "p' = join_with CHR '' '' us" by (auto simp: tidy_def)
    with \<open>p' \<noteq> []\<close> obtain u us' where "us = u # us'" by (cases us) auto
    with us r p' 3 show ?thesis unfolding tidy_def by (intro exI [of _ "w # us"]) simp
  qed
qed

lemma tidy_prefix: "tidy (p @ q) \<Longrightarrow> p = [] \<or> last p \<noteq> CHR '' '' \<Longrightarrow> tidy p"
  using tidy_take unfolding tidy_def by metis

lemma tidy_last: "tidy s \<Longrightarrow> s \<noteq> [] \<Longrightarrow> \<not> is_py_space (last s)"
proof -
  have "list_all is_word ws \<Longrightarrow> ws \<noteq> [] \<Longrightarrow>
      join_with CHR '' '' ws \<noteq> [] \<and> \<not> is_py_space (last (join_with CHR '' '' ws))" for ws
    by (induction "CHR '' ''" ws rule: join_with.induct) (auto simp: is_word_def list_all_iff)
  then show "tidy s \<Longrightarrow> s \<noteq> [] \<Longrightarrow> \<not> is_py_space (last s)" unfolding tidy_def by (metis join_with.simps(1))
qed

lemma tidy_hd: "tidy s \<Longrightarrow> s \<noteq> [] \<Longrightarrow> \<not> is_py_space (hd s)"
proof -
  have "list_all is_word ws \<Longrightarrow> ws \<noteq> [] \<Longrightarrow>
      join_with CHR '' '' ws \<noteq> [] \<and> \<not> is_py_space (hd (join_with CHR '' '' ws))" for ws
    by (induction "CHR '' ''" ws rule: join_with.induct) (auto simp: is_word_def list_all_iff)
  then show "tidy s \<Longrightarrow> s \<noteq> [] \<Longrightarrow> \<not> is_py_space (hd s)" unfolding tidy_def by (metis join_with.simps(1))
qed

lemma tidy_spaces: "tidy s \<Longrightarrow> c \<in> set s \<Longrightarrow> is_py_space c \<Longrightarrow> c = CHR '' ''"
proof -
  have "list_all is_word ws \<Longrightarrow> c \<in> set (join_with CHR '' '' ws) \<Longrightarrow> is_py_space c \<Longrightarrow> c = CHR '' ''" for ws
    using set_join_with by (fastforce simp: is_word_def list_all_iff)
  then show "tidy s \<Longrightarrow> c \<in> set s \<Longrightarrow> is_py_space c \<Longrightarrow> c = CHR '' ''" by (auto simp: tidy_def)
qed

lemma tidy_Cons: "tidy s \<Longrightarrow> s \<noteq> [] \<Longrightarrow> \<not> is_py_space c \<Longrightarrow> tidy (c # s)"
proof -
  assume "tidy s" "s \<noteq> []" "\<not> is_py_space c"
  then obtain w ws where w: "list_all is_word (w # ws)" "s = join_with CHR '' '' (w # ws)"
    by (metis join_with.simps(1) list.exhaust tidy_def)
  with \<open>\<not> is_py_space c\<close> have "list_all is_word ((c # w) # ws) \<and> c # s = join_with CHR '' '' ((c # w) # ws)"
    by (cases ws) (auto simp: is_word_def)
  then show "tidy (c # s)" unfolding tidy_def by blast
qed

subsection \<open>Stripping and lengths\<close>

lemma rstrip_prefix: "\<exists>q. s = rstrip_chars cs s @ q"
  by (metis rev_append rev_rev_ident rstrip_chars_def takeWhile_dropWhile_id)

lemma rstrip_last: "rstrip_chars cs s \<noteq> [] \<Longrightarrow> last (rstrip_chars cs s) \<notin> set cs"
  by (metis (no_types, lifting) hd_dropWhile last_rev rev_is_Nil_conv rstrip_chars_def)

lemma rstrip_id: "s = [] \<or> last s \<notin> set cs \<Longrightarrow> rstrip_chars cs s = s"
  by (cases s rule: rev_cases) (auto simp: rstrip_chars_def)

lemma set_rstrip: "set (rstrip_chars cs s) \<subseteq> set s"
  using set_dropWhileD by (fastforce simp: rstrip_chars_def)

lemma tidy_rstrip: "CHR '' '' \<in> set cs \<Longrightarrow> tidy s \<Longrightarrow> tidy (rstrip_chars cs s)"
  using rstrip_prefix [of s cs] rstrip_last [of cs s] tidy_prefix by metis

lemma utf8_len_append [simp]: "utf8_len (s @ t) = utf8_len s + utf8_len t"
  by (simp add: utf8_len_def)

lemma utf8_len_simps [simp]:
  "utf8_len [] = 0" "utf8_len (c # s) = (if code c < 128 then 1 else 2) + utf8_len s"
  by (simp_all add: utf8_len_def)

lemma utf8_len_le: "utf8_len s \<le> 2 * length s"
  by (induction s) auto

lemma length_le_utf8: "length s \<le> utf8_len s"
  by (induction s) auto

lemma utf8_rstrip: "utf8_len (rstrip_chars cs s) \<le> utf8_len s"
  using rstrip_prefix [of s cs] utf8_len_append le_add1 by metis

lemma py_replace_notin: "old = [c] \<Longrightarrow> c \<notin> set new \<Longrightarrow> c \<notin> set (py_replace old new s)"
  by (induction old new s rule: py_replace.induct) auto

end
