(* ===== verification/Issue_Numbers.thy ===== *)
theory Issue_Numbers
  imports Py_Format
begin

text \<open>
  The canonical text of an issue number (\<open>src/src/pullbox/core/issue_numbers.py\<close>): a designation
  such as \<open>007\<close>, \<open>1.50\<close>, \<open>\<onehalf>\<close> or \<open>12.1au\<close> is read as an exact decimal with an optional suffix
  and written without exponent, superfluous zeros or sign of zero. \<open>decimal.Decimal\<close> is the
  datatype \<open>py_decimal\<close>, its constructor \<open>decimal_of_text\<close>; the limits of the decimal context on
  exponents are not modelled. Arguments are texts.
\<close>

subsection \<open>Decimals\<close>

datatype py_decimal = Dec bool nat int | Dec_special

fun decimal_value :: "py_decimal \<Rightarrow> rat" where
  "decimal_value (Dec neg c e) = (if neg then - 1 else 1) * of_nat c * 10 powi e"
| "decimal_value Dec_special = 0"

text \<open>\<open>split_sign\<close> removes one sign; \<open>number_parts\<close> reads the digits before and after the point.\<close>

definition split_sign :: "pystr \<Rightarrow> bool \<times> pystr" where
  "split_sign s = (case s of
     c # cs \<Rightarrow> if c = CHR ''-'' then (True, cs) else if c = CHR ''+'' then (False, cs) else (False, s)
   | [] \<Rightarrow> (False, s))"

definition number_parts :: "pystr \<Rightarrow> pystr \<times> pystr \<times> pystr" where
  "number_parts s =
     (let a = takeWhile is_ascii_digit s; r = dropWhile is_ascii_digit s
      in case r of
           c # cs \<Rightarrow> if c = CHR ''.'' then (a, takeWhile is_ascii_digit cs, dropWhile is_ascii_digit cs) else (a, [], r)
         | [] \<Rightarrow> (a, [], r))"

definition exponent_of :: "pystr \<Rightarrow> int option" where
  "exponent_of s = (case s of
     [] \<Rightarrow> Some 0
   | c # cs \<Rightarrow>
       (let (neg, ds) = split_sign cs
        in if c \<in> {CHR ''e'', CHR ''E''} \<and> ds \<noteq> [] \<and> list_all is_ascii_digit ds
           then Some ((if neg then - 1 else 1) * int (digits_value ds)) else None))"

definition is_special :: "pystr \<Rightarrow> bool" where
  "is_special s \<longleftrightarrow> (let t = py_lower s in t \<in> {''inf'', ''infinity''} \<or>
     (starts_with ''nan'' t \<and> list_all is_ascii_digit (drop 3 t)) \<or>
     (starts_with ''snan'' t \<and> list_all is_ascii_digit (drop 4 t)))"

definition decimal_of_text :: "pystr \<Rightarrow> py_decimal option" where
  "decimal_of_text text =
     (let (neg, s) = split_sign (filter (\<lambda>c. c \<noteq> CHR ''_'') (py_strip text));
          (a, b, r) = number_parts s
      in if is_special s then Some Dec_special
         else if a @ b = [] then None
         else (case exponent_of r of
                 None \<Rightarrow> None
               | Some e \<Rightarrow> Some (Dec neg (digits_value (a @ b)) (e - int (length b)))))"

text \<open>\<open>format(value, "f")\<close>\<close>

definition point_text :: "nat \<Rightarrow> nat \<Rightarrow> pystr" where
  "point_text c k =
     (let d = pad_left CHR ''0'' (k + 1) (nat_digits c); n = length d - k in take n d @ CHR ''.'' # drop n d)"

definition format_f :: "bool \<Rightarrow> nat \<Rightarrow> int \<Rightarrow> pystr" where
  "format_f neg c e = (if neg then ''-'' else []) @
     (if e \<ge> 0 then (if c = 0 then ''0'' else nat_digits c @ replicate (nat e) CHR ''0'')
      else point_text c (nat (- e)))"

subsection \<open>Issue numbers\<close>

definition MAX_ISSUE_NUMBER_TEXT_LENGTH :: nat where "MAX_ISSUE_NUMBER_TEXT_LENGTH = 320"

datatype issue_number_error = Issue_blank | Issue_too_long | Issue_invalid

fun format_decimal :: "py_decimal \<Rightarrow> pystr" where
  "format_decimal (Dec neg c e) =
     (if c = 0 then ''0''
      else (let rendered = format_f neg c e
            in if CHR ''.'' \<in> set rendered then rstrip_chars ''.'' (rstrip_chars ''0'' rendered) else rendered))"
| "format_decimal Dec_special = []"

definition is_ascii_letter :: "char \<Rightarrow> bool" where
  "is_ascii_letter c \<longleftrightarrow> is_ascii_lower c \<or> is_ascii_upper c"

definition ascii_upper :: "pystr \<Rightarrow> pystr" where
  "ascii_upper s = map (\<lambda>c. if is_ascii_lower c then char_of (code c - 32) else c) s"

text \<open>Fractions as text, and white space between number and suffix removed\<close>

definition normalize_fraction :: "pystr \<Rightarrow> pystr" where
  "normalize_fraction raw =
     (let s = concat (map (\<lambda>c. if code c = 189 then ''.5'' else if code c = 188 then ''.25''
            else if code c = 190 then ''.75'' else [c]) raw);
          suffix = rev (takeWhile is_ascii_letter (rev s));
          numeric_prefix = py_rstrip (take (length s - length suffix) s)
      in if suffix \<noteq> [] \<and> numeric_prefix \<noteq> [] \<and> (is_ascii_digit (last numeric_prefix) \<or> last numeric_prefix = CHR ''.'')
         then numeric_prefix @ suffix else s)"

text \<open>The pattern of a number with a suffix: its two groups\<close>

definition numeric_suffix :: "pystr \<Rightarrow> (pystr \<times> pystr) option" where
  "numeric_suffix s =
     (let (neg, t) = split_sign s; (a, b, r) = number_parts t
      in if (a \<noteq> [] \<or> b \<noteq> []) \<and> r \<noteq> [] \<and> list_all is_ascii_letter r
         then Some (take (length s - length r) s, r) else None)"

definition read_issue_number :: "pystr \<Rightarrow> (py_decimal \<times> pystr) option" where
  "read_issue_number s =
     (case decimal_of_text s of
        Some d \<Rightarrow> Some (d, [])
      | None \<Rightarrow>
          (case numeric_suffix s of
             None \<Rightarrow> None
           | Some (n, suffix) \<Rightarrow> map_option (\<lambda>d. (d, ascii_upper suffix)) (decimal_of_text n)))"

definition issue_number_parts :: "pystr \<Rightarrow> (issue_number_error, py_decimal \<times> pystr) result" where
  "issue_number_parts value =
     (let raw = py_strip value
      in if raw = [] then Inl Issue_blank
         else if length raw > MAX_ISSUE_NUMBER_TEXT_LENGTH then Inl Issue_too_long
         else
           (case read_issue_number (normalize_fraction raw) of
              None \<Rightarrow> Inl Issue_invalid
            | Some (Dec_special, suffix) \<Rightarrow> Inl Issue_invalid
            | Some (d, suffix) \<Rightarrow>
                (let exact_text = format_decimal d @ suffix
                 in if length exact_text > MAX_ISSUE_NUMBER_TEXT_LENGTH then Inl Issue_too_long
                    else Inr (d, exact_text))))"

definition normalize_issue_number_text :: "pystr \<Rightarrow> (issue_number_error, pystr) result" where
  "normalize_issue_number_text value = bind_result (issue_number_parts value) (\<lambda>p. Inr (snd p))"

text \<open>A \<open>float\<close> is the exact number here; \<open>float\<close> of a decimal overflows where rounding would
  leave the largest finite one.\<close>

definition FLOAT_OVERFLOW :: rat where "FLOAT_OVERFLOW = 2 ^ 1024 - 2 ^ 970"

definition parse_issue_number_text :: "pystr \<Rightarrow> (issue_number_error, rat \<times> pystr) result" where
  "parse_issue_number_text value = bind_result (issue_number_parts value) (\<lambda>(d, exact_text).
     if \<bar>decimal_value d\<bar> \<ge> FLOAT_OVERFLOW then Inl Issue_invalid else Inr (decimal_value d, exact_text))"

subsection \<open>The canonical text\<close>

text \<open>Trailing zeros of \<open>k\<close> decimals are dropped; \<open>canon_text\<close> writes what is left.\<close>

fun reduce :: "nat \<Rightarrow> nat \<Rightarrow> nat \<times> nat" where
  "reduce c 0 = (c, 0)"
| "reduce c (Suc k) = (if c mod 10 = 0 then reduce (c div 10) k else (c, Suc k))"

definition canon_text :: "bool \<Rightarrow> nat \<Rightarrow> nat \<Rightarrow> pystr" where
  "canon_text neg c k = (if neg then ''-'' else []) @ (if k = 0 then nat_digits c else point_text c k)"

definition reduced :: "bool \<Rightarrow> nat \<Rightarrow> nat \<Rightarrow> bool" where
  "reduced neg c k \<longleftrightarrow> (k = 0 \<or> c mod 10 \<noteq> 0) \<and> (neg \<longrightarrow> c \<noteq> 0)"

lemma reduce_reduced: "reduce c k = (c', k') \<Longrightarrow> k' = 0 \<or> c' mod 10 \<noteq> 0"
  by (induction c k rule: reduce.induct) (auto split: if_splits)

lemma reduce_value: "reduce c k = (c', k') \<Longrightarrow> of_nat c / 10 ^ k = (of_nat c' / 10 ^ k' :: rat)"
proof (induction c k rule: reduce.induct)
  case (2 c k)
  then show ?case
  proof (cases "c mod 10 = 0")
    case True
    then obtain c1 where "c = 10 * c1" by auto
    with 2 True show ?thesis by simp
  qed auto
qed auto

lemma reduce_pos: "reduce c k = (c', k') \<Longrightarrow> 0 < c \<Longrightarrow> 0 < c'"
  by (induction c k rule: reduce.induct) (auto split: if_splits)

lemma reduce_id: "k = 0 \<or> c mod 10 \<noteq> 0 \<Longrightarrow> reduce c k = (c, k)"
  by (cases k) auto

lemma digit_char_0 [simp]: "digit_char 0 = CHR ''0''"
  by code_simp

lemma nat_digits_10: "0 < c \<Longrightarrow> nat_digits (10 * c) = nat_digits c @ ''0''"
  by (subst nat_digits.simps) simp

lemma nat_digits_shift: "0 < c \<Longrightarrow> nat_digits c @ replicate e CHR ''0'' = nat_digits (c * 10 ^ e)"
proof (induction e)
  case (Suc e)
  then have "nat_digits (10 * (c * 10 ^ e)) = (nat_digits c @ replicate e CHR ''0'') @ ''0''"
    by (simp add: nat_digits_10)
  then show ?case by (simp add: replicate_append_same mult.left_commute)
qed simp

lemma digits_value_zeros [simp]: "digits_value (replicate m CHR ''0'' @ s) = digits_value s"
proof (induction m)
  case (Suc m)
  then show ?case by (simp add: digits_value_def code_def)
qed simp

lemma point_text_10: "0 < c \<Longrightarrow> point_text (10 * c) (Suc k) = point_text c k @ ''0''"
  by (simp add: point_text_def nat_digits_10 pad_left_def Let_def Suc_diff_le)

lemma nat_digits_last: "last (nat_digits c) = digit_char (c mod 10)"
  by (subst nat_digits.simps) simp

lemma digit_char_zero: "d < 10 \<Longrightarrow> digit_char d = CHR ''0'' \<longleftrightarrow> d = 0"
  by (metis add_cancel_right_right code_digit_char digit_char_0 zero_less_numeral)

lemma digit_not_point: "is_ascii_digit c \<Longrightarrow> c \<noteq> CHR ''.'' \<and> c \<noteq> CHR ''-'' \<and> c \<noteq> CHR ''+'' \<and> c \<noteq> CHR ''_''"
  by (auto simp: is_ascii_digit_def code_def)

lemma pad_digits: "list_all is_ascii_digit (pad_left CHR ''0'' w (nat_digits c))"
  using nat_digits_digits by (auto simp: pad_left_def list_all_iff is_ascii_digit_def code_def)

lemma point_text_parts:
  "\<exists>a b. point_text c k = a @ CHR ''.'' # b \<and> a \<noteq> [] \<and> list_all is_ascii_digit (a @ b) \<and> length b = k \<and>
     digits_value (a @ b) = c \<and> (0 < k \<longrightarrow> last b = digit_char (c mod 10)) \<and> (k = 0 \<longrightarrow> a = nat_digits c)"
proof -
  let ?d = "pad_left CHR ''0'' (k + 1) (nat_digits c)"
  have l: "k < length ?d" by (simp add: pad_left_def)
  have "last (drop (length ?d - k) ?d) = digit_char (c mod 10)" if "0 < k"
    using that l by (simp add: last_drop) (simp add: pad_left_def nat_digits_last)
  moreover have "?d = nat_digits c" if "k = 0"
  proof -
    have "Suc 0 \<le> length (nat_digits c)" by (simp add: Suc_le_eq)
    with that show ?thesis by (simp add: pad_left_def)
  qed
  ultimately show ?thesis
    using l pad_digits [of "k + 1" c]
    by (intro exI [of _ "take (length ?d - k) ?d"] exI [of _ "drop (length ?d - k) ?d"])
      (simp add: point_text_def Let_def, simp add: pad_left_def)
qed

lemma rstrip_append: "rstrip_chars cs t \<noteq> [] \<Longrightarrow> rstrip_chars cs (p @ t) = p @ rstrip_chars cs t"
  by (auto simp: rstrip_chars_def dropWhile_append)

lemma rstrip_snoc: "c \<in> set cs \<Longrightarrow> rstrip_chars cs (t @ [c]) = rstrip_chars cs t"
  by (simp add: rstrip_chars_def)

lemma strip_point_text:
  assumes "0 < c"
  shows "rstrip_chars ''.'' (rstrip_chars ''0'' (point_text c k)) = (case reduce c k of (c', k') \<Rightarrow> canon_text False c' k')"
  using assms
proof (induction c k rule: reduce.induct)
  case (1 c)
  obtain a b where ab: "point_text c 0 = a @ CHR ''.'' # b" "length b = 0" "a = nat_digits c"
    using point_text_parts [of c 0] by auto
  have "last (nat_digits c) \<noteq> CHR ''.''"
    using digit_not_point digit_char_digit [of "c mod 10"] by (simp add: nat_digits_last)
  with ab show ?case by (simp add: canon_text_def rstrip_id rstrip_snoc)
next
  case (2 c k)
  show ?case
  proof (cases "c mod 10 = 0")
    case True
    then obtain c' where c': "c = 10 * c'" by auto
    with 2(2) have p: "0 < c'" by simp
    with c' have "rstrip_chars ''0'' (point_text c (Suc k)) = rstrip_chars ''0'' (point_text c' k)"
      by (simp add: point_text_10 rstrip_snoc)
    with 2(1) [OF True] c' p True show ?thesis by simp
  next
    case False
    obtain a b where ab: "point_text c (Suc k) = a @ CHR ''.'' # b" "length b = Suc k" "last b = digit_char (c mod 10)"
      using point_text_parts [of c "Suc k"] by auto
    then have l: "last (point_text c (Suc k)) = digit_char (c mod 10)" by (cases b) auto
    with False digit_char_zero [of "c mod 10"] have "last (point_text c (Suc k)) \<noteq> CHR ''0''" by simp
    moreover have "last (point_text c (Suc k)) \<noteq> CHR ''.''"
      using l digit_not_point digit_char_digit [of "c mod 10"] by simp
    ultimately show ?thesis using False by (simp add: canon_text_def rstrip_id)
  qed
qed

text \<open>The three numbers a decimal is written with\<close>

fun canon_of :: "py_decimal \<Rightarrow> bool \<times> nat \<times> nat" where
  "canon_of (Dec neg c e) =
     (if c = 0 then (False, 0, 0) else if e \<ge> 0 then (neg, c * 10 ^ nat e, 0) else (neg, reduce c (nat (- e))))"
| "canon_of Dec_special = (False, 0, 0)"

lemma canon_of_reduced: "canon_of d = (neg, c, k) \<Longrightarrow> reduced neg c k"
proof (cases d)
  case (Dec neg' c' e)
  assume "canon_of d = (neg, c, k)"
  with Dec show ?thesis
    using reduce_reduced [of c' "nat (- e)" c k] reduce_pos [of c' "nat (- e)" c k]
    by (auto simp: reduced_def split: if_splits)
qed (auto simp: reduced_def)

lemma format_decimal_canon:
  "d \<noteq> Dec_special \<Longrightarrow> format_decimal d = (case canon_of d of (neg, c, k) \<Rightarrow> canon_text neg c k)"
proof (cases d)
  case (Dec neg c e)
  consider "c = 0" | "0 < c" "e \<ge> 0" | "0 < c" "e < 0" by linarith
  then show ?thesis
  proof cases
    case 1
    then show ?thesis by (simp add: Dec canon_text_def nat_digits.simps [of 0])
  next
    case 2
    then have "list_all is_ascii_digit (nat_digits c @ replicate (nat e) CHR ''0'')"
      by (simp add: nat_digits_shift nat_digits_digits)
    then have "CHR ''.'' \<notin> set (format_f neg c e)"
      using 2 digit_not_point by (auto simp: format_f_def list_all_iff)
    with 2 show ?thesis by (simp add: Dec canon_text_def nat_digits_shift format_f_def)
  next
    case 3
    obtain c' k' where r: "reduce c (nat (- e)) = (c', k')" by (cases "reduce c (nat (- e))")
    obtain a b where "point_text c (nat (- e)) = a @ CHR ''.'' # b"
      using point_text_parts by blast
    then have "CHR ''.'' \<in> set (format_f neg c e)" using 3 by (simp add: format_f_def)
    moreover have s: "rstrip_chars ''.'' (rstrip_chars ''0'' (point_text c (nat (- e)))) = canon_text False c' k'"
      using strip_point_text [OF \<open>0 < c\<close>] r by simp
    moreover have "canon_text False c' k' \<noteq> []" by (simp add: canon_text_def point_text_def Let_def)
    then have "rstrip_chars ''.'' (rstrip_chars ''0'' (p @ point_text c (nat (- e)))) = p @ canon_text False c' k'" for p
      using s rstrip_append by (metis rstrip_id)
    ultimately show ?thesis using 3 r by (simp add: Dec format_f_def canon_text_def)
  qed
qed simp

lemma canon_of_value: "canon_of d = (neg, c, k) \<Longrightarrow> decimal_value d = (if neg then - 1 else 1) * of_nat c / 10 ^ k"
proof (cases d)
  case (Dec neg' c' e)
  assume "canon_of d = (neg, c, k)"
  with Dec reduce_value [of c' "nat (- e)" c k] show ?thesis
    by (auto simp: power_int_def field_simps split: if_splits)
qed auto

text \<open>A reduced number is determined by its value.\<close>

lemma reduced_unique:
  assumes "reduced neg c k" and "reduced neg' c' k'"
    and "(if neg then - 1 else 1) * of_nat c / 10 ^ k = ((if neg' then - 1 else 1) * of_nat c' / 10 ^ k' :: rat)"
  shows "neg = neg' \<and> c = c' \<and> k = k'"
proof -
  have key: "c = c' \<and> k = k'" if v: "of_nat c / 10 ^ k = (of_nat c' / 10 ^ k' :: rat)" and
    r: "reduced neg' c' k'" and le: "k \<le> k'" for c k neg' c' k'
  proof -
    obtain j where j: "k' = k + j" using le le_Suc_ex by blast
    with v have "of_nat c' = (of_nat (c * 10 ^ j) :: rat)" by (simp add: field_simps power_add)
    then have c': "c' = c * 10 ^ j" unfolding of_nat_eq_iff .
    show ?thesis
    proof (cases j)
      case (Suc i)
      then have "c' mod 10 = 0" by (simp add: c')
      with r j Suc show ?thesis by (simp add: reduced_def)
    qed (use c' j in simp)
  qed
  have abs: "of_nat c / 10 ^ k = (of_nat c' / 10 ^ k' :: rat)"
    using arg_cong [OF assms(3), of abs] by (auto simp: abs_mult split: if_splits)
  then have e: "c = c'" "k = k'"
    using key [OF abs assms(2)] key [OF abs [symmetric] assms(1)] by (metis nat_le_linear)+
  with assms show ?thesis by (auto simp: reduced_def split: if_splits)
qed

subsection \<open>Reading the canonical text\<close>

lemma canon_text_shape:
  "\<exists>a b. canon_text neg c k = (if neg then ''-'' else []) @ a @ (if k = 0 then [] else CHR ''.'' # b) \<and> a \<noteq> [] \<and>
     list_all is_ascii_digit (a @ b) \<and> length b = k \<and> digits_value (a @ b) = c"
proof (cases "k = 0")
  case True
  then show ?thesis by (intro exI [of _ "nat_digits c"] exI [of _ "[]"]) (simp add: canon_text_def nat_digits_digits)
next
  case False
  then show ?thesis using point_text_parts [of c k] by (auto simp: canon_text_def)
qed

definition plain_char :: "char \<Rightarrow> bool" where
  "plain_char c \<longleftrightarrow> is_ascii_digit c \<or> c = CHR ''.'' \<or> c = CHR ''-'' \<or> is_ascii_letter c"

lemma plain_char_not: "plain_char c \<Longrightarrow> \<not> is_py_space c \<and> c \<noteq> CHR ''_'' \<and> code c < 128"
  by (auto simp: plain_char_def is_py_space_def is_ascii_letter_def char_class_defs)

lemma plain_strip: "list_all plain_char s \<Longrightarrow> py_strip s = s \<and> py_rstrip s = s \<and> filter (\<lambda>c. c \<noteq> CHR ''_'') s = s"
proof -
  assume p: "list_all plain_char s"
  have drop: "list_all plain_char t \<Longrightarrow> dropWhile is_py_space t = t" for t
    using plain_char_not by (cases t) auto
  from p have d: "dropWhile is_py_space s = s" "dropWhile is_py_space (rev s) = rev s"
    by (simp_all add: drop)
  from p plain_char_not have "filter (\<lambda>c. c \<noteq> CHR ''_'') s = s" by (auto simp: list_all_iff filter_id_conv)
  with d show ?thesis by (simp add: py_strip_def py_rstrip_def)
qed

lemma canon_text_plain: "list_all plain_char (canon_text neg c k)"
  using canon_text_shape [of neg c k] by (auto simp: plain_char_def list_all_iff split: if_splits)

lemma letters_plain: "list_all is_ascii_letter S \<Longrightarrow> list_all plain_char (canon_text neg c k @ S)"
  using canon_text_plain [of neg c k] by (auto simp: list_all_iff plain_char_def)

lemma is_letter_not: "is_ascii_letter c \<Longrightarrow> \<not> is_ascii_digit c \<and> c \<noteq> CHR ''.'' \<and> c \<noteq> CHR ''-'' \<and> c \<noteq> CHR ''+''"
  by (auto simp: is_ascii_letter_def char_class_defs)

lemma split_sign_digits: "a \<noteq> [] \<Longrightarrow> list_all is_ascii_digit a \<Longrightarrow>
    split_sign ((if neg then ''-'' else []) @ a @ s) = (neg, a @ s)"
  using digit_not_point by (cases a) (auto simp: split_sign_def)

lemma takeWhile_digits: "list_all is_ascii_digit a \<Longrightarrow> s = [] \<or> \<not> is_ascii_digit (hd s) \<Longrightarrow>
    takeWhile is_ascii_digit (a @ s) = a \<and> dropWhile is_ascii_digit (a @ s) = s"
  by (induction a) (auto, (cases s; simp)+)

lemma number_parts_canon:
  assumes "list_all is_ascii_digit (a @ b)" and "list_all is_ascii_letter S" and "k = 0 \<longrightarrow> b = []"
  shows "number_parts (a @ (if k = 0 then [] else CHR ''.'' # b) @ S) = (a, b, S)"
proof (cases "k = 0")
  case True
  have "S = [] \<or> \<not> is_ascii_digit (hd S) \<and> hd S \<noteq> CHR ''.''" using assms(2) is_letter_not by (cases S) auto
  moreover from True assms have b: "b = []" and
    tw: "takeWhile is_ascii_digit (a @ S) = a" "dropWhile is_ascii_digit (a @ S) = S"
    using takeWhile_digits [of a S] calculation by auto
  ultimately have "number_parts (a @ S) = (a, [], S)"
    unfolding number_parts_def Let_def tw by (auto split: list.split)
  with True b show ?thesis by simp
next
  case False
  have "S = [] \<or> \<not> is_ascii_digit (hd S)" using assms(2) is_letter_not by (cases S) auto
  moreover have "\<not> is_ascii_digit CHR ''.''" using digit_not_point by blast
  ultimately have tw: "takeWhile is_ascii_digit (a @ CHR ''.'' # b @ S) = a"
    "dropWhile is_ascii_digit (a @ CHR ''.'' # b @ S) = CHR ''.'' # b @ S"
    "takeWhile is_ascii_digit (b @ S) = b" "dropWhile is_ascii_digit (b @ S) = S"
    using assms(1) takeWhile_digits [of b S] takeWhile_digits [of a "CHR ''.'' # b @ S"] by auto
  have "number_parts (a @ CHR ''.'' # b @ S) = (a, b, S)"
    unfolding number_parts_def Let_def tw list.case by simp
  with False show ?thesis by simp
qed

lemma is_special_digit: "is_ascii_digit c \<Longrightarrow> \<not> is_special (c # s)"
  by (auto simp: is_special_def py_lower_def py_lower_char_def char_class_defs Let_def)

lemma exponent_letters: "list_all is_ascii_letter S \<Longrightarrow> S \<noteq> [] \<Longrightarrow> exponent_of S = None"
proof (cases S)
  case (Cons c cs)
  assume "list_all is_ascii_letter S"
  with Cons have "split_sign cs = (False, cs)" "list_all is_ascii_digit cs \<Longrightarrow> cs = []"
    using is_letter_not by (cases cs; auto simp: split_sign_def)+
  with Cons show ?thesis by (auto simp: exponent_of_def)
qed simp

lemma decimal_of_canon:
  assumes "list_all is_ascii_letter S"
  shows "decimal_of_text (canon_text neg c k @ S) = (if S = [] then Some (Dec neg c (- int k)) else None)"
    and "numeric_suffix (canon_text neg c k @ S) = (if S = [] then None else Some (canon_text neg c k, S))"
proof -
  let ?T = "canon_text neg c k"
  obtain a b where ab: "?T = (if neg then ''-'' else []) @ a @ (if k = 0 then [] else CHR ''.'' # b)" "a \<noteq> []"
    "list_all is_ascii_digit (a @ b)" "length b = k" "digits_value (a @ b) = c"
    using canon_text_shape by blast
  let ?s = "a @ (if k = 0 then [] else CHR ''.'' # b) @ S"
  note letters_plain [OF assms, of neg c k]
  then have p: "filter (\<lambda>c. c \<noteq> CHR ''_'') (py_strip (?T @ S)) = (if neg then ''-'' else []) @ ?s"
    using plain_strip ab(1) by simp
  have sg: "split_sign ((if neg then ''-'' else []) @ ?s) = (neg, ?s)"
    using split_sign_digits ab by simp
  have np: "number_parts ?s = (a, b, S)" using number_parts_canon [OF ab(3) assms, of k] ab(4) by auto
  have sp: "\<not> is_special ?s" using ab(2,3) is_special_digit by (cases a) auto
  show "decimal_of_text (?T @ S) = (if S = [] then Some (Dec neg c (- int k)) else None)"
    unfolding decimal_of_text_def p sg Let_def prod.case np using sp ab exponent_letters [OF assms]
    by (simp add: exponent_of_def)
  have "?T @ S = (if neg then ''-'' else []) @ ?s" using ab(1) by simp
  then have "split_sign (?T @ S) = (neg, ?s)" using sg by simp
  then show "numeric_suffix (?T @ S) = (if S = [] then None else Some (?T, S))"
    unfolding numeric_suffix_def Let_def using np ab assms by simp
qed

lemma canon_text_last: "is_ascii_digit (last (canon_text neg c k))" "canon_text neg c k \<noteq> []"
  using canon_text_shape [of neg c k] by (auto simp: list_all_iff)

lemma normalize_canon:
  assumes "list_all is_ascii_letter S"
  shows "normalize_fraction (canon_text neg c k @ S) = canon_text neg c k @ S"
proof -
  let ?T = "canon_text neg c k"
  have "code x < 128" if "x \<in> set (?T @ S)" for x
    using that plain_char_not letters_plain [OF assms, of neg c k] unfolding list_all_iff by blast
  then have "concat (map (\<lambda>c. if code c = 189 then ''.5'' else if code c = 188 then ''.25''
      else if code c = 190 then ''.75'' else [c]) s) = s" if "set s \<subseteq> set (?T @ S)" for s
    using that by (induction s) fastforce+
  then have f: "concat (map (\<lambda>c. if code c = 189 then ''.5'' else if code c = 188 then ''.25''
      else if code c = 190 then ''.75'' else [c]) (?T @ S)) = ?T @ S" by blast
  obtain t d where T: "?T = t @ [d]" "is_ascii_digit d"
    using canon_text_last [of neg c k] by (metis append_butlast_last_id)
  then have "\<not> is_ascii_letter d" using is_letter_not by blast
  then have "takeWhile is_ascii_letter (rev (?T @ S)) = rev S"
    using assms T by (subst rev_append, subst takeWhile_append2) (auto simp: list_all_iff)
  moreover have "py_rstrip ?T = ?T" using plain_strip canon_text_plain by blast
  ultimately show ?thesis unfolding normalize_fraction_def Let_def f by simp
qed

lemma ascii_upper_upper: "list_all is_ascii_upper S \<Longrightarrow> ascii_upper S = S"
  by (induction S) (auto simp: ascii_upper_def char_class_defs)

lemma canon_parts:
  assumes "reduced neg c k" and "list_all is_ascii_upper S"
    and "length (canon_text neg c k @ S) \<le> MAX_ISSUE_NUMBER_TEXT_LENGTH"
  shows "issue_number_parts (canon_text neg c k @ S) = Inr (Dec neg c (- int k), canon_text neg c k @ S)"
proof -
  let ?T = "canon_text neg c k"
  have S: "list_all is_ascii_letter S" using assms(2) by (auto simp: list_all_iff is_ascii_letter_def)
  have strip: "py_strip (?T @ S) = ?T @ S" using plain_strip letters_plain [OF S] by blast
  have "canon_of (Dec neg c (- int k)) = (neg, c, k)"
    using assms(1) reduce_id by (auto simp: reduced_def)
  then have f: "format_decimal (Dec neg c (- int k)) = ?T"
    using format_decimal_canon [of "Dec neg c (- int k)"] by simp
  have d: "decimal_of_text ?T = Some (Dec neg c (- int k))"
    using decimal_of_canon(1) [of "[]" neg c k] by simp
  show ?thesis
    unfolding issue_number_parts_def Let_def strip normalize_canon [OF S]
    using assms(3) canon_text_last(2) [of neg c k] decimal_of_canon [OF S, of neg c k] d f
      ascii_upper_upper [OF assms(2)]
    by (cases "S = []") (simp_all add: read_issue_number_def)
qed

lemma ascii_upper_letters: "list_all is_ascii_letter S \<Longrightarrow> list_all is_ascii_upper (ascii_upper S)"
  by (induction S) (auto simp: ascii_upper_def is_ascii_letter_def char_class_defs of_char_of take_bit_nat_def)

lemma read_suffix_upper: "read_issue_number s = Some (d, S) \<Longrightarrow> list_all is_ascii_upper S"
proof (cases "decimal_of_text s")
  case None
  assume "read_issue_number s = Some (d, S)"
  with None obtain n r where "numeric_suffix s = Some (n, r)" "S = ascii_upper r"
    by (auto simp: read_issue_number_def split: option.splits)
  then show ?thesis using ascii_upper_letters
    by (auto simp: numeric_suffix_def Let_def split: if_splits prod.splits)
qed (simp add: read_issue_number_def)

text \<open>What a read issue number looks like\<close>

lemma issue_number_parts_shape:
  assumes "issue_number_parts s = Inr (d, t)"
  shows "\<exists>neg c k S. t = canon_text neg c k @ S \<and> canon_of d = (neg, c, k) \<and> list_all is_ascii_upper S \<and>
    length t \<le> MAX_ISSUE_NUMBER_TEXT_LENGTH"
proof -
  obtain S where "read_issue_number (normalize_fraction (py_strip s)) = Some (d, S)" "d \<noteq> Dec_special"
    "t = format_decimal d @ S" "length t \<le> MAX_ISSUE_NUMBER_TEXT_LENGTH"
    using assms by (auto simp: issue_number_parts_def Let_def split: if_splits option.splits py_decimal.splits)
  moreover from this(1) have "list_all is_ascii_upper S" by (rule read_suffix_upper)
  ultimately show ?thesis using format_decimal_canon [of d] by (cases "canon_of d") auto
qed

definition issue_suffix :: "pystr \<Rightarrow> pystr" where
  "issue_suffix t = rev (takeWhile is_ascii_letter (rev t))"

lemma issue_suffix_canon: "list_all is_ascii_upper S \<Longrightarrow> issue_suffix (canon_text neg c k @ S) = S"
proof -
  assume S: "list_all is_ascii_upper S"
  obtain t d where T: "canon_text neg c k = t @ [d]" "is_ascii_digit d"
    using canon_text_last [of neg c k] by (metis append_butlast_last_id)
  then have "\<not> is_ascii_letter d" using is_letter_not by blast
  then have "takeWhile is_ascii_letter (rev S @ d # rev t) = rev S"
    using S by (subst takeWhile_append2) (auto simp: list_all_iff is_ascii_letter_def)
  with T show ?thesis by (simp add: issue_suffix_def)
qed


lemma sample_issue_numbers:
  "issue_number_parts ''007a'' = Inr (Dec False 7 0, ''7A'')" "issue_number_parts ''+7.0 A'' = Inr (Dec False 70 (- 1), ''7A'')"
  by code_simp+


end
