(* ===== verification/Naming.thy ===== *)
theory Naming
  imports Issue_Numbers
begin

text \<open>
  Folder and file names of the library (\<open>src/src/pullbox/core/naming.py\<close>,
  \<open>src/src/pullbox/core/library_naming.py\<close>): sanitising a name for the file system, rendering the
  series path and the comic file name from their templates, and validating the templates. The
  replacement of a colon is passed as the text the table \<open>_COLON_REPLACEMENTS\<close> gives for the
  configured style (\<open>colon_text\<close> in the functions that read a policy), because the em dash of the
  style \<open>smart\<close> is a code point above 255.
\<close>

subsection \<open>Sanitising\<close>

definition is_illegal_char :: "char \<Rightarrow> bool" where
  "is_illegal_char c \<longleftrightarrow> c \<in> set ''<>:\"/|?*'' \<or> code c = 92 \<or> code c < 32"

definition RESERVED_NAMES :: "pystr list" where
  "RESERVED_NAMES = [''CON'', ''PRN'', ''AUX'', ''NUL''] @
     map (\<lambda>i. ''COM'' @ nat_digits i) [1..<10] @ map (\<lambda>i. ''LPT'' @ nat_digits i) [1..<10]"

definition COLON_REPLACEMENTS :: "(pystr, pystr) dict" where
  "COLON_REPLACEMENTS = [(''dash'', '' -''), (''space'', '' ''), (''empty'', '''')]"

definition is_slash :: "char \<Rightarrow> bool" where
  "is_slash c \<longleftrightarrow> c = CHR ''/'' \<or> code c = 92"

text \<open>The loop of \<open>_replace_slash_separators\<close>: \<open>out\<close> is its output in reverse.\<close>

function slash_loop :: "pystr \<Rightarrow> pystr \<Rightarrow> pystr" where
  "slash_loop out [] = rev out"
| "slash_loop out (c # cs) =
     (if is_slash c then
        (let out1 = dropWhile is_py_space out;
             out2 = (if out1 \<noteq> [] \<and> hd out1 \<noteq> CHR '' '' then CHR '' '' # out1 else out1)
         in slash_loop (CHR '' '' # CHR ''-'' # out2) (dropWhile is_py_space cs))
      else slash_loop (c # out) cs)"
  by pat_completeness auto
termination
  by (relation "measure (\<lambda>(_, s). length s)") (auto simp: length_dropWhile_le le_imp_less_Suc)

definition replace_slash_separators :: "pystr \<Rightarrow> pystr" where
  "replace_slash_separators value = slash_loop [] value"

definition collapse_whitespace :: "pystr \<Rightarrow> pystr" where
  "collapse_whitespace value = join_with CHR '' '' (py_words value)"

definition strip_trailing_separators :: "pystr \<Rightarrow> pystr" where
  "strip_trailing_separators value =
     rstrip_chars ([CHR '' '', CHR ''-''] @ map char_of [9, 13, 10, 12, 11 :: nat]) value"

text \<open>The loop that shortens a long name\<close>

function trim_bytes :: "pystr \<Rightarrow> pystr" where
  "trim_bytes name = (if utf8_len name > 230 \<and> length name > 1 then trim_bytes (butlast name) else name)"
  by pat_completeness auto
termination by (relation "measure length") auto

declare trim_bytes.simps [simp del]

text \<open>Its two halves: the text is cleaned, then made a name that is not reserved nor too long.\<close>

definition clean_name :: "bool \<Rightarrow> pystr \<Rightarrow> pystr \<Rightarrow> pystr" where
  "clean_name replace_illegal colon_repl name =
     rstrip_chars ''. '' (collapse_whitespace
       (if replace_illegal
        then filter (\<lambda>c. \<not> is_illegal_char c) (replace_slash_separators (py_replace '':'' colon_repl name))
        else name))"

definition reserved_stem :: "pystr \<Rightarrow> bool" where
  "reserved_stem n \<longleftrightarrow> py_upper (hd (py_split CHR ''.'' n)) \<in> set RESERVED_NAMES"

definition shorten_name :: "pystr \<Rightarrow> pystr" where
  "shorten_name n = (if utf8_len n > 240 then rstrip_chars ''. '' (trim_bytes n) else n)"

definition sanitize_for_filesystem :: "bool \<Rightarrow> pystr \<Rightarrow> pystr \<Rightarrow> pystr" where
  "sanitize_for_filesystem replace_illegal colon_repl name =
     (if name = [] then ''Unknown''
      else
        (let n = clean_name replace_illegal colon_repl name;
             m = shorten_name (if reserved_stem n then CHR ''_'' # n else n)
         in if m = [] then ''Unknown'' else m))"

subsection \<open>Issue and series types\<close>

definition NAMING_TYPE_DISPLAY_NAMES :: "(pystr, pystr) dict" where
  "NAMING_TYPE_DISPLAY_NAMES =
     [(''issue'', ''''), (''standard'', ''''), (''annual'', ''Annual''), (''tpb'', ''TPB''), (''volume'', ''Vol''),
      (''omnibus'', ''Omnibus''), (''compendium'', ''Compendium''), (''gn'', ''GN''), (''ogn'', ''OGN''),
      (''graphic_novel'', ''GN''), (''hc'', ''HC''), (''hardcover'', ''HC''), (''one_shot'', ''One-Shot''),
      (''special'', ''Special''), (''deluxe'', ''Deluxe'')]"

definition COLLECTION_STYLE_ISSUE_TYPES :: "pystr list" where
  "COLLECTION_STYLE_ISSUE_TYPES = [''tpb'', ''volume'', ''omnibus'', ''compendium'', ''hc'', ''deluxe'']"

definition SINGLE_RELEASE_ISSUE_TYPES :: "pystr list" where
  "SINGLE_RELEASE_ISSUE_TYPES = [''gn'', ''ogn'', ''graphic_novel'', ''one_shot'', ''special'']"

definition type_display :: "pystr \<Rightarrow> pystr" where
  "type_display normalized = (case map_of NAMING_TYPE_DISPLAY_NAMES normalized of
     Some d \<Rightarrow> d | None \<Rightarrow> py_title (py_replace ''_'' '' '' normalized))"

definition series_type_display_name :: "pystr option \<Rightarrow> pystr" where
  "series_type_display_name value = (case value of
     None \<Rightarrow> []
   | Some v \<Rightarrow> (let normalized = py_lower (py_strip v)
       in if v = [] \<or> normalized = [] \<or> normalized = ''standard'' then [] else type_display normalized))"

definition issue_type_display_name :: "pystr \<Rightarrow> pystr" where
  "issue_type_display_name value =
     (let normalized = py_lower (py_strip value)
      in if normalized = [] \<or> normalized = ''issue'' then [] else type_display normalized)"

definition issue_type_supports_volume :: "pystr \<Rightarrow> bool" where
  "issue_type_supports_volume value \<longleftrightarrow> value \<noteq> [] \<and> py_lower (py_strip value) \<in> set COLLECTION_STYLE_ISSUE_TYPES"

definition issue_type_uses_collection_template :: "pystr \<Rightarrow> bool" where
  "issue_type_uses_collection_template value \<longleftrightarrow> issue_type_supports_volume value"

definition issue_type_uses_single_release_template :: "pystr \<Rightarrow> bool" where
  "issue_type_uses_single_release_template value \<longleftrightarrow>
     value \<noteq> [] \<and> py_lower (py_strip value) \<in> set SINGLE_RELEASE_ISSUE_TYPES"

definition normalize_issue_type_for_naming :: "pystr option \<Rightarrow> int option \<Rightarrow> pystr" where
  "normalize_issue_type_for_naming value entry_count = (case value of
     None \<Rightarrow> []
   | Some v \<Rightarrow>
       if v = [] then []
       else
         (let normalized = py_lower (py_strip v)
          in if (case entry_count of None \<Rightarrow> False | Some n \<Rightarrow> n > 1) \<and> normalized \<in> {''tpb'', ''volume''}
             then ''volume'' else normalized))"

subsection \<open>Templates\<close>

definition LEGACY_NON_STANDARD_FILE_TEMPLATE :: pystr where
  "LEGACY_NON_STANDARD_FILE_TEMPLATE = ''{Series} ({Year}) {Type}''"

definition PREVIOUS_DEFAULT_NON_STANDARD_FILE_TEMPLATE :: pystr where
  "PREVIOUS_DEFAULT_NON_STANDARD_FILE_TEMPLATE = ''{Series} ({Year}) {Type} - {Title}''"

definition DEFAULT_COLLECTION_NON_STANDARD_FILE_TEMPLATE :: pystr where
  "DEFAULT_COLLECTION_NON_STANDARD_FILE_TEMPLATE = ''{Series} ({Year}) {Type} {Volume:02d} - {Title}''"

definition DEFAULT_SINGLE_NON_STANDARD_FILE_TEMPLATE :: pystr where
  "DEFAULT_SINGLE_NON_STANDARD_FILE_TEMPLATE = ''{Series} ({Year}) {Type} - {Title}''"

definition resolve_template :: "pystr \<Rightarrow> pystr option \<Rightarrow> pystr" where
  "resolve_template dflt template = (case template of
     None \<Rightarrow> dflt
   | Some t \<Rightarrow>
       (let normalized = py_strip t
        in if normalized = [] \<or> normalized \<in>
             {LEGACY_NON_STANDARD_FILE_TEMPLATE, PREVIOUS_DEFAULT_NON_STANDARD_FILE_TEMPLATE}
           then dflt else normalized))"

definition resolve_collection_non_standard_file_template :: "pystr option \<Rightarrow> pystr" where
  "resolve_collection_non_standard_file_template = resolve_template DEFAULT_COLLECTION_NON_STANDARD_FILE_TEMPLATE"

definition resolve_single_non_standard_file_template :: "pystr option \<Rightarrow> pystr" where
  "resolve_single_non_standard_file_template = resolve_template DEFAULT_SINGLE_NON_STANDARD_FILE_TEMPLATE"

text \<open>\<open>re.sub\<close> of an opening, white space and the closing bracket by nothing\<close>

function remove_empty_brackets :: "char \<Rightarrow> char \<Rightarrow> pystr \<Rightarrow> pystr" where
  "remove_empty_brackets a b [] = []"
| "remove_empty_brackets a b (c # cs) =
     (case dropWhile is_py_space cs of
        d # ds \<Rightarrow> if c = a \<and> d = b then remove_empty_brackets a b ds else c # remove_empty_brackets a b cs
      | [] \<Rightarrow> c # remove_empty_brackets a b cs)"
  by pat_completeness auto
termination
proof (relation "measure (\<lambda>(_, _, s). length s)")
  fix a b c :: char and cs d ds
  assume "dropWhile is_py_space cs = d # ds"
  then show "((a, b, ds), a, b, c # cs) \<in> measure (\<lambda>(_, _, s). length s)"
    using length_dropWhile_le [of is_py_space cs] by simp
qed auto

text \<open>\<open>str(n) if n else "Unknown"\<close>\<close>

definition number_or_unknown :: "int option \<Rightarrow> pystr" where
  "number_or_unknown v = (case v of None \<Rightarrow> ''Unknown'' | Some n \<Rightarrow> if n = 0 then ''Unknown'' else py_str_int n)"

definition text_or_unknown :: "pystr option \<Rightarrow> pystr" where
  "text_or_unknown v = (case v of None \<Rightarrow> ''Unknown'' | Some s \<Rightarrow> if s = [] then ''Unknown'' else s)"

definition format_series_folder ::
  "pystr \<Rightarrow> int option \<Rightarrow> pystr option \<Rightarrow> int option \<Rightarrow> pystr option \<Rightarrow> pystr \<Rightarrow> bool \<Rightarrow> pystr \<Rightarrow> pystr" where
  "format_series_folder title year publisher comicvine_id series_type template replace_illegal colon_repl =
     (let safe = sanitize_for_filesystem replace_illegal colon_repl;
          n1 = py_replace ''{Series}'' (safe title) template;
          n2 = py_replace ''{Year}'' (number_or_unknown year) n1;
          n3 = py_replace ''{Publisher}'' (safe (text_or_unknown publisher)) n2;
          n4 = py_replace ''{ComicVineId}'' (number_or_unknown comicvine_id) n3;
          n5 = py_replace ''{Type}'' (series_type_display_name series_type) n4;
          n6 = remove_empty_brackets CHR ''('' CHR '')'' n5;
          n7 = remove_empty_brackets CHR ''['' CHR '']'' n6
      in safe (collapse_whitespace n7))"

text \<open>The whole part of an issue text padded to three characters with its sign\<close>

definition pad_issue :: "pystr \<Rightarrow> pystr" where
  "pad_issue text =
     (let sign = (case text of c # _ \<Rightarrow> if c = CHR ''+'' \<or> c = CHR ''-'' then [c] else [] | [] \<Rightarrow> []);
          rest = drop (length sign) text;
          digits = takeWhile is_ascii_digit rest
      in if digits = [] then text
         else sign @ pad_left CHR ''0'' (3 - length sign) digits @ drop (length digits) rest)"

text \<open>The issue and the volume of a file name: absent ones are left out together with their marks.\<close>

definition put_issue :: "pystr option \<Rightarrow> pystr \<Rightarrow> (issue_number_error, pystr) result" where
  "put_issue issue name = (case issue of
     Some text \<Rightarrow> bind_result (normalize_issue_number_text text) (\<lambda>issue_text.
       Inr (py_replace ''{Issue}'' issue_text (py_replace ''{Issue:03d}'' (pad_issue issue_text) name)))
   | None \<Rightarrow> Inr (py_replace ''{Issue}'' [] (py_replace ''#{Issue}'' []
       (py_replace ''{Issue:03d}'' [] (py_replace ''#{Issue:03d}'' [] name)))))"

definition two_digits :: "int \<Rightarrow> pystr" where
  "two_digits v = (if v < 0 then CHR ''-'' # pad_left CHR ''0'' 1 (nat_digits (nat (- v)))
     else pad_left CHR ''0'' 2 (nat_digits (nat v)))"

definition put_volume :: "int option \<Rightarrow> pystr \<Rightarrow> pystr" where
  "put_volume volume name = (case volume of
     Some v \<Rightarrow> py_replace ''{Volume}'' (py_str_int v) (py_replace ''{Volume:02d}'' (two_digits v) name)
   | None \<Rightarrow> py_replace ''{Volume}'' [] (py_replace ''v{Volume}'' []
       (py_replace ''{Volume:02d}'' [] (py_replace ''v{Volume:02d}'' [] name))))"

definition format_comic_file ::
  "pystr \<Rightarrow> int option \<Rightarrow> pystr option \<Rightarrow> int option \<Rightarrow> pystr \<Rightarrow> pystr option \<Rightarrow> pystr option \<Rightarrow> pystr \<Rightarrow>
     pystr \<Rightarrow> bool \<Rightarrow> pystr \<Rightarrow> (issue_number_error, pystr) result" where
  "format_comic_file series year issue volume issue_type title publisher template extension replace_illegal colon_repl =
     (let safe = sanitize_for_filesystem replace_illegal colon_repl;
          title_str = (case title of None \<Rightarrow> [] | Some t \<Rightarrow> if t = [] then [] else py_strip (safe t));
          publisher_str = (case publisher of None \<Rightarrow> ''Unknown''
            | Some p \<Rightarrow> if p = [] then ''Unknown'' else py_strip (safe p));
          n1 = py_replace ''{Series}'' (safe series) template;
          n2 = py_replace ''{Year}'' (number_or_unknown year) n1;
          n3 = py_replace ''{Type}'' (issue_type_display_name issue_type) n2;
          n4 = py_replace ''{IssueTitle}'' title_str n3;
          n5 = py_replace ''{Title}'' title_str n4;
          n6 = py_replace ''{Publisher}'' publisher_str n5;
          n7 = py_replace ''{Edition}'' [] n6
      in bind_result (put_issue issue n7) (\<lambda>n8.
           let n9 = collapse_whitespace (put_volume volume n8);
               n10 = py_strip (remove_empty_brackets CHR ''('' CHR '')'' n9);
               n11 = py_strip (remove_empty_brackets CHR ''['' CHR '']'' n10);
               n12 = py_strip (strip_trailing_separators n11)
           in Inr (safe n12 @ CHR ''.'' # extension)))"

subsection \<open>Library paths\<close>

text \<open>A template is read as literal characters and tokens \<open>{Name}\<close>; \<open>finditer\<close> finds the tokens from
  left to right.\<close>

datatype template_part = Lit char | Token pystr

definition token_name :: "pystr \<Rightarrow> bool" where
  "token_name s \<longleftrightarrow> (case s of [] \<Rightarrow> False | c # cs \<Rightarrow>
     (is_ascii_lower c \<or> is_ascii_upper c) \<and> list_all is_ascii_alnum cs)"

text \<open>\<open>{Name}\<close> at the beginning of a text: the name and the rest\<close>

definition token_here :: "pystr \<Rightarrow> (pystr \<times> pystr) option" where
  "token_here s = (case s of
     [] \<Rightarrow> None
   | c # cs \<Rightarrow>
       (let name = takeWhile is_ascii_alnum cs; rest = dropWhile is_ascii_alnum cs
        in if c = CHR ''{'' \<and> token_name name \<and> (case rest of [] \<Rightarrow> False | d # _ \<Rightarrow> d = CHR ''}'')
           then Some (name, tl rest) else None))"

lemma token_here_shorter: "token_here s = Some (name, rest) \<Longrightarrow> length rest < length s"
proof -
  assume t: "token_here s = Some (name, rest)"
  then obtain c cs where s: "s = c # cs" and r: "rest = tl (dropWhile is_ascii_alnum cs)"
    by (auto simp: token_here_def Let_def split: list.splits if_splits)
  have "length (tl (dropWhile is_ascii_alnum cs)) \<le> length cs"
    using length_dropWhile_le [of is_ascii_alnum cs] by simp
  with s r show ?thesis by simp
qed

function template_parts :: "pystr \<Rightarrow> template_part list" where
  "template_parts [] = []"
| "template_parts (c # cs) =
     (case token_here (c # cs) of
        None \<Rightarrow> Lit c # template_parts cs
      | Some (name, rest) \<Rightarrow> Token name # template_parts rest)"
  by pat_completeness auto
termination by (relation "measure length") (use token_here_shorter in fastforce)+

fun token_names :: "template_part list \<Rightarrow> pystr list" where
  "token_names [] = []"
| "token_names (Lit c # ps) = token_names ps"
| "token_names (Token n # ps) = n # token_names ps"

definition stray_brace :: "template_part list \<Rightarrow> bool" where
  "stray_brace ps \<longleftrightarrow> list_ex (\<lambda>p. p = Lit CHR ''{'' \<or> p = Lit CHR ''}'') ps"

datatype naming_error =
    Template_length | Template_not_relative | Template_unsafe_segment | Template_unsupported_token pystr
  | Template_invalid_token | Rendered_separator | Rendered_unsafe | Issue_number issue_number_error

definition SERIES_PATH_TOKENS :: "pystr list" where
  "SERIES_PATH_TOKENS = [''Publisher'', ''Series'', ''Year'', ''ComicVineId'', ''Type'']"

definition dot_segment :: "pystr \<Rightarrow> bool" where
  "dot_segment s \<longleftrightarrow> s = [] \<or> s = ''.'' \<or> s = ''..''"

definition is_backslash :: "char \<Rightarrow> bool" where
  "is_backslash c \<longleftrightarrow> code c = 92"

definition validate_series_path_template :: "pystr \<Rightarrow> (naming_error, pystr list) result" where
  "validate_series_path_template template =
     (let segments = py_split CHR ''/'' template; ps = template_parts template
      in if template = [] \<or> utf8_len template > 1024 then Inl Template_length
         else if is_slash (hd template) \<or> list_ex is_backslash template then Inl Template_not_relative
         else if list_ex dot_segment segments then Inl Template_unsafe_segment
         else (case find (\<lambda>n. n \<notin> set SERIES_PATH_TOKENS) (token_names ps) of
                 Some n \<Rightarrow> Inl (Template_unsupported_token n)
               | None \<Rightarrow> if stray_brace ps then Inl Template_invalid_token else Inr segments))"

text \<open>\<open>{[^{}]+}\<close> at the beginning of a text\<close>

definition no_brace :: "char \<Rightarrow> bool" where
  "no_brace c \<longleftrightarrow> c \<noteq> CHR ''{'' \<and> c \<noteq> CHR ''}''"

definition file_token_here :: "pystr \<Rightarrow> (pystr \<times> pystr) option" where
  "file_token_here s = (case s of
     [] \<Rightarrow> None
   | c # cs \<Rightarrow>
       (let body = takeWhile no_brace cs; rest = dropWhile no_brace cs
        in if c = CHR ''{'' \<and> body \<noteq> [] \<and> (case rest of [] \<Rightarrow> False | d # _ \<Rightarrow> d = CHR ''}'')
           then Some (body, tl rest) else None))"

lemma file_token_here_shorter: "file_token_here s = Some (name, rest) \<Longrightarrow> length rest < length s"
proof -
  assume t: "file_token_here s = Some (name, rest)"
  then obtain c cs where s: "s = c # cs" and r: "rest = tl (dropWhile no_brace cs)"
    by (auto simp: file_token_here_def Let_def split: list.splits if_splits)
  have "length (tl (dropWhile no_brace cs)) \<le> length cs"
    using length_dropWhile_le [of no_brace cs] by simp
  with s r show ?thesis by simp
qed

function file_template_parts :: "pystr \<Rightarrow> template_part list" where
  "file_template_parts [] = []"
| "file_template_parts (c # cs) =
     (case file_token_here (c # cs) of
        None \<Rightarrow> Lit c # file_template_parts cs
      | Some (name, rest) \<Rightarrow> Token name # file_template_parts rest)"
  by pat_completeness auto
termination by (relation "measure length") (use file_token_here_shorter in fastforce)+

text \<open>The tokens are written here without their braces.\<close>

definition FILE_TEMPLATE_TOKENS :: "pystr list" where
  "FILE_TEMPLATE_TOKENS = [''Series'', ''Year'', ''Issue'', ''Issue:03d'', ''Volume'', ''Volume:02d'', ''Type'',
     ''IssueTitle'', ''Title'', ''Publisher'', ''Edition'']"

definition validate_library_file_template :: "pystr \<Rightarrow> (naming_error, unit) result" where
  "validate_library_file_template template =
     (let ps = file_template_parts template
      in if template = [] \<or> utf8_len template > 1024 then Inl Template_length
         else if list_ex (\<lambda>c. is_slash c \<or> code c < 32) template then Inl Template_not_relative
         else (case find (\<lambda>n. n \<notin> set FILE_TEMPLATE_TOKENS) (token_names ps) of
                 Some n \<Rightarrow> Inl (Template_unsupported_token n)
               | None \<Rightarrow> if stray_brace ps then Inl Template_invalid_token else Inr ()))"

text \<open>The policy is the dictionary of its settings, a series and an issue the columns that are read.\<close>

type_synonym naming_policy = "(pystr, pystr) dict"

record naming_series =
  ns_title :: pystr
  ns_year_start :: "int option"
  ns_comicvine_id :: "int option"
  ns_series_type :: "pystr option"
  ns_publisher :: "pystr option"

record naming_issue =
  ni_issue_type :: pystr
  ni_issue_number :: rat
  ni_effective_issue_number_text :: pystr
  ni_title :: "pystr option"

definition policy_value :: "naming_policy \<Rightarrow> pystr \<Rightarrow> pystr \<Rightarrow> pystr" where
  "policy_value policy key dflt = or_else (map_of policy key) dflt"

definition policy_bool :: "naming_policy \<Rightarrow> pystr \<Rightarrow> bool \<Rightarrow> bool" where
  "policy_bool policy key dflt \<longleftrightarrow> py_lower (or_else (map_of policy key) (if dflt then ''true'' else ''false'')) = ''true''"

text \<open>\<open>str(True)\<close> and \<open>x or y\<close> on numbers and texts\<close>

definition py_str_bool :: "bool \<Rightarrow> pystr" where
  "py_str_bool b = (if b then ''True'' else ''False'')"

definition int_or :: "int option \<Rightarrow> int option \<Rightarrow> int option" where
  "int_or x y = (case x of None \<Rightarrow> y | Some n \<Rightarrow> if n = 0 then y else x)"

definition text_or :: "pystr \<Rightarrow> pystr \<Rightarrow> pystr" where
  "text_or x y = (if x = [] then y else x)"

definition build_series_folder_name ::
  "(pystr \<Rightarrow> pystr) \<Rightarrow> naming_series \<Rightarrow> naming_policy \<Rightarrow> pystr option \<Rightarrow> int option \<Rightarrow> pystr" where
  "build_series_folder_name colon_text series policy series_type_override comicvine_id_override =
     format_series_folder (ns_title series) (ns_year_start series) (ns_publisher series)
       (int_or comicvine_id_override (ns_comicvine_id series))
       (case series_type_override of Some t \<Rightarrow> Some t | None \<Rightarrow> ns_series_type series)
       (policy_value policy ''series_folder_template'' ''{Series} ({Year})'')
       (policy_bool policy ''replace_illegal_characters'' True)
       (colon_text (policy_value policy ''colon_replacement'' ''dash''))"

definition build_series_relative_path ::
  "(pystr \<Rightarrow> pystr) \<Rightarrow> naming_series \<Rightarrow> naming_policy \<Rightarrow> pystr option \<Rightarrow> int option \<Rightarrow>
     (naming_error, pystr list) result" where
  "build_series_relative_path colon_text series policy series_type_override comicvine_id_override =
     (let folder_template = policy_value policy ''series_folder_template'' ''{Series} ({Year})'';
          template = text_or (policy_value policy ''series_path_template'' folder_template) folder_template
      in bind_result (validate_series_path_template template) (\<lambda>raw_segments.
           let rendered = map (\<lambda>segment. build_series_folder_name colon_text series
                 [(''series_folder_template'', segment),
                  (''replace_illegal_characters'', py_str_bool (policy_bool policy ''replace_illegal_characters'' True)),
                  (''colon_replacement'', policy_value policy ''colon_replacement'' ''dash'')]
                 series_type_override comicvine_id_override) raw_segments
           in if list_ex (list_ex is_slash) rendered then Inl Rendered_separator
              else if list_ex dot_segment rendered then Inl Rendered_unsafe
              else Inr rendered))"

text \<open>The types with the non-standard template, and the key of the template of a type\<close>

definition NON_STANDARD_ISSUE_TYPES :: "pystr list" where
  "NON_STANDARD_ISSUE_TYPES = [''tpb'', ''omnibus'', ''gn'', ''ogn'', ''hc'', ''one_shot'', ''special'',
     ''deluxe'', ''compendium'', ''volume'']"

definition is_non_standard_issue_type :: "pystr \<Rightarrow> bool" where
  "is_non_standard_issue_type issue_type \<longleftrightarrow> issue_type \<in> set NON_STANDARD_ISSUE_TYPES"

definition template_key_for_issue_type :: "pystr \<Rightarrow> pystr" where
  "template_key_for_issue_type issue_type =
     (if issue_type = ''annual'' then ''annual_file_template''
      else if is_non_standard_issue_type issue_type then
        (if issue_type_uses_collection_template issue_type then ''non_standard_file_template''
         else ''single_non_standard_file_template'')
      else ''comic_file_template'')"

text \<open>\<open>Path(name).suffix\<close>: the last dot and what follows, unless only dots precede it\<close>

definition py_suffix :: "pystr \<Rightarrow> pystr" where
  "py_suffix name =
     (let ext = rev (takeWhile (\<lambda>c. c \<noteq> CHR ''.'') (rev name));
          stem = drop 1 (dropWhile (\<lambda>c. c \<noteq> CHR ''.'') (rev name))
      in if list_ex (\<lambda>c. c \<noteq> CHR ''.'') stem then CHR ''.'' # ext else [])"

definition compute_target_filename ::
  "(pystr \<Rightarrow> pystr) \<Rightarrow> naming_issue \<Rightarrow> naming_series \<Rightarrow> pystr \<Rightarrow> naming_policy \<Rightarrow> pystr option \<Rightarrow>
     (issue_number_error, pystr) result" where
  "compute_target_filename colon_text issue series source_name policy issue_type_override =
     (let extension = lstrip_chars ''.'' (py_suffix source_name);
          issue_type = (case issue_type_override of
            None \<Rightarrow> ni_issue_type issue | Some t \<Rightarrow> text_or t (ni_issue_type issue));
          volume = (if issue_type_supports_volume issue_type \<and> of_int \<lfloor>ni_issue_number issue\<rfloor> = ni_issue_number issue
            then Some \<lfloor>ni_issue_number issue\<rfloor> else None);
          template =
            (if issue_type = ''annual''
             then policy_value policy ''annual_file_template'' ''{Series} ({Year}) Annual #{Issue:03d}''
             else if is_non_standard_issue_type issue_type then
               (if issue_type_uses_collection_template issue_type
                then resolve_collection_non_standard_file_template (map_of policy ''non_standard_file_template'')
                else resolve_single_non_standard_file_template (map_of policy ''single_non_standard_file_template''))
             else policy_value policy ''comic_file_template'' ''{Series} ({Year}) #{Issue:03d}'')
      in format_comic_file (ns_title series) (ns_year_start series)
           (Some (ni_effective_issue_number_text issue)) volume issue_type (ni_title issue) (ns_publisher series)
           template extension (policy_bool policy ''replace_illegal_characters'' True)
           (colon_text (policy_value policy ''colon_replacement'' ''dash'')))"

subsection \<open>Sanitised names\<close>

text \<open>What a name needs to be used as one path component\<close>

definition safe_name :: "pystr \<Rightarrow> bool" where
  "safe_name n \<longleftrightarrow> n \<noteq> [] \<and> tidy n \<and> last n \<noteq> CHR ''.'' \<and> utf8_len n \<le> 240 \<and>
     list_all (\<lambda>c. \<not> is_illegal_char c) n"

lemma slash_illegal: "is_slash c \<Longrightarrow> is_illegal_char c" "is_illegal_char CHR ''/''"
  by (auto simp: is_slash_def is_illegal_char_def)

lemma safe_name_not_dots: "safe_name n \<Longrightarrow> \<not> dot_segment n \<and> CHR ''/'' \<notin> set n \<and> \<not> list_ex is_slash n"
proof -
  assume s: "safe_name n"
  then have "\<not> dot_segment n" by (auto simp: safe_name_def dot_segment_def)
  with s slash_illegal show ?thesis unfolding safe_name_def list_all_iff list_ex_iff by blast
qed

lemma trim_bytes_prefix: "\<exists>q. n = trim_bytes n @ q"
proof (induction n rule: trim_bytes.induct)
  case (1 n)
  show ?case
  proof (cases "utf8_len n > 230 \<and> length n > 1")
    case True
    then obtain q where "butlast n = trim_bytes (butlast n) @ q" using 1 by blast
    moreover have "n = butlast n @ [last n]" using True by (cases n rule: rev_cases) auto
    ultimately have "n = trim_bytes (butlast n) @ q @ [last n]" by (metis append_assoc)
    with True show ?thesis by (subst trim_bytes.simps) auto
  next
    case False
    then show ?thesis by (subst trim_bytes.simps) auto
  qed
qed

lemma trim_bytes_length: "utf8_len (trim_bytes n) \<le> 230"
proof (induction n rule: trim_bytes.induct)
  case (1 n)
  show ?case
  proof (cases "utf8_len n > 230 \<and> length n > 1")
    case False
    then have "utf8_len n \<le> 230" using utf8_len_le [of n] by auto
    with False show ?thesis by (subst trim_bytes.simps) auto
  qed (use 1 in \<open>subst trim_bytes.simps, simp\<close>)
qed

lemma reserved_names_letters: "r \<in> set RESERVED_NAMES \<Longrightarrow> r \<noteq> [] \<and> hd r \<noteq> CHR ''_''"
proof -
  have "list_all (\<lambda>r. r \<noteq> [] \<and> hd r \<noteq> CHR ''_'') RESERVED_NAMES" by code_simp
  then show "r \<in> set RESERVED_NAMES \<Longrightarrow> r \<noteq> [] \<and> hd r \<noteq> CHR ''_''" by (simp add: list_all_iff)
qed

lemma reserved_stem_Nil: "\<not> reserved_stem []"
  using reserved_names_letters [of "[]"] by (auto simp: reserved_stem_def py_upper_def)

lemma underscore_not_reserved: "\<not> reserved_stem (CHR ''_'' # s)"
proof
  assume r: "reserved_stem (CHR ''_'' # s)"
  obtain w ws where "py_split CHR ''.'' s = w # ws" by (cases "py_split CHR ''.'' s") auto
  then have "hd (py_split CHR ''.'' (CHR ''_'' # s)) = CHR ''_'' # w" by simp
  moreover have "py_upper (CHR ''_'' # w) = CHR ''_'' # py_upper w"
    by (simp add: py_upper_def is_lower_letter_def is_ascii_lower_def code_def)
  ultimately show False using r reserved_names_letters [of "CHR ''_'' # py_upper w"] by (simp add: reserved_stem_def)
qed

lemma unknown_safe: "safe_name ''Unknown''" "\<not> reserved_stem ''Unknown''"
proof -
  have "join_with CHR '' '' (py_words ''Unknown'') = ''Unknown''" by code_simp
  then have "tidy ''Unknown''" by (simp add: tidy_iff)
  moreover have "list_all (\<lambda>c. \<not> is_illegal_char c) ''Unknown''" "utf8_len ''Unknown'' \<le> 240" by code_simp+
  ultimately show "safe_name ''Unknown''" unfolding safe_name_def by simp
  show "\<not> reserved_stem ''Unknown''" by code_simp
qed

lemma not_illegal_space: "\<not> is_illegal_char CHR '' ''" "\<not> is_illegal_char CHR ''_''"
  by (simp_all add: is_illegal_char_def code_def)

definition clean :: "pystr \<Rightarrow> bool" where
  "clean n \<longleftrightarrow> tidy n \<and> (n = [] \<or> last n \<noteq> CHR ''.'') \<and> list_all (\<lambda>c. \<not> is_illegal_char c) n"

lemma safe_name_iff: "safe_name n \<longleftrightarrow> clean n \<and> n \<noteq> [] \<and> utf8_len n \<le> 240"
  by (auto simp: safe_name_def clean_def)

lemma clean_name_clean: "clean (clean_name True repl name)"
proof -
  let ?n1 = "filter (\<lambda>c. \<not> is_illegal_char c) (replace_slash_separators (py_replace '':'' repl name))"
  have "list_all (\<lambda>c. \<not> is_illegal_char c) (collapse_whitespace ?n1)"
    using set_collapse [of ?n1] not_illegal_space by (auto simp: collapse_whitespace_def list_all_iff)
  then have "list_all (\<lambda>c. \<not> is_illegal_char c) (rstrip_chars ''. '' (collapse_whitespace ?n1))"
    using set_rstrip unfolding list_all_iff by blast
  moreover have "tidy (rstrip_chars ''. '' (collapse_whitespace ?n1))"
    by (intro tidy_rstrip) (simp_all add: collapse_whitespace_def)
  ultimately show ?thesis
    using rstrip_last [of "''. ''" "collapse_whitespace ?n1"] by (auto simp: clean_def clean_name_def)
qed

lemma clean_prefix: "clean (m @ q) \<Longrightarrow> m = [] \<or> last m \<notin> set ''. '' \<Longrightarrow> clean m"
  using tidy_prefix [of m q] by (auto simp: clean_def)

lemma shorten_prefix: "\<exists>q. n = shorten_name n @ q"
  using trim_bytes_prefix [of n] rstrip_prefix [of "trim_bytes n" "''. ''"]
  by (metis append.assoc append_Nil2 shorten_name_def)

lemma shorten_clean: "clean n \<Longrightarrow> clean (shorten_name n) \<and> utf8_len (shorten_name n) \<le> 240"
proof -
  assume c: "clean n"
  obtain q where "n = shorten_name n @ q" using shorten_prefix by blast
  moreover have "shorten_name n = [] \<or> last (shorten_name n) \<notin> set ''. '' \<or> shorten_name n = n"
    using rstrip_last [of "''. ''" "trim_bytes n"] by (auto simp: shorten_name_def)
  moreover have "utf8_len (shorten_name n) \<le> 240"
    using utf8_rstrip [of "''. ''" "trim_bytes n"] trim_bytes_length [of n] by (auto simp: shorten_name_def)
  ultimately show ?thesis using c clean_prefix by metis
qed

lemma clean_underscore: "clean n \<Longrightarrow> n \<noteq> [] \<Longrightarrow> clean (CHR ''_'' # n)"
  using tidy_Cons [of n "CHR ''_''"] not_illegal_space
  by (auto simp: clean_def is_py_space_def code_def)

lemma sanitize_safe: "safe_name (sanitize_for_filesystem True repl name)"
proof -
  let ?n = "clean_name True repl name"
  have "clean (if reserved_stem ?n then CHR ''_'' # ?n else ?n)"
    using clean_name_clean clean_underscore reserved_stem_Nil by metis
  then show ?thesis
    using shorten_clean unknown_safe(1) by (auto simp: sanitize_for_filesystem_def Let_def safe_name_iff)
qed

lemma slash_loop_id: "list_all (\<lambda>c. \<not> is_illegal_char c) s \<Longrightarrow> slash_loop out s = rev out @ s"
  by (induction s arbitrary: out) (auto simp: is_slash_def is_illegal_char_def)

lemma py_replace_absent: "c \<notin> set s \<Longrightarrow> py_replace [c] new s = s"
  by (induction s) auto

lemma clean_name_fixed: "clean n \<Longrightarrow> clean_name True repl n = n"
proof -
  assume c: "clean n"
  then have i: "list_all (\<lambda>c. \<not> is_illegal_char c) n" by (simp add: clean_def)
  then have "CHR '':'' \<notin> set n" by (auto simp: list_all_iff is_illegal_char_def)
  then have "filter (\<lambda>c. \<not> is_illegal_char c) (replace_slash_separators (py_replace '':'' repl n)) = n"
    using i by (simp add: py_replace_absent replace_slash_separators_def slash_loop_id)
      (auto simp: list_all_iff filter_id_conv)
  moreover have "collapse_whitespace n = n" using c by (simp add: clean_def tidy_iff collapse_whitespace_def)
  moreover have "rstrip_chars ''. '' n = n"
    using c tidy_last [of n] by (intro rstrip_id) (auto simp: clean_def)
  ultimately show ?thesis by (simp add: clean_name_def)
qed

lemma safe_name_fixed: "safe_name n \<Longrightarrow> sanitize_for_filesystem True repl n = n \<longleftrightarrow> \<not> reserved_stem n"
proof -
  assume s: "safe_name n"
  then have c: "clean_name True repl n = n" using clean_name_fixed by (simp add: safe_name_iff)
  show ?thesis
  proof (cases "reserved_stem n")
    case True
    let ?m = "shorten_name (CHR ''_'' # n)"
    have e: "sanitize_for_filesystem True repl n = (if ?m = [] then ''Unknown'' else ?m)"
      using s c True by (simp add: sanitize_for_filesystem_def Let_def safe_name_def)
    obtain q where "CHR ''_'' # n = ?m @ q" using shorten_prefix by blast
    then have "?m = [] \<or> (\<exists>m. ?m = CHR ''_'' # m)" by (cases ?m) auto
    then have "\<not> reserved_stem (sanitize_for_filesystem True repl n)"
      using underscore_not_reserved unknown_safe(2) unfolding e by auto
    with True show ?thesis by auto
  next
    case False
    with s c show ?thesis
      by (simp add: sanitize_for_filesystem_def Let_def safe_name_def shorten_name_def)
  qed
qed


subsection \<open>Paths inside the library\<close>

definition path_component :: "pystr \<Rightarrow> bool" where
  "path_component s \<longleftrightarrow> \<not> dot_segment s \<and> \<not> list_ex is_slash s"

definition sample_series :: naming_series where
  "sample_series = \<lparr>ns_title = ''A/B'', ns_year_start = Some 1963, ns_comicvine_id = None, ns_series_type = None,
     ns_publisher = Some ''Co: Ltd.''\<rparr>"

definition sample_issue :: naming_issue where
  "sample_issue = \<lparr>ni_issue_type = ''issue'', ni_issue_number = 1, ni_effective_issue_number_text = ''1'',
     ni_title = Some ''../../x''\<rparr>"

lemma validate_series_template_segments:
  "validate_series_path_template template = Inr segs \<Longrightarrow> segs = py_split CHR ''/'' template"
  by (auto simp: validate_series_path_template_def Let_def split: if_splits option.splits)

text \<open>The policy of one segment has the template of the segment and the flags of the policy.\<close>

lemma folder_name_safe:
  "policy_bool policy ''replace_illegal_characters'' True \<Longrightarrow>
    safe_name (build_series_folder_name colon_text series
      [(''series_folder_template'', segment),
       (''replace_illegal_characters'', py_str_bool (policy_bool policy ''replace_illegal_characters'' True)),
       (''colon_replacement'', colon)] t c)"
proof -
  assume "policy_bool policy ''replace_illegal_characters'' True"
  moreover have "py_lower (py_str_bool True) = ''true''" by code_simp
  ultimately have "policy_bool [(''series_folder_template'', segment),
      (''replace_illegal_characters'', py_str_bool (policy_bool policy ''replace_illegal_characters'' True)),
      (''colon_replacement'', colon)] ''replace_illegal_characters'' True"
    by (simp add: policy_bool_def [of "_ # _"])
  then show ?thesis using sanitize_safe
    by (simp add: build_series_folder_name_def format_series_folder_def Let_def)
qed

text \<open>A rendered series path stays below the library root: it has one segment for each segment of the
  template, and whatever the metadata, none is empty, a dot segment or contains a separator. With
  the replacement of illegal characters switched on every segment is a safe name and only the
  template decides whether rendering succeeds.\<close>

theorem series_path_contained:
  assumes "validate_series_path_template (text_or (policy_value policy ''series_path_template''
      (policy_value policy ''series_folder_template'' ''{Series} ({Year})''))
      (policy_value policy ''series_folder_template'' ''{Series} ({Year})'')) = Inr template"
  shows "(case build_series_relative_path colon_text series policy t c of
      Inr segments \<Rightarrow> segments \<noteq> [] \<and> length segments = length template \<and> list_all path_component segments
    | Inl e \<Rightarrow> e \<in> {Rendered_separator, Rendered_unsafe} \<and>
        \<not> policy_bool policy ''replace_illegal_characters'' True)"
proof -
  let ?safe = "\<lambda>segment. build_series_folder_name colon_text series
      [(''series_folder_template'', segment),
       (''replace_illegal_characters'', py_str_bool (policy_bool policy ''replace_illegal_characters'' True)),
       (''colon_replacement'', policy_value policy ''colon_replacement'' ''dash'')] t c"
  have ne: "template \<noteq> []" using validate_series_template_segments [OF assms] by simp
  have b: "build_series_relative_path colon_text series policy t c =
      (if list_ex (list_ex is_slash) (map ?safe template) then Inl Rendered_separator
       else if list_ex dot_segment (map ?safe template) then Inl Rendered_unsafe else Inr (map ?safe template))"
    unfolding build_series_relative_path_def Let_def assms bind_result_simps by (rule refl)
  have "\<not> list_ex (list_ex is_slash) (map ?safe template) \<and> \<not> list_ex dot_segment (map ?safe template)"
    if "policy_bool policy ''replace_illegal_characters'' True"
  proof -
    have "\<not> list_ex is_slash (?safe s) \<and> \<not> dot_segment (?safe s)" for s
      using safe_name_not_dots [OF folder_name_safe [OF that]] by blast
    then show ?thesis by (simp add: list_ex_iff [of _ "map _ _"])
  qed
  moreover have "list_all path_component (map ?safe template)"
    if "\<not> list_ex (list_ex is_slash) (map ?safe template)" "\<not> list_ex dot_segment (map ?safe template)"
    using that by (auto simp: list_all_iff list_ex_iff path_component_def)
  ultimately show ?thesis unfolding b using ne by auto
qed

theorem series_path_contained_witness:
  "is_ok (build_series_relative_path (\<lambda>k. or_else (map_of COLON_REPLACEMENTS k) '' -'') sample_series
     [(''series_path_template'', ''{Publisher}/{Series} ({Year})'')] None None)"
proof -
  have "validate_series_path_template ''{Publisher}/{Series} ({Year})'' = Inr [''{Publisher}'', ''{Series} ({Year})'']"
    by code_simp
  moreover have "policy_bool [(''series_path_template'', ''{Publisher}/{Series} ({Year})'')] ''replace_illegal_characters'' True"
    by code_simp
  ultimately show ?thesis
    using series_path_contained [of "[(''series_path_template'', ''{Publisher}/{Series} ({Year})'')]"
        "[''{Publisher}'', ''{Series} ({Year})'']" "\<lambda>k. or_else (map_of COLON_REPLACEMENTS k) '' -''" sample_series None None]
    by (auto simp: policy_value_def text_or_def is_ok_def split: sum.splits)
qed

text \<open>With the replacement of illegal characters switched on, the file name computed for an issue is one
  path component, for every template and all metadata.\<close>

theorem target_filename_contained:
  assumes "compute_target_filename colon_text issue series source_name policy t = Inr name"
    and "policy_bool policy ''replace_illegal_characters'' True" and "\<not> list_ex is_slash source_name"
  shows "path_component name"
proof -
  obtain n ext where n: "name = sanitize_for_filesystem True (colon_text (policy_value policy ''colon_replacement'' ''dash'')) n
      @ CHR ''.'' # ext" and ext: "ext = lstrip_chars ''.'' (py_suffix source_name)"
    using assms(1,2) by (auto simp: compute_target_filename_def format_comic_file_def Let_def)
  let ?s = "sanitize_for_filesystem True (colon_text (policy_value policy ''colon_replacement'' ''dash'')) n"
  have s: "safe_name ?s" by (rule sanitize_safe)
  have "set ext \<subseteq> insert CHR ''.'' (set source_name)"
    unfolding ext lstrip_chars_def py_suffix_def Let_def
    by (auto dest!: set_dropWhileD set_takeWhileD)
  moreover have dot: "\<not> is_slash CHR ''.''" by (simp add: is_slash_def code_def)
  ultimately have "\<not> list_ex is_slash ext" using assms(3) unfolding list_ex_iff by blast
  with safe_name_not_dots [OF s] dot have "\<not> list_ex is_slash name" by (simp add: n)
  moreover have "\<not> dot_segment name"
  proof
    assume "dot_segment name"
    then have "set name \<subseteq> {CHR ''.''}" by (auto simp: dot_segment_def)
    moreover have "last ?s \<in> set name" and "last ?s \<noteq> CHR ''.''"
      using s by (simp_all add: safe_name_def n)
    ultimately show False by blast
  qed
  ultimately show ?thesis by (simp add: path_component_def)
qed

theorem target_filename_contained_witness:
  "path_component ''A - B (1963) #001.cbz''"
proof (rule target_filename_contained)
  show "compute_target_filename (\<lambda>_. '' -'') sample_issue sample_series ''x.cbz'' [] None = Inr ''A - B (1963) #001.cbz''"
    by code_simp
  show "policy_bool [] ''replace_illegal_characters'' True" by code_simp
  show "\<not> list_ex is_slash ''x.cbz''" by code_simp
qed

text \<open>With the replacement switched off the file name of an issue is not checked: its title can lead out of
  the folder, as \<open>predict_library_target_path\<close> appends the name to the series folder as it is.\<close>

lemma unreplaced_title_escapes:
  "compute_target_filename (\<lambda>_. '' -'') sample_issue sample_series ''x.cbz''
     [(''replace_illegal_characters'', ''false''), (''comic_file_template'', ''{Title}'')] None = Inr ''../../x.cbz''"
  by code_simp

end
