(* ===== verification/Story_Arc_Naming.thy ===== *)
theory Story_Arc_Naming
  imports Naming
begin

text \<open>
  The relative path of a story-arc placement (\<open>src/src/pullbox/core/story_arc_naming.py\<close>): templates
  of data-only tokens, a sanitised folder and file name, and the option to keep the original
  file name. \<open>Path(folder, file)\<close> is the pair of its two segments.
\<close>

subsection \<open>Templates\<close>

definition DEFAULT_STORY_ARC_FOLDER_TEMPLATE :: pystr where
  "DEFAULT_STORY_ARC_FOLDER_TEMPLATE = ''{StoryArc}''"

definition DEFAULT_STORY_ARC_FILE_TEMPLATE :: pystr where
  "DEFAULT_STORY_ARC_FILE_TEMPLATE = ''{ReadingOrder:03d} - {Series} {IssueNumber}{IssueTitleOptional}''"

definition ORIGINAL_TOKEN :: pystr where "ORIGINAL_TOKEN = ''{OriginalFilename}''"

datatype arc_part = Arc_lit char | Arc_token pystr "pystr option"

text \<open>\<open>_TOKEN_RE\<close> at the beginning of a text: name, format and the rest\<close>

definition arc_token_here :: "pystr \<Rightarrow> (pystr \<times> pystr option \<times> pystr) option" where
  "arc_token_here s = (case s of
     [] \<Rightarrow> None
   | c # cs \<Rightarrow>
       (let name = takeWhile is_ascii_alnum cs
        in if c \<noteq> CHR ''{'' \<or> \<not> token_name name then None
           else (case dropWhile is_ascii_alnum cs of
                   [] \<Rightarrow> None
                 | d # ds \<Rightarrow>
                     if d = CHR ''}'' then Some (name, None, ds)
                     else if d = CHR '':'' then
                       (let spec = takeWhile no_brace ds
                        in case dropWhile no_brace ds of
                             [] \<Rightarrow> None
                           | e # es \<Rightarrow> if spec \<noteq> [] \<and> e = CHR ''}'' then Some (name, Some spec, es) else None)
                     else None)))"

lemma arc_token_here_cases:
  assumes "arc_token_here s = Some (name, spec, rest)"
  obtains "s = CHR ''{'' # name @ CHR ''}'' # rest" "spec = None" "token_name name" "list_all is_ascii_alnum name"
  | f where "s = CHR ''{'' # name @ CHR '':'' # f @ CHR ''}'' # rest" "spec = Some f" "token_name name"
      "list_all is_ascii_alnum name" "f \<noteq> []" "list_all no_brace f"
proof -
  from assms obtain cs where s: "s = CHR ''{'' # cs" and n: "name = takeWhile is_ascii_alnum cs" "token_name name"
    by (auto simp: arc_token_here_def Let_def split: list.splits if_splits)
  have w: "cs = name @ dropWhile is_ascii_alnum cs" using n by simp
  have a: "list_all is_ascii_alnum name" using n(1) by (auto simp: list_all_iff dest: set_takeWhileD)
  obtain d ds where d: "dropWhile is_ascii_alnum cs = d # ds"
    using assms s n by (auto simp: arc_token_here_def Let_def split: list.splits)
  show ?thesis
  proof (cases "d = CHR ''}''")
    case True
    then have "spec = None" "rest = ds" using assms s n d by (auto simp: arc_token_here_def Let_def)
    then show ?thesis using that(1) s w d True n a by simp
  next
    case False
    define f where "f = takeWhile no_brace ds"
    obtain e es where e: "dropWhile no_brace ds = e # es"
      using assms s n d False by (auto simp: arc_token_here_def Let_def split: if_splits list.splits)
    have "d = CHR '':'' \<and> spec = Some f \<and> f \<noteq> [] \<and> e = CHR ''}'' \<and> rest = es"
      using assms s n d e False by (auto simp: arc_token_here_def Let_def f_def split: if_splits)
    moreover have "ds = f @ e # es" unfolding f_def using e by (metis takeWhile_dropWhile_id)
    moreover have "list_all no_brace f" unfolding f_def by (auto simp: list_all_iff dest: set_takeWhileD)
    ultimately show ?thesis using that(2) s w d n a by simp
  qed
qed

lemma arc_token_here_shorter: "arc_token_here s = Some (name, spec, rest) \<Longrightarrow> length rest < length s"
  by (erule arc_token_here_cases) simp_all

function arc_parts :: "pystr \<Rightarrow> arc_part list" where
  "arc_parts [] = []"
| "arc_parts (c # cs) =
     (case arc_token_here (c # cs) of
        None \<Rightarrow> Arc_lit c # arc_parts cs
      | Some (name, spec, rest) \<Rightarrow> Arc_token name spec # arc_parts rest)"
  by pat_completeness auto
termination by (relation "measure length") (use arc_token_here_shorter in fastforce)+

fun arc_tokens :: "arc_part list \<Rightarrow> (pystr \<times> pystr option) list" where
  "arc_tokens [] = []"
| "arc_tokens (Arc_lit c # ps) = arc_tokens ps"
| "arc_tokens (Arc_token n f # ps) = (n, f) # arc_tokens ps"

datatype arc_naming_error =
    Arc_template_length | Arc_template_segment | Arc_unsupported_token pystr | Arc_invalid_token
  | Arc_original_token | Arc_order_format | Arc_no_format pystr | Arc_negative_order | Arc_issue_number
  | Arc_extension | Arc_unsafe | Arc_original_filename | Arc_key_error pystr

definition is_control_char :: "char \<Rightarrow> bool" where
  "is_control_char c \<longleftrightarrow> code c < 32 \<or> code c = 127"

definition validate_template :: "pystr \<Rightarrow> pystr list \<Rightarrow> (arc_naming_error, (pystr \<times> pystr option) list) result" where
  "validate_template template allowed =
     (let ps = arc_parts template; ts = arc_tokens ps
      in if template = [] \<or> utf8_len template > 1024 then Inl Arc_template_length
         else if list_ex (\<lambda>c. is_slash c \<or> is_control_char c) template then Inl Arc_template_segment
         else (case find (\<lambda>n. n \<notin> set allowed) (map fst ts) of
                 Some n \<Rightarrow> Inl (Arc_unsupported_token n)
               | None \<Rightarrow>
                   if list_ex (\<lambda>p. p = Arc_lit CHR ''{'' \<or> p = Arc_lit CHR ''}'') ps then Inl Arc_invalid_token
                   else Inr ts))"

definition FOLDER_TOKENS :: "pystr list" where
  "FOLDER_TOKENS = [''StoryArc'', ''Publisher'', ''StartYear'', ''EndYear'', ''SpanYears'']"

definition FILE_TOKENS :: "pystr list" where
  "FILE_TOKENS = [''ReadingOrder'', ''Series'', ''IssueNumber'', ''IssueTitle'', ''IssueTitleOptional'', ''Year'',
     ''Extension'', ''OriginalFilename'']"

text \<open>\<open>0?[2-6]d\<close>: the padding character and the width\<close>

definition order_format :: "pystr \<Rightarrow> (char \<times> nat) option" where
  "order_format spec =
     (let (pad, s) = (case spec of c # cs \<Rightarrow> if c = CHR ''0'' then (CHR ''0'', cs) else (CHR '' '', spec) | [] \<Rightarrow> (CHR '' '', spec))
      in case s of
           w # s1 \<Rightarrow> if 50 \<le> code w \<and> code w \<le> 54 \<and> s1 = ''d'' then Some (pad, code w - 48) else None
         | [] \<Rightarrow> None)"

definition validate_story_arc_folder_template :: "pystr \<Rightarrow> (arc_naming_error, unit) result" where
  "validate_story_arc_folder_template template = bind_result (validate_template template FOLDER_TOKENS) (\<lambda>_. Inr ())"

fun check_formats :: "(pystr \<times> pystr option) list \<Rightarrow> (arc_naming_error, unit) result" where
  "check_formats [] = Inr ()"
| "check_formats ((name, spec) # ts) =
     (if name = ''ReadingOrder'' then
        (case spec of
           Some f \<Rightarrow> if order_format f = None then Inl Arc_order_format else check_formats ts
         | None \<Rightarrow> check_formats ts)
      else if spec \<noteq> None then Inl (Arc_no_format name)
      else check_formats ts)"

definition validate_story_arc_file_template :: "pystr \<Rightarrow> (arc_naming_error, unit) result" where
  "validate_story_arc_file_template template =
     bind_result (validate_template template FILE_TOKENS) (\<lambda>tokens.
       let names = map fst tokens
       in if ''OriginalFilename'' \<in> set names \<and>
             (count_list names ''OriginalFilename'' \<noteq> 1 \<or> ''Extension'' \<in> set names \<or> \<not> ends_with ORIGINAL_TOKEN template)
          then Inl Arc_original_token
          else check_formats tokens)"

subsection \<open>Rendering\<close>

record arc_values =
  av_story_arc :: pystr
  av_reading_order :: int
  av_series :: pystr
  av_issue_number :: pystr
  av_extension :: pystr
  av_issue_title :: "pystr option"
  av_year :: "int option"
  av_start_year :: "int option"
  av_end_year :: "int option"
  av_publisher :: "pystr option"
  av_original_filename :: "pystr option"

text \<open>\<open>format\<close> of a reading order that is not negative\<close>

definition format_order :: "int \<Rightarrow> pystr option \<Rightarrow> pystr" where
  "format_order n spec = (case spec of
     None \<Rightarrow> py_str_int n
   | Some f \<Rightarrow> (case order_format f of None \<Rightarrow> py_str_int n | Some (pad, w) \<Rightarrow> pad_left pad w (py_str_int n)))"

fun render_parts :: "arc_part list \<Rightarrow> (pystr, pystr) dict \<Rightarrow> int \<Rightarrow> (arc_naming_error, pystr) result" where
  "render_parts [] values n = Inr []"
| "render_parts (Arc_lit c # ps) values n = bind_result (render_parts ps values n) (\<lambda>s. Inr (c # s))"
| "render_parts (Arc_token name spec # ps) values n =
     (if name = ''ReadingOrder''
      then bind_result (render_parts ps values n) (\<lambda>s. Inr (format_order n spec @ s))
      else (case map_of values name of
              None \<Rightarrow> Inl (Arc_key_error name)
            | Some v \<Rightarrow> bind_result (render_parts ps values n) (\<lambda>s. Inr (v @ s))))"

definition render_template :: "pystr \<Rightarrow> (pystr, pystr) dict \<Rightarrow> int \<Rightarrow> (arc_naming_error, pystr) result" where
  "render_template template values n = render_parts (arc_parts template) values n"

definition re_fullmatch :: "rx \<Rightarrow> pystr \<Rightarrow> bool" where
  "re_fullmatch r s \<longleftrightarrow> list_ex (\<lambda>e. snd e = []) (rx_ends r (None, s))"

definition WINDOWS_DEVICE_NAME_RE :: rx where
  "WINDOWS_DEVICE_NAME_RE =
     rx_alts (map rx_lit [''CON'', ''PRN'', ''AUX'', ''NUL'', ''CONIN$'', ''CONOUT$''] @
       [rx_seq [rx_alts (map rx_lit [''COM'', ''LPT'']),
          RChar (\<lambda>c. (49 \<le> code c \<and> code c \<le> 57) \<or> code c \<in> {185, 178, 179})]])"

text \<open>\<open>PureWindowsPath(filename).name == filename\<close>: no separator, no drive, not the current directory\<close>

definition is_windows_name :: "pystr \<Rightarrow> bool" where
  "is_windows_name s \<longleftrightarrow> \<not> list_ex is_slash s \<and> (case s of _ # c # _ \<Rightarrow> c \<noteq> CHR '':'' | _ \<Rightarrow> True) \<and> s \<noteq> ''.''"

definition validated_original_filename :: "pystr option \<Rightarrow> pystr \<Rightarrow> (arc_naming_error, pystr) result" where
  "validated_original_filename filename extension =
     (case filename of
        None \<Rightarrow> Inl Arc_original_filename
      | Some f \<Rightarrow>
          (let normalized_spaces = collapse_whitespace f
           in if f = [] \<or> utf8_len f > 240 \<or> \<not> is_windows_name f
                \<or> list_ex (\<lambda>c. code c < 32 \<or> (127 \<le> code c \<and> code c \<le> 159)) f
                \<or> last f = CHR ''.'' \<or> last f = CHR '' ''
                \<or> re_fullmatch WINDOWS_DEVICE_NAME_RE (rstrip_chars '' '' (hd (py_split CHR ''.'' f)))
                \<or> sanitize_for_filesystem True '' -'' normalized_spaces \<noteq> normalized_spaces
                \<or> py_casefold (py_suffix f) \<noteq> CHR ''.'' # extension
              then Inl Arc_original_filename else Inr f))"

definition optional_year :: "int option \<Rightarrow> pystr" where
  "optional_year y = (case y of None \<Rightarrow> [] | Some n \<Rightarrow> py_str_int n)"

definition optional_text :: "(pystr \<Rightarrow> pystr) \<Rightarrow> pystr option \<Rightarrow> pystr" where
  "optional_text f t = (case t of None \<Rightarrow> [] | Some s \<Rightarrow> if s = [] then [] else f s)"

definition folder_values :: "(pystr \<Rightarrow> pystr) \<Rightarrow> arc_values \<Rightarrow> (pystr, pystr) dict" where
  "folder_values safe v =
     (let start_year = optional_year (av_start_year v); end_year = optional_year (av_end_year v);
          span_years = (if start_year \<noteq> [] \<and> end_year \<noteq> [] \<and> start_year \<noteq> end_year
            then start_year @ '' - '' @ end_year else if start_year \<noteq> [] then start_year else end_year)
      in [(''StoryArc'', safe (av_story_arc v)), (''Publisher'', optional_text safe (av_publisher v)),
          (''StartYear'', start_year), (''EndYear'', end_year), (''SpanYears'', span_years)])"

definition file_values :: "(pystr \<Rightarrow> pystr) \<Rightarrow> arc_values \<Rightarrow> pystr \<Rightarrow> pystr \<Rightarrow> (pystr, pystr) dict" where
  "file_values safe v issue_number extension =
     [(''Series'', safe (av_series v)), (''IssueNumber'', safe issue_number),
      (''IssueTitle'', optional_text safe (av_issue_title v)),
      (''IssueTitleOptional'', optional_text (\<lambda>t. '' - '' @ safe t) (av_issue_title v)),
      (''Year'', optional_year (av_year v)), (''Extension'', extension)]"

definition remove_suffix :: "pystr \<Rightarrow> pystr \<Rightarrow> pystr" where
  "remove_suffix p s = (if ends_with p s then take (length s - length p) s else s)"

text \<open>The file segment, with the original file name or without\<close>

definition file_segment ::
  "(pystr \<Rightarrow> pystr) \<Rightarrow> arc_values \<Rightarrow> pystr \<Rightarrow> (pystr, pystr) dict \<Rightarrow> pystr \<Rightarrow> (arc_naming_error, pystr) result" where
  "file_segment safe v file_template vals extension =
     (if py_contains ORIGINAL_TOKEN file_template then
        bind_result (validated_original_filename (av_original_filename v) extension) (\<lambda>original.
        bind_result (render_template (remove_suffix ORIGINAL_TOKEN file_template) vals (av_reading_order v)) (\<lambda>prefix.
        let safe_prefix = butlast (safe (prefix @ ''x''))
        in validated_original_filename (Some (safe_prefix @ original)) extension))
      else
        bind_result (render_template file_template vals (av_reading_order v)) (\<lambda>rendered.
        Inr (safe (if py_contains ''{Extension}'' file_template then rendered
          else rendered @ CHR ''.'' # extension))))"

definition render_story_arc_relative_path ::
  "arc_values \<Rightarrow> pystr \<Rightarrow> pystr \<Rightarrow> bool \<Rightarrow> pystr \<Rightarrow> (arc_naming_error, pystr \<times> pystr) result" where
  "render_story_arc_relative_path v folder_template file_template replace_illegal colon_repl =
     bind_result (validate_story_arc_folder_template folder_template) (\<lambda>_.
     bind_result (validate_story_arc_file_template file_template) (\<lambda>_.
       let issue_number = py_strip (av_issue_number v);
           extension = py_lower (lstrip_chars ''.'' (py_strip (av_extension v)));
           safe = sanitize_for_filesystem replace_illegal colon_repl
       in if av_reading_order v < 0 then Inl Arc_negative_order
          else if issue_number = [] \<or> list_ex is_control_char issue_number then Inl Arc_issue_number
          else if extension = [] \<or> length extension > 10 \<or>
            \<not> list_all (\<lambda>c. is_ascii_lower c \<or> is_ascii_digit c) extension then Inl Arc_extension
          else
            bind_result (render_template folder_template (folder_values safe v) (av_reading_order v)) (\<lambda>folder.
            bind_result (file_segment safe v file_template (file_values safe v issue_number extension) extension)
              (\<lambda>safe_file.
              let safe_folder = safe folder
              in if dot_segment safe_folder \<or> dot_segment safe_file then Inl Arc_unsafe
                 else Inr (safe_folder, safe_file)))))"

subsection \<open>Reading templates\<close>

lemma not_alnum: "\<not> is_ascii_alnum CHR ''{''" "\<not> is_ascii_alnum CHR ''}''" "\<not> is_ascii_alnum CHR '':''"
  by (simp_all add: char_class_defs)

lemma takeWhile_app: "list_all P xs \<Longrightarrow> \<not> P y \<Longrightarrow> takeWhile P (xs @ y # ys) = xs \<and> dropWhile P (xs @ y # ys) = y # ys"
  by (induction xs) auto

lemma arc_token_plain:
  assumes "token_name name" and "list_all is_ascii_alnum name"
  shows "arc_token_here (CHR ''{'' # name @ CHR ''}'' # rest) = Some (name, None, rest)"
  using assms takeWhile_app [OF assms(2) not_alnum(2), of rest] by (simp add: arc_token_here_def)

lemma arc_token_format:
  assumes "token_name name" and "list_all is_ascii_alnum name" and "f \<noteq> []" and "list_all no_brace f"
  shows "arc_token_here (CHR ''{'' # name @ CHR '':'' # f @ CHR ''}'' # rest) = Some (name, Some f, rest)"
  using assms takeWhile_app [OF assms(2) not_alnum(3), of "f @ CHR ''}'' # rest"]
    takeWhile_app [OF assms(4), of "CHR ''}''" rest]
  by (simp add: arc_token_here_def no_brace_def)

lemma prefix_without:
  assumes "xs @ y # zs = ys @ us" and "y \<notin> set ys"
  shows "\<exists>v. xs = ys @ v \<and> us = v @ y # zs"
proof -
  from assms(1) obtain w where "xs = ys @ w \<and> w @ y # zs = us \<or> xs @ w = ys \<and> y # zs = w @ us"
    by (auto simp: append_eq_append_conv2)
  with assms(2) show ?thesis by (cases w) auto
qed

text \<open>A token in front of an opening brace is found with the brace or without it.\<close>

lemma arc_token_brace:
  "arc_token_here (c # cs @ CHR ''{'' # s) =
     map_option (\<lambda>(name, spec, rest). (name, spec, rest @ CHR ''{'' # s)) (arc_token_here (c # cs))"
proof (cases "arc_token_here (c # cs)")
  case (Some t)
  obtain name spec rest where t: "t = (name, spec, rest)" by (metis prod_cases3)
  from Some [unfolded t] show ?thesis
  proof (cases rule: arc_token_here_cases)
    case 1
    then show ?thesis using Some arc_token_plain [of name "rest @ CHR ''{'' # s"] by (simp add: t)
  next
    case (2 f)
    then show ?thesis using Some arc_token_format [of name f "rest @ CHR ''{'' # s"] by (simp add: t)
  qed
next
  case None
  show ?thesis
  proof (cases "arc_token_here (c # cs @ CHR ''{'' # s)")
    case (Some t)
    obtain name spec rest where t: "t = (name, spec, rest)" by (metis prod_cases3)
    from Some [unfolded t] show ?thesis
    proof (cases rule: arc_token_here_cases)
      case 1
      then have "CHR ''{'' \<notin> set (name @ ''}'')" using not_alnum by (auto simp: list_all_iff)
      moreover have "cs @ CHR ''{'' # s = (name @ ''}'') @ rest" using 1 by simp
      ultimately obtain v where "cs = (name @ ''}'') @ v" using prefix_without by metis
      with 1 None arc_token_plain [of name v] show ?thesis by simp
    next
      case (2 f)
      then have "CHR ''{'' \<notin> set (name @ CHR '':'' # f @ ''}'')"
        using not_alnum by (auto simp: list_all_iff no_brace_def)
      moreover have "cs @ CHR ''{'' # s = (name @ CHR '':'' # f @ ''}'') @ rest" using 2 by simp
      ultimately obtain v where "cs = (name @ CHR '':'' # f @ ''}'') @ v" using prefix_without by metis
      with 2 None arc_token_format [of name f v] show ?thesis by simp
    qed
  qed (use None in simp)
qed

lemma arc_parts_brace: "arc_parts (a @ CHR ''{'' # s) = arc_parts a @ arc_parts (CHR ''{'' # s)"
proof (induction a rule: arc_parts.induct)
  case (2 c cs)
  show ?case
  proof (cases "arc_token_here (c # cs)")
    case None
    with 2 show ?thesis by (simp add: arc_token_brace)
  next
    case (Some t)
    then obtain name spec rest where "t = (name, spec, rest)" by (metis prod_cases3)
    with Some 2 show ?thesis by (simp add: arc_token_brace)
  qed
qed simp

lemma arc_parts_original: "arc_parts (ORIGINAL_TOKEN @ s) = Arc_token ''OriginalFilename'' None # arc_parts s"
proof -
  have "token_name ''OriginalFilename''" "list_all is_ascii_alnum ''OriginalFilename''" by code_simp+
  from arc_token_plain [OF this, of s] show ?thesis by (simp add: ORIGINAL_TOKEN_def)
qed

lemma arc_tokens_append [simp]: "arc_tokens (ps @ qs) = arc_tokens ps @ arc_tokens qs"
  by (induction ps rule: arc_tokens.induct) auto

lemma ends_with_split: "ends_with p s \<Longrightarrow> s = remove_suffix p s @ p"
proof -
  assume e: "ends_with p s"
  then obtain t where "rev s = rev p @ t" by (auto simp: ends_with_def starts_with_iff)
  then have "s = rev t @ p" by (metis rev_append rev_rev_ident)
  with e show ?thesis by (simp add: remove_suffix_def)
qed

lemma validate_template_tokens:
  "validate_template template allowed = Inr ts \<Longrightarrow> ts = arc_tokens (arc_parts template) \<and> set (map fst ts) \<subseteq> set allowed"
  by (auto simp: validate_template_def Let_def find_None_all split: if_splits option.splits)

lemma render_parts_ok:
  "set (map fst (arc_tokens ps)) \<subseteq> insert ''ReadingOrder'' (fst ` set vs) \<Longrightarrow> is_ok (render_parts ps vs n)"
proof (induction ps vs n rule: render_parts.induct)
  case (3 name spec ps vs n)
  show ?case
  proof (cases "name = ''ReadingOrder''")
    case True
    with 3 show ?thesis by (auto simp: is_ok_iff)
  next
    case False
    with 3(3) have "name \<in> fst ` set vs" by auto
    then obtain v where v: "map_of vs name = Some v" by (cases "map_of vs name") (auto simp: map_of_eq_None_iff)
    with 3 False show ?thesis by (auto simp: is_ok_iff)
  qed
qed (auto simp: is_ok_iff)

text \<open>The file template names the original file exactly when the text of the token occurs in it, and then
  what precedes it does not.\<close>

lemma file_template_tokens:
  assumes "validate_story_arc_file_template template = Inr ()"
  shows "set (map fst (arc_tokens (arc_parts (remove_suffix ORIGINAL_TOKEN template)))) \<subseteq> set (butlast FILE_TOKENS)"
    and "py_contains ORIGINAL_TOKEN template \<longleftrightarrow> ends_with ORIGINAL_TOKEN template"
proof -
  obtain ts where v: "validate_template template FILE_TOKENS = Inr ts" and
    c: "''OriginalFilename'' \<in> set (map fst ts) \<Longrightarrow>
      count_list (map fst ts) ''OriginalFilename'' = 1 \<and> ends_with ORIGINAL_TOKEN template"
    using assms by (auto simp: validate_story_arc_file_template_def Let_def split: if_splits)
  note ts = validate_template_tokens [OF v]
  have contains: "''OriginalFilename'' \<in> set (map fst ts)" if "py_contains ORIGINAL_TOKEN template"
  proof -
    from that obtain a b where "template = a @ ORIGINAL_TOKEN @ b" by (auto simp: py_contains_iff)
    then have "arc_parts template = arc_parts a @ arc_parts (ORIGINAL_TOKEN @ b)"
      using arc_parts_brace [of a "tl ORIGINAL_TOKEN @ b"] by (simp add: ORIGINAL_TOKEN_def)
    with ts show ?thesis by (simp add: arc_parts_original)
  qed
  then show e: "py_contains ORIGINAL_TOKEN template \<longleftrightarrow> ends_with ORIGINAL_TOKEN template"
    using c ends_with_split [of ORIGINAL_TOKEN template] by (metis append_Nil2 py_contains_iff)
  have but: "set FILE_TOKENS - {''OriginalFilename''} \<subseteq> set (butlast FILE_TOKENS)"
    by (auto simp: FILE_TOKENS_def)
  show "set (map fst (arc_tokens (arc_parts (remove_suffix ORIGINAL_TOKEN template)))) \<subseteq> set (butlast FILE_TOKENS)"
  proof (cases "ends_with ORIGINAL_TOKEN template")
    case True
    define p where "p = remove_suffix ORIGINAL_TOKEN template"
    have "template = p @ ORIGINAL_TOKEN" using ends_with_split [OF True] by (simp add: p_def)
    then have "arc_parts template = arc_parts p @ arc_parts (ORIGINAL_TOKEN @ [])"
      using arc_parts_brace [of p "tl ORIGINAL_TOKEN"] by (simp add: ORIGINAL_TOKEN_def)
    then have "ts = arc_tokens (arc_parts p) @ [(''OriginalFilename'', None)]"
      using ts by (simp only: arc_parts_original arc_tokens_append) simp
    then have m: "map fst ts = map fst (arc_tokens (arc_parts p)) @ [''OriginalFilename'']" by simp
    with c have "''OriginalFilename'' \<notin> set (map fst (arc_tokens (arc_parts p)))" by (auto simp: count_list_0_iff)
    moreover have "set (map fst (arc_tokens (arc_parts p))) \<subseteq> set FILE_TOKENS" using ts m by auto
    ultimately show ?thesis using but unfolding p_def [symmetric] by blast
  next
    case False
    then have "''OriginalFilename'' \<notin> set (map fst ts)" using c by blast
    with ts but have "set (map fst ts) \<subseteq> set (butlast FILE_TOKENS)" by blast
    with ts False show ?thesis by (simp add: remove_suffix_def)
  qed
qed

subsection \<open>What a rendered path is\<close>

definition render_input_ok :: "arc_values \<Rightarrow> bool" where
  "render_input_ok v \<longleftrightarrow>
     (let extension = py_lower (lstrip_chars ''.'' (py_strip (av_extension v)))
      in 0 \<le> av_reading_order v \<and> py_strip (av_issue_number v) \<noteq> [] \<and>
         \<not> list_ex is_control_char (py_strip (av_issue_number v)) \<and> extension \<noteq> [] \<and> length extension \<le> 10 \<and>
         list_all (\<lambda>c. is_ascii_lower c \<or> is_ascii_digit c) extension)"

lemma folder_rendered:
  assumes "validate_story_arc_folder_template template = Inr ()"
  shows "is_ok (render_template template (folder_values safe v) n)"
proof -
  obtain ts where "validate_template template FOLDER_TOKENS = Inr ts"
    using assms by (auto simp: validate_story_arc_folder_template_def)
  then have "set (map fst (arc_tokens (arc_parts template))) \<subseteq> set FOLDER_TOKENS"
    using validate_template_tokens by blast
  also have "\<dots> = fst ` set (folder_values safe v)" by (auto simp: folder_values_def FOLDER_TOKENS_def Let_def)
  finally show ?thesis unfolding render_template_def by (intro render_parts_ok) blast
qed

lemma file_rendered:
  assumes "validate_story_arc_file_template template = Inr ()"
  shows "is_ok (render_template (remove_suffix ORIGINAL_TOKEN template) (file_values safe v issue ext) n)"
proof -
  have "set (butlast FILE_TOKENS) = insert ''ReadingOrder'' (fst ` set (file_values safe v issue ext))"
    by (auto simp: file_values_def FILE_TOKENS_def)
  with file_template_tokens(1) [OF assms] show ?thesis
    unfolding render_template_def by (intro render_parts_ok) simp
qed

lemma original_ok:
  assumes "validated_original_filename f ext = Inr s"
  shows "f = Some s" "path_component s" "utf8_len s \<le> 240" "py_casefold (py_suffix s) = CHR ''.'' # ext"
proof -
  from assms show "f = Some s" "utf8_len s \<le> 240" "py_casefold (py_suffix s) = CHR ''.'' # ext"
    by (auto simp: validated_original_filename_def Let_def split: option.splits if_splits)
  from assms have "s \<noteq> []" "\<not> list_ex is_slash s" "last s \<noteq> CHR ''.''"
    by (auto simp: validated_original_filename_def Let_def is_windows_name_def split: option.splits if_splits)
  then show "path_component s" by (auto simp: path_component_def dot_segment_def)
qed

lemma file_segment_ok:
  assumes "file_segment (sanitize_for_filesystem True colon) v template vals ext = Inr file"
  shows "path_component file \<and> utf8_len file \<le> 240 \<and>
    (if py_contains ORIGINAL_TOKEN template
     then \<exists>original prefix. av_original_filename v = Some original \<and> file = prefix @ original \<and>
       py_casefold (py_suffix file) = CHR ''.'' # ext
     else safe_name file)"
proof (cases "py_contains ORIGINAL_TOKEN template")
  case True
  with assms obtain original p where
    o: "validated_original_filename (av_original_filename v) ext = Inr original" and
    f: "validated_original_filename (Some (p @ original)) ext = Inr file"
    by (auto simp: file_segment_def Let_def)
  from original_ok [OF o] original_ok [OF f] True show ?thesis by auto
next
  case False
  with assms obtain s where "file = sanitize_for_filesystem True colon s"
    by (auto simp: file_segment_def)
  then have "safe_name file" using sanitize_safe by simp
  with False safe_name_not_dots show ?thesis by (auto simp: path_component_def safe_name_def)
qed

text \<open>C28. A rendered placement path is a folder and a file, each one path component of at most 240 bytes,
  whatever the metadata and the templates; a template that asks for the original file name ends
  the file name with it unchanged, extension included.\<close>

theorem arc_path_contained:
  assumes "render_story_arc_relative_path v folder_template file_template True colon = Inr (folder, file)"
  shows "safe_name folder \<and> path_component folder \<and> path_component file \<and> utf8_len file \<le> 240 \<and>
    (if py_contains ORIGINAL_TOKEN file_template
     then \<exists>original prefix. av_original_filename v = Some original \<and> file = prefix @ original
     else safe_name file)"
proof -
  obtain f vals ext where "folder = sanitize_for_filesystem True colon f"
    and seg: "file_segment (sanitize_for_filesystem True colon) v file_template vals ext = Inr file"
    using assms by (auto simp: render_story_arc_relative_path_def Let_def split: if_splits)
  then have "safe_name folder" using sanitize_safe by simp
  with file_segment_ok [OF seg] safe_name_not_dots [of folder] show ?thesis
    by (auto simp: path_component_def split: if_splits)
qed

text \<open>Rendering fails only for what it is given: with valid templates and usable values a template
  without the original file name always renders, and in no case is a token left without a value.\<close>

theorem arc_render_total:
  "(if validate_story_arc_folder_template folder_template = Inr () \<and>
       validate_story_arc_file_template file_template = Inr () \<and> render_input_ok v \<and>
       \<not> py_contains ORIGINAL_TOKEN file_template
    then is_ok (render_story_arc_relative_path v folder_template file_template True colon)
    else \<not> is_ok (render_story_arc_relative_path v folder_template file_template True colon) \<or>
      py_contains ORIGINAL_TOKEN file_template) \<and>
   render_story_arc_relative_path v folder_template file_template True colon \<noteq> Inl (Arc_key_error name)"
proof -
  let ?r = "render_story_arc_relative_path v folder_template file_template True colon"
  let ?safe = "sanitize_for_filesystem True colon"
  let ?ext = "py_lower (lstrip_chars ''.'' (py_strip (av_extension v)))"
  let ?vals = "file_values ?safe v (py_strip (av_issue_number v)) ?ext"
  consider (folder) e where "validate_story_arc_folder_template folder_template = Inl e"
    | (bad_file) e where "validate_story_arc_folder_template folder_template = Inr ()"
        "validate_story_arc_file_template file_template = Inl e"
    | (ok) "validate_story_arc_folder_template folder_template = Inr ()"
        "validate_story_arc_file_template file_template = Inr ()"
    by (metis (full_types) old.unit.exhaust sum.exhaust)
  then show ?thesis
  proof cases
    case folder
    then have "e \<noteq> Arc_key_error name"
      by (auto simp: validate_story_arc_folder_template_def validate_template_def bind_result_def Let_def
          split: if_splits option.splits)
    with folder show ?thesis by (simp add: render_story_arc_relative_path_def)
  next
    case bad_file
    have "check_formats ts \<noteq> Inl (Arc_key_error name)" for ts
      by (induction ts rule: check_formats.induct) (auto split: option.split)
    then have "e \<noteq> Arc_key_error name" using bad_file
      by (auto simp: validate_story_arc_file_template_def validate_template_def bind_result_def Let_def
          split: if_splits option.splits)
    with bad_file show ?thesis by (simp add: render_story_arc_relative_path_def)
  next
    case ok
    obtain f where f: "render_template folder_template (folder_values ?safe v) (av_reading_order v) = Inr f"
      using folder_rendered [OF ok(1), unfolded is_ok_iff] by blast
    obtain p where p: "render_template (remove_suffix ORIGINAL_TOKEN file_template) ?vals (av_reading_order v) = Inr p"
      using file_rendered [OF ok(2), unfolded is_ok_iff] by blast
    have nd: "\<not> dot_segment (?safe s)" for s using sanitize_safe safe_name_not_dots by blast
    show ?thesis
    proof (cases "py_contains ORIGINAL_TOKEN file_template")
      case True
      have "validated_original_filename o' x \<noteq> Inl (Arc_key_error name)" for o' x
        by (simp add: validated_original_filename_def Let_def split: option.split)
      then have "file_segment ?safe v file_template ?vals ?ext \<noteq> Inl (Arc_key_error name)"
        using True p by (auto simp: file_segment_def bind_result_def Let_def split: sum.splits)
      with True ok f show ?thesis
        by (auto simp: render_story_arc_relative_path_def Let_def bind_result_def split: sum.splits if_splits)
    next
      case False
      then have "\<not> ends_with ORIGINAL_TOKEN file_template" using file_template_tokens(2) [OF ok(2)] by simp
      then have "render_template file_template ?vals (av_reading_order v) = Inr p"
        using p by (simp add: remove_suffix_def)
      with False obtain g where g: "file_segment ?safe v file_template ?vals ?ext = Inr (?safe g)"
        by (simp add: file_segment_def)
      show ?thesis
        unfolding render_story_arc_relative_path_def ok bind_result_simps Let_def f g
        using False nd by (auto simp: render_input_ok_def Let_def is_ok_def not_less)
    qed
  qed
qed

definition sample_arc :: arc_values where
  "sample_arc = \<lparr>av_story_arc = ''Age'', av_reading_order = 7, av_series = ''A'', av_issue_number = ''7'',
     av_extension = ''cbz'', av_issue_title = None, av_year = None, av_start_year = None, av_end_year = None,
     av_publisher = None, av_original_filename = None\<rparr>"

lemma sample_arc_path:
  "render_story_arc_relative_path sample_arc ''{StoryArc}'' ''{Series}'' True '' -'' = Inr (''Age'', ''A.cbz'')"
  by code_simp

theorem arc_path_contained_witness: "safe_name ''Age'' \<and> path_component ''A.cbz''"
  using arc_path_contained [OF sample_arc_path] by blast

end
