(* ===== verification/File_System.thy ===== *)
theory File_System
  imports Py_Format
begin

text \<open>
  The operating system as the placement service uses it through Python's \<open>os\<close> and \<open>pathlib\<close>
  (CPython 3.14 on Linux, the platform of the image): a table of nodes with hard links, symbolic
  links and directories, the walk of a path, and the system calls. A call is a function of the
  file system to a result or an \<open>errno\<close> and the file system after it. Below, programs are run in a
  \<open>world\<close>: before each of their calls other processes may change the file system, and the call may
  fail with any error. Not modelled: access rights and quotas (they are among the errors the
  world may choose), time stamps and modes of directories, closing of descriptors, and paths
  with more than 40 symbolic links. Data are read in one call, as one character per byte.
\<close>

subsection \<open>Nodes\<close>

text \<open>A node is identified by its device and its number.\<close>

datatype fid = Fid (fid_device: int) (fid_inode: int)

datatype node_body = Regular pystr | Directory "(pystr, fid) dict" | Symlink pystr | Special

record node =
  nd_body :: node_body
  nd_mode :: int
  nd_atime :: int
  nd_mtime :: int
  nd_ctime :: int

record fs =
  fs_nodes :: "(fid, node) dict"
  fs_root :: fid
  fs_cwd :: "pystr list"
  fs_clock :: int
  fs_next :: int

datatype errno = ENOENT | ENOTDIR | EEXIST | ELOOP | EXDEV | EACCES | EPERM | EROFS | EISDIR | EINVAL
  | ENOTEMPTY | EMLINK | EIO

datatype file_kind = S_IFREG | S_IFDIR | S_IFLNK | S_IFOTHER

record stat_result =
  st_dev :: int
  st_ino :: int
  st_kind :: file_kind
  st_mode :: int
  st_size :: int
  st_atime :: int
  st_mtime :: int
  st_ctime :: int

fun body_kind :: "node_body \<Rightarrow> file_kind" where
  "body_kind (Regular c) = S_IFREG"
| "body_kind (Directory es) = S_IFDIR"
| "body_kind (Symlink t) = S_IFLNK"
| "body_kind Special = S_IFOTHER"

fun body_size :: "node_body \<Rightarrow> int" where
  "body_size (Regular c) = int (length c)"
| "body_size (Symlink t) = int (length t)"
| "body_size _ = 0"

definition node_of :: "fs \<Rightarrow> fid \<Rightarrow> node option" where
  "node_of s f = map_of (fs_nodes s) f"

definition put_node :: "fid \<Rightarrow> node \<Rightarrow> fs \<Rightarrow> fs" where
  "put_node f n s = s\<lparr>fs_nodes := AList.update f n (fs_nodes s)\<rparr>"

definition dir_entries :: "fs \<Rightarrow> fid \<Rightarrow> (pystr, fid) dict option" where
  "dir_entries s d = (case node_of s d of
     Some n \<Rightarrow> (case nd_body n of Directory es \<Rightarrow> Some es | _ \<Rightarrow> None) | None \<Rightarrow> None)"

definition stat_of :: "fid \<Rightarrow> node \<Rightarrow> stat_result" where
  "stat_of f n = \<lparr>st_dev = fid_device f, st_ino = fid_inode f, st_kind = body_kind (nd_body n), st_mode = nd_mode n,
     st_size = body_size (nd_body n), st_atime = nd_atime n, st_mtime = nd_mtime n, st_ctime = nd_ctime n\<rparr>"

definition st_fid :: "stat_result \<Rightarrow> fid" where
  "st_fid st = Fid (st_dev st) (st_ino st)"

subsection \<open>Paths\<close>

text \<open>A \<open>Path\<close> is absolute or relative and has parts; \<open>Path(text)\<close> drops empty parts and dots.\<close>

datatype py_path = PPath (path_abs: bool) (path_parts: "pystr list")

definition parse_path :: "pystr \<Rightarrow> py_path" where
  "parse_path s = PPath (starts_with ''/'' s) (filter (\<lambda>p. p \<noteq> [] \<and> p \<noteq> ''.'') (py_split CHR ''/'' s))"

definition path_str :: "py_path \<Rightarrow> pystr" where
  "path_str p = (if path_abs p then CHR ''/'' # join_with CHR ''/'' (path_parts p)
     else if path_parts p = [] then ''.'' else join_with CHR ''/'' (path_parts p))"

definition path_join :: "py_path \<Rightarrow> py_path \<Rightarrow> py_path" where
  "path_join p q = (if path_abs q then q else PPath (path_abs p) (path_parts p @ path_parts q))"

definition path_parent :: "py_path \<Rightarrow> py_path" where
  "path_parent p = PPath (path_abs p) (butlast (path_parts p))"

definition path_name :: "py_path \<Rightarrow> pystr" where
  "path_name p = (if path_parts p = [] then [] else last (path_parts p))"

text \<open>\<open>relative_to\<close>, on the parts, and \<open>is_relative_to\<close>\<close>

fun strip_prefix :: "'a list \<Rightarrow> 'a list \<Rightarrow> 'a list option" where
  "strip_prefix [] ys = Some ys"
| "strip_prefix (x # xs) [] = None"
| "strip_prefix (x # xs) (y # ys) = (if x = y then strip_prefix xs ys else None)"

definition path_relative_to :: "py_path \<Rightarrow> py_path \<Rightarrow> pystr list option" where
  "path_relative_to p base = (if path_abs p = path_abs base then strip_prefix (path_parts base) (path_parts p) else None)"

text \<open>\<open>os.path.abspath\<close> and \<open>os.path.relpath\<close>, on parts\<close>

fun norm_parts :: "pystr list \<Rightarrow> pystr list \<Rightarrow> pystr list" where
  "norm_parts acc [] = rev acc"
| "norm_parts acc (p # ps) = (if p = ''..'' then norm_parts (tl acc) ps else norm_parts (p # acc) ps)"

definition absolute_parts :: "fs \<Rightarrow> py_path \<Rightarrow> pystr list" where
  "absolute_parts s p = (if path_abs p then path_parts p else fs_cwd s @ path_parts p)"

fun relative_parts :: "pystr list \<Rightarrow> pystr list \<Rightarrow> pystr list" where
  "relative_parts (x # xs) (y # ys) = (if x = y then relative_parts xs ys else map (\<lambda>_. ''..'') (y # ys) @ x # xs)"
| "relative_parts xs ys = map (\<lambda>_. ''..'') ys @ xs"

definition os_relpath :: "pystr list \<Rightarrow> pystr list \<Rightarrow> pystr" where
  "os_relpath path start = path_str (PPath False (relative_parts (norm_parts [] path) (norm_parts [] start)))"

subsection \<open>Walking a path\<close>

fun fid_at :: "fs \<Rightarrow> fid \<Rightarrow> pystr list \<Rightarrow> fid option" where
  "fid_at s f [] = Some f"
| "fid_at s f (n # ns) = (case dir_entries s f of
     None \<Rightarrow> None
   | Some es \<Rightarrow> (case map_of es n of None \<Rightarrow> None | Some g \<Rightarrow> fid_at s g ns))"

definition link_of :: "fs \<Rightarrow> fid \<Rightarrow> pystr option" where
  "link_of s f = (case node_of s f of
     Some n \<Rightarrow> (case nd_body n of Symlink t \<Rightarrow> Some t | _ \<Rightarrow> None) | None \<Rightarrow> None)"

text \<open>The entry below a directory that is reached by real names\<close>

definition entry_below :: "fs \<Rightarrow> pystr list \<Rightarrow> pystr \<Rightarrow> (errno, fid) result" where
  "entry_below s here n = (case fid_at s (fs_root s) here of
     None \<Rightarrow> Inl ENOENT
   | Some d \<Rightarrow> (case dir_entries s d of
       None \<Rightarrow> Inl ENOTDIR
     | Some es \<Rightarrow> (case map_of es n of None \<Rightarrow> Inl ENOENT | Some f \<Rightarrow> Inr f)))"

text \<open>\<open>walk strict follow s links here rest\<close> continues at the real directory \<open>here\<close> and returns the
  real path; without \<open>strict\<close> what does not exist is taken as it is written.\<close>

function walk :: "bool \<Rightarrow> bool \<Rightarrow> fs \<Rightarrow> nat \<Rightarrow> pystr list \<Rightarrow> pystr list \<Rightarrow> (errno, pystr list) result" where
  "walk strict follow s links here [] = Inr here"
| "walk strict follow s links here (n # ns) =
     (if n = ''..'' then walk strict follow s links (butlast here) ns
      else (case entry_below s here n of
              Inl e \<Rightarrow> if strict then Inl e else walk strict follow s links (here @ [n]) ns
            | Inr f \<Rightarrow>
                (case link_of s f of
                   None \<Rightarrow> walk strict follow s links (here @ [n]) ns
                 | Some target \<Rightarrow>
                     if ns = [] \<and> \<not> follow then Inr (here @ [n])
                     else (case links of
                             0 \<Rightarrow> if strict then Inl ELOOP else Inr (here @ n # ns)
                           | Suc k \<Rightarrow>
                               (let t = parse_path target
                                in walk strict follow s k (if path_abs t then [] else here) (path_parts t @ ns))))))"
  by pat_completeness auto
termination by (relation "measures [\<lambda>(_, _, _, links, _, _). links, \<lambda>(_, _, _, _, _, rest). length rest]") auto

definition MAXSYMLINKS :: nat where "MAXSYMLINKS = 40"

definition real_parts :: "bool \<Rightarrow> fs \<Rightarrow> py_path \<Rightarrow> (errno, pystr list) result" where
  "real_parts follow s p = walk True follow s MAXSYMLINKS [] (absolute_parts s p)"

definition find_path :: "bool \<Rightarrow> fs \<Rightarrow> py_path \<Rightarrow> (errno, fid \<times> node) result" where
  "find_path follow s p = bind_result (real_parts follow s p) (\<lambda>here.
     case fid_at s (fs_root s) here of
       None \<Rightarrow> Inl ENOENT
     | Some f \<Rightarrow> (case node_of s f of None \<Rightarrow> Inl ENOENT | Some n \<Rightarrow> Inr (f, n)))"

subsection \<open>Reading calls\<close>

definition sys_stat :: "py_path \<Rightarrow> fs \<Rightarrow> (errno, stat_result) result" where
  "sys_stat p s = bind_result (find_path True s p) (\<lambda>(f, n). Inr (stat_of f n))"

definition sys_lstat :: "py_path \<Rightarrow> fs \<Rightarrow> (errno, stat_result) result" where
  "sys_lstat p s = bind_result (find_path False s p) (\<lambda>(f, n). Inr (stat_of f n))"

definition sys_readlink :: "py_path \<Rightarrow> fs \<Rightarrow> (errno, pystr) result" where
  "sys_readlink p s = bind_result (find_path False s p) (\<lambda>(f, n).
     case nd_body n of Symlink t \<Rightarrow> Inr t | _ \<Rightarrow> Inl EINVAL)"

definition sys_resolve :: "bool \<Rightarrow> py_path \<Rightarrow> fs \<Rightarrow> (errno, py_path) result" where
  "sys_resolve strict p s = bind_result (walk strict True s MAXSYMLINKS [] (absolute_parts s p)) (\<lambda>here.
     Inr (PPath True here))"

definition sys_listdir :: "py_path \<Rightarrow> fs \<Rightarrow> (errno, pystr list) result" where
  "sys_listdir p s = bind_result (find_path True s p) (\<lambda>(f, n).
     case nd_body n of Directory es \<Rightarrow> Inr (map fst es) | _ \<Rightarrow> Inl ENOTDIR)"

text \<open>Opening for reading: following links (\<open>Path.open\<close>), or not (\<open>O_NOFOLLOW\<close>), or a directory
  (\<open>O_DIRECTORY | O_NOFOLLOW\<close>, for which Linux answers \<open>ENOTDIR\<close> on a link as well)\<close>

definition sys_open_follow :: "py_path \<Rightarrow> fs \<Rightarrow> (errno, fid) result" where
  "sys_open_follow p s = bind_result (find_path True s p) (\<lambda>(f, n). Inr f)"

definition open_nofollow :: "fid \<times> node \<Rightarrow> (errno, fid) result" where
  "open_nofollow fn = (case nd_body (snd fn) of Symlink _ \<Rightarrow> Inl ELOOP | _ \<Rightarrow> Inr (fst fn))"

definition open_directory :: "fid \<times> node \<Rightarrow> (errno, fid) result" where
  "open_directory fn = (case nd_body (snd fn) of Directory _ \<Rightarrow> Inr (fst fn) | _ \<Rightarrow> Inl ENOTDIR)"

definition sys_open :: "py_path \<Rightarrow> fs \<Rightarrow> (errno, fid) result" where
  "sys_open p s = bind_result (find_path False s p) open_nofollow"

definition sys_open_dir :: "py_path \<Rightarrow> fs \<Rightarrow> (errno, fid) result" where
  "sys_open_dir p s = bind_result (find_path False s p) open_directory"

text \<open>The calls relative to an open directory, and those on an open file\<close>

definition find_in :: "fs \<Rightarrow> fid \<Rightarrow> pystr \<Rightarrow> (errno, fid \<times> node) result" where
  "find_in s d n = (case dir_entries s d of
     None \<Rightarrow> Inl ENOTDIR
   | Some es \<Rightarrow> (case map_of es n of
       None \<Rightarrow> Inl ENOENT
     | Some f \<Rightarrow> (case node_of s f of None \<Rightarrow> Inl ENOENT | Some nd \<Rightarrow> Inr (f, nd))))"

definition sys_lstat_at :: "fid \<Rightarrow> pystr \<Rightarrow> fs \<Rightarrow> (errno, stat_result) result" where
  "sys_lstat_at d n s = bind_result (find_in s d n) (\<lambda>(f, nd). Inr (stat_of f nd))"

definition sys_readlink_at :: "fid \<Rightarrow> pystr \<Rightarrow> fs \<Rightarrow> (errno, pystr) result" where
  "sys_readlink_at d n s = bind_result (find_in s d n) (\<lambda>(f, nd).
     case nd_body nd of Symlink t \<Rightarrow> Inr t | _ \<Rightarrow> Inl EINVAL)"

definition sys_open_at :: "fid \<Rightarrow> pystr \<Rightarrow> fs \<Rightarrow> (errno, fid) result" where
  "sys_open_at d n s = bind_result (find_in s d n) open_nofollow"

definition sys_open_dir_at :: "fid \<Rightarrow> pystr \<Rightarrow> fs \<Rightarrow> (errno, fid) result" where
  "sys_open_dir_at d n s = bind_result (find_in s d n) open_directory"

definition sys_scandir :: "fid \<Rightarrow> fs \<Rightarrow> (errno, pystr list) result" where
  "sys_scandir d s = (case dir_entries s d of None \<Rightarrow> Inl ENOTDIR | Some es \<Rightarrow> Inr (map fst es))"

definition sys_fstat :: "fid \<Rightarrow> fs \<Rightarrow> (errno, stat_result) result" where
  "sys_fstat f s = (case node_of s f of None \<Rightarrow> Inl EIO | Some n \<Rightarrow> Inr (stat_of f n))"

definition sys_read :: "fid \<Rightarrow> fs \<Rightarrow> (errno, pystr) result" where
  "sys_read f s = (case node_of s f of
     None \<Rightarrow> Inl EIO
   | Some n \<Rightarrow> (case nd_body n of Regular c \<Rightarrow> Inr c | Directory _ \<Rightarrow> Inl EISDIR | _ \<Rightarrow> Inl EIO))"

subsection \<open>Changing calls\<close>

text \<open>\<open>put_entry\<close> adds a name to a directory, \<open>new_node\<close> allocates a node on its device.\<close>

definition put_entry :: "fid \<Rightarrow> pystr \<Rightarrow> fid \<Rightarrow> fs \<Rightarrow> fs" where
  "put_entry d n f s = (case node_of s d of
     Some nd \<Rightarrow> (case nd_body nd of
       Directory es \<Rightarrow> put_node d (nd\<lparr>nd_body := Directory (es @ [(n, f)])\<rparr>) s | _ \<Rightarrow> s)
   | None \<Rightarrow> s)"

definition drop_entry :: "fid \<Rightarrow> pystr \<Rightarrow> fs \<Rightarrow> fs" where
  "drop_entry d n s = (case node_of s d of
     Some nd \<Rightarrow> (case nd_body nd of
       Directory es \<Rightarrow> put_node d (nd\<lparr>nd_body := Directory (AList.delete n es)\<rparr>) s | _ \<Rightarrow> s)
   | None \<Rightarrow> s)"

definition touch_node :: "fid \<Rightarrow> (node \<Rightarrow> node) \<Rightarrow> fs \<Rightarrow> fs" where
  "touch_node f g s = (case node_of s f of None \<Rightarrow> s | Some n \<Rightarrow> put_node f ((g n)\<lparr>nd_ctime := fs_clock s\<rparr>) s)"

definition create_at :: "node_body \<Rightarrow> int \<Rightarrow> fid \<Rightarrow> pystr \<Rightarrow> fs \<Rightarrow> (errno, fid) result \<times> fs" where
  "create_at body mode d n s = (case dir_entries s d of
     None \<Rightarrow> (Inl ENOTDIR, s)
   | Some es \<Rightarrow>
       if map_of es n \<noteq> None then (Inl EEXIST, s)
       else
         (let f = Fid (fid_device d) (fs_next s);
              nd = \<lparr>nd_body = body, nd_mode = mode, nd_atime = fs_clock s, nd_mtime = fs_clock s,
                nd_ctime = fs_clock s\<rparr>
          in (Inr f, put_entry d n f (put_node f nd (s\<lparr>fs_next := fs_next s + 1\<rparr>)))))"

definition sys_mkdir_at :: "fid \<Rightarrow> pystr \<Rightarrow> fs \<Rightarrow> (errno, fid) result \<times> fs" where
  "sys_mkdir_at = create_at (Directory []) 493"

definition sys_creat_at :: "fid \<Rightarrow> pystr \<Rightarrow> fs \<Rightarrow> (errno, fid) result \<times> fs" where
  "sys_creat_at = create_at (Regular []) 384"

definition sys_symlink_at :: "pystr \<Rightarrow> fid \<Rightarrow> pystr \<Rightarrow> fs \<Rightarrow> (errno, fid) result \<times> fs" where
  "sys_symlink_at target = create_at (Symlink target) 511"

text \<open>A hard link to a node; the new name must be free and on the same device.\<close>

definition link_node :: "fid \<times> node \<Rightarrow> fid \<Rightarrow> pystr \<Rightarrow> fs \<Rightarrow> (errno, fid) result \<times> fs" where
  "link_node fn d n s = (case dir_entries s d of
     None \<Rightarrow> (Inl ENOTDIR, s)
   | Some es \<Rightarrow>
       if map_of es n \<noteq> None then (Inl EEXIST, s)
       else if fid_device (fst fn) \<noteq> fid_device d then (Inl EXDEV, s)
       else (case nd_body (snd fn) of
               Directory _ \<Rightarrow> (Inl EPERM, s)
             | _ \<Rightarrow> (Inr (fst fn), put_entry d n (fst fn) (touch_node (fst fn) (\<lambda>x. x) s))))"

definition sys_link_at :: "pystr \<Rightarrow> fid \<Rightarrow> pystr \<Rightarrow> fs \<Rightarrow> (errno, fid) result \<times> fs" where
  "sys_link_at old d n s = (case find_in s d old of Inl e \<Rightarrow> (Inl e, s) | Inr fn \<Rightarrow> link_node fn d n s)"

definition sys_link :: "py_path \<Rightarrow> fid \<Rightarrow> pystr \<Rightarrow> fs \<Rightarrow> (errno, fid) result \<times> fs" where
  "sys_link p d n s = (case find_path False s p of Inl e \<Rightarrow> (Inl e, s) | Inr fn \<Rightarrow> link_node fn d n s)"

definition sys_unlink_at :: "fid \<Rightarrow> pystr \<Rightarrow> fs \<Rightarrow> (errno, fid) result \<times> fs" where
  "sys_unlink_at d n s = (case find_in s d n of
     Inl e \<Rightarrow> (Inl e, s)
   | Inr (f, nd) \<Rightarrow>
       (case nd_body nd of
          Directory _ \<Rightarrow> (Inl EISDIR, s)
        | _ \<Rightarrow> (Inr f, touch_node f (\<lambda>x. x) (drop_entry d n s))))"

text \<open>Appending to an open file, its mode, and its times\<close>

definition sys_write :: "fid \<Rightarrow> pystr \<Rightarrow> fs \<Rightarrow> (errno, fid) result \<times> fs" where
  "sys_write f data s = (case node_of s f of
     Some n \<Rightarrow> (case nd_body n of
       Regular c \<Rightarrow> (Inr f, touch_node f (\<lambda>n. n\<lparr>nd_body := Regular (c @ data), nd_mtime := fs_clock s\<rparr>) s)
     | _ \<Rightarrow> (Inl EIO, s))
   | None \<Rightarrow> (Inl EIO, s))"

definition sys_fchmod :: "fid \<Rightarrow> int \<Rightarrow> fs \<Rightarrow> (errno, fid) result \<times> fs" where
  "sys_fchmod f mode s = (Inr f, touch_node f (\<lambda>n. n\<lparr>nd_mode := mode\<rparr>) s)"

definition sys_utime :: "fid \<Rightarrow> int \<Rightarrow> int \<Rightarrow> fs \<Rightarrow> (errno, fid) result \<times> fs" where
  "sys_utime f atime mtime s = (Inr f, touch_node f (\<lambda>n. n\<lparr>nd_atime := atime, nd_mtime := mtime\<rparr>) s)"

end
