(* ===== verification/Placement_IO.thy ===== *)
theory Placement_IO
  imports File_System Json_Value
begin

text \<open>
  Programs of the placement service: functions of a \<open>world\<close> to a value or an exception and the
  world after. The world holds the file system, what other processes do before each call
  (\<open>w_env\<close>, which may also make the call fail), the answers of the cancellation callback, the
  faults of the journal callback, the random file names, the hash function (SHA-256, whose values
  nothing here depends on) and a log of what the program itself did and told the journal. A
  callback that is not given is one that answers \<open>False\<close> or does nothing.
\<close>

subsection \<open>Worlds\<close>

datatype exn =
    OS_error errno
  | Safety pystr
  | Collision pystr
  | Ownership pystr
  | Cancelled
  | Value_error
  | Journal_error pystr

datatype placement_mode = Mode_copy | Mode_hardlink | Mode_symlink | Mode_reference_only

type_synonym fingerprint = json

record journal_event =
  je_stage :: pystr
  je_operation :: pystr
  je_issue :: int
  je_mode :: placement_mode
  je_target :: py_path
  je_source :: fingerprint
  je_target_fingerprint :: fingerprint
  je_failure :: "pystr option"

text \<open>The changes a program makes itself, with the node each concerns\<close>

datatype own_action =
    A_mkdir fid pystr fid
  | A_create fid pystr fid
  | A_write fid
  | A_chmod fid
  | A_utime fid
  | A_link fid pystr fid
  | A_symlink fid pystr fid
  | A_unlink fid pystr fid

datatype happening = Did own_action | Told journal_event

record world =
  w_fs :: fs
  w_env :: "((fs \<Rightarrow> fs) \<times> errno option) list"
  w_cancel :: "bool list"
  w_faults :: "exn option list"
  w_token :: "nat \<Rightarrow> pystr"
  w_drawn :: nat
  w_sha :: "pystr \<Rightarrow> pystr"
  w_log :: "happening list"

type_synonym 'a io = "world \<Rightarrow> (exn, 'a) result \<times> world"

subsection \<open>Combinators\<close>

definition io_return :: "'a \<Rightarrow> 'a io" where
  "io_return x w = (Inr x, w)"

definition io_raise :: "exn \<Rightarrow> 'a io" where
  "io_raise e w = (Inl e, w)"

definition io_bind :: "'a io \<Rightarrow> ('a \<Rightarrow> 'b io) \<Rightarrow> 'b io" where
  "io_bind m f w = (case m w of (Inl e, w') \<Rightarrow> (Inl e, w') | (Inr x, w') \<Rightarrow> f x w')"

definition io_then :: "'a io \<Rightarrow> 'b io \<Rightarrow> 'b io" where
  "io_then m k = io_bind m (\<lambda>_. k)"

definition io_catch :: "'a io \<Rightarrow> (exn \<Rightarrow> 'a io) \<Rightarrow> 'a io" where
  "io_catch m h w = (case m w of (Inl e, w') \<Rightarrow> h e w' | (Inr x, w') \<Rightarrow> (Inr x, w'))"

text \<open>\<open>try: m finally: f\<close>\<close>

definition io_finally :: "'a io \<Rightarrow> unit io \<Rightarrow> 'a io" where
  "io_finally m f w = (case m w of (r, w') \<Rightarrow>
     (case f w' of (Inl e, w'') \<Rightarrow> (Inl e, w'') | (Inr _, w'') \<Rightarrow> (r, w'')))"

definition io_when :: "bool \<Rightarrow> exn \<Rightarrow> unit io" where
  "io_when c e = (if c then io_raise e else io_return ())"

definition io_of_result :: "(exn, 'a) result \<Rightarrow> 'a io" where
  "io_of_result r w = (r, w)"

text \<open>\<open>except OSError\<close>, and a call that swallows it\<close>

definition except_os :: "'a io \<Rightarrow> (errno \<Rightarrow> 'a io) \<Rightarrow> 'a io" where
  "except_os m h = io_catch m (\<lambda>e. case e of OS_error x \<Rightarrow> h x | _ \<Rightarrow> io_raise e)"

definition or_safety :: "pystr \<Rightarrow> 'a io \<Rightarrow> 'a io" where
  "or_safety label m = except_os m (\<lambda>_. io_raise (Safety label))"

fun is_placement_error :: "exn \<Rightarrow> bool" where
  "is_placement_error (Safety c) = True"
| "is_placement_error (Collision c) = True"
| "is_placement_error (Ownership c) = True"
| "is_placement_error Cancelled = True"
| "is_placement_error _ = False"

fun error_code :: "exn \<Rightarrow> pystr" where
  "error_code (Safety c) = c"
| "error_code (Collision c) = c"
| "error_code (Ownership c) = c"
| "error_code Cancelled = ''cancelled''"
| "error_code _ = []"

subsection \<open>Calls\<close>

text \<open>What happens before a call: others act, and the call may be made to fail\<close>

definition enter :: "world \<Rightarrow> errno option \<times> world" where
  "enter w = (case w_env w of
     [] \<Rightarrow> (None, w)
   | (g, e) # env \<Rightarrow> (e, w\<lparr>w_fs := g (w_fs w), w_env := env\<rparr>))"

definition io_read :: "(fs \<Rightarrow> (errno, 'a) result) \<Rightarrow> 'a io" where
  "io_read f w = (case enter w of
     (Some e, w') \<Rightarrow> (Inl (OS_error e), w')
   | (None, w') \<Rightarrow> (case f (w_fs w') of Inl e \<Rightarrow> (Inl (OS_error e), w') | Inr x \<Rightarrow> (Inr x, w')))"

definition io_change :: "(fid \<Rightarrow> own_action) \<Rightarrow> (fs \<Rightarrow> (errno, fid) result \<times> fs) \<Rightarrow> fid io" where
  "io_change act f w = (case enter w of
     (Some e, w') \<Rightarrow> (Inl (OS_error e), w')
   | (None, w') \<Rightarrow>
       (case f (w_fs w') of
          (Inl e, s) \<Rightarrow> (Inl (OS_error e), w')
        | (Inr x, s) \<Rightarrow> (Inr x, w'\<lparr>w_fs := s, w_log := w_log w' @ [Did (act x)]\<rparr>)))"

text \<open>The probes of \<open>Path\<close>, which answer \<open>False\<close> for any error\<close>

definition io_stat :: "py_path \<Rightarrow> stat_result io" where "io_stat p = io_read (sys_stat p)"
definition io_lstat :: "py_path \<Rightarrow> stat_result io" where "io_lstat p = io_read (sys_lstat p)"

definition io_test :: "(stat_result \<Rightarrow> bool) \<Rightarrow> stat_result io \<Rightarrow> bool io" where
  "io_test q m = except_os (io_bind m (\<lambda>st. io_return (q st))) (\<lambda>_. io_return False)"

definition io_exists :: "py_path \<Rightarrow> bool io" where "io_exists p = io_test (\<lambda>_. True) (io_stat p)"
definition io_is_file :: "py_path \<Rightarrow> bool io" where "io_is_file p = io_test (\<lambda>st. st_kind st = S_IFREG) (io_stat p)"
definition io_is_dir :: "py_path \<Rightarrow> bool io" where "io_is_dir p = io_test (\<lambda>st. st_kind st = S_IFDIR) (io_stat p)"
definition io_is_symlink :: "py_path \<Rightarrow> bool io" where "io_is_symlink p = io_test (\<lambda>st. st_kind st = S_IFLNK) (io_lstat p)"

definition io_resolve :: "py_path \<Rightarrow> py_path io" where "io_resolve p = io_read (sys_resolve True p)"

text \<open>\<open>resolve(strict=False)\<close>, which takes what it cannot read as it is written\<close>

definition io_resolve_lax :: "py_path \<Rightarrow> py_path io" where
  "io_resolve_lax p = except_os (io_read (sys_resolve False p)) (\<lambda>_ w. (Inr (PPath True (absolute_parts (w_fs w) p)), w))"

definition io_samefile :: "py_path \<Rightarrow> py_path \<Rightarrow> bool io" where
  "io_samefile p q = io_bind (io_stat p) (\<lambda>a. io_bind (io_stat q) (\<lambda>b. io_return (st_fid a = st_fid b)))"

definition io_readlink :: "py_path \<Rightarrow> pystr io" where "io_readlink p = io_read (sys_readlink p)"
definition io_fstat :: "fid \<Rightarrow> stat_result io" where "io_fstat f = io_read (sys_fstat f)"
definition io_read_all :: "fid \<Rightarrow> pystr io" where "io_read_all f = io_read (sys_read f)"

text \<open>\<open>os.fsync\<close> changes nothing that is modelled, but it may fail.\<close>

definition io_fsync :: "fid \<Rightarrow> unit io" where "io_fsync f = io_read (\<lambda>_. Inr ())"

text \<open>\<open>os.path.abspath\<close>\<close>

definition io_abspath :: "py_path \<Rightarrow> pystr list io" where
  "io_abspath p w = (Inr (norm_parts [] (absolute_parts (w_fs w) p)), w)"

definition io_sha :: "pystr \<Rightarrow> pystr io" where
  "io_sha data w = (Inr (w_sha w data), w)"

definition io_token :: "pystr io" where
  "io_token w = (Inr (w_token w (w_drawn w)), w\<lparr>w_drawn := w_drawn w + 1\<rparr>)"

definition raise_if_cancelled :: "unit io" where
  "raise_if_cancelled w = (case w_cancel w of
     [] \<Rightarrow> (Inr (), w)
   | c # cs \<Rightarrow> (if c then Inl Cancelled else Inr (), w\<lparr>w_cancel := cs\<rparr>))"

definition record_journal :: "journal_event \<Rightarrow> unit io" where
  "record_journal ev w =
     (let w' = w\<lparr>w_log := w_log w @ [Told ev]\<rparr>
      in case w_faults w of
           [] \<Rightarrow> (Inr (), w')
         | x # xs \<Rightarrow> (case x of None \<Rightarrow> Inr () | Some e \<Rightarrow> Inl e, w'\<lparr>w_faults := xs\<rparr>))"

subsection \<open>Effects\<close>

text \<open>
  A relation between the worlds before and after that is kept by steps in sequence is kept by
  every program whose calls keep it.
\<close>

locale effect_order =
  fixes R :: "world \<Rightarrow> world \<Rightarrow> bool"
  assumes R_refl: "R w w" and R_trans: "R u v \<Longrightarrow> R v w \<Longrightarrow> R u w"
begin

definition keeps :: "'a io \<Rightarrow> bool" where
  "keeps m \<longleftrightarrow> (\<forall>w. R w (snd (m w)))"

lemma keepsD: "keeps m \<Longrightarrow> m w = (r, w') \<Longrightarrow> R w w'"
  by (auto simp: keeps_def dest: spec [where x = w])

lemma keepsI: "(\<And>w r w'. m w = (r, w') \<Longrightarrow> R w w') \<Longrightarrow> keeps m"
  unfolding keeps_def by (metis prod.collapse)

lemma keeps_return: "keeps (io_return x)"
  by (simp add: keeps_def io_return_def R_refl)

lemma keeps_raise: "keeps (io_raise e)"
  by (simp add: keeps_def io_raise_def R_refl)

lemma keeps_of_result: "keeps (io_of_result r)"
  by (simp add: keeps_def io_of_result_def R_refl)

lemma keeps_bind:
  assumes "keeps m" and "\<And>x. keeps (f x)"
  shows "keeps (io_bind m f)"
proof (rule keepsI)
  fix w r w' assume run: "io_bind m f w = (r, w')"
  obtain q v where mw: "m w = (q, v)" by (cases "m w")
  with assms(1) have "R w v" by (rule keepsD)
  moreover have "R v w'"
  proof (cases q)
    case (Inl e)
    with run mw show ?thesis by (simp add: io_bind_def R_refl)
  next
    case (Inr x)
    with run mw have "f x v = (r, w')" by (simp add: io_bind_def)
    with assms(2) show ?thesis by (rule keepsD)
  qed
  ultimately show "R w w'" by (rule R_trans)
qed

lemma keeps_catch:
  assumes "keeps m" and "\<And>e. keeps (h e)"
  shows "keeps (io_catch m h)"
proof (rule keepsI)
  fix w r w' assume run: "io_catch m h w = (r, w')"
  obtain q v where mw: "m w = (q, v)" by (cases "m w")
  with assms(1) have "R w v" by (rule keepsD)
  moreover have "R v w'"
  proof (cases q)
    case (Inl e)
    with run mw have "h e v = (r, w')" by (simp add: io_catch_def)
    with assms(2) show ?thesis by (rule keepsD)
  next
    case (Inr x)
    with run mw show ?thesis by (simp add: io_catch_def R_refl)
  qed
  ultimately show "R w w'" by (rule R_trans)
qed

lemma keeps_finally:
  assumes "keeps m" and "keeps f"
  shows "keeps (io_finally m f)"
proof (rule keepsI)
  fix w r w' assume run: "io_finally m f w = (r, w')"
  obtain q v where mw: "m w = (q, v)" by (cases "m w")
  obtain q2 u where fv: "f v = (q2, u)" by (cases "f v")
  from run mw fv have "w' = u" by (cases q2) (auto simp: io_finally_def)
  with keepsD [OF assms(1) mw] keepsD [OF assms(2) fv] show "R w w'" by (blast intro: R_trans)
qed

lemma keeps_then: "keeps m \<Longrightarrow> keeps k \<Longrightarrow> keeps (io_then m k)"
  by (simp add: io_then_def keeps_bind)

lemma keeps_when: "keeps (io_when c e)"
  by (simp add: io_when_def keeps_return keeps_raise)

lemma keeps_except_os: "keeps m \<Longrightarrow> (\<And>x. keeps (h x)) \<Longrightarrow> keeps (except_os m h)"
  by (auto simp: except_os_def intro!: keeps_catch keeps_raise split: exn.split)

lemma keeps_or_safety: "keeps m \<Longrightarrow> keeps (or_safety c m)"
  by (simp add: or_safety_def keeps_except_os keeps_raise)

lemma keeps_if: "keeps m \<Longrightarrow> keeps k \<Longrightarrow> keeps (if c then m else k)"
  by simp

lemma keeps_case_option: "keeps m \<Longrightarrow> (\<And>x. keeps (f x)) \<Longrightarrow> keeps (case v of None \<Rightarrow> m | Some x \<Rightarrow> f x)"
  by (simp split: option.split)

lemma keeps_case_sum: "(\<And>x. keeps (f x)) \<Longrightarrow> (\<And>x. keeps (g x)) \<Longrightarrow> keeps (case v of Inl x \<Rightarrow> f x | Inr x \<Rightarrow> g x)"
  by (simp split: sum.split)

lemma keeps_case_prod: "(\<And>x y. keeps (f x y)) \<Longrightarrow> keeps (case v of (x, y) \<Rightarrow> f x y)"
  by (simp split: prod.split)

lemma keeps_case_mode:
  "keeps a \<Longrightarrow> keeps b \<Longrightarrow> keeps c \<Longrightarrow> keeps d \<Longrightarrow>
   keeps (case v of Mode_copy \<Rightarrow> a | Mode_hardlink \<Rightarrow> b | Mode_symlink \<Rightarrow> c | Mode_reference_only \<Rightarrow> d)"
  by (simp split: placement_mode.split)

lemma keeps_let: "(\<And>x. keeps (f x)) \<Longrightarrow> keeps (let x = v in f x)"
  by simp

lemmas keeps_rules = keeps_return keeps_raise keeps_of_result keeps_bind keeps_catch keeps_finally
  keeps_then keeps_when keeps_except_os keeps_or_safety keeps_if keeps_case_option keeps_case_sum
  keeps_case_prod keeps_case_mode keeps_let

end

text \<open>A program that only looks does nothing of its own, and where nobody else acts the file system stays as it is.\<close>

definition untouched :: "world \<Rightarrow> world \<Rightarrow> bool" where
  "untouched w w' \<longleftrightarrow> w_log w' = w_log w \<and> w_sha w' = w_sha w \<and> w_faults w' = w_faults w
     \<and> (w_env w = [] \<longrightarrow> w_fs w' = w_fs w \<and> w_env w' = [])"

interpretation looks: effect_order untouched
  by unfold_locales (auto simp: untouched_def)

abbreviation looks_only :: "'a io \<Rightarrow> bool" where
  "looks_only \<equiv> effect_order.keeps untouched"

lemma enter_untouched: "enter w = (e, w') \<Longrightarrow> untouched w w'"
  by (auto simp: enter_def untouched_def split: list.splits)

lemma looks_read: "looks_only (io_read f)"
proof (rule looks.keepsI)
  fix w r w' assume run: "io_read f w = (r, w')"
  obtain e v where en: "enter w = (e, v)" by (cases "enter w")
  with run have "w' = v" by (auto simp: io_read_def split: option.splits sum.splits)
  with enter_untouched [OF en] show "untouched w w'" by simp
qed

lemma looks_pure: "(\<And>w. snd (m w) = w) \<Longrightarrow> looks_only m"
  by (simp add: looks.keeps_def looks.R_refl)

lemma looks_sha: "looks_only (io_sha d)"
  by (rule looks_pure) (simp add: io_sha_def)

lemma looks_abspath: "looks_only (io_abspath p)"
  by (rule looks_pure) (simp add: io_abspath_def)

lemma looks_token: "looks_only io_token"
  by (rule looks.keepsI) (auto simp: io_token_def untouched_def)

lemma looks_cancelled: "looks_only raise_if_cancelled"
  by (rule looks.keepsI) (auto simp: raise_if_cancelled_def untouched_def split: list.splits)

lemmas looks_calls = looks_read looks_sha looks_abspath looks_token looks_cancelled

lemma looks_resolve_lax: "looks_only (io_resolve_lax p)"
  unfolding io_resolve_lax_def by (intro looks.keeps_except_os looks_read looks_pure) simp

named_theorems looks_intros "programs that only look"

lemmas [looks_intros] = looks.keeps_rules looks_calls looks_resolve_lax

lemma looks_test [looks_intros]: "looks_only m \<Longrightarrow> looks_only (io_test q m)"
  unfolding io_test_def by (intro looks_intros)

lemma looks_probes [looks_intros]:
  "looks_only (io_stat p)" "looks_only (io_lstat p)" "looks_only (io_exists p)" "looks_only (io_is_file p)"
  "looks_only (io_is_dir p)" "looks_only (io_is_symlink p)" "looks_only (io_resolve p)" "looks_only (io_samefile p q)"
  "looks_only (io_readlink p)" "looks_only (io_fstat f)" "looks_only (io_read_all f)" "looks_only (io_fsync f)"
  by (auto simp: io_stat_def io_lstat_def io_exists_def io_is_file_def io_is_dir_def io_is_symlink_def io_test_def
      io_resolve_def io_samefile_def io_readlink_def io_fstat_def io_read_all_def io_fsync_def intro!: looks_intros)

subsection \<open>Triples\<close>

text \<open>Partial correctness with a second postcondition for exceptions; every program here is total.\<close>

definition triple :: "(world \<Rightarrow> bool) \<Rightarrow> 'a io \<Rightarrow> ('a \<Rightarrow> world \<Rightarrow> bool) \<Rightarrow> (exn \<Rightarrow> world \<Rightarrow> bool) \<Rightarrow> bool" where
  "triple P m Q X \<longleftrightarrow> (\<forall>w. P w \<longrightarrow> (case m w of (Inl e, w') \<Rightarrow> X e w' | (Inr x, w') \<Rightarrow> Q x w'))"

lemma tripleI:
  assumes "\<And>w e w'. P w \<Longrightarrow> m w = (Inl e, w') \<Longrightarrow> X e w'"
    and "\<And>w x w'. P w \<Longrightarrow> m w = (Inr x, w') \<Longrightarrow> Q x w'"
  shows "triple P m Q X"
  using assms by (auto simp: triple_def split: prod.split sum.split)

lemma tripleD:
  assumes "triple P m Q X" and "P w"
  shows "m w = (Inr x, w') \<Longrightarrow> Q x w'" and "m w = (Inl e, w') \<Longrightarrow> X e w'"
  using assms by (auto simp: triple_def dest!: spec [where x = w])

lemma triple_conseq:
  assumes "triple P' m Q' X'" and "\<And>w. P w \<Longrightarrow> P' w" and "\<And>x w. Q' x w \<Longrightarrow> Q x w" and "\<And>e w. X' e w \<Longrightarrow> X e w"
  shows "triple P m Q X"
  using assms tripleD [OF assms(1)] by (intro tripleI) blast+

lemma triple_return: "(\<And>w. P w \<Longrightarrow> Q x w) \<Longrightarrow> triple P (io_return x) Q X"
  by (rule tripleI) (auto simp: io_return_def)

lemma triple_raise: "(\<And>w. P w \<Longrightarrow> X e w) \<Longrightarrow> triple P (io_raise e) Q X"
  by (rule tripleI) (auto simp: io_raise_def)

lemma triple_bind:
  assumes m: "triple P m S X" and f: "\<And>x. triple (S x) (f x) Q X"
  shows "triple P (io_bind m f) Q X"
proof (rule tripleI)
  fix w e w' assume P: "P w" and "io_bind m f w = (Inl e, w')"
  then consider "m w = (Inl e, w')" | x v where "m w = (Inr x, v)" "f x v = (Inl e, w')"
    by (auto simp: io_bind_def split: prod.splits sum.splits)
  then show "X e w'" using tripleD [OF m P] tripleD [OF f] by cases blast+
next
  fix w x w' assume P: "P w" and "io_bind m f w = (Inr x, w')"
  then obtain y v where "m w = (Inr y, v)" "f y v = (Inr x, w')"
    by (auto simp: io_bind_def split: prod.splits sum.splits)
  then show "Q x w'" using tripleD [OF m P] tripleD [OF f] by blast
qed

lemma triple_then: "triple P m (\<lambda>_. S) X \<Longrightarrow> triple S k Q X \<Longrightarrow> triple P (io_then m k) Q X"
  unfolding io_then_def by (rule triple_bind)

lemma triple_catch:
  assumes m: "triple P m Q Y" and h: "\<And>e. triple (Y e) (h e) Q X"
  shows "triple P (io_catch m h) Q X"
proof (rule tripleI)
  fix w e w' assume P: "P w" and "io_catch m h w = (Inl e, w')"
  then obtain d v where "m w = (Inl d, v)" "h d v = (Inl e, w')"
    by (auto simp: io_catch_def split: prod.splits sum.splits)
  then show "X e w'" using tripleD [OF m P] tripleD [OF h] by blast
next
  fix w x w' assume P: "P w" and "io_catch m h w = (Inr x, w')"
  then consider "m w = (Inr x, w')" | d v where "m w = (Inl d, v)" "h d v = (Inr x, w')"
    by (auto simp: io_catch_def split: prod.splits sum.splits)
  then show "Q x w'" using tripleD [OF m P] tripleD [OF h] by cases blast+
qed

lemma triple_except_os:
  assumes m: "triple P m Q Y" and h: "\<And>x. triple (Y (OS_error x)) (h x) Q X"
    and other: "\<And>e w. Y e w \<Longrightarrow> (\<And>x. e \<noteq> OS_error x) \<Longrightarrow> X e w"
  shows "triple P (except_os m h) Q X"
  unfolding except_os_def
proof (rule triple_catch [OF m])
  fix e show "triple (Y e) (case e of OS_error x \<Rightarrow> h x | _ \<Rightarrow> io_raise e) Q X"
    by (cases e) (auto intro!: h triple_raise other)
qed

lemma triple_finally:
  assumes m: "triple P m S Y" and f: "\<And>x. triple (S x) f (\<lambda>_. Q x) X" and g: "\<And>e. triple (Y e) f (\<lambda>_. X e) X"
  shows "triple P (io_finally m f) Q X"
proof (rule tripleI)
  fix w e w' assume P: "P w" and run: "io_finally m f w = (Inl e, w')"
  obtain q v where mw: "m w = (q, v)" by (cases "m w")
  obtain q2 u where fv: "f v = (q2, u)" by (cases "f v")
  from run mw fv show "X e w'"
    using tripleD [OF m P] tripleD [OF f] tripleD [OF g]
    by (cases q; cases q2) (auto simp: io_finally_def)
next
  fix w x w' assume P: "P w" and run: "io_finally m f w = (Inr x, w')"
  obtain q v where mw: "m w = (q, v)" by (cases "m w")
  obtain q2 u where fv: "f v = (q2, u)" by (cases "f v")
  from run mw fv show "Q x w'"
    using tripleD [OF m P] tripleD [OF f]
    by (cases q; cases q2) (auto simp: io_finally_def)
qed

text \<open>
  Assertions on a part of the world, embedded by \<open>emb\<close>: the rules are the same for each part.
\<close>

locale assertions =
  fixes emb :: "('s \<Rightarrow> bool) \<Rightarrow> world \<Rightarrow> bool"
  assumes emb_mono: "(\<And>s. P s \<Longrightarrow> Q s) \<Longrightarrow> emb P w \<Longrightarrow> emb Q w"
    and emb_looks: "untouched w w' \<Longrightarrow> emb P w \<Longrightarrow> emb P w'"
begin

definition holds :: "('s \<Rightarrow> bool) \<Rightarrow> 'a io \<Rightarrow> ('a \<Rightarrow> 's \<Rightarrow> bool) \<Rightarrow> (exn \<Rightarrow> 's \<Rightarrow> bool) \<Rightarrow> bool" where
  "holds P m Q X = triple (emb P) m (\<lambda>x. emb (Q x)) (\<lambda>e. emb (X e))"

lemma holds_conseq:
  assumes "holds P' m Q' X'" and "\<And>s. P s \<Longrightarrow> P' s" and "\<And>x s. Q' x s \<Longrightarrow> Q x s" and "\<And>e s. X' e s \<Longrightarrow> X e s"
  shows "holds P m Q X"
  unfolding holds_def
  by (rule triple_conseq [OF assms(1) [unfolded holds_def]]) (erule emb_mono [rotated], rule assms, assumption)+

lemma holds_return: "(\<And>s. P s \<Longrightarrow> Q x s) \<Longrightarrow> holds P (io_return x) Q X"
  unfolding holds_def by (rule triple_return) (rule emb_mono)

lemma holds_raise: "(\<And>s. P s \<Longrightarrow> X e s) \<Longrightarrow> holds P (io_raise e) Q X"
  unfolding holds_def by (rule triple_raise) (rule emb_mono)

lemma holds_bind: "holds P m S X \<Longrightarrow> (\<And>x. holds (S x) (f x) Q X) \<Longrightarrow> holds P (io_bind m f) Q X"
  unfolding holds_def by (rule triple_bind)

lemma holds_then: "holds P m (\<lambda>_. S) X \<Longrightarrow> holds S k Q X \<Longrightarrow> holds P (io_then m k) Q X"
  unfolding holds_def by (rule triple_then)

lemma holds_catch: "holds P m Q Y \<Longrightarrow> (\<And>e. holds (Y e) (h e) Q X) \<Longrightarrow> holds P (io_catch m h) Q X"
  unfolding holds_def by (rule triple_catch)

lemma holds_except_os:
  assumes "holds P m Q Y" and "\<And>x. holds (Y (OS_error x)) (h x) Q X"
    and "\<And>e s. Y e s \<Longrightarrow> (\<And>x. e \<noteq> OS_error x) \<Longrightarrow> X e s"
  shows "holds P (except_os m h) Q X"
  unfolding holds_def
proof (rule triple_except_os [OF assms(1,2) [unfolded holds_def]])
  fix e w assume "emb (Y e) w" and "\<And>x. e \<noteq> OS_error x"
  with assms(3) show "emb (X e) w" using emb_mono [of "Y e" "X e" w] by blast
qed

lemma holds_looks: "looks_only m \<Longrightarrow> holds P m (\<lambda>_. P) (\<lambda>_. P)"
  unfolding holds_def by (rule tripleI) (blast intro: emb_looks dest: looks.keepsD)+

lemma holds_look_bind:
  "looks_only m \<Longrightarrow> (\<And>s e. P s \<Longrightarrow> X e s) \<Longrightarrow> (\<And>x. holds P (f x) Q X) \<Longrightarrow> holds P (io_bind m f) Q X"
  by (rule holds_bind [where S = "\<lambda>_. P"]) (auto intro: holds_conseq [OF holds_looks])

lemma holds_look_then:
  "looks_only m \<Longrightarrow> (\<And>s e. P s \<Longrightarrow> X e s) \<Longrightarrow> holds P k Q X \<Longrightarrow> holds P (io_then m k) Q X"
  unfolding io_then_def by (rule holds_look_bind)

end

text \<open>The log\<close>

interpretation log: assertions "\<lambda>P w. P (w_log w)"
  by unfold_locales (auto simp: untouched_def)

abbreviation ltriple :: "(happening list \<Rightarrow> bool) \<Rightarrow> 'a io \<Rightarrow> ('a \<Rightarrow> happening list \<Rightarrow> bool) \<Rightarrow> (exn \<Rightarrow> happening list \<Rightarrow> bool) \<Rightarrow> bool" where
  "ltriple \<equiv> assertions.holds (\<lambda>P w. P (w_log w))"

lemmas ltriple_def = log.holds_def
lemmas ltriple_conseq = log.holds_conseq
lemmas ltriple_return = log.holds_return
lemmas ltriple_raise = log.holds_raise
lemmas ltriple_bind = log.holds_bind
lemmas ltriple_then = log.holds_then
lemmas ltriple_catch = log.holds_catch
lemmas ltriple_except_os = log.holds_except_os
lemmas ltriple_looks = log.holds_looks
lemmas ltriple_look_bind = log.holds_look_bind
lemmas ltriple_look_then = log.holds_look_then

lemma ltriple_change:
  assumes "\<And>l f. P l \<Longrightarrow> Q f (l @ [Did (act f)])" and "\<And>l x. P l \<Longrightarrow> X (OS_error x) l"
  shows "ltriple P (io_change act g) Q X"
  unfolding ltriple_def
proof (rule tripleI)
  fix w e w' assume P: "P (w_log w)" and run: "io_change act g w = (Inl e, w')"
  obtain d v where en: "enter w = (d, v)" by (cases "enter w")
  from run en have "w' = v" and "\<exists>x. e = OS_error x"
    by (auto simp: io_change_def split: option.splits prod.splits sum.splits)
  with P assms(2) enter_untouched [OF en] show "X e (w_log w')" by (auto simp: untouched_def)
next
  fix w x w' assume P: "P (w_log w)" and run: "io_change act g w = (Inr x, w')"
  obtain d v where en: "enter w = (d, v)" by (cases "enter w")
  from run en have "w_log w' = w_log v @ [Did (act x)]"
    by (auto simp: io_change_def split: option.splits prod.splits sum.splits)
  with P assms(1) enter_untouched [OF en] show "Q x (w_log w')" by (auto simp: untouched_def)
qed

lemma ltriple_journal:
  assumes "\<And>l. P l \<Longrightarrow> Q () (l @ [Told ev])" and "\<And>l e. P l \<Longrightarrow> X e (l @ [Told ev])"
  shows "ltriple P (record_journal ev) Q X"
  unfolding ltriple_def
  using assms by (intro tripleI) (auto simp: record_journal_def Let_def split: list.splits option.splits)

lemma ltripleD: "ltriple P m Q X \<Longrightarrow> P (w_log w) \<Longrightarrow>
  (case m w of (Inl e, w') \<Rightarrow> X e (w_log w') | (Inr x, w') \<Rightarrow> Q x (w_log w'))"
  by (simp add: ltriple_def triple_def)

end
