(* ===== verification/Arc_Preview.thy ===== *)
theory Arc_Preview
  imports Placement_IO Story_Arc_Naming
begin

text \<open>
  \<open>services/story_arc_placement_preview.py\<close>: the read-only safety and collision check of one
  placement. Modes and styles arrive as the text of their values; messages for the user are
  left out, their codes are kept.
\<close>

subsection \<open>Modes and styles\<close>

datatype symlink_style = Style_absolute | Style_relative

fun mode_value :: "placement_mode \<Rightarrow> pystr" where
  "mode_value Mode_copy = ''copy''"
| "mode_value Mode_hardlink = ''hardlink''"
| "mode_value Mode_symlink = ''symlink''"
| "mode_value Mode_reference_only = ''reference_only''"

fun style_value :: "symlink_style \<Rightarrow> pystr" where
  "style_value Style_absolute = ''absolute''"
| "style_value Style_relative = ''relative''"

definition coerce_mode :: "pystr \<Rightarrow> (exn, placement_mode) result" where
  "coerce_mode s = (case find (\<lambda>x. mode_value x = s) [Mode_copy, Mode_hardlink, Mode_symlink, Mode_reference_only] of
     Some x \<Rightarrow> Inr x | None \<Rightarrow> Inl Value_error)"

definition coerce_symlink_style :: "pystr option \<Rightarrow> (exn, symlink_style option) result" where
  "coerce_symlink_style v = (case v of
     None \<Rightarrow> Inr None
   | Some s \<Rightarrow> (case find (\<lambda>x. style_value x = s) [Style_absolute, Style_relative] of
       Some x \<Rightarrow> Inr (Some x) | None \<Rightarrow> Inl Value_error))"

definition validate_mode_and_style :: "placement_mode \<Rightarrow> symlink_style option \<Rightarrow> (exn, unit) result" where
  "validate_mode_and_style mode style =
     (if mode = Mode_symlink \<and> style = None then Inl Value_error
      else if mode \<noteq> Mode_symlink \<and> style \<noteq> None then Inl Value_error
      else Inr ())"

subsection \<open>Previews\<close>

datatype preview_state = Pv_ready | Pv_logical_only | Pv_already_represented | Pv_blocked

datatype collision_kind =
    Ck_none | Ck_different_content | Ck_same_inode_referenced | Ck_case_only | Ck_path_escape | Ck_cross_device
  | Ck_root_unavailable | Ck_symlink_root | Ck_symlink_parent | Ck_parent_not_directory | Ck_directory_scan_limit
  | Ck_collision_scan_failed | Ck_source_unavailable

fun collision_value :: "collision_kind \<Rightarrow> pystr" where
  "collision_value Ck_none = ''none''"
| "collision_value Ck_different_content = ''different_content''"
| "collision_value Ck_same_inode_referenced = ''same_inode_referenced''"
| "collision_value Ck_case_only = ''case_only''"
| "collision_value Ck_path_escape = ''path_escape''"
| "collision_value Ck_cross_device = ''cross_device''"
| "collision_value Ck_root_unavailable = ''root_unavailable''"
| "collision_value Ck_symlink_root = ''symlink_root''"
| "collision_value Ck_symlink_parent = ''symlink_parent''"
| "collision_value Ck_parent_not_directory = ''parent_not_directory''"
| "collision_value Ck_directory_scan_limit = ''directory_scan_limit''"
| "collision_value Ck_collision_scan_failed = ''collision_scan_failed''"
| "collision_value Ck_source_unavailable = ''source_unavailable''"

record placement_preview =
  pv_state :: preview_state
  pv_mode :: placement_mode
  pv_target :: "py_path option"
  pv_collision :: collision_kind
  pv_required_bytes :: int
  pv_ownership :: pystr

definition preview_of :: "preview_state \<Rightarrow> placement_mode \<Rightarrow> py_path option \<Rightarrow> placement_preview" where
  "preview_of state mode target = \<lparr>pv_state = state, pv_mode = mode, pv_target = target, pv_collision = Ck_none,
     pv_required_bytes = 0, pv_ownership = ''managed''\<rparr>"

definition blocked :: "placement_mode \<Rightarrow> py_path option \<Rightarrow> collision_kind \<Rightarrow> placement_preview" where
  "blocked mode target collision = (preview_of Pv_blocked mode target)\<lparr>pv_collision := collision\<rparr>"

definition MAX_CASE_SCAN_ENTRIES :: int where "MAX_CASE_SCAN_ENTRIES = 10000"

text \<open>The first name that differs from \<open>target\<close> in case only; the left summand: too many entries\<close>

fun scan_names :: "int \<Rightarrow> pystr \<Rightarrow> pystr list \<Rightarrow> (unit, pystr option) result" where
  "scan_names k target [] = Inr None"
| "scan_names k target (n # ns) =
     (if k \<le> 0 then Inl ()
      else if n \<noteq> target \<and> py_casefold n = py_casefold target then Inr (Some n)
      else scan_names (k - 1) target ns)"

definition find_case_only_collision :: "py_path \<Rightarrow> (collision_kind, pystr option) result io" where
  "find_case_only_collision target =
     io_bind (io_exists (path_parent target)) (\<lambda>there.
     if \<not> there then io_return (Inr None)
     else io_bind (io_is_dir (path_parent target)) (\<lambda>isdir.
     if \<not> isdir then io_return (Inr None)
     else except_os (io_bind (io_read (sys_listdir (path_parent target))) (\<lambda>names.
            io_return (case scan_names MAX_CASE_SCAN_ENTRIES (path_name target) names of
              Inl _ \<Rightarrow> Inl Ck_directory_scan_limit | Inr n \<Rightarrow> Inr n)))
          (\<lambda>_. io_return (Inl Ck_collision_scan_failed))))"

function nearest_existing_ancestor :: "py_path \<Rightarrow> py_path io" where
  "nearest_existing_ancestor current =
     io_bind (io_exists current) (\<lambda>there.
     if there then io_return current
     else if path_parent current = current then io_return current
     else nearest_existing_ancestor (path_parent current))"
  by pat_completeness auto
termination
proof (relation "measure (\<lambda>p. length (path_parts p))", simp)
  fix current :: py_path and x
  show "path_parent current \<noteq> current \<Longrightarrow> (path_parent current, current) \<in> measure (\<lambda>p. length (path_parts p))"
    by (cases current; cases "path_parts current") (auto simp: path_parent_def)
qed

declare nearest_existing_ancestor.simps [simp del]

fun existing_parent_collision :: "py_path \<Rightarrow> pystr list \<Rightarrow> py_path \<Rightarrow> collision_kind option io" where
  "existing_parent_collision current [] resolved_root = io_return None"
| "existing_parent_collision current (part # parts) resolved_root =
     (let here = PPath (path_abs current) (path_parts current @ [part])
      in io_bind (except_os (io_bind (io_lstat here) (\<lambda>_. io_return None))
           (\<lambda>e. io_return (Some (if e = ENOENT then None else Some Ck_collision_scan_failed)))) (\<lambda>stop.
         case stop of
           Some answer \<Rightarrow> io_return answer
         | None \<Rightarrow>
             io_bind (io_is_symlink here) (\<lambda>link.
             if link then
               except_os (io_bind (io_resolve here) (\<lambda>resolved.
                   io_return (Some (if path_relative_to resolved resolved_root = None then Ck_path_escape else Ck_symlink_parent))))
                 (\<lambda>_. io_return (Some Ck_symlink_parent))
             else io_bind (io_is_dir here) (\<lambda>isdir.
               if \<not> isdir then io_return (Some Ck_parent_not_directory)
               else existing_parent_collision here parts resolved_root))))"

subsection \<open>The checks in their order\<close>

text \<open>The source and the root\<close>

definition preview_source :: "py_path option \<Rightarrow> bool io" where
  "preview_source canonical = (case canonical of
     None \<Rightarrow> io_return False
   | Some p \<Rightarrow>
       io_bind (io_exists p) (\<lambda>there.
       if \<not> there then io_return False
       else io_bind (io_is_file p) (\<lambda>isfile.
       if \<not> isfile then io_return False
       else io_bind (io_is_symlink p) (\<lambda>link. io_return (\<not> link)))))"

definition preview_root :: "py_path option \<Rightarrow> collision_kind option io" where
  "preview_root dest = (case dest of
     None \<Rightarrow> io_return (Some Ck_root_unavailable)
   | Some r \<Rightarrow>
       if \<not> path_abs r then io_return (Some Ck_root_unavailable)
       else io_bind (io_is_symlink r) (\<lambda>link.
       if link then io_return (Some Ck_symlink_root)
       else io_bind (io_exists r) (\<lambda>there.
       if \<not> there then io_return (Some Ck_root_unavailable)
       else io_bind (io_is_dir r) (\<lambda>isdir.
       if \<not> isdir then io_return (Some Ck_root_unavailable)
       else io_bind (io_test (\<lambda>_. True) (io_stat r)) (\<lambda>access.
       io_return (if access then None else Some Ck_root_unavailable))))))"

text \<open>An artifact at the destination, and a free destination\<close>

definition preview_existing :: "placement_mode \<Rightarrow> py_path \<Rightarrow> py_path \<Rightarrow> placement_preview io" where
  "preview_existing mode source target =
     io_bind (except_os
       (io_bind (io_exists target) (\<lambda>there. if there then io_samefile target source else io_return False))
       (\<lambda>_. io_return False)) (\<lambda>same_inode.
     io_return (if same_inode
       then (preview_of Pv_already_represented mode (Some target))
         \<lparr>pv_collision := Ck_same_inode_referenced, pv_ownership := ''referenced''\<rparr>
       else blocked mode (Some target) Ck_different_content))"

definition preview_free :: "placement_mode \<Rightarrow> py_path \<Rightarrow> py_path \<Rightarrow> placement_preview io" where
  "preview_free mode source target =
     io_bind (io_stat source) (\<lambda>source_stat.
     let ready = (preview_of Pv_ready mode (Some target))
       \<lparr>pv_required_bytes := (if mode = Mode_copy then st_size source_stat else 0)\<rparr>
     in if mode = Mode_hardlink then
          io_bind (nearest_existing_ancestor (path_parent target)) (\<lambda>ancestor.
          io_bind (io_stat ancestor) (\<lambda>ancestor_stat.
          io_return (if st_dev source_stat \<noteq> st_dev ancestor_stat
            then blocked mode (Some target) Ck_cross_device else ready)))
        else io_return ready)"

definition preview_target :: "placement_mode \<Rightarrow> py_path \<Rightarrow> py_path \<Rightarrow> py_path \<Rightarrow> placement_preview io" where
  "preview_target mode source dest target =
     io_bind (io_resolve dest) (\<lambda>resolved_root.
     case path_relative_to (path_parent target) dest of
       None \<Rightarrow> io_raise Value_error
     | Some parts \<Rightarrow>
         io_bind (existing_parent_collision dest parts resolved_root) (\<lambda>parent_collision.
         case parent_collision of
           Some collision \<Rightarrow> io_return (blocked mode (Some target) collision)
         | None \<Rightarrow>
             io_bind (io_resolve_lax (path_parent target)) (\<lambda>resolved_parent.
             if path_relative_to (PPath (path_abs resolved_parent) (path_parts resolved_parent @ [path_name target]))
                  resolved_root = None
             then io_return (blocked mode (Some target) Ck_path_escape)
             else io_bind (find_case_only_collision target) (\<lambda>scan.
               case scan of
                 Inl collision \<Rightarrow> io_return (blocked mode (Some target) collision)
               | Inr (Some n) \<Rightarrow> io_return (blocked mode (Some target) Ck_case_only)
               | Inr None \<Rightarrow>
                   io_bind (io_exists target) (\<lambda>there.
                   io_bind (if there then io_return True else io_is_symlink target) (\<lambda>taken.
                   if taken then preview_existing mode source target
                   else preview_free mode source target))))))"

definition relative_target :: "py_path \<Rightarrow> pystr \<times> pystr \<Rightarrow> py_path" where
  "relative_target dest names = path_join (path_join dest (parse_path (fst names))) (parse_path (snd names))"

definition preview_story_arc_placement ::
  "py_path option \<Rightarrow> py_path option \<Rightarrow> arc_values \<Rightarrow> pystr \<Rightarrow> pystr option \<Rightarrow> pystr option \<Rightarrow> pystr option \<Rightarrow>
   placement_preview io" where
  "preview_story_arc_placement canonical dest values mode_text style_text folder_template file_template =
     io_bind (io_of_result (coerce_mode mode_text)) (\<lambda>mode.
     io_bind (io_of_result (coerce_symlink_style style_text)) (\<lambda>style.
     io_then (io_of_result (validate_mode_and_style mode style))
     (if mode = Mode_reference_only
      then io_return ((preview_of Pv_logical_only mode None)\<lparr>pv_ownership := ''referenced''\<rparr>)
      else
        io_bind (preview_source canonical) (\<lambda>source_ok.
        if \<not> source_ok then io_return (blocked mode None Ck_source_unavailable)
        else io_bind (preview_root dest) (\<lambda>root_problem.
        case root_problem of
          Some collision \<Rightarrow> io_return (blocked mode None collision)
        | None \<Rightarrow>
            (case (canonical, dest) of
               (Some source, Some r) \<Rightarrow>
                 (case render_story_arc_relative_path (values\<lparr>av_original_filename := Some (path_name source)\<rparr>)
                         (or_else folder_template DEFAULT_STORY_ARC_FOLDER_TEMPLATE)
                         (or_else file_template DEFAULT_STORY_ARC_FILE_TEMPLATE) True '' -'' of
                    Inl e \<Rightarrow> if e = Arc_original_filename then io_return (blocked mode None Ck_source_unavailable)
                      else io_raise Value_error
                  | Inr names \<Rightarrow> preview_target mode source r (relative_target r names))
             | _ \<Rightarrow> io_return (blocked mode None Ck_source_unavailable)))))))"

subsection \<open>Nothing is created\<close>

lemma looks_nearest [looks_intros]: "looks_only (nearest_existing_ancestor p)"
  by (induction p rule: nearest_existing_ancestor.induct)
    (subst nearest_existing_ancestor.simps, auto intro!: looks_intros)

lemma looks_parent_collision [looks_intros]: "looks_only (existing_parent_collision current parts resolved)"
  by (induction current parts resolved rule: existing_parent_collision.induct) (auto intro!: looks_intros simp: Let_def)

lemma looks_case_collision [looks_intros]: "looks_only (find_case_only_collision p)"
  by (auto simp: find_case_only_collision_def intro!: looks_intros)

lemma looks_preview_parts [looks_intros]:
  "looks_only (preview_source c)" "looks_only (preview_root r)" "looks_only (preview_existing m s t)"
  "looks_only (preview_free m s t)"
  by (auto simp: preview_source_def preview_root_def preview_existing_def preview_free_def Let_def
      intro!: looks_intros)

lemma looks_preview_target [looks_intros]: "looks_only (preview_target m s r t)"
  unfolding preview_target_def by (intro looks_intros)

lemma looks_preview [looks_intros]:
  "looks_only (preview_story_arc_placement c r v m s ft fl)"
  unfolding preview_story_arc_placement_def by (intro looks_intros)

end
