(* ===== verification/Arc_Files.thy ===== *)
theory Arc_Files
  imports Arc_Preview
begin

text \<open>
  The file handling of \<open>services/story_arc_placement_service.py\<close>: the source and root checks, the
  directories opened one component at a time without following links, the fingerprints, and the
  three ways to publish a file. A descriptor is the node it was opened on. Closing descriptors
  and the check that the platform has the calls (it has) are left out.
\<close>

subsection \<open>Source and root\<close>

definition validated_regular_source :: "py_path option \<Rightarrow> py_path io" where
  "validated_regular_source source = (case source of
     None \<Rightarrow> io_raise (Safety ''source_unavailable'')
   | Some p \<Rightarrow>
       io_then (io_when (\<not> path_abs p) (Safety ''source_unavailable''))
       (io_bind (io_is_symlink p) (\<lambda>link.
        io_then (io_when link (Safety ''source_symlink''))
       (io_bind (or_safety ''source_unavailable''
           (io_bind (io_resolve p) (\<lambda>resolved. io_bind (io_stat resolved) (\<lambda>st. io_return (resolved, st))))) (\<lambda>(resolved, st).
        io_then (io_when (st_kind st \<noteq> S_IFREG) (Safety ''source_unavailable'')) (io_return resolved))))))"

record root_guard =
  rg_path :: py_path
  rg_resolved :: py_path
  rg_device :: int
  rg_inode :: int

definition validated_root :: "py_path option \<Rightarrow> root_guard io" where
  "validated_root dest = (case dest of
     None \<Rightarrow> io_raise (Safety ''root_unavailable'')
   | Some r \<Rightarrow>
       io_then (io_when (\<not> path_abs r) (Safety ''root_unavailable''))
       (io_bind (io_is_symlink r) (\<lambda>link.
        io_then (io_when link (Safety ''symlink_root''))
       (io_bind (or_safety ''root_unavailable''
           (io_bind (io_resolve r) (\<lambda>resolved. io_bind (io_stat r) (\<lambda>st. io_return (resolved, st))))) (\<lambda>(resolved, st).
        io_bind (io_is_dir resolved) (\<lambda>isdir.
        io_then (io_when (\<not> isdir) (Safety ''root_unavailable''))
        (io_return \<lparr>rg_path = r, rg_resolved = resolved, rg_device = st_dev st, rg_inode = st_ino st\<rparr>)))))))"

definition root_fingerprint :: "root_guard \<Rightarrow> fingerprint" where
  "root_fingerprint g = JObj [(''schema_version'', JInt 1), (''kind'', JStr ''directory''),
     (''path'', JStr (path_str (rg_path g))), (''resolved_path'', JStr (path_str (rg_resolved g))),
     (''device'', JInt (rg_device g)), (''inode'', JInt (rg_inode g))]"

definition recheck_root :: "root_guard \<Rightarrow> unit io" where
  "recheck_root g =
     io_bind (io_is_symlink (rg_path g)) (\<lambda>link.
     io_then (io_when link (Safety ''symlink_root''))
     (io_bind (or_safety ''root_changed''
         (io_bind (io_stat (rg_path g)) (\<lambda>st. io_bind (io_resolve (rg_path g)) (\<lambda>resolved. io_return (st, resolved))))) (\<lambda>(st, resolved).
      io_when (st_kind st \<noteq> S_IFDIR \<or> st_dev st \<noteq> rg_device g \<or> st_ino st \<noteq> rg_inode g \<or> resolved \<noteq> rg_resolved g)
        (Safety ''root_changed''))))"

definition validate_target_lexically :: "py_path \<Rightarrow> py_path \<Rightarrow> (exn, unit) result" where
  "validate_target_lexically base target = (case path_relative_to target base of
     None \<Rightarrow> Inl (Safety ''path_escape'')
   | Some parts \<Rightarrow>
       if parts = [] \<or> list_ex (\<lambda>p. p \<in> {[], ''.'', ''..''}) parts then Inl (Safety ''path_escape'') else Inr ())"

fun check_existing_parents :: "py_path \<Rightarrow> pystr list \<Rightarrow> py_path \<Rightarrow> unit io" where
  "check_existing_parents current [] resolved_root = io_return ()"
| "check_existing_parents current (part # parts) resolved_root =
     (let here = PPath (path_abs current) (path_parts current @ [part])
      in io_bind (io_is_symlink here) (\<lambda>link.
         if link then
           io_bind (or_safety ''symlink_parent'' (io_resolve here)) (\<lambda>resolved.
           io_raise (Safety (if path_relative_to resolved resolved_root = None then ''path_escape'' else ''symlink_parent'')))
         else
           io_bind (io_exists here) (\<lambda>there.
           io_bind (if there then io_is_dir here else io_return True) (\<lambda>isdir.
           io_then (io_when (there \<and> \<not> isdir) (Safety ''parent_not_directory''))
           (io_bind (io_exists here) (\<lambda>still.
            if \<not> still then io_return () else check_existing_parents here parts resolved_root))))))"

definition validate_safe_existing_parents :: "root_guard \<Rightarrow> py_path \<Rightarrow> unit io" where
  "validate_safe_existing_parents g parent =
     io_then (recheck_root g)
     (case path_relative_to parent (rg_path g) of
        None \<Rightarrow> io_raise Value_error
      | Some parts \<Rightarrow>
          io_then (check_existing_parents (rg_path g) parts (rg_resolved g)) (recheck_root g))"

definition validate_path_limits :: "py_path \<Rightarrow> (exn, unit) result" where
  "validate_path_limits target =
     (if utf8_len (path_name target) > 255 then Inl (Safety ''name_too_long'')
      else if utf8_len (path_str target) > 4096 then Inl (Safety ''path_too_long'')
      else if length (path_str target) > 1000 then Inl (Safety ''path_too_long'')
      else Inr ())"

definition reject_canonical_destination :: "py_path \<Rightarrow> py_path \<Rightarrow> unit io" where
  "reject_canonical_destination source target =
     io_bind (io_abspath source) (\<lambda>a. io_bind (io_abspath target) (\<lambda>b.
     io_when (a = b) (Safety ''canonical_destination'')))"

subsection \<open>Directories opened component by component\<close>

definition open_directory_component :: "pystr \<Rightarrow> fid \<Rightarrow> fid io" where
  "open_directory_component name d =
     io_bind (except_os (io_read (sys_open_dir_at d name))
       (\<lambda>e. if e = ELOOP \<or> e = EMLINK then io_raise (Safety ''symlink_parent'')
         else if e = ENOTDIR then io_raise (Safety ''parent_not_directory'')
         else io_raise (OS_error e))) (\<lambda>f.
     io_bind (io_fstat f) (\<lambda>st.
     io_then (io_when (st_kind st \<noteq> S_IFDIR) (Safety ''parent_not_directory'')) (io_return f)))"

definition fsync_directory :: "fid \<Rightarrow> unit io" where
  "fsync_directory f = or_safety ''durability_unavailable'' (io_fsync f)"

definition io_mkdir :: "fid \<Rightarrow> pystr \<Rightarrow> fid io" where
  "io_mkdir d n = io_change (A_mkdir d n) (sys_mkdir_at d n)"

definition make_component :: "pystr \<Rightarrow> fid \<Rightarrow> (fid \<times> bool) io" where
  "make_component part d =
     io_bind (io_catch (io_then (io_mkdir d part) (io_return True))
       (\<lambda>e. if e = OS_error EEXIST then io_return False else io_raise e)) (\<lambda>created.
     io_bind (open_directory_component part d) (\<lambda>f. io_return (f, created)))"

fun descend :: "bool \<Rightarrow> fid \<Rightarrow> pystr list \<Rightarrow> fid io" where
  "descend create d [] = io_return d"
| "descend create d (part # parts) =
     io_bind (io_catch (io_bind (open_directory_component part d) (\<lambda>f. io_return (f, False)))
       (\<lambda>e. if e = OS_error ENOENT \<and> create then make_component part d else io_raise e)) (\<lambda>(f, created).
     io_then (if created then io_then (fsync_directory f) (fsync_directory d) else io_return ())
       (descend create f parts))"

definition open_root :: "root_guard \<Rightarrow> fid io" where
  "open_root g =
     io_bind (except_os (io_read (sys_open_dir (rg_path g)))
       (\<lambda>e. io_raise (Safety (if e = ELOOP \<or> e = EMLINK then ''symlink_root'' else ''root_changed'')))) (\<lambda>f.
     io_bind (io_fstat f) (\<lambda>st.
     io_then (io_when (st_kind st \<noteq> S_IFDIR \<or> st_dev st \<noteq> rg_device g \<or> st_ino st \<noteq> rg_inode g) (Safety ''root_changed''))
       (io_return f)))"

record secure_parent =
  sp_guard :: root_guard
  sp_path :: py_path
  sp_fd :: fid
  sp_device :: int
  sp_inode :: int

definition open_secure_parent_directory :: "root_guard \<Rightarrow> py_path \<Rightarrow> bool \<Rightarrow> secure_parent io" where
  "open_secure_parent_directory g parent create = (case path_relative_to parent (rg_path g) of
     None \<Rightarrow> io_raise Value_error
   | Some parts \<Rightarrow>
       io_bind (open_root g) (\<lambda>root_fd.
       io_bind (descend create root_fd parts) (\<lambda>f.
       io_bind (io_fstat f) (\<lambda>st.
       io_return \<lparr>sp_guard = g, sp_path = parent, sp_fd = f, sp_device = st_dev st, sp_inode = st_ino st\<rparr>))))"

definition assert_parent_path_stable :: "secure_parent \<Rightarrow> unit io" where
  "assert_parent_path_stable p =
     io_then (recheck_root (sp_guard p))
     (io_catch
       (io_bind (open_secure_parent_directory (sp_guard p) (sp_path p) False) (\<lambda>reopened.
        io_when (sp_device reopened \<noteq> sp_device p \<or> sp_inode reopened \<noteq> sp_inode p) (Safety ''parent_changed'')))
       (\<lambda>e. case e of
          Safety c \<Rightarrow> io_raise (if c = ''root_changed'' \<or> c = ''symlink_root'' then e else Safety ''parent_changed'')
        | OS_error x \<Rightarrow> io_raise (if x = ENOENT then Safety ''parent_changed'' else e)
        | _ \<Rightarrow> io_raise e))"

subsection \<open>Entries\<close>

definition entry_lstat_at :: "fid \<Rightarrow> pystr \<Rightarrow> stat_result io" where
  "entry_lstat_at d n = io_read (sys_lstat_at d n)"

definition entry_exists_at :: "fid \<Rightarrow> pystr \<Rightarrow> bool io" where
  "entry_exists_at d n = io_catch (io_bind (entry_lstat_at d n) (\<lambda>_. io_return True))
     (\<lambda>e. if e = OS_error ENOENT then io_return False else io_raise e)"

definition readlink_at :: "fid \<Rightarrow> pystr \<Rightarrow> pystr io" where
  "readlink_at d n = io_read (sys_readlink_at d n)"

definition path_exists :: "py_path \<Rightarrow> bool io" where
  "path_exists p = io_bind (io_exists p) (\<lambda>there. if there then io_return True else io_is_symlink p)"

definition scan_result :: "pystr \<Rightarrow> pystr list \<Rightarrow> pystr option io" where
  "scan_result target names = (case scan_names MAX_CASE_SCAN_ENTRIES target names of
     Inl _ \<Rightarrow> io_raise (Safety ''directory_scan_limit'') | Inr n \<Rightarrow> io_return n)"

definition case_only_collision_at :: "fid \<Rightarrow> pystr \<Rightarrow> pystr option io" where
  "case_only_collision_at d target =
     or_safety ''collision_scan_failed'' (io_bind (io_read (sys_scandir d)) (scan_result target))"

definition case_only_collision :: "py_path \<Rightarrow> pystr option io" where
  "case_only_collision target =
     io_bind (io_exists (path_parent target)) (\<lambda>there.
     if \<not> there then io_return None
     else io_bind (io_is_dir (path_parent target)) (\<lambda>isdir.
     if \<not> isdir then io_return None
     else io_bind (io_is_symlink (path_parent target)) (\<lambda>link.
     if link then io_return None
     else or_safety ''collision_scan_failed''
       (io_bind (io_read (sys_listdir (path_parent target))) (scan_result (path_name target))))))"

subsection \<open>Fingerprints\<close>

definition regular_fingerprint :: "stat_result \<Rightarrow> pystr \<Rightarrow> fingerprint" where
  "regular_fingerprint st digest = JObj [(''schema_version'', JInt 1), (''kind'', JStr ''regular''),
     (''size'', JInt (st_size st)), (''mtime_ns'', JInt (st_mtime st)), (''device'', JInt (st_dev st)),
     (''inode'', JInt (st_ino st)), (''sha256'', JStr digest)]"

definition symlink_fingerprint :: "stat_result \<Rightarrow> pystr \<Rightarrow> fingerprint \<Rightarrow> fingerprint" where
  "symlink_fingerprint st link_target content = JObj [(''schema_version'', JInt 1), (''kind'', JStr ''symlink''),
     (''link_target'', JStr link_target), (''device'', JInt (st_dev st)), (''inode'', JInt (st_ino st)),
     (''mtime_ns'', JInt (st_mtime st)), (''content'', content)]"

text \<open>\<open>fingerprint.get(key)\<close>, and its comparison with an integer or a text\<close>

definition fp_get :: "fingerprint \<Rightarrow> pystr \<Rightarrow> json" where
  "fp_get fp k = or_else (json_get fp k) JNull"

definition stat_identity :: "stat_result \<Rightarrow> fid \<times> int \<times> int" where
  "stat_identity st = (st_fid st, st_size st, st_mtime st)"

definition stat_matches_fingerprint :: "stat_result \<Rightarrow> fingerprint \<Rightarrow> bool" where
  "stat_matches_fingerprint st fp \<longleftrightarrow>
     py_eq (JInt (st_dev st)) (fp_get fp ''device'') \<and> py_eq (JInt (st_ino st)) (fp_get fp ''inode'')
     \<and> py_eq (JInt (st_size st)) (fp_get fp ''size'') \<and> py_eq (JInt (st_mtime st)) (fp_get fp ''mtime_ns'')"

definition fingerprint_content_matches :: "fingerprint \<Rightarrow> fingerprint \<Rightarrow> bool" where
  "fingerprint_content_matches target source =
     (let content = (if fp_get target ''kind'' = JStr ''symlink'' then fp_get target ''content'' else target)
      in is_obj content \<and> py_eq (fp_get content ''sha256'') (fp_get source ''sha256''))"

definition fingerprint_regular_descriptor :: "fid \<Rightarrow> fingerprint io" where
  "fingerprint_regular_descriptor f =
     io_bind (io_fstat f) (\<lambda>st1.
     io_then (io_when (st_kind st1 \<noteq> S_IFREG) (Safety ''not_regular_file''))
     (io_bind (io_read_all f) (\<lambda>data.
      io_bind (io_sha data) (\<lambda>digest.
      io_bind (io_fstat f) (\<lambda>st2.
      io_then (io_when (stat_identity st1 \<noteq> stat_identity st2) (Safety ''source_changed''))
        (io_return (regular_fingerprint st2 digest)))))))"

text \<open>A fingerprint of a file that is opened without following a link: the entry is looked at before
  and after; \<open>label\<close> is the code reported when it is another one.\<close>

definition fingerprint_opened :: "pystr \<Rightarrow> stat_result \<Rightarrow> fid \<Rightarrow> stat_result io \<Rightarrow> fingerprint io" where
  "fingerprint_opened label st1 f again =
     io_bind (io_fstat f) (\<lambda>opened.
     io_then (io_when (st_fid opened \<noteq> st_fid st1) (Safety label))
     (io_bind (fingerprint_regular_descriptor f) (\<lambda>fp.
      io_bind again (\<lambda>st2.
      io_then (io_when (st_fid st2 \<noteq> st_fid st1) (Safety label)) (io_return fp)))))"

definition fingerprint_regular_nofollow :: "py_path \<Rightarrow> fingerprint io" where
  "fingerprint_regular_nofollow p =
     io_bind (or_safety ''source_changed''
       (io_bind (io_lstat p) (\<lambda>st1. io_bind (io_read (sys_open p)) (\<lambda>f. io_return (st1, f))))) (\<lambda>(st1, f).
     io_then (if st_kind st1 \<noteq> S_IFREG then io_then (io_fstat f) (io_raise (Safety ''source_changed'')) else io_return ())
     (fingerprint_opened ''source_changed'' st1 f (or_safety ''source_changed'' (io_lstat p))))"

definition fingerprint_regular_at :: "fid \<Rightarrow> pystr \<Rightarrow> fingerprint io" where
  "fingerprint_regular_at d n =
     io_bind (entry_lstat_at d n) (\<lambda>st1.
     io_then (io_when (st_kind st1 \<noteq> S_IFREG) (Safety ''not_regular_file''))
     (io_bind (or_safety ''fingerprint_mismatch'' (io_read (sys_open_at d n))) (\<lambda>f.
      fingerprint_opened ''fingerprint_mismatch'' st1 f (entry_lstat_at d n))))"

text \<open>\<open>Path(link_target)\<close>, below the parent directory when it is relative\<close>

definition prospective_path :: "py_path \<Rightarrow> pystr \<Rightarrow> py_path" where
  "prospective_path parent link_target = path_join parent (parse_path link_target)"

definition fingerprint_target_at :: "secure_parent \<Rightarrow> pystr \<Rightarrow> py_path option \<Rightarrow> fingerprint io" where
  "fingerprint_target_at p n canonical =
     io_bind (entry_lstat_at (sp_fd p) n) (\<lambda>st1.
     if st_kind st1 \<noteq> S_IFLNK then fingerprint_regular_at (sp_fd p) n
     else (case canonical of
       None \<Rightarrow> io_raise (Safety ''canonical_source_required'')
     | Some c \<Rightarrow>
         io_bind (readlink_at (sp_fd p) n) (\<lambda>link_target.
         io_bind (entry_lstat_at (sp_fd p) n) (\<lambda>st2.
         io_bind (if st_fid st1 \<noteq> st_fid st2 \<or> st_mtime st1 \<noteq> st_mtime st2 then io_return False
                  else io_bind (readlink_at (sp_fd p) n) (\<lambda>again. io_return (again = link_target))) (\<lambda>same.
         io_then (io_when (\<not> same) (Safety ''fingerprint_mismatch''))
         (io_bind (or_safety ''dangling_symlink''
             (io_bind (io_resolve (prospective_path (sp_path p) link_target)) (\<lambda>resolved.
              io_bind (io_resolve c) (\<lambda>real. io_return (resolved, real))))) (\<lambda>(resolved, real).
          io_then (io_when (resolved \<noteq> real) (Safety ''fingerprint_mismatch''))
          (io_bind (fingerprint_regular_nofollow real) (\<lambda>content.
           io_return (symlink_fingerprint st2 link_target content))))))))))"

text \<open>The fingerprints of \<open>prepare\<close>, by path and following links\<close>

definition fingerprint_regular :: "py_path \<Rightarrow> fingerprint io" where
  "fingerprint_regular p =
     io_bind (io_stat p) (\<lambda>st1.
     io_then (io_when (st_kind st1 \<noteq> S_IFREG) (Safety ''not_regular_file''))
     (io_bind (io_read (sys_open_follow p)) (\<lambda>f.
      io_bind (io_read_all f) (\<lambda>data.
      io_bind (io_sha data) (\<lambda>digest.
      io_bind (io_stat p) (\<lambda>st2.
      io_then (io_when (stat_identity st1 \<noteq> stat_identity st2) (Safety ''source_changed''))
        (io_return (regular_fingerprint st2 digest))))))))"

definition fingerprint_target :: "py_path \<Rightarrow> fingerprint io" where
  "fingerprint_target p =
     io_bind (io_is_symlink p) (\<lambda>link.
     if \<not> link then fingerprint_regular p
     else io_bind (io_lstat p) (\<lambda>st.
       io_bind (io_readlink p) (\<lambda>link_target.
       io_bind (or_safety ''dangling_symlink'' (io_resolve p)) (\<lambda>resolved.
       io_bind (fingerprint_regular resolved) (\<lambda>content.
       io_return (symlink_fingerprint st link_target content))))))"

definition target_content_matches_source :: "py_path \<Rightarrow> py_path \<Rightarrow> fingerprint \<Rightarrow> bool io" where
  "target_content_matches_source target source fp =
     io_catch
       (io_bind (io_is_symlink target) (\<lambda>link1.
        io_bind (if link1 then io_bind (io_resolve target) (\<lambda>resolved. io_return (resolved = source)) else io_return False) (\<lambda>points.
        if points then io_return True
        else io_bind (io_is_symlink target) (\<lambda>link2.
          if link2 then io_return False
          else io_bind (io_is_file target) (\<lambda>isfile.
          if \<not> isfile then io_return False
          else io_bind (io_stat target) (\<lambda>st.
          if \<not> py_eq (JInt (st_size st)) (fp_get fp ''size'') then io_return False
          else io_bind (fingerprint_regular target) (\<lambda>tfp.
            io_return (py_eq (fp_get tfp ''sha256'') (fp_get fp ''sha256'')))))))))
       (\<lambda>e. case e of OS_error _ \<Rightarrow> io_return False | _ \<Rightarrow> if is_placement_error e then io_return False else io_raise e)"

end
