(* ===== verification/Arc_Placement.thy ===== *)
theory Arc_Placement
  imports Arc_Files
begin

text \<open>
  \<open>services/story_arc_placement_service.py\<close>: the plans and the evidence of story-arc placements,
  what publishes and removes a file, and the operations \<open>prepare\<close>, \<open>recover\<close>, \<open>execute\<close>, its batch,
  \<open>repair\<close> and \<open>remove\<close>. Messages for the user are left out, their codes are kept.
\<close>

subsection \<open>Plans, evidence and results\<close>

datatype ownership = Managed | Referenced

fun ownership_value :: "ownership \<Rightarrow> pystr" where
  "ownership_value Managed = ''managed''"
| "ownership_value Referenced = ''referenced''"

definition parse_ownership :: "pystr \<Rightarrow> ownership option" where
  "parse_ownership s = find (\<lambda>x. ownership_value x = s) [Managed, Referenced]"

datatype result_state = R_created | R_idempotent | R_referenced_existing | R_reference_only

record arc_plan =
  ap_issue :: int
  ap_library_file :: "int option"
  ap_canonical :: "py_path option"
  ap_destination :: "py_path option"
  ap_values :: arc_values
  ap_mode :: pystr
  ap_style :: "pystr option"
  ap_folder_template :: "pystr option"
  ap_file_template :: "pystr option"
  ap_adopt :: bool

record preparation =
  pp_issue :: int
  pp_target :: py_path
  pp_mode :: placement_mode
  pp_style :: "symlink_style option"
  pp_order :: int
  pp_source :: fingerprint
  pp_root :: fingerprint

record prepared_evidence =
  pe_issue :: int
  pe_path :: py_path
  pe_mode :: pystr
  pe_style :: "pystr option"
  pe_source :: fingerprint
  pe_root :: fingerprint
  pe_token :: pystr

record managed_evidence =
  me_issue :: int
  me_path :: py_path
  me_mode :: pystr
  me_ownership :: pystr
  me_style :: "pystr option"
  me_source :: fingerprint
  me_target_fingerprint :: fingerprint
  me_action :: "int option"

record placement_result =
  pr_issue :: int
  pr_library_file :: "int option"
  pr_state :: result_state
  pr_target :: "py_path option"
  pr_mode :: placement_mode
  pr_ownership :: ownership
  pr_style :: "symlink_style option"
  pr_order :: int
  pr_source :: fingerprint
  pr_target_fingerprint :: fingerprint

record removal_result =
  rr_path :: py_path
  rr_removed :: bool

definition evidence_from_result :: "placement_result \<Rightarrow> int \<Rightarrow> (exn, managed_evidence) result" where
  "evidence_from_result r action = (case pr_target r of
     Some target \<Rightarrow>
       if pr_ownership r \<noteq> Managed then Inl (Ownership ''not_managed'')
       else Inr \<lparr>me_issue = pr_issue r, me_path = target, me_mode = mode_value (pr_mode r),
         me_ownership = ownership_value (pr_ownership r), me_style = map_option style_value (pr_style r),
         me_source = pr_source r, me_target_fingerprint = pr_target_fingerprint r, me_action = Some action\<rparr>
   | None \<Rightarrow> Inl (Ownership ''not_managed''))"

definition preparation_eq :: "preparation \<Rightarrow> preparation \<Rightarrow> bool" where
  "preparation_eq a b \<longleftrightarrow> pp_issue a = pp_issue b \<and> pp_target a = pp_target b \<and> pp_mode a = pp_mode b
     \<and> pp_style a = pp_style b \<and> pp_order a = pp_order b \<and> py_eq (pp_source a) (pp_source b) \<and> py_eq (pp_root a) (pp_root b)"

definition plan_result ::
  "arc_plan \<Rightarrow> result_state \<Rightarrow> py_path option \<Rightarrow> placement_mode \<Rightarrow> ownership \<Rightarrow> symlink_style option \<Rightarrow> fingerprint \<Rightarrow>
   fingerprint \<Rightarrow> placement_result" where
  "plan_result plan state target mode own style source_fp target_fp =
     \<lparr>pr_issue = ap_issue plan, pr_library_file = ap_library_file plan, pr_state = state, pr_target = target,
      pr_mode = mode, pr_ownership = own, pr_style = style, pr_order = av_reading_order (ap_values plan),
      pr_source = source_fp, pr_target_fingerprint = target_fp\<rparr>"

subsection \<open>Ownership\<close>

definition require_managed_ownership ::
  "managed_evidence \<Rightarrow> (exn, placement_mode \<times> ownership \<times> symlink_style option) result" where
  "require_managed_ownership ev =
     bind_result (coerce_mode (me_mode ev)) (\<lambda>mode.
     case parse_ownership (me_ownership ev) of
       None \<Rightarrow> Inl (Ownership ''ownership_invalid'')
     | Some own \<Rightarrow>
         bind_result (coerce_symlink_style (me_style ev)) (\<lambda>style.
         bind_result (validate_mode_and_style mode style) (\<lambda>_.
         if own \<noteq> Managed \<or> mode = Mode_reference_only \<or> me_action ev = None then Inl (Ownership ''not_managed'')
         else Inr (mode, own, style))))"

definition validate_managed_evidence ::
  "managed_evidence \<Rightarrow> arc_plan \<Rightarrow> placement_mode \<Rightarrow> symlink_style option \<Rightarrow> py_path \<Rightarrow> fingerprint \<Rightarrow> (exn, unit) result" where
  "validate_managed_evidence ev plan mode style target source_fp =
     bind_result (require_managed_ownership ev) (\<lambda>(ev_mode, own, ev_style).
     if me_issue ev \<noteq> ap_issue plan then Inl (Ownership ''membership_mismatch'')
     else if me_path ev \<noteq> target then Inl (Ownership ''destination_mismatch'')
     else if ev_mode \<noteq> mode \<or> ev_style \<noteq> style then Inl (Ownership ''mode_changed'')
     else if \<not> py_eq (me_source ev) source_fp then Inl (Safety ''source_fingerprint_mismatch'')
     else if \<not> truthy (me_target_fingerprint ev) then Inl (Ownership ''target_fingerprint_missing'')
     else Inr ())"

subsection \<open>Representations\<close>

definition validate_existing_representation ::
  "placement_mode \<Rightarrow> symlink_style option \<Rightarrow> py_path \<Rightarrow> py_path \<Rightarrow> unit io" where
  "validate_existing_representation mode style source target =
     (if mode = Mode_symlink then
        io_bind (io_is_symlink target) (\<lambda>link.
        io_bind (if \<not> link then io_return False else io_bind (io_resolve target) (\<lambda>resolved. io_return (resolved = source))) (\<lambda>points.
        io_then (io_when (\<not> points) (Safety ''fingerprint_mismatch''))
        (io_bind (io_readlink target) (\<lambda>link_target.
         io_then (io_when (style = Some Style_absolute \<and> \<not> starts_with ''/'' link_target) (Safety ''fingerprint_mismatch''))
         (io_when (style = Some Style_relative \<and> starts_with ''/'' link_target) (Safety ''fingerprint_mismatch''))))))
      else
        io_bind (io_is_symlink target) (\<lambda>link.
        io_bind (if link then io_return False else io_is_file target) (\<lambda>isfile.
        io_then (io_when (\<not> isfile) (Safety ''fingerprint_mismatch''))
        (if mode = Mode_hardlink
         then io_bind (io_samefile target source) (\<lambda>same. io_when (\<not> same) (Safety ''fingerprint_mismatch''))
         else io_return ()))))"

definition expected_link :: "symlink_style option \<Rightarrow> py_path \<Rightarrow> py_path \<Rightarrow> pystr io" where
  "expected_link style source parent =
     (if style = Some Style_absolute then io_return (path_str source)
      else io_bind (io_resolve parent) (\<lambda>start.
        io_bind (io_abspath source) (\<lambda>parts. io_return (os_relpath parts (path_parts start)))))"

definition validate_existing_representation_at ::
  "placement_mode \<Rightarrow> symlink_style option \<Rightarrow> py_path \<Rightarrow> fingerprint \<Rightarrow> pystr \<Rightarrow> secure_parent \<Rightarrow> unit io" where
  "validate_existing_representation_at mode style source source_fp name parent =
     io_bind (entry_lstat_at (sp_fd parent) name) (\<lambda>st.
     if mode = Mode_symlink then
       io_then (io_when (st_kind st \<noteq> S_IFLNK) (Safety ''fingerprint_mismatch''))
       (io_bind (readlink_at (sp_fd parent) name) (\<lambda>link_target.
        io_bind (expected_link style source (sp_path parent)) (\<lambda>expected.
        io_when (link_target \<noteq> expected) (Safety ''fingerprint_mismatch''))))
     else
       io_then (io_when (st_kind st \<noteq> S_IFREG) (Safety ''fingerprint_mismatch''))
       (io_when (mode = Mode_hardlink \<and> (\<not> py_eq (JInt (st_dev st)) (fp_get source_fp ''device'')
            \<or> \<not> py_eq (JInt (st_ino st)) (fp_get source_fp ''inode''))) (Safety ''fingerprint_mismatch'')))"

definition validate_removal_representation_at :: "placement_mode \<Rightarrow> secure_parent \<Rightarrow> pystr \<Rightarrow> unit io" where
  "validate_removal_representation_at mode parent name =
     io_bind (entry_lstat_at (sp_fd parent) name) (\<lambda>st.
     io_when (st_kind st \<noteq> (if mode = Mode_symlink then S_IFLNK else S_IFREG)) (Safety ''fingerprint_mismatch''))"

definition recheck_free_destination_at :: "secure_parent \<Rightarrow> pystr \<Rightarrow> unit io" where
  "recheck_free_destination_at parent name =
     io_bind (case_only_collision_at (sp_fd parent) name) (\<lambda>other.
     io_then (io_when (other \<noteq> None) (Collision ''case_only''))
     (io_bind (entry_exists_at (sp_fd parent) name) (\<lambda>there.
      io_when there (Collision ''destination_exists''))))"

subsection \<open>Publishing\<close>

definition io_creat :: "fid \<Rightarrow> pystr \<Rightarrow> fid io" where "io_creat d n = io_change (A_create d n) (sys_creat_at d n)"
definition io_write :: "fid \<Rightarrow> pystr \<Rightarrow> fid io" where "io_write f data = io_change (\<lambda>_. A_write f) (sys_write f data)"
definition io_fchmod :: "fid \<Rightarrow> int \<Rightarrow> fid io" where "io_fchmod f mode = io_change (\<lambda>_. A_chmod f) (sys_fchmod f mode)"
definition io_utime :: "fid \<Rightarrow> int \<Rightarrow> int \<Rightarrow> fid io" where "io_utime f a t = io_change (\<lambda>_. A_utime f) (sys_utime f a t)"
definition io_link_at :: "pystr \<Rightarrow> fid \<Rightarrow> pystr \<Rightarrow> fid io" where "io_link_at old d n = io_change (A_link d n) (sys_link_at old d n)"
definition io_link :: "py_path \<Rightarrow> fid \<Rightarrow> pystr \<Rightarrow> fid io" where "io_link p d n = io_change (A_link d n) (sys_link p d n)"
definition io_symlink :: "pystr \<Rightarrow> fid \<Rightarrow> pystr \<Rightarrow> fid io" where "io_symlink t d n = io_change (A_symlink d n) (sys_symlink_at t d n)"
definition io_unlink :: "fid \<Rightarrow> pystr \<Rightarrow> fid io" where "io_unlink d n = io_change (A_unlink d n) (sys_unlink_at d n)"

definition TEMP_PREFIX :: pystr where "TEMP_PREFIX = ''.pullbox-story-arc-''"
definition TEMP_SUFFIX :: pystr where "TEMP_SUFFIX = ''.tmp''"
definition COPY_CHUNK_BYTES :: nat where "COPY_CHUNK_BYTES = 1048576"

record published_target =
  pt_stat :: stat_result
  pt_sha256 :: "pystr option"
  pt_link_target :: "pystr option"

fun create_temporary :: "nat \<Rightarrow> fid \<Rightarrow> (fid \<times> pystr) io" where
  "create_temporary 0 d = io_raise (Safety ''temporary_name_unavailable'')"
| "create_temporary (Suc k) d =
     io_bind io_token (\<lambda>token.
     let name = TEMP_PREFIX @ token @ TEMP_SUFFIX
     in io_bind (io_catch (io_bind (io_creat d name) (\<lambda>f. io_return (Some f)))
          (\<lambda>e. if e = OS_error EEXIST then io_return None else io_raise e)) (\<lambda>made.
        case made of Some f \<Rightarrow> io_return (f, name) | None \<Rightarrow> create_temporary k d))"

definition create_temporary_file_at :: "fid \<Rightarrow> (fid \<times> pystr) io" where
  "create_temporary_file_at d = create_temporary 32 d"

function chunks :: "pystr \<Rightarrow> pystr list" where
  "chunks data = (if data = [] then [] else take COPY_CHUNK_BYTES data # chunks (drop COPY_CHUNK_BYTES data))"
  by pat_completeness auto
termination by (relation "measure length") (auto simp: COPY_CHUNK_BYTES_def)

declare chunks.simps [simp del]

fun write_chunks :: "fid \<Rightarrow> pystr list \<Rightarrow> unit io" where
  "write_chunks f [] = io_return ()"
| "write_chunks f (c # cs) = io_then raise_if_cancelled (io_then (io_write f c) (write_chunks f cs))"

text \<open>Everything between the creation of the temporary file and its name becoming the target; the
  digest is returned.\<close>

definition fill_temporary :: "fid \<Rightarrow> fid \<Rightarrow> stat_result \<Rightarrow> fingerprint \<Rightarrow> pystr io" where
  "fill_temporary source_fd temporary_fd source_stat source_fp =
     io_bind (io_read_all source_fd) (\<lambda>data.
     io_then (write_chunks temporary_fd (chunks data))
     (io_then (io_fchmod temporary_fd (st_mode source_stat))
     (io_then (io_utime temporary_fd (st_atime source_stat) (st_mtime source_stat))
     (io_then (io_fsync temporary_fd)
     (io_bind (io_fstat source_fd) (\<lambda>source_after.
      io_bind (io_fstat temporary_fd) (\<lambda>temporary_stat.
      io_bind (io_sha data) (\<lambda>digest.
      io_then (io_when (\<not> py_eq (JInt (st_size temporary_stat)) (fp_get source_fp ''size'')
          \<or> \<not> py_eq (JStr digest) (fp_get source_fp ''sha256'') \<or> \<not> stat_matches_fingerprint source_after source_fp)
          (Safety ''source_changed''))
      (io_return digest)))))))))"

definition stage_copy :: "fid \<Rightarrow> fid \<Rightarrow> stat_result \<Rightarrow> fingerprint \<Rightarrow> pystr \<Rightarrow> fid \<Rightarrow> pystr \<Rightarrow> pystr io" where
  "stage_copy source_fd temporary_fd source_stat source_fp temporary_name d target_name =
     io_bind (fill_temporary source_fd temporary_fd source_stat source_fp) (\<lambda>digest.
     io_then raise_if_cancelled
     (io_then (io_catch (io_link_at temporary_name d target_name)
         (\<lambda>e. if e = OS_error EEXIST then io_raise (Collision ''destination_exists'') else io_raise e))
      (io_return digest)))"

text \<open>The \<open>finally\<close> block: an error counts only when nothing was published.\<close>

definition drop_temporary :: "fid \<Rightarrow> pystr \<Rightarrow> bool \<Rightarrow> unit io" where
  "drop_temporary d name published =
     except_os (io_then (io_unlink d name) (io_return ()))
       (\<lambda>e. if e = ENOENT \<or> published then io_return () else io_raise (OS_error e))"

definition publish_copy_at :: "py_path \<Rightarrow> pystr \<Rightarrow> secure_parent \<Rightarrow> fingerprint \<Rightarrow> published_target io" where
  "publish_copy_at source target_name parent source_fp =
     io_bind (or_safety ''source_changed'' (io_read (sys_open source))) (\<lambda>source_fd.
     io_bind (io_fstat source_fd) (\<lambda>source_stat.
     io_then (io_when (st_kind source_stat \<noteq> S_IFREG \<or> \<not> stat_matches_fingerprint source_stat source_fp)
         (Safety ''source_changed''))
     (io_bind (create_temporary_file_at (sp_fd parent)) (\<lambda>(temporary_fd, temporary_name).
      io_bind (io_catch
          (stage_copy source_fd temporary_fd source_stat source_fp temporary_name (sp_fd parent) target_name)
          (\<lambda>e. io_then (drop_temporary (sp_fd parent) temporary_name False) (io_raise e))) (\<lambda>digest.
      io_then (drop_temporary (sp_fd parent) temporary_name True)
      (io_bind (io_fstat temporary_fd) (\<lambda>st.
       io_return \<lparr>pt_stat = st, pt_sha256 = Some digest, pt_link_target = None\<rparr>)))))))"

definition json_str_of :: "json \<Rightarrow> pystr option" where
  "json_str_of v = (case v of JStr s \<Rightarrow> Some s | _ \<Rightarrow> None)"

definition publish_hardlink_at :: "py_path \<Rightarrow> pystr \<Rightarrow> secure_parent \<Rightarrow> fingerprint \<Rightarrow> published_target io" where
  "publish_hardlink_at source target_name parent source_fp =
     io_bind (io_read (sys_open source)) (\<lambda>f.
     except_os
       (io_bind (io_fstat f) (\<lambda>st.
        io_then (io_when (\<not> stat_matches_fingerprint st source_fp) (Safety ''source_changed''))
        (io_bind (io_fstat (sp_fd parent)) (\<lambda>pst.
         io_then (io_when (st_dev st \<noteq> st_dev pst) (Safety ''cross_device''))
         (io_then (io_link source (sp_fd parent) target_name)
         (io_bind (io_fstat f) (\<lambda>after.
          io_return \<lparr>pt_stat = after, pt_sha256 = json_str_of (fp_get source_fp ''sha256''), pt_link_target = None\<rparr>)))))))
       (\<lambda>e. io_raise (if e = EXDEV then Safety ''cross_device'' else OS_error e)))"

definition publish_symlink_at ::
  "py_path \<Rightarrow> pystr \<Rightarrow> py_path \<Rightarrow> secure_parent \<Rightarrow> symlink_style \<Rightarrow> published_target io" where
  "publish_symlink_at source target_name target_parent parent style =
     io_bind (expected_link (Some style) source target_parent) (\<lambda>link_target.
     io_bind (io_resolve (prospective_path target_parent link_target)) (\<lambda>resolved.
     io_then (io_when (resolved \<noteq> source) (Safety ''symlink_target_mismatch''))
     (io_then (io_symlink link_target (sp_fd parent) target_name)
     (io_bind (entry_lstat_at (sp_fd parent) target_name) (\<lambda>created.
      io_then (io_when (st_kind created \<noteq> S_IFLNK) (Safety ''publish_validation_failed''))
      (io_return \<lparr>pt_stat = created, pt_sha256 = None, pt_link_target = Some link_target\<rparr>))))))"

definition publish_at ::
  "placement_mode \<Rightarrow> symlink_style option \<Rightarrow> py_path \<Rightarrow> py_path \<Rightarrow> secure_parent \<Rightarrow> fingerprint \<Rightarrow> published_target io" where
  "publish_at mode style source target parent source_fp = (case mode of
     Mode_copy \<Rightarrow> publish_copy_at source (path_name target) parent source_fp
   | Mode_hardlink \<Rightarrow> publish_hardlink_at source (path_name target) parent source_fp
   | Mode_symlink \<Rightarrow>
       (case style of
          None \<Rightarrow> io_raise (Safety ''symlink_style_required'')
        | Some st \<Rightarrow> publish_symlink_at source (path_name target) (path_parent target) parent st)
   | Mode_reference_only \<Rightarrow> io_raise (Safety ''unsupported_mode''))"

definition validate_published_target_at ::
  "placement_mode \<Rightarrow> symlink_style option \<Rightarrow> py_path \<Rightarrow> fingerprint \<Rightarrow> pystr \<Rightarrow> secure_parent \<Rightarrow> fingerprint io" where
  "validate_published_target_at mode style source source_fp name parent =
     io_then (validate_existing_representation_at mode style source source_fp name parent)
     (io_bind (fingerprint_target_at parent name (Some source)) (\<lambda>fp.
      io_then (io_when (\<not> fingerprint_content_matches fp source_fp) (Safety ''publish_validation_failed''))
      (io_then (io_when (mode = Mode_symlink \<and>
          \<not> py_eq (if fp_get fp ''kind'' = JStr ''symlink'' then fp_get fp ''content'' else fp) source_fp) (Safety ''source_changed''))
      (io_return fp))))"

definition publication_identity :: "stat_result \<Rightarrow> fid \<times> file_kind \<times> int \<times> int \<times> int \<times> int" where
  "publication_identity st = (st_fid st, st_kind st, st_mode st, st_size st, st_mtime st, st_ctime st)"

definition still_ours :: "secure_parent \<Rightarrow> pystr \<Rightarrow> published_target \<Rightarrow> bool io" where
  "still_ours parent name pt =
     io_bind (entry_lstat_at (sp_fd parent) name) (\<lambda>current.
     io_return (publication_identity current = publication_identity (pt_stat pt)))"

definition remove_created_target_at :: "secure_parent \<Rightarrow> pystr \<Rightarrow> published_target \<Rightarrow> unit io" where
  "remove_created_target_at parent name pt =
     io_catch
       (io_bind (still_ours parent name pt) (\<lambda>ours.
        if \<not> ours then io_return ()
        else
          io_bind (case pt_link_target pt of
              Some t \<Rightarrow> io_bind (readlink_at (sp_fd parent) name) (\<lambda>link_target. io_return (link_target = t))
            | None \<Rightarrow> io_bind (fingerprint_regular_at (sp_fd parent) name) (\<lambda>fp.
                io_return (Some (fp_get fp ''sha256'') = map_option JStr (pt_sha256 pt)))) (\<lambda>same.
          if \<not> same then io_return ()
          else io_bind (still_ours parent name pt) (\<lambda>ours2.
            if \<not> ours2 then io_return ()
            else io_then (io_unlink (sp_fd parent) name) (fsync_directory (sp_fd parent))))))
       (\<lambda>e. case e of OS_error _ \<Rightarrow> io_return () | _ \<Rightarrow> if is_placement_error e then io_return () else io_raise e)"

end
