(* ===== verification/Arc_Operations.thy ===== *)
theory Arc_Operations
  imports Arc_Placement
begin

text \<open>
  The operations of \<open>services/story_arc_placement_service.py\<close> on whole placements.
\<close>

subsection \<open>What is already there\<close>

definition raise_from_preview :: "placement_preview \<Rightarrow> 'a io" where
  "raise_from_preview pv =
     io_raise (if pv_collision pv = Ck_different_content \<or> pv_collision pv = Ck_case_only
       then Collision (collision_value (pv_collision pv)) else Safety (collision_value (pv_collision pv)))"

text \<open>A managed target that is as it was recorded, and a target that is not managed\<close>

definition resolve_managed_target ::
  "arc_plan \<Rightarrow> placement_mode \<Rightarrow> symlink_style option \<Rightarrow> py_path \<Rightarrow> fingerprint \<Rightarrow> py_path \<Rightarrow> fingerprint \<Rightarrow> managed_evidence \<Rightarrow>
   placement_result option io" where
  "resolve_managed_target plan mode style source source_fp target target_fp ev =
     io_then (io_of_result (validate_managed_evidence ev plan mode style target source_fp))
     (io_then (io_when (\<not> py_eq target_fp (me_target_fingerprint ev)) (Safety ''fingerprint_mismatch''))
     (io_then (validate_existing_representation mode style source target)
     (io_return (Some (plan_result plan R_idempotent (Some target) mode Managed style source_fp target_fp)))))"

definition resolve_foreign_target ::
  "arc_plan \<Rightarrow> py_path \<Rightarrow> fingerprint \<Rightarrow> py_path \<Rightarrow> fingerprint \<Rightarrow> placement_result option io" where
  "resolve_foreign_target plan source source_fp target target_fp =
     io_bind (except_os (io_samefile target source) (\<lambda>_. io_return False)) (\<lambda>same_inode.
     io_bind (if same_inode then io_return True else target_content_matches_source target source source_fp) (\<lambda>identical.
     if identical \<and> ap_adopt plan then
       io_return (Some (plan_result plan R_referenced_existing (Some target) Mode_reference_only Referenced None source_fp target_fp))
     else if identical then io_raise (Collision ''identical_unconfirmed'')
     else io_raise (Collision ''different_content'')))"

definition resolve_existing_target ::
  "arc_plan \<Rightarrow> placement_mode \<Rightarrow> symlink_style option \<Rightarrow> py_path \<Rightarrow> fingerprint \<Rightarrow> py_path \<Rightarrow> managed_evidence option \<Rightarrow>
   placement_result option io" where
  "resolve_existing_target plan mode style source source_fp target existing =
     io_bind (case_only_collision target) (\<lambda>other.
     io_then (io_when (other \<noteq> None) (Collision ''case_only''))
     (io_bind (path_exists target) (\<lambda>there.
      if \<not> there then io_return None
      else io_bind (fingerprint_target target) (\<lambda>target_fp.
        case existing of
          Some ev \<Rightarrow> resolve_managed_target plan mode style source source_fp target target_fp ev
        | None \<Rightarrow> resolve_foreign_target plan source source_fp target target_fp))))"

subsection \<open>Preparation and recovery\<close>

text \<open>The checks that come before anything is published\<close>

definition checked_destination :: "arc_plan \<Rightarrow> py_path \<Rightarrow> (py_path \<times> root_guard) io" where
  "checked_destination plan target =
     io_bind (validated_regular_source (ap_canonical plan)) (\<lambda>source.
     io_bind (validated_root (ap_destination plan)) (\<lambda>guard.
     io_then (io_of_result (validate_target_lexically (rg_path guard) target))
     (io_then (validate_safe_existing_parents guard (path_parent target))
     (io_then (io_of_result (validate_path_limits target))
     (io_then (reject_canonical_destination source target)
     (io_return (source, guard)))))))"

definition preview_plan :: "arc_plan \<Rightarrow> placement_mode \<Rightarrow> symlink_style option \<Rightarrow> placement_preview io" where
  "preview_plan plan mode style =
     preview_story_arc_placement (ap_canonical plan) (ap_destination plan) (ap_values plan) (mode_value mode)
       (map_option style_value style) (ap_folder_template plan) (ap_file_template plan)"

definition plan_mode :: "arc_plan \<Rightarrow> (exn, placement_mode \<times> symlink_style option) result" where
  "plan_mode plan =
     bind_result (coerce_mode (ap_mode plan)) (\<lambda>mode.
     bind_result (coerce_symlink_style (ap_style plan)) (\<lambda>style.
     bind_result (validate_mode_and_style mode style) (\<lambda>_. Inr (mode, style))))"

definition plan_preparation ::
  "arc_plan \<Rightarrow> py_path \<Rightarrow> placement_mode \<Rightarrow> symlink_style option \<Rightarrow> fingerprint \<Rightarrow> root_guard \<Rightarrow> preparation" where
  "plan_preparation plan target mode style source_fp guard =
     \<lparr>pp_issue = ap_issue plan, pp_target = target, pp_mode = mode, pp_style = style,
      pp_order = av_reading_order (ap_values plan), pp_source = source_fp, pp_root = root_fingerprint guard\<rparr>"

definition inspect_plan :: "arc_plan \<Rightarrow> (preparation \<times> placement_preview \<times> py_path) io" where
  "inspect_plan plan =
     io_bind (io_of_result (plan_mode plan)) (\<lambda>(mode, style).
     io_then (io_when (mode = Mode_reference_only) (Safety ''managed_preparation_required''))
     (io_then (io_when (ap_issue plan \<le> 0) Value_error)
     (io_bind (preview_plan plan mode style) (\<lambda>pv.
      case pv_target pv of
        None \<Rightarrow> raise_from_preview pv
      | Some target \<Rightarrow>
          io_bind (checked_destination plan target) (\<lambda>(source, guard).
          io_bind (fingerprint_regular_nofollow source) (\<lambda>source_fp.
          io_return (plan_preparation plan target mode style source_fp guard, pv, source)))))))"

definition prepare_story_arc_placement :: "arc_plan \<Rightarrow> managed_evidence option \<Rightarrow> preparation io" where
  "prepare_story_arc_placement plan existing =
     io_bind (inspect_plan plan) (\<lambda>(prep, pv, source).
     io_bind (case existing of
         Some ev \<Rightarrow>
           io_bind (resolve_existing_target plan (pp_mode prep) (pp_style prep) source (pp_source prep) (pp_target prep) existing)
             (\<lambda>r. io_return (r \<noteq> None))
       | None \<Rightarrow>
           if pv_state pv = Pv_blocked then
             io_then (resolve_existing_target plan (pp_mode prep) (pp_style prep) source (pp_source prep) (pp_target prep) None)
               (raise_from_preview pv)
           else io_return False) (\<lambda>resolved.
     if resolved then io_return prep
     else io_then (io_when (pv_state pv \<noteq> Pv_ready) (Safety ''preview_not_ready'')) (io_return prep)))"

definition recover_prepared_story_arc_placement :: "arc_plan \<Rightarrow> prepared_evidence \<Rightarrow> placement_result option io" where
  "recover_prepared_story_arc_placement plan ev =
     io_bind (inspect_plan plan) (\<lambda>(prep, pv, source).
     io_bind (io_of_result (coerce_mode (pe_mode ev))) (\<lambda>mode.
     io_bind (io_of_result (coerce_symlink_style (pe_style ev))) (\<lambda>style.
     io_then (io_when (pe_token ev = []) (Ownership ''operation_token_missing''))
     (io_then (io_when (pe_issue ev \<noteq> pp_issue prep \<or> pe_path ev \<noteq> pp_target prep \<or> mode \<noteq> pp_mode prep
         \<or> style \<noteq> pp_style prep \<or> \<not> py_eq (pe_source ev) (pp_source prep) \<or> \<not> py_eq (pe_root ev) (pp_root prep))
         (Ownership ''prepared_evidence_mismatch''))
     (io_bind (path_exists (pp_target prep)) (\<lambda>there.
      if \<not> there then io_return None
      else io_then (validate_existing_representation mode style source (pp_target prep))
        (io_bind (target_content_matches_source (pp_target prep) source (pp_source prep)) (\<lambda>matches.
         io_then (io_when (\<not> matches) (Safety ''prepared_target_mismatch''))
         (io_bind (fingerprint_target (pp_target prep)) (\<lambda>target_fp.
          io_return (Some (plan_result plan R_referenced_existing (Some (pp_target prep)) Mode_reference_only Referenced None
            (pp_source prep) target_fp)))))))))))) "

subsection \<open>Execution\<close>

definition publish_event :: "arc_plan \<Rightarrow> placement_mode \<Rightarrow> py_path \<Rightarrow> fingerprint \<Rightarrow> journal_event" where
  "publish_event plan mode target source_fp =
     \<lparr>je_stage = ''prepared'', je_operation = ''publish'', je_issue = ap_issue plan, je_mode = mode, je_target = target,
      je_source = source_fp, je_target_fingerprint = JObj [], je_failure = None\<rparr>"

definition failed_event :: "journal_event \<Rightarrow> pystr \<Rightarrow> journal_event" where
  "failed_event ev label = ev\<lparr>je_stage := ''failed'', je_target_fingerprint := JObj [], je_failure := Some label\<rparr>"

definition record_failure :: "journal_event \<Rightarrow> pystr \<Rightarrow> unit io" where
  "record_failure prepared label = io_catch (record_journal (failed_event prepared label)) (\<lambda>_. io_return ())"

definition categorized_os_error :: "placement_mode \<Rightarrow> errno \<Rightarrow> exn" where
  "categorized_os_error mode e =
     (if e = EXDEV \<and> mode = Mode_hardlink then Safety ''cross_device''
      else if e \<in> {EEXIST, ENOTEMPTY} then Collision ''destination_exists''
      else if e \<in> {EACCES, EPERM, EROFS} then Safety ''permission_denied''
      else Safety ''filesystem_error'')"

text \<open>The two \<open>except\<close> clauses that categorise an error and tell the journal of the failure\<close>

definition categorised :: "placement_mode \<Rightarrow> journal_event option \<Rightarrow> 'a io \<Rightarrow> 'a io" where
  "categorised mode prepared m =
     io_catch m (\<lambda>e.
       case e of
         OS_error x \<Rightarrow>
           (let err = categorized_os_error mode x
            in io_then (case prepared of None \<Rightarrow> io_return () | Some ev \<Rightarrow> record_failure ev (error_code err)) (io_raise err))
       | _ \<Rightarrow>
           if is_placement_error e
           then io_then (case prepared of None \<Rightarrow> io_return () | Some ev \<Rightarrow> record_failure ev (error_code e)) (io_raise e)
           else io_raise e)"

definition validated_publication ::
  "placement_mode \<Rightarrow> symlink_style option \<Rightarrow> py_path \<Rightarrow> fingerprint \<Rightarrow> pystr \<Rightarrow> secure_parent \<Rightarrow> fingerprint io" where
  "validated_publication mode style source source_fp name parent =
     io_then (assert_parent_path_stable parent)
     (io_bind (validate_published_target_at mode style source source_fp name parent) (\<lambda>fp.
      io_then (fsync_directory (sp_fd parent))
      (io_then (assert_parent_path_stable parent) (io_return fp))))"

definition publish_in_parent ::
  "placement_mode \<Rightarrow> symlink_style option \<Rightarrow> py_path \<Rightarrow> py_path \<Rightarrow> fingerprint \<Rightarrow> secure_parent \<Rightarrow> fingerprint io" where
  "publish_in_parent mode style source target source_fp parent =
     io_then raise_if_cancelled
     (io_then (recheck_free_destination_at parent (path_name target))
     (io_bind (publish_at mode style source target parent source_fp) (\<lambda>created.
      io_catch (validated_publication mode style source source_fp (path_name target) parent)
        (\<lambda>e. io_then (remove_created_target_at parent (path_name target) created) (io_raise e)))))"

definition publish_placement ::
  "arc_plan \<Rightarrow> placement_mode \<Rightarrow> symlink_style option \<Rightarrow> py_path \<Rightarrow> py_path \<Rightarrow> root_guard \<Rightarrow> fingerprint \<Rightarrow> placement_result io" where
  "publish_placement plan mode style source target guard source_fp =
     (let prepared = publish_event plan mode target source_fp
      in io_then (record_journal prepared)
         (io_bind (categorised mode (Some prepared)
             (io_bind (open_secure_parent_directory guard (path_parent target) True)
               (publish_in_parent mode style source target source_fp))) (\<lambda>target_fp.
          io_then (record_journal (prepared\<lparr>je_stage := ''published'', je_target_fingerprint := target_fp\<rparr>))
          (io_return (plan_result plan R_created (Some target) mode Managed style source_fp target_fp)))))"

definition check_preparation :: "preparation option \<Rightarrow> preparation \<Rightarrow> (exn, unit) result" where
  "check_preparation prep current = (case prep of
     None \<Rightarrow> Inr ()
   | Some p \<Rightarrow> if preparation_eq current p then Inr () else Inl (Ownership ''prepared_evidence_mismatch''))"

text \<open>What follows the look at the target, and the whole of it for a rendered target\<close>

definition execute_free ::
  "arc_plan \<Rightarrow> managed_evidence option \<Rightarrow> placement_mode \<Rightarrow> symlink_style option \<Rightarrow> placement_preview \<Rightarrow> py_path \<Rightarrow> root_guard \<Rightarrow>
   fingerprint \<Rightarrow> py_path \<Rightarrow> placement_result option \<Rightarrow> placement_result io" where
  "execute_free plan existing mode style pv source guard source_fp target found = (case found of
     Some r \<Rightarrow> io_return r
   | None \<Rightarrow>
       if pv_state pv = Pv_blocked then raise_from_preview pv
       else
         io_then (io_when (pv_state pv \<noteq> Pv_ready) (Safety ''preview_not_ready''))
         (io_then (case existing of
              None \<Rightarrow> io_return ()
            | Some ev \<Rightarrow> io_of_result (validate_managed_evidence ev plan mode style target source_fp))
          (publish_placement plan mode style source target guard source_fp)))"

definition execute_target ::
  "arc_plan \<Rightarrow> managed_evidence option \<Rightarrow> preparation option \<Rightarrow> placement_mode \<Rightarrow> symlink_style option \<Rightarrow> placement_preview \<Rightarrow>
   py_path \<Rightarrow> placement_result io" where
  "execute_target plan existing prep mode style pv target =
     io_bind (checked_destination plan target) (\<lambda>(source, guard).
     io_bind (fingerprint_regular_nofollow source) (\<lambda>source_fp.
     io_then (io_of_result (check_preparation prep (plan_preparation plan target mode style source_fp guard)))
     (io_bind (resolve_existing_target plan mode style source source_fp target existing)
       (execute_free plan existing mode style pv source guard source_fp target))))"

definition execute_story_arc_placement ::
  "arc_plan \<Rightarrow> managed_evidence option \<Rightarrow> preparation option \<Rightarrow> placement_result io" where
  "execute_story_arc_placement plan existing prep =
     io_bind (io_of_result (plan_mode plan)) (\<lambda>(mode, style).
     io_then (io_when (ap_issue plan \<le> 0) Value_error)
     (if mode = Mode_reference_only then
        io_then (io_when (existing \<noteq> None) (Ownership ''mode_changed''))
          (io_return (plan_result plan R_reference_only None mode Referenced None (JObj []) (JObj [])))
      else
        io_then raise_if_cancelled
        (io_bind (preview_plan plan mode style) (\<lambda>pv.
         case pv_target pv of
           None \<Rightarrow> raise_from_preview pv
         | Some target \<Rightarrow> execute_target plan existing prep mode style pv target))))"

definition MAX_STORY_ARC_PLACEMENTS_PER_BATCH :: nat where "MAX_STORY_ARC_PLACEMENTS_PER_BATCH = 250"

fun execute_all :: "arc_plan list \<Rightarrow> placement_result list io" where
  "execute_all [] = io_return []"
| "execute_all (plan # plans) =
     io_then raise_if_cancelled
     (io_bind (execute_story_arc_placement plan None None) (\<lambda>r.
      io_bind (execute_all plans) (\<lambda>rs. io_return (r # rs))))"

definition execute_story_arc_placement_batch :: "arc_plan list \<Rightarrow> placement_result list io" where
  "execute_story_arc_placement_batch plans =
     io_then (io_when (length plans > MAX_STORY_ARC_PLACEMENTS_PER_BATCH) Value_error) (execute_all plans)"

definition repair_managed_story_arc_placement :: "arc_plan \<Rightarrow> managed_evidence \<Rightarrow> placement_result io" where
  "repair_managed_story_arc_placement plan ev =
     io_then (io_of_result (require_managed_ownership ev)) (execute_story_arc_placement plan (Some ev) None)"

subsection \<open>Removal\<close>

definition removal_event :: "managed_evidence \<Rightarrow> placement_mode \<Rightarrow> journal_event" where
  "removal_event ev mode =
     \<lparr>je_stage = ''remove_prepared'', je_operation = ''remove'', je_issue = me_issue ev, je_mode = mode,
      je_target = me_path ev, je_source = me_source ev, je_target_fingerprint = me_target_fingerprint ev, je_failure = None\<rparr>"

text \<open>The parent of a target that is still as it was recorded, or \<open>None\<close> when the target is gone\<close>

definition find_recorded_target :: "managed_evidence \<Rightarrow> placement_mode \<Rightarrow> root_guard \<Rightarrow> py_path option \<Rightarrow> secure_parent option io" where
  "find_recorded_target ev mode guard canonical =
     io_bind (open_secure_parent_directory guard (path_parent (me_path ev)) False) (\<lambda>parent.
     io_bind (entry_exists_at (sp_fd parent) (path_name (me_path ev))) (\<lambda>there.
     if \<not> there then io_return None
     else io_bind (fingerprint_target_at parent (path_name (me_path ev)) canonical) (\<lambda>fp.
       io_then (io_when (\<not> py_eq fp (me_target_fingerprint ev)) (Safety ''fingerprint_mismatch''))
       (io_then (validate_removal_representation_at mode parent (path_name (me_path ev)))
       (io_return (Some parent))))))"

definition remove_recorded_target :: "managed_evidence \<Rightarrow> placement_mode \<Rightarrow> py_path option \<Rightarrow> secure_parent \<Rightarrow> unit io" where
  "remove_recorded_target ev mode canonical parent =
     io_then (record_journal (removal_event ev mode))
     (io_then (assert_parent_path_stable parent)
     (io_bind (entry_exists_at (sp_fd parent) (path_name (me_path ev))) (\<lambda>there.
      io_bind (if \<not> there then io_return False
               else io_bind (fingerprint_target_at parent (path_name (me_path ev)) canonical)
                 (\<lambda>fp. io_return (py_eq fp (me_target_fingerprint ev)))) (\<lambda>same.
      io_then (io_when (\<not> same) (Safety ''fingerprint_mismatch''))
      (io_then (io_unlink (sp_fd parent) (path_name (me_path ev)))
      (io_then (fsync_directory (sp_fd parent)) (assert_parent_path_stable parent)))))))"

definition remove_managed_story_arc_placement ::
  "managed_evidence \<Rightarrow> py_path \<Rightarrow> py_path option \<Rightarrow> removal_result io" where
  "remove_managed_story_arc_placement ev dest canonical =
     io_bind (io_of_result (require_managed_ownership ev)) (\<lambda>(mode, own, style).
     io_bind (validated_root (Some dest)) (\<lambda>guard.
     io_then (io_of_result (validate_target_lexically (rg_path guard) (me_path ev)))
     (io_then (case canonical of
          None \<Rightarrow> io_return ()
        | Some c \<Rightarrow> io_bind (io_resolve_lax c) (\<lambda>real. reject_canonical_destination real (me_path ev)))
     (io_bind (categorised mode None (find_recorded_target ev mode guard canonical)) (\<lambda>found.
      case found of
        None \<Rightarrow> io_return \<lparr>rr_path = me_path ev, rr_removed = False\<rparr>
      | Some parent \<Rightarrow>
          io_then (categorised mode (Some (removal_event ev mode)) (remove_recorded_target ev mode canonical parent))
          (io_then (record_journal ((removal_event ev mode)\<lparr>je_stage := ''removed''\<rparr>))
          (io_return \<lparr>rr_path = me_path ev, rr_removed = True\<rparr>)))))))"

end
