(* ===== verification/Arc_Inspection.thy ===== *)
theory Arc_Inspection
  imports Arc_Operations
begin

text \<open>
  \<open>inspect_story_arc_placement\<close> of \<open>services/story_arc_placement_service.py\<close>: the state of one
  placement as data.
\<close>

subsection \<open>Inspections\<close>

datatype inspection_state = I_free | I_managed_current | I_referenced_current | I_managed_missing | I_referenced_missing
  | I_managed_drifted | I_referenced_drifted | I_untracked_identical | I_different_content | I_blocked

record inspection_evidence =
  ie_path :: py_path
  ie_mode :: pystr
  ie_ownership :: pystr
  ie_style :: "pystr option"
  ie_source :: fingerprint
  ie_target_fingerprint :: fingerprint

record inspection =
  is_state :: inspection_state
  is_mode :: placement_mode
  is_target :: "py_path option"
  is_collision :: collision_kind
  is_code :: "pystr option"
  is_required_bytes :: int
  is_ownership :: pystr
  is_source :: "fingerprint option"
  is_target_fingerprint :: "fingerprint option"

text \<open>The keyword arguments of \<open>_inspection_result\<close> that have a default are set on its value.\<close>

definition inspection_bytes :: "placement_preview \<Rightarrow> fingerprint option \<Rightarrow> int" where
  "inspection_bytes pv source =
     (if pv_required_bytes pv = 0 \<and> pv_mode pv = Mode_copy
      then (case source of
              Some fp \<Rightarrow> (case json_get fp ''size'' of Some (JInt n) \<Rightarrow> n | Some (JBool b) \<Rightarrow> of_bool b | _ \<Rightarrow> pv_required_bytes pv)
            | None \<Rightarrow> pv_required_bytes pv)
      else pv_required_bytes pv)"

definition inspection_result ::
  "placement_preview \<Rightarrow> inspection_state \<Rightarrow> py_path option \<Rightarrow> pystr option \<Rightarrow> fingerprint option \<Rightarrow> fingerprint option \<Rightarrow> inspection" where
  "inspection_result pv state target label source target_fp =
     \<lparr>is_state = state, is_mode = pv_mode pv, is_target = target,
      is_collision = (if state = I_blocked \<or> state = I_different_content then pv_collision pv else Ck_none),
      is_code = label, is_required_bytes = inspection_bytes pv source, is_ownership = pv_ownership pv,
      is_source = source, is_target_fingerprint = target_fp\<rparr>"

definition tracked_result ::
  "placement_preview \<Rightarrow> ownership option \<Rightarrow> py_path \<Rightarrow> pystr \<Rightarrow> fingerprint option \<Rightarrow> fingerprint option \<Rightarrow> inspection" where
  "tracked_result pv own target label source target_fp =
     (inspection_result pv (if own = Some Managed then I_managed_drifted else I_referenced_drifted) (Some target) (Some label)
        source target_fp)\<lparr>is_ownership := (if own = Some Managed then ''managed'' else ''referenced'')\<rparr>"

definition missing_result :: "placement_preview \<Rightarrow> ownership option \<Rightarrow> py_path \<Rightarrow> fingerprint \<Rightarrow> inspection" where
  "missing_result pv own target source_fp =
     (inspection_result pv
        (case own of Some Managed \<Rightarrow> I_managed_missing | Some Referenced \<Rightarrow> I_referenced_missing | None \<Rightarrow> I_free)
        (Some target) (if own = None then None else Some ''target_missing'') (Some source_fp) None)
     \<lparr>is_ownership := (if own = Some Referenced then ''referenced'' else ''managed'')\<rparr>"

definition inspection_ownership :: "inspection_evidence option \<Rightarrow> ownership option" where
  "inspection_ownership existing = (case existing of None \<Rightarrow> None | Some ev \<Rightarrow> parse_ownership (ie_ownership ev))"

definition collision_from_code :: "pystr \<Rightarrow> collision_kind" where
  "collision_from_code label = (case find (\<lambda>k. collision_value k = label)
       [Ck_none, Ck_different_content, Ck_same_inode_referenced, Ck_case_only, Ck_path_escape, Ck_cross_device, Ck_root_unavailable,
        Ck_symlink_root, Ck_symlink_parent, Ck_parent_not_directory, Ck_directory_scan_limit, Ck_collision_scan_failed,
        Ck_source_unavailable] of
     Some k \<Rightarrow> k | None \<Rightarrow> Ck_none)"

subsection \<open>Drift\<close>

definition evidence_mode :: "inspection_evidence \<Rightarrow> (exn, placement_mode \<times> symlink_style option) result" where
  "evidence_mode ev =
     bind_result (coerce_mode (ie_mode ev)) (\<lambda>mode.
     bind_result (coerce_symlink_style (ie_style ev)) (\<lambda>style. Inr (mode, style)))"

text \<open>\<open>True\<close> when the representation has changed: a \<open>ValueError\<close> or a placement error was raised.\<close>

definition representation_changed :: "unit io \<Rightarrow> bool io" where
  "representation_changed m =
     io_catch (io_then m (io_return False))
       (\<lambda>e. if e = Value_error \<or> is_placement_error e then io_return True else io_raise e)"

definition tracked_drift_code ::
  "arc_plan \<Rightarrow> inspection_evidence \<Rightarrow> ownership option \<Rightarrow> py_path \<Rightarrow> fingerprint \<Rightarrow> fingerprint \<Rightarrow> pystr \<Rightarrow> secure_parent \<Rightarrow>
   pystr option io" where
  "tracked_drift_code plan ev own source source_fp target_fp name parent =
     (if truthy (ie_source ev) \<and> \<not> py_eq (ie_source ev) source_fp then io_return (Some ''source_fingerprint_mismatch'')
      else if truthy (ie_target_fingerprint ev) \<and> \<not> py_eq (ie_target_fingerprint ev) target_fp then
        io_bind (if own = Some Managed
            then representation_changed (io_bind (io_of_result (evidence_mode ev)) (\<lambda>(mode, style).
              io_then (io_of_result (validate_mode_and_style mode style))
                (validate_existing_representation_at mode style source source_fp name parent)))
            else io_return False) (\<lambda>changed.
        io_return (Some (if changed then ''representation_changed'' else ''target_fingerprint_mismatch'')))
      else if \<not> fingerprint_content_matches target_fp source_fp then io_return (Some ''content_changed'')
      else
        io_bind (if own = Some Managed
            then representation_changed (io_bind (io_of_result (evidence_mode ev)) (\<lambda>(mode, style).
              io_bind (io_of_result (coerce_symlink_style (ap_style plan))) (\<lambda>requested.
              io_then (io_of_result (validate_mode_and_style mode style))
              (io_bind (io_of_result (coerce_mode (ap_mode plan))) (\<lambda>plan_mode.
               io_then (io_when (mode \<noteq> plan_mode \<or> style \<noteq> requested) (Safety ''representation_changed''))
                 (validate_existing_representation_at mode style source source_fp name parent))))))
            else io_return False) (\<lambda>changed.
        io_return (if changed then Some ''representation_changed'' else None)))"

subsection \<open>The inspection\<close>

text \<open>What is found at a target whose parent is open\<close>

definition inspect_entry ::
  "arc_plan \<Rightarrow> inspection_evidence option \<Rightarrow> placement_preview \<Rightarrow> py_path \<Rightarrow> py_path \<Rightarrow> fingerprint \<Rightarrow> secure_parent \<Rightarrow> inspection io" where
  "inspect_entry plan existing pv source target source_fp parent =
     io_then (assert_parent_path_stable parent)
     (io_bind (entry_exists_at (sp_fd parent) (path_name target)) (\<lambda>there.
      if \<not> there then io_return (missing_result pv (inspection_ownership existing) target source_fp)
      else
        io_bind (fingerprint_target_at parent (path_name target) (Some source)) (\<lambda>target_fp.
        io_then (assert_parent_path_stable parent)
        (case existing of
           None \<Rightarrow>
             (let identical = fingerprint_content_matches target_fp source_fp
              in io_return (inspection_result pv (if identical then I_untracked_identical else I_different_content) (Some target)
                   (Some (if identical then ''untracked_identical'' else ''different_content'')) (Some source_fp) (Some target_fp)))
         | Some ev \<Rightarrow>
             io_bind (tracked_drift_code plan ev (inspection_ownership existing) source source_fp target_fp (path_name target) parent)
             (\<lambda>drift.
              io_return (case drift of
                  Some label \<Rightarrow> tracked_result pv (inspection_ownership existing) target label (Some source_fp) (Some target_fp)
                | None \<Rightarrow>
                    (inspection_result pv
                       (if inspection_ownership existing = Some Managed then I_managed_current else I_referenced_current)
                       (Some target) None (Some source_fp) (Some target_fp))
                    \<lparr>is_ownership := (case inspection_ownership existing of None \<Rightarrow> ''managed'' | Some own \<Rightarrow> ownership_value own)\<rparr>))))))"

definition inspect_target ::
  "arc_plan \<Rightarrow> inspection_evidence option \<Rightarrow> placement_preview \<Rightarrow> py_path \<Rightarrow> inspection io" where
  "inspect_target plan existing pv target =
     io_bind (validated_regular_source (ap_canonical plan)) (\<lambda>source.
     io_bind (fingerprint_regular_nofollow source) (\<lambda>source_fp.
     io_bind (validated_root (ap_destination plan)) (\<lambda>guard.
     io_then (io_of_result (validate_target_lexically (rg_path guard) target))
     (io_then (io_of_result (validate_path_limits target))
     (io_then (reject_canonical_destination source target)
     (io_catch
       (io_bind (open_secure_parent_directory guard (path_parent target) False)
         (inspect_entry plan existing pv source target source_fp))
       (\<lambda>e. if e = OS_error ENOENT
          then io_return (missing_result pv (inspection_ownership existing) target source_fp) else io_raise e)))))))"

text \<open>The outer \<open>except\<close> clauses\<close>

definition inspection_of_error ::
  "inspection_evidence option \<Rightarrow> placement_preview \<Rightarrow> py_path \<Rightarrow> exn \<Rightarrow> inspection io" where
  "inspection_of_error existing pv target e =
     (let own = inspection_ownership existing; tracked = existing \<noteq> None \<and> own \<noteq> None
      in case e of
           OS_error _ \<Rightarrow>
             io_return (if tracked then tracked_result pv own target ''inspection_failed'' None None
               else inspection_result pv I_blocked (Some target) (Some ''inspection_failed'') None None)
         | _ \<Rightarrow>
             if \<not> is_placement_error e then io_raise e
             else if tracked then io_return (tracked_result pv own target (error_code e) None None)
             else if error_code e \<in> {''dangling_symlink'', ''fingerprint_mismatch'', ''not_regular_file''} then
               io_return ((inspection_result pv I_different_content (Some target) (Some ''different_content'') None None)
                 \<lparr>is_collision := Ck_different_content\<rparr>)
             else io_return ((inspection_result pv I_blocked (Some target) (Some (error_code e)) None None)
               \<lparr>is_collision := collision_from_code (error_code e)\<rparr>))"

text \<open>What the preview and the evidence decide before the file system is looked at\<close>

definition inspection_early ::
  "inspection_evidence option \<Rightarrow> placement_mode \<Rightarrow> placement_preview \<Rightarrow> inspection + py_path" where
  "inspection_early existing mode pv =
     (let own = inspection_ownership existing;
          reference = (mode = Mode_reference_only);
          candidate = (case existing of Some ev \<Rightarrow> if reference then Some (ie_path ev) else pv_target pv | None \<Rightarrow> pv_target pv)
      in if existing \<noteq> None \<and> own = None then
           Inl (inspection_result pv I_blocked (map_option ie_path existing) (Some ''ownership_invalid'') None None)
         else if reference \<and> existing = None then
           Inl ((inspection_result pv I_free None None None None)\<lparr>is_ownership := ''referenced''\<rparr>)
         else (case candidate of
           None \<Rightarrow> Inl (inspection_result pv I_blocked None (Some (collision_value (pv_collision pv))) None None)
         | Some target \<Rightarrow>
             if existing \<noteq> None \<and> map_option ie_path existing \<noteq> Some target then
               Inl (tracked_result pv own target ''destination_mismatch'' None None)
             else if pv_state pv = Pv_blocked \<and> pv_collision pv \<noteq> Ck_different_content \<and> pv_collision pv \<noteq> Ck_case_only then
               Inl (inspection_result pv I_blocked (Some target) (Some (collision_value (pv_collision pv))) None None)
             else if pv_collision pv = Ck_case_only then
               Inl (if existing \<noteq> None
                 then (tracked_result pv own target ''case_only'' None None)\<lparr>is_collision := Ck_case_only\<rparr>
                 else (inspection_result pv I_blocked (Some target) (Some ''case_only'') None None)\<lparr>is_collision := Ck_case_only\<rparr>)
             else Inr target))"

definition inspect_story_arc_placement :: "arc_plan \<Rightarrow> inspection_evidence option \<Rightarrow> inspection io" where
  "inspect_story_arc_placement plan existing =
     io_bind (io_of_result (plan_mode plan)) (\<lambda>(mode, style).
     io_bind (preview_plan plan mode style) (\<lambda>pv.
     case inspection_early existing mode pv of
       Inl answer \<Rightarrow> io_return answer
     | Inr target \<Rightarrow> io_catch (inspect_target plan existing pv target) (inspection_of_error existing pv target)))"

end
