(* ===== verification/Arc_Safety.thy ===== *)
theory Arc_Safety
  imports Arc_Inspection
begin

text \<open>
  What the placement service may do to the file system: nothing when it previews, inspects,
  prepares or recovers; a fixed protocol of changes when it publishes or removes.
\<close>

subsection \<open>Operations that only look\<close>

lemma looks_source_root [looks_intros]:
  "looks_only (validated_regular_source p)" "looks_only (validated_root r)" "looks_only (recheck_root g)"
  "looks_only (reject_canonical_destination a b)"
  unfolding validated_regular_source_def validated_root_def recheck_root_def reject_canonical_destination_def
  by (intro looks_intros)+

lemma looks_check_parents [looks_intros]: "looks_only (check_existing_parents current parts resolved)"
  by (induction current parts resolved rule: check_existing_parents.induct) (auto intro!: looks_intros simp: Let_def)

lemma looks_safe_parents [looks_intros]: "looks_only (validate_safe_existing_parents g p)"
  unfolding validate_safe_existing_parents_def by (intro looks_intros)

lemma looks_open_component [looks_intros]:
  "looks_only (open_directory_component n d)" "looks_only (fsync_directory d)" "looks_only (open_root g)"
  unfolding open_directory_component_def fsync_directory_def open_root_def by (intro looks_intros)+

lemma looks_descend [looks_intros]: "looks_only (descend False d parts)"
  by (induction parts arbitrary: d) (auto intro!: looks_intros)

lemma looks_open_parent [looks_intros]: "looks_only (open_secure_parent_directory g p False)"
  unfolding open_secure_parent_directory_def by (intro looks_intros)

lemma looks_stable [looks_intros]: "looks_only (assert_parent_path_stable p)"
  unfolding assert_parent_path_stable_def by (intro looks_intros) (auto split: exn.split intro!: looks_intros)

lemma looks_entries [looks_intros]:
  "looks_only (entry_lstat_at d n)" "looks_only (entry_exists_at d n)" "looks_only (readlink_at d n)" "looks_only (path_exists p)"
  unfolding entry_exists_at_def entry_lstat_at_def readlink_at_def path_exists_def by (intro looks_intros)+

lemma looks_scan [looks_intros]:
  "looks_only (scan_result t ns)" "looks_only (case_only_collision_at d n)" "looks_only (case_only_collision p)"
proof -
  show scan: "looks_only (scan_result t ns)" for t ns unfolding scan_result_def by (intro looks_intros)
  show "looks_only (case_only_collision_at d n)" "looks_only (case_only_collision p)"
    unfolding case_only_collision_at_def case_only_collision_def by (intro looks_intros scan)+
qed

lemma looks_descriptor [looks_intros]: "looks_only (fingerprint_regular_descriptor f)"
  unfolding fingerprint_regular_descriptor_def by (intro looks_intros)

lemma looks_opened [looks_intros]: "looks_only again \<Longrightarrow> looks_only (fingerprint_opened c st f again)"
  unfolding fingerprint_opened_def by (intro looks_intros)

lemma looks_nofollow [looks_intros]:
  "looks_only (fingerprint_regular_nofollow p)" "looks_only (fingerprint_regular_at d n)" "looks_only (fingerprint_regular p)"
  unfolding fingerprint_regular_nofollow_def fingerprint_regular_at_def fingerprint_regular_def by (intro looks_intros)+

lemma looks_fingerprint_target [looks_intros]:
  "looks_only (fingerprint_target_at p n c)" "looks_only (fingerprint_target q)"
  unfolding fingerprint_target_at_def fingerprint_target_def by (intro looks_intros)+

lemma looks_content_matches [looks_intros]: "looks_only (target_content_matches_source t s fp)"
  unfolding target_content_matches_source_def by (intro looks_intros) (auto split: exn.split intro!: looks_intros)

lemma looks_representation [looks_intros]:
  "looks_only (validate_existing_representation m st s t)" "looks_only (expected_link st s p)"
  unfolding validate_existing_representation_def expected_link_def by (intro looks_intros)+

lemma looks_representation_at [looks_intros]:
  "looks_only (validate_existing_representation_at m st s fp n p)" "looks_only (validate_removal_representation_at m p n)"
  "looks_only (recheck_free_destination_at p n)"
  unfolding validate_existing_representation_at_def validate_removal_representation_at_def recheck_free_destination_at_def
  by (intro looks_intros)+

lemma looks_validate_published [looks_intros]: "looks_only (validate_published_target_at m st s fp n p)"
  unfolding validate_published_target_at_def by (intro looks_intros)

lemma looks_still_ours [looks_intros]: "looks_only (still_ours p n pt)"
  unfolding still_ours_def by (intro looks_intros)

lemma looks_raise_preview [looks_intros]: "looks_only (raise_from_preview pv)"
  unfolding raise_from_preview_def by (intro looks_intros)

lemma looks_resolve_existing [looks_intros]: "looks_only (resolve_existing_target pl m st s fp t ex)"
  unfolding resolve_existing_target_def resolve_managed_target_def resolve_foreign_target_def by (intro looks_intros)

lemma looks_checked [looks_intros]:
  "looks_only (checked_destination pl t)" "looks_only (preview_plan pl m st)"
  unfolding checked_destination_def preview_plan_def by (intro looks_intros)+

lemma looks_inspect_plan [looks_intros]: "looks_only (inspect_plan pl)"
  unfolding inspect_plan_def by (intro looks_intros)

lemma looks_prepare: "looks_only (prepare_story_arc_placement plan existing)"
  unfolding prepare_story_arc_placement_def by (intro looks_intros)

lemma looks_recover: "looks_only (recover_prepared_story_arc_placement plan ev)"
  unfolding recover_prepared_story_arc_placement_def by (intro looks_intros)

lemma looks_changed [looks_intros]: "looks_only m \<Longrightarrow> looks_only (representation_changed m)"
  unfolding representation_changed_def by (intro looks_intros)

lemma looks_drift [looks_intros]: "looks_only (tracked_drift_code pl ev own s fp tfp n p)"
  unfolding tracked_drift_code_def by (intro looks_intros)

lemma looks_inspect_parts [looks_intros]:
  "looks_only (inspect_entry pl ex pv s t fp p)" "looks_only (inspection_of_error ex pv t e)"
proof -
  show "looks_only (inspect_entry pl ex pv s t fp p)" unfolding inspect_entry_def by (intro looks_intros)
  show "looks_only (inspection_of_error ex pv t e)"
    unfolding inspection_of_error_def by (cases e) (auto simp: Let_def intro!: looks_intros)
qed

lemma looks_inspect: "looks_only (inspect_story_arc_placement plan existing)"
  unfolding inspect_story_arc_placement_def inspect_target_def by (intro looks_intros)

text \<open>C4. Previewing, inspecting, preparing and recovering a placement never change anything: whatever other
  processes do and whichever calls fail, the service makes no change of its own, and where nobody else acts
  the file system afterwards is the one before.\<close>

theorem placement_inspection_is_read_only:
  "untouched w (snd (preview_story_arc_placement canonical dest values mode style folder_template file_template w))
   \<and> untouched w (snd (inspect_story_arc_placement plan existing w))
   \<and> untouched w (snd (prepare_story_arc_placement plan managed w))
   \<and> untouched w (snd (recover_prepared_story_arc_placement plan prepared w))"
  using looks_preview looks_inspect looks_prepare looks_recover by (simp_all add: looks.keeps_def)

subsection \<open>The protocol of a publication\<close>

text \<open>
  The phases of one publication, as its journal event and the changes after it show them: the
  directory, the name and the node of the temporary file are remembered. A temporary file is the
  only file that is ever written, and only while it has no other name.
\<close>

datatype publish_phase =
    Ph_prepared
  | Ph_staged fid pystr fid
  | Ph_linked fid pystr
  | Ph_published fid
  | Ph_discarded
  | Ph_removed
  | Ph_done
  | Ph_failed publish_phase

definition temporary_name :: "pystr \<Rightarrow> bool" where
  "temporary_name n \<longleftrightarrow> starts_with TEMP_PREFIX n \<and> ends_with TEMP_SUFFIX n"

fun open_phase :: "publish_phase \<Rightarrow> bool" where
  "open_phase Ph_done = False"
| "open_phase (Ph_failed p) = False"
| "open_phase _ = True"

fun act_step :: "placement_mode \<Rightarrow> pystr \<Rightarrow> publish_phase \<Rightarrow> own_action \<Rightarrow> publish_phase option" where
  "act_step mode target Ph_prepared (A_mkdir d n f) = Some Ph_prepared"
| "act_step mode target Ph_prepared (A_create d n f) =
     (if mode = Mode_copy \<and> temporary_name n then Some (Ph_staged d n f) else None)"
| "act_step mode target Ph_prepared (A_link d n f) =
     (if mode = Mode_hardlink \<and> n = target then Some (Ph_published d) else None)"
| "act_step mode target Ph_prepared (A_symlink d n f) =
     (if mode = Mode_symlink \<and> n = target then Some (Ph_published d) else None)"
| "act_step mode target (Ph_staged d t g) (A_write f) = (if f = g then Some (Ph_staged d t g) else None)"
| "act_step mode target (Ph_staged d t g) (A_chmod f) = (if f = g then Some (Ph_staged d t g) else None)"
| "act_step mode target (Ph_staged d t g) (A_utime f) = (if f = g then Some (Ph_staged d t g) else None)"
| "act_step mode target (Ph_staged d t g) (A_link e n f) = (if e = d \<and> n = target then Some (Ph_linked d t) else None)"
| "act_step mode target (Ph_staged d t g) (A_unlink e n f) = (if e = d \<and> n = t then Some Ph_discarded else None)"
| "act_step mode target (Ph_linked d t) (A_unlink e n f) =
     (if e = d \<and> n = t then Some (Ph_published d) else if e = d \<and> n = target then Some Ph_removed else None)"
| "act_step mode target (Ph_published d) (A_unlink e n f) = (if e = d \<and> n = target then Some Ph_removed else None)"
| "act_step mode target p a = None"

definition tell_step :: "journal_event \<Rightarrow> publish_phase \<Rightarrow> journal_event \<Rightarrow> publish_phase option" where
  "tell_step ev p told =
     (if told = failed_event ev (or_else (je_failure told) []) then (if open_phase p then Some (Ph_failed p) else None)
      else if told = ev\<lparr>je_stage := ''published'', je_target_fingerprint := je_target_fingerprint told\<rparr> then
        (case p of Ph_published d \<Rightarrow> Some Ph_done | Ph_linked d t \<Rightarrow> Some Ph_done | _ \<Rightarrow> None)
      else None)"

fun publish_step :: "journal_event \<Rightarrow> publish_phase \<Rightarrow> happening \<Rightarrow> publish_phase option" where
  "publish_step ev p (Did a) = act_step (je_mode ev) (path_name (je_target ev)) p a"
| "publish_step ev p (Told told) = tell_step ev p told"

fun publish_run :: "journal_event \<Rightarrow> publish_phase \<Rightarrow> happening list \<Rightarrow> publish_phase option" where
  "publish_run ev p [] = Some p"
| "publish_run ev p (h # hs) = (case publish_step ev p h of None \<Rightarrow> None | Some q \<Rightarrow> publish_run ev q hs)"

lemma publish_run_snoc:
  "publish_run ev p (hs @ [h]) = (case publish_run ev p hs of None \<Rightarrow> None | Some q \<Rightarrow> publish_step ev q h)"
  by (induction hs arbitrary: p) (auto split: option.split)

text \<open>The part of the log after \<open>l0\<close> is the event \<open>ev\<close> and a run of the protocol to the phase \<open>p\<close>.\<close>

definition at_phase :: "happening list \<Rightarrow> journal_event \<Rightarrow> publish_phase \<Rightarrow> happening list \<Rightarrow> bool" where
  "at_phase l0 ev p l \<longleftrightarrow> (\<exists>hs. l = l0 @ Told ev # hs \<and> publish_run ev Ph_prepared hs = Some p)"

lemma at_phase_start: "at_phase l0 ev Ph_prepared (l0 @ [Told ev])"
  by (auto simp: at_phase_def)

lemma at_phase_step: "at_phase l0 ev p l \<Longrightarrow> publish_step ev p h = Some q \<Longrightarrow> at_phase l0 ev q (l @ [h])"
proof -
  assume "at_phase l0 ev p l" and st: "publish_step ev p h = Some q"
  then obtain hs where l: "l = l0 @ Told ev # hs" and run: "publish_run ev Ph_prepared hs = Some p"
    by (auto simp: at_phase_def)
  from run st have "publish_run ev Ph_prepared (hs @ [h]) = Some q" by (simp add: publish_run_snoc)
  with l show "at_phase l0 ev q (l @ [h])" by (auto simp: at_phase_def)
qed

lemma ltriple_act:
  assumes "\<And>f. act_step (je_mode ev) (path_name (je_target ev)) p (act f) = Some (q f)"
  shows "ltriple (at_phase l0 ev p) (io_change act g) (\<lambda>f. at_phase l0 ev (q f)) (\<lambda>_. at_phase l0 ev p)"
  by (rule ltriple_change) (auto intro: at_phase_step simp: assms)

lemmas open_rules = ltriple_look_bind ltriple_look_then

definition open_at :: "happening list \<Rightarrow> journal_event \<Rightarrow> happening list \<Rightarrow> bool" where
  "open_at l0 ev l \<longleftrightarrow> (\<exists>p. open_phase p \<and> at_phase l0 ev p l)"

lemma open_atI: "at_phase l0 ev p l \<Longrightarrow> open_phase p \<Longrightarrow> open_at l0 ev l"
  by (auto simp: open_at_def)

lemma descend_phase:
  "ltriple (at_phase l0 ev Ph_prepared) (descend create d parts) (\<lambda>_. at_phase l0 ev Ph_prepared) (\<lambda>_. at_phase l0 ev Ph_prepared)"
proof (induction parts arbitrary: d)
  case Nil
  show ?case by (auto intro: ltriple_return)
next
  case (Cons part parts)
  have mk: "ltriple (at_phase l0 ev Ph_prepared) (io_mkdir d part) (\<lambda>_. at_phase l0 ev Ph_prepared) (\<lambda>_. at_phase l0 ev Ph_prepared)"
    unfolding io_mkdir_def by (rule ltriple_act) simp
  have made: "ltriple (at_phase l0 ev Ph_prepared) (make_component part d) (\<lambda>_. at_phase l0 ev Ph_prepared) (\<lambda>_. at_phase l0 ev Ph_prepared)"
    unfolding make_component_def
    by (rule ltriple_bind, rule ltriple_catch, rule ltriple_then, rule mk)
      (auto intro!: ltriple_return ltriple_looks looks_intros split: if_splits)
  show ?case
    unfolding descend.simps
    by (rule ltriple_bind, rule ltriple_catch, rule ltriple_looks, intro looks_intros)
      (auto intro!: made Cons.IH ltriple_look_then looks_intros ltriple_raise split: prod.split)
qed

lemma starts_with_append [simp]: "starts_with p (p @ s)"
  by (simp add: starts_with_iff)

lemma temporary_name_token: "temporary_name (TEMP_PREFIX @ token @ TEMP_SUFFIX)"
  by (simp add: temporary_name_def TEMP_SUFFIX_def ends_with_def TEMP_PREFIX_def starts_with_iff)

lemma create_temporary_phase:
  assumes "je_mode ev = Mode_copy"
  shows "ltriple (at_phase l0 ev Ph_prepared) (create_temporary k d)
    (\<lambda>(f, n). at_phase l0 ev (Ph_staged d n f)) (\<lambda>_. at_phase l0 ev Ph_prepared)"
proof (induction k)
  case 0
  show ?case by (auto intro: ltriple_raise)
next
  case (Suc k)
  have made: "ltriple (at_phase l0 ev Ph_prepared) (io_creat d n) (\<lambda>f. at_phase l0 ev (Ph_staged d n f)) (\<lambda>_. at_phase l0 ev Ph_prepared)"
    if "temporary_name n" for n
    unfolding io_creat_def by (rule ltriple_act) (simp add: assms that)
  have attempt: "ltriple (at_phase l0 ev Ph_prepared)
      (io_catch (io_bind (io_creat d n) (\<lambda>f. io_return (Some f))) (\<lambda>e. if e = OS_error EEXIST then io_return None else io_raise e))
      (\<lambda>r. case r of Some f \<Rightarrow> at_phase l0 ev (Ph_staged d n f) | None \<Rightarrow> at_phase l0 ev Ph_prepared) (\<lambda>_. at_phase l0 ev Ph_prepared)"
    if "temporary_name n" for n
    by (rule ltriple_catch, rule ltriple_bind, rule made [OF that]) (auto intro!: ltriple_return ltriple_raise)
  have rest: "ltriple (case r of Some f \<Rightarrow> at_phase l0 ev (Ph_staged d n f) | None \<Rightarrow> at_phase l0 ev Ph_prepared)
      (case r of Some f \<Rightarrow> io_return (f, n) | None \<Rightarrow> create_temporary k d)
      (\<lambda>(f, n). at_phase l0 ev (Ph_staged d n f)) (\<lambda>_. at_phase l0 ev Ph_prepared)" for r n
    using Suc.IH by (cases r) (auto intro: ltriple_return)
  show ?case
    unfolding create_temporary.simps Let_def
    by (rule ltriple_look_bind [OF looks_token], assumption, rule ltriple_bind, rule attempt, rule temporary_name_token, rule rest)
qed

lemma write_chunks_phase:
  "ltriple (at_phase l0 ev (Ph_staged d n f)) (write_chunks f cs) (\<lambda>_. at_phase l0 ev (Ph_staged d n f)) (\<lambda>_. at_phase l0 ev (Ph_staged d n f))"
proof (induction cs)
  case Nil
  show ?case by (auto intro: ltriple_return)
next
  case (Cons c cs)
  have "ltriple (at_phase l0 ev (Ph_staged d n f)) (io_write f c) (\<lambda>_. at_phase l0 ev (Ph_staged d n f)) (\<lambda>_. at_phase l0 ev (Ph_staged d n f))"
    unfolding io_write_def by (rule ltriple_act) simp
  with Cons.IH show ?case
    unfolding write_chunks.simps
    by (intro ltriple_look_then [OF looks_cancelled]) (assumption, rule ltriple_then)
qed

lemma fill_temporary_phase:
  "ltriple (at_phase l0 ev (Ph_staged d n f)) (fill_temporary s f st fp) (\<lambda>_. at_phase l0 ev (Ph_staged d n f)) (\<lambda>_. at_phase l0 ev (Ph_staged d n f))"
proof -
  have mode: "ltriple (at_phase l0 ev (Ph_staged d n f)) (io_fchmod f m) (\<lambda>_. at_phase l0 ev (Ph_staged d n f)) (\<lambda>_. at_phase l0 ev (Ph_staged d n f))" for m
    unfolding io_fchmod_def by (rule ltriple_act) simp
  have times: "ltriple (at_phase l0 ev (Ph_staged d n f)) (io_utime f a t) (\<lambda>_. at_phase l0 ev (Ph_staged d n f)) (\<lambda>_. at_phase l0 ev (Ph_staged d n f))" for a t
    unfolding io_utime_def by (rule ltriple_act) simp
  show ?thesis
    unfolding fill_temporary_def
    by (rule ltriple_look_bind, intro looks_intros, assumption, rule ltriple_then, rule write_chunks_phase,
        rule ltriple_then, rule mode, rule ltriple_then, rule times, rule ltriple_looks, intro looks_intros)
qed

lemma stage_copy_phase:
  assumes "target = path_name (je_target ev)"
  shows "ltriple (at_phase l0 ev (Ph_staged d n f)) (stage_copy s f st fp n d target)
    (\<lambda>_. at_phase l0 ev (Ph_linked d n)) (\<lambda>_. at_phase l0 ev (Ph_staged d n f))"
proof -
  have link: "ltriple (at_phase l0 ev (Ph_staged d n f)) (io_link_at n d target) (\<lambda>_. at_phase l0 ev (Ph_linked d n)) (\<lambda>_. at_phase l0 ev (Ph_staged d n f))"
    unfolding io_link_at_def by (rule ltriple_act) (simp add: assms)
  show ?thesis
    unfolding stage_copy_def
    by (rule ltriple_bind, rule fill_temporary_phase, rule ltriple_look_then [OF looks_cancelled], assumption,
        rule ltriple_then, rule ltriple_catch, rule link) (auto intro!: ltriple_return ltriple_raise)
qed

lemma ltriple_disj: "ltriple P m Q X \<Longrightarrow> ltriple P' m Q X \<Longrightarrow> ltriple (\<lambda>l. P l \<or> P' l) m Q X"
  by (auto simp: ltriple_def triple_def)

lemma ltriple_ex: "(\<And>v. ltriple (P v) m Q X) \<Longrightarrow> ltriple (\<lambda>l. \<exists>v. P v l) m Q X"
  unfolding ltriple_def triple_def by (intro allI impI, elim exE, drule meta_spec) (drule spec, erule mp)

text \<open>The target has its name: the temporary file may still have its own.\<close>

definition published_at :: "happening list \<Rightarrow> journal_event \<Rightarrow> fid \<Rightarrow> happening list \<Rightarrow> bool" where
  "published_at l0 ev d l \<longleftrightarrow> (\<exists>t. at_phase l0 ev (Ph_linked d t) l) \<or> at_phase l0 ev (Ph_published d) l"

lemma published_open: "published_at l0 ev d l \<Longrightarrow> open_at l0 ev l"
  by (auto simp: published_at_def intro: open_atI)

lemma io_unlink_phase:
  assumes "\<And>f. act_step (je_mode ev) (path_name (je_target ev)) p (A_unlink d n f) = Some q"
  shows "ltriple (at_phase l0 ev p) (io_unlink d n) (\<lambda>_. at_phase l0 ev q) (\<lambda>_. at_phase l0 ev p)"
  unfolding io_unlink_def by (rule ltriple_act) (simp add: assms)

lemma drop_staged_phase:
  "ltriple (at_phase l0 ev (Ph_staged d n f)) (drop_temporary d n False) (\<lambda>_. open_at l0 ev) (\<lambda>_. open_at l0 ev)"
  unfolding drop_temporary_def
  by (rule ltriple_except_os, rule ltriple_then, rule io_unlink_phase [where q = Ph_discarded])
    (auto intro!: ltriple_return ltriple_raise intro: open_atI)

lemma drop_linked_phase:
  "ltriple (at_phase l0 ev (Ph_linked d n)) (drop_temporary d n True) (\<lambda>_. published_at l0 ev d) (\<lambda>_. open_at l0 ev)"
  unfolding drop_temporary_def
  by (rule ltriple_except_os, rule ltriple_then, rule io_unlink_phase [where q = "Ph_published d"])
    (auto intro!: ltriple_return ltriple_raise intro: open_atI simp: published_at_def)

text \<open>Looking at something before the target exists\<close>

lemma prepared_open: "at_phase l0 ev Ph_prepared l \<Longrightarrow> open_at l0 ev l"
  by (auto intro: open_atI)

lemma prepared_bind:
  "looks_only m \<Longrightarrow> (\<And>x. ltriple (at_phase l0 ev Ph_prepared) (f x) Q (\<lambda>_. open_at l0 ev)) \<Longrightarrow>
   ltriple (at_phase l0 ev Ph_prepared) (io_bind m f) Q (\<lambda>_. open_at l0 ev)"
  by (rule ltriple_look_bind) (auto intro: prepared_open)

lemma prepared_then:
  "looks_only m \<Longrightarrow> ltriple (at_phase l0 ev Ph_prepared) k Q (\<lambda>_. open_at l0 ev) \<Longrightarrow>
   ltriple (at_phase l0 ev Ph_prepared) (io_then m k) Q (\<lambda>_. open_at l0 ev)"
  unfolding io_then_def by (rule prepared_bind)

lemma publish_copy_phase:
  assumes "je_mode ev = Mode_copy" and "target = path_name (je_target ev)"
  shows "ltriple (at_phase l0 ev Ph_prepared) (publish_copy_at s target p fp)
    (\<lambda>_. published_at l0 ev (sp_fd p)) (\<lambda>_. open_at l0 ev)"
proof -
  have staged: "ltriple (at_phase l0 ev (Ph_staged d n f))
      (io_catch (stage_copy s f st fp n d target) (\<lambda>e. io_then (drop_temporary d n False) (io_raise e)))
      (\<lambda>_. at_phase l0 ev (Ph_linked d n)) (\<lambda>_. open_at l0 ev)" for s f st fp n d
    by (rule ltriple_catch, rule stage_copy_phase [OF assms(2)], rule ltriple_then, rule drop_staged_phase)
      (auto intro: ltriple_raise)
  have finish: "ltriple (at_phase l0 ev (Ph_linked d n)) (io_then (drop_temporary d n True) (io_bind (io_fstat f) (\<lambda>st. io_return (g st))))
      (\<lambda>_. published_at l0 ev d) (\<lambda>_. open_at l0 ev)" for d n f and g :: "stat_result \<Rightarrow> published_target"
    by (rule ltriple_then, rule drop_linked_phase, rule ltriple_look_bind, intro looks_intros)
      (auto intro: ltriple_return published_open)
  have made: "ltriple (at_phase l0 ev Ph_prepared) (create_temporary k d)
      (\<lambda>(f, n). at_phase l0 ev (Ph_staged d n f)) (\<lambda>_. open_at l0 ev)" for k d
    by (rule ltriple_conseq [OF create_temporary_phase [OF assms(1)]]) (auto intro: prepared_open)
  show ?thesis
    unfolding publish_copy_at_def create_temporary_file_at_def
    by (rule prepared_bind, intro looks_intros, rule prepared_bind, intro looks_intros, rule prepared_then, intro looks_intros, rule ltriple_bind, rule made)
      (auto split: prod.split intro!: ltriple_bind [OF staged] finish)
qed

lemma publish_hardlink_phase:
  assumes "je_mode ev = Mode_hardlink" and "target = path_name (je_target ev)"
  shows "ltriple (at_phase l0 ev Ph_prepared) (publish_hardlink_at s target p fp)
    (\<lambda>_. published_at l0 ev (sp_fd p)) (\<lambda>_. open_at l0 ev)"
proof -
  have link: "ltriple (at_phase l0 ev Ph_prepared) (io_link s (sp_fd p) target) (\<lambda>_. published_at l0 ev (sp_fd p)) (\<lambda>_. open_at l0 ev)"
    unfolding io_link_def
    by (rule ltriple_conseq [OF ltriple_act [where q = "\<lambda>_. Ph_published (sp_fd p)"]])
      (auto simp: assms published_at_def intro: prepared_open)
  show ?thesis
    unfolding publish_hardlink_at_def
    by (rule prepared_bind, intro looks_intros, rule ltriple_except_os, rule prepared_bind, intro looks_intros, rule prepared_then, intro looks_intros, 
        rule prepared_bind, intro looks_intros, rule prepared_then, intro looks_intros, 
        rule ltriple_then, rule link, rule ltriple_look_bind, intro looks_intros)
      (auto intro!: ltriple_return ltriple_raise intro: published_open)
qed

lemma publish_symlink_phase:
  assumes "je_mode ev = Mode_symlink" and "target = path_name (je_target ev)"
  shows "ltriple (at_phase l0 ev Ph_prepared) (publish_symlink_at s target tp p st)
    (\<lambda>_. published_at l0 ev (sp_fd p)) (\<lambda>_. open_at l0 ev)"
proof -
  have link: "ltriple (at_phase l0 ev Ph_prepared) (io_symlink t (sp_fd p) target) (\<lambda>_. published_at l0 ev (sp_fd p)) (\<lambda>_. open_at l0 ev)" for t
    unfolding io_symlink_def
    by (rule ltriple_conseq [OF ltriple_act [where q = "\<lambda>_. Ph_published (sp_fd p)"]])
      (auto simp: assms published_at_def intro: prepared_open)
  show ?thesis
    unfolding publish_symlink_at_def
    by (rule prepared_bind, intro looks_intros, rule prepared_bind, intro looks_intros, rule prepared_then, intro looks_intros, 
        rule ltriple_then, rule link, rule ltriple_look_bind, intro looks_intros)
      (auto intro!: ltriple_return ltriple_look_then looks_intros intro: published_open)
qed

lemma publish_at_phase:
  assumes "je_mode ev = mode" and "path_name (je_target ev) = path_name target"
  shows "ltriple (at_phase l0 ev Ph_prepared) (publish_at mode style s target p fp)
    (\<lambda>_. published_at l0 ev (sp_fd p)) (\<lambda>_. open_at l0 ev)"
  using assms
  by (auto simp: publish_at_def intro!: publish_copy_phase publish_hardlink_phase publish_symlink_phase ltriple_raise
      intro: prepared_open split: placement_mode.split option.split)

lemma remove_created_phase:
  assumes "path_name (je_target ev) = target"
  shows "ltriple (published_at l0 ev (sp_fd p)) (remove_created_target_at p target pt) (\<lambda>_. open_at l0 ev) (\<lambda>_. open_at l0 ev)"
proof -
  have linked: "ltriple (at_phase l0 ev (Ph_linked (sp_fd p) t)) (io_unlink (sp_fd p) target) (\<lambda>_. open_at l0 ev) (\<lambda>_. open_at l0 ev)" for t
    by (rule ltriple_conseq [OF io_unlink_phase [where q = "if target = t then Ph_published (sp_fd p) else Ph_removed"]])
      (auto simp: assms intro: open_atI)
  have "ltriple (at_phase l0 ev (Ph_published (sp_fd p))) (io_unlink (sp_fd p) target) (\<lambda>_. open_at l0 ev) (\<lambda>_. open_at l0 ev)"
    by (rule ltriple_conseq [OF io_unlink_phase [where q = Ph_removed]]) (auto simp: assms intro: open_atI)
  then have unlink: "ltriple (published_at l0 ev (sp_fd p)) (io_unlink (sp_fd p) target) (\<lambda>_. open_at l0 ev) (\<lambda>_. open_at l0 ev)"
    unfolding published_at_def by (intro ltriple_disj ltriple_ex linked)
  have sync: "ltriple (open_at l0 ev) (fsync_directory d) (\<lambda>_. open_at l0 ev) (\<lambda>_. open_at l0 ev)" for d
    by (rule ltriple_looks, intro looks_intros)
  have last: "ltriple (published_at l0 ev (sp_fd p))
      (if \<not> ours then io_return () else io_then (io_unlink (sp_fd p) target) (fsync_directory (sp_fd p)))
      (\<lambda>_. open_at l0 ev) (\<lambda>_. open_at l0 ev)" for ours
    using ltriple_then [OF unlink sync] by (auto intro: ltriple_return published_open)
  have second: "ltriple (published_at l0 ev (sp_fd p))
      (if \<not> same then io_return () else io_bind (still_ours p target pt) (\<lambda>ours2.
         if \<not> ours2 then io_return () else io_then (io_unlink (sp_fd p) target) (fsync_directory (sp_fd p))))
      (\<lambda>_. open_at l0 ev) (\<lambda>_. open_at l0 ev)" for same
    using ltriple_look_bind [OF looks_still_ours published_open last]
    by (auto intro: ltriple_return published_open)
  show ?thesis
    unfolding remove_created_target_at_def
  proof (rule ltriple_catch [where Y = "\<lambda>_. open_at l0 ev"])
    fix e show "ltriple (open_at l0 ev)
      (case e of OS_error _ \<Rightarrow> io_return () | _ \<Rightarrow> if is_placement_error e then io_return () else io_raise e)
      (\<lambda>_. open_at l0 ev) (\<lambda>_. open_at l0 ev)"
      by (cases e) (auto intro: ltriple_return ltriple_raise)
  qed (rule ltriple_look_bind, intro looks_intros, erule published_open, simp,
       auto intro!: ltriple_return ltriple_look_bind looks_intros second intro: published_open)
qed

lemma publish_in_parent_phase:
  assumes "je_mode ev = mode" and "path_name (je_target ev) = path_name target"
  shows "ltriple (at_phase l0 ev Ph_prepared) (publish_in_parent mode style s target fp p)
    (\<lambda>_. published_at l0 ev (sp_fd p)) (\<lambda>_. open_at l0 ev)"
proof -
  have checked: "looks_only (validated_publication mode style s fp (path_name target) p)"
    unfolding validated_publication_def by (intro looks_intros)
  show ?thesis
    unfolding publish_in_parent_def
    by (rule prepared_then, intro looks_intros, rule prepared_then, intro looks_intros, rule ltriple_bind, rule publish_at_phase [OF assms], rule ltriple_catch,
        rule ltriple_looks [OF checked], rule ltriple_then, rule remove_created_phase [OF assms(2)], rule ltriple_raise)
qed

subsection \<open>The protocol of an execution\<close>

fun uncategorised :: "exn \<Rightarrow> bool" where
  "uncategorised Value_error = True"
| "uncategorised (Journal_error s) = True"
| "uncategorised _ = False"

text \<open>Where a publication that failed with an exception may have stopped\<close>

fun settled :: "exn \<Rightarrow> publish_phase \<Rightarrow> bool" where
  "settled e (Ph_failed p) = open_phase p"
| "settled e Ph_done = True"
| "settled e Ph_prepared = True"
| "settled e p = uncategorised e"

text \<open>The part of the log an execution adds, with what it returned\<close>

definition created_result :: "journal_event \<Rightarrow> placement_result \<Rightarrow> bool" where
  "created_result ev r \<longleftrightarrow> pr_state r = R_created \<and> pr_ownership r = Managed \<and> pr_target r = Some (je_target ev)
     \<and> pr_mode r = je_mode ev \<and> pr_source r = je_source ev"

definition publication_log :: "(exn, placement_result) result \<Rightarrow> happening list \<Rightarrow> bool" where
  "publication_log r hs = (case hs of
     [] \<Rightarrow> (case r of Inl e \<Rightarrow> True | Inr x \<Rightarrow> pr_state x \<noteq> R_created)
   | Did a # hs' \<Rightarrow> False
   | Told ev # hs' \<Rightarrow>
       je_stage ev = ''prepared'' \<and>
       (case publish_run ev Ph_prepared hs' of
          None \<Rightarrow> False
        | Some p \<Rightarrow> (case r of Inl e \<Rightarrow> settled e p | Inr x \<Rightarrow> p = Ph_done \<and> created_result ev x)))"

lemma told_failed: "at_phase l0 ev p l \<Longrightarrow> open_phase p \<Longrightarrow> at_phase l0 ev (Ph_failed p) (l @ [Told (failed_event ev c)])"
  by (erule at_phase_step) (simp add: tell_step_def failed_event_def)

lemma told_published:
  assumes "published_at l0 ev d l" and "je_stage ev = ''prepared''" and "je_failure ev = None"
  shows "at_phase l0 ev Ph_done (l @ [Told (ev\<lparr>je_stage := ''published'', je_target_fingerprint := fp\<rparr>)])"
proof -
  have ne: "ev\<lparr>je_stage := ''published'', je_target_fingerprint := fp\<rparr> \<noteq> failed_event ev c" for c
    by (auto simp: failed_event_def dest: arg_cong [where f = je_stage])
  from assms(1) consider t where "at_phase l0 ev (Ph_linked d t) l" | "at_phase l0 ev (Ph_published d) l"
    by (auto simp: published_at_def)
  then show ?thesis
    by cases (auto elim!: at_phase_step simp: tell_step_def ne)
qed

definition failed_at :: "happening list \<Rightarrow> journal_event \<Rightarrow> exn \<Rightarrow> happening list \<Rightarrow> bool" where
  "failed_at l0 ev e l \<longleftrightarrow> (\<exists>p. settled e p \<and> at_phase l0 ev p l)"

lemma record_failure_phase:
  "ltriple (open_at l0 ev) (record_failure ev c) (\<lambda>_ l. \<forall>e. failed_at l0 ev e l) (\<lambda>_ l. \<forall>e. failed_at l0 ev e l)"
proof -
  have told: "open_at l0 ev l \<Longrightarrow> \<forall>e. failed_at l0 ev e (l @ [Told (failed_event ev c)])" for l
    unfolding open_at_def failed_at_def by (metis told_failed settled.simps(1))
  show ?thesis
    unfolding record_failure_def
    by (rule ltriple_catch, rule ltriple_journal [where X = "\<lambda>_ l. \<forall>e. failed_at l0 ev e l"])
      (auto intro!: ltriple_return told)
qed

lemma categorised_phase:
  assumes "ltriple P m Q (\<lambda>_. open_at l0 ev)"
  shows "ltriple P (categorised mode (Some ev) m) Q (failed_at l0 ev)"
  unfolding categorised_def
proof (rule ltriple_catch [OF assms])
  have raise: "ltriple (open_at l0 ev) (io_then (record_failure ev c) (io_raise e)) Q (failed_at l0 ev)" for c and e :: exn
    by (rule ltriple_then [where S = "\<lambda>l. \<forall>e. failed_at l0 ev e l"],
        rule ltriple_conseq [OF record_failure_phase [of l0 ev c]]) (auto intro: ltriple_raise)
  have other: "ltriple (open_at l0 ev) (io_raise e) Q (failed_at l0 ev)" if "uncategorised e" for e
  proof (rule ltriple_raise)
    fix l assume "open_at l0 ev l"
    then obtain p where "open_phase p" and p: "at_phase l0 ev p l" by (auto simp: open_at_def)
    then have "settled e p" using that by (cases p) auto
    with p show "failed_at l0 ev e l" by (auto simp: failed_at_def)
  qed
  fix e
  show "ltriple (open_at l0 ev)
    (case e of
       OS_error x \<Rightarrow> (let err = categorized_os_error mode x
         in io_then (case Some ev of None \<Rightarrow> io_return () | Some ev \<Rightarrow> record_failure ev (error_code err)) (io_raise err))
     | _ \<Rightarrow> if is_placement_error e
         then io_then (case Some ev of None \<Rightarrow> io_return () | Some ev \<Rightarrow> record_failure ev (error_code e)) (io_raise e)
         else io_raise e) Q (failed_at l0 ev)"
    by (cases e) (simp_all add: Let_def raise other)
qed

lemma open_parent_phase:
  "ltriple (at_phase l0 ev Ph_prepared) (open_secure_parent_directory g p create)
     (\<lambda>_. at_phase l0 ev Ph_prepared) (\<lambda>_. open_at l0 ev)"
proof -
  have "ltriple (at_phase l0 ev Ph_prepared) (descend create d parts) (\<lambda>_. at_phase l0 ev Ph_prepared) (\<lambda>_. open_at l0 ev)" for d parts
    by (rule ltriple_conseq [OF descend_phase]) (auto intro: prepared_open)
  note below = this
  show ?thesis
  proof (cases "path_relative_to p (rg_path g)")
    case None
    then show ?thesis
      unfolding open_secure_parent_directory_def by (auto intro: ltriple_raise prepared_open)
  next
    case (Some parts)
    show ?thesis
      unfolding open_secure_parent_directory_def Some option.case
      by (rule prepared_bind, intro looks_intros, rule ltriple_bind, rule below, rule prepared_bind, intro looks_intros,
          rule ltriple_return, assumption)
  qed
qed

lemma publish_placement_phase:
  fixes ev
  assumes "ev = publish_event plan mode target fp"
  shows "ltriple (\<lambda>l. l = l0) (publish_placement plan mode style s target g fp)
    (\<lambda>r l. at_phase l0 ev Ph_done l \<and> created_result ev r) (failed_at l0 ev)"
proof -
  have ev: "je_mode ev = mode" "path_name (je_target ev) = path_name target" "je_stage ev = ''prepared''" "je_failure ev = None"
    by (simp_all add: assms publish_event_def)
  have start: "ltriple (\<lambda>l. l = l0) (record_journal ev) (\<lambda>_. at_phase l0 ev Ph_prepared) (failed_at l0 ev)"
    by (rule ltriple_journal) (auto simp: failed_at_def intro!: at_phase_start exI [where x = Ph_prepared])
  have publish: "ltriple (at_phase l0 ev Ph_prepared)
      (categorised mode (Some ev) (io_bind (open_secure_parent_directory g (path_parent target) True)
        (publish_in_parent mode style s target fp))) (\<lambda>_ l. \<exists>d. published_at l0 ev d l) (failed_at l0 ev)"
    by (rule categorised_phase, rule ltriple_bind, rule open_parent_phase,
        rule ltriple_conseq [OF publish_in_parent_phase [OF ev(1,2)]]) blast+
  have finish: "ltriple (\<lambda>l. \<exists>d. published_at l0 ev d l)
      (record_journal (ev\<lparr>je_stage := ''published'', je_target_fingerprint := tfp\<rparr>))
      (\<lambda>_. at_phase l0 ev Ph_done) (failed_at l0 ev)" for tfp
    by (rule ltriple_journal) (auto simp: failed_at_def ev intro!: told_published exI [where x = Ph_done])
  have result: "created_result ev (plan_result plan R_created (Some target) mode Managed style fp tfp)" for tfp
    by (simp add: created_result_def plan_result_def assms publish_event_def)
  show ?thesis
    unfolding publish_placement_def Let_def assms [symmetric]
    by (rule ltriple_then, rule start, rule ltriple_bind, rule publish, rule ltriple_then, rule finish, rule ltriple_return)
      (simp add: result)
qed

lemma failed_log:
  "failed_at l0 ev e l \<Longrightarrow> je_stage ev = ''prepared'' \<Longrightarrow> \<exists>hs. l = l0 @ hs \<and> publication_log (Inl e) hs"
  by (force simp: failed_at_def at_phase_def publication_log_def)

lemma done_log:
  "at_phase l0 ev Ph_done l \<Longrightarrow> created_result ev r \<Longrightarrow> je_stage ev = ''prepared'' \<Longrightarrow>
   \<exists>hs. l = l0 @ hs \<and> publication_log (Inr r) hs"
  by (force simp: at_phase_def publication_log_def)

definition execution_log :: "happening list \<Rightarrow> (exn, placement_result) result \<Rightarrow> happening list \<Rightarrow> bool" where
  "execution_log l0 r l \<longleftrightarrow> (\<exists>hs. l = l0 @ hs \<and> publication_log r hs)"

lemma publish_placement_log:
  "ltriple (\<lambda>l. l = l0) (publish_placement plan mode style s target g fp)
    (\<lambda>r. execution_log l0 (Inr r)) (\<lambda>e. execution_log l0 (Inl e))"
  by (rule ltriple_conseq [OF publish_placement_phase [OF refl]])
    (auto simp: execution_log_def publish_event_def intro!: failed_log done_log)

lemma nothing_failed: "execution_log l (Inl e) l"
  by (simp add: execution_log_def publication_log_def)

lemma quiet_bind:
  "looks_only m \<Longrightarrow> (\<And>x. ltriple (\<lambda>l. l = l0) (f x) Q (\<lambda>e. execution_log l0 (Inl e))) \<Longrightarrow>
   ltriple (\<lambda>l. l = l0) (io_bind m f) Q (\<lambda>e. execution_log l0 (Inl e))"
  by (rule ltriple_look_bind) (auto intro: nothing_failed)

lemma quiet_then:
  "looks_only m \<Longrightarrow> ltriple (\<lambda>l. l = l0) k Q (\<lambda>e. execution_log l0 (Inl e)) \<Longrightarrow>
   ltriple (\<lambda>l. l = l0) (io_then m k) Q (\<lambda>e. execution_log l0 (Inl e))"
  unfolding io_then_def by (rule quiet_bind)

lemma quiet_raise: "ltriple (\<lambda>l. l = l0) (io_raise e) Q (\<lambda>e. execution_log l0 (Inl e))"
  by (rule ltriple_raise) (auto intro: nothing_failed)

lemma resolve_existing_log:
  "ltriple (\<lambda>l. l = l0) (resolve_existing_target pl m st s fp t ex)
    (\<lambda>r l. l = l0 \<and> (case r of None \<Rightarrow> True | Some x \<Rightarrow> pr_state x \<noteq> R_created)) (\<lambda>e. execution_log l0 (Inl e))"
proof -
  have managed: "ltriple (\<lambda>l. l = l0) (resolve_managed_target pl m st s fp t tfp ev)
    (\<lambda>r l. l = l0 \<and> (case r of None \<Rightarrow> True | Some x \<Rightarrow> pr_state x \<noteq> R_created)) (\<lambda>e. execution_log l0 (Inl e))" for tfp ev
    unfolding resolve_managed_target_def
    by (intro quiet_bind quiet_then looks_intros ltriple_return) (simp add: plan_result_def)
  have foreign: "ltriple (\<lambda>l. l = l0) (resolve_foreign_target pl s fp t tfp)
    (\<lambda>r l. l = l0 \<and> (case r of None \<Rightarrow> True | Some x \<Rightarrow> pr_state x \<noteq> R_created)) (\<lambda>e. execution_log l0 (Inl e))" for tfp
    unfolding resolve_foreign_target_def
    by (intro quiet_bind looks_intros) (auto intro!: ltriple_return quiet_raise simp: plan_result_def)
  show ?thesis
    unfolding resolve_existing_target_def
    by (rule quiet_bind, intro looks_intros, rule quiet_then, intro looks_intros, rule quiet_bind, intro looks_intros)
      (auto intro!: ltriple_return quiet_bind looks_intros managed foreign split: option.split)
qed

lemma execute_free_log:
  "ltriple (\<lambda>l. l = l0 \<and> (case found of None \<Rightarrow> True | Some x \<Rightarrow> pr_state x \<noteq> R_created))
     (execute_free plan existing mode style pv source guard fp target found)
     (\<lambda>r. execution_log l0 (Inr r)) (\<lambda>e. execution_log l0 (Inl e))"
proof (cases found)
  case None
  have "ltriple (\<lambda>l. l = l0) (io_then (case existing of None \<Rightarrow> io_return () | Some ev \<Rightarrow> io_of_result (validate_managed_evidence ev plan mode style target fp))
      (publish_placement plan mode style source target guard fp))
    (\<lambda>r. execution_log l0 (Inr r)) (\<lambda>e. execution_log l0 (Inl e))"
    by (rule quiet_then, intro looks_intros, rule publish_placement_log)
  then show ?thesis
    using None by (auto simp: execute_free_def raise_from_preview_def intro!: quiet_then looks_intros quiet_raise)
next
  case (Some r)
  then show ?thesis
    by (auto simp: execute_free_def execution_log_def publication_log_def intro!: ltriple_return)
qed

lemma execute_target_log:
  "ltriple (\<lambda>l. l = l0) (execute_target plan existing prep mode style pv target)
     (\<lambda>r. execution_log l0 (Inr r)) (\<lambda>e. execution_log l0 (Inl e))"
  unfolding execute_target_def
  by (rule quiet_bind, intro looks_intros, split prod.split, intro allI impI, rule quiet_bind, intro looks_intros,
      rule quiet_then, intro looks_intros, rule ltriple_bind, rule resolve_existing_log, rule execute_free_log)

lemma execute_log:
  "ltriple (\<lambda>l. l = l0) (execute_story_arc_placement plan existing prep)
    (\<lambda>r. execution_log l0 (Inr r)) (\<lambda>e. execution_log l0 (Inl e))"
proof -
  have reference_only: "ltriple (\<lambda>l. l = l0) (io_then (io_when c e) (io_return (plan_result plan R_reference_only t m o' st fp tfp)))
      (\<lambda>r. execution_log l0 (Inr r)) (\<lambda>e. execution_log l0 (Inl e))" for c e t m o' st fp tfp
    by (rule quiet_then, intro looks_intros)
      (auto intro!: ltriple_return simp: execution_log_def publication_log_def plan_result_def)
  show ?thesis
    unfolding execute_story_arc_placement_def
    by (rule quiet_bind, intro looks_intros, split prod.split, intro allI impI, rule quiet_then, intro looks_intros)
      (auto intro!: reference_only quiet_then looks_intros quiet_bind execute_target_log quiet_raise simp: raise_from_preview_def
        split: option.split)
qed


subsection \<open>The protocol of a removal\<close>

text \<open>What a removal of the recorded target adds to the log, with what it returns\<close>

definition removal_log :: "managed_evidence \<Rightarrow> placement_mode \<Rightarrow> (exn, removal_result) result \<Rightarrow> happening list \<Rightarrow> bool" where
  "removal_log ev mode r hs =
     (let prepared = removal_event ev mode in
      case hs of
        [] \<Rightarrow> (case r of Inl e \<Rightarrow> True | Inr x \<Rightarrow> \<not> rr_removed x)
      | [Told a] \<Rightarrow> a = prepared \<and> (case r of Inl e \<Rightarrow> uncategorised e | Inr x \<Rightarrow> False)
      | [Told a, Told b] \<Rightarrow> a = prepared \<and> b = failed_event prepared (or_else (je_failure b) []) \<and> \<not> is_ok r
      | [Told a, Did (A_unlink d n f)] \<Rightarrow>
          a = prepared \<and> n = path_name (me_path ev) \<and> (case r of Inl e \<Rightarrow> uncategorised e | Inr x \<Rightarrow> False)
      | [Told a, Did (A_unlink d n f), Told b] \<Rightarrow>
          a = prepared \<and> n = path_name (me_path ev)
          \<and> (if b = prepared\<lparr>je_stage := ''removed''\<rparr> then (case r of Inl e \<Rightarrow> True | Inr x \<Rightarrow> rr_removed x)
             else b = failed_event prepared (or_else (je_failure b) []) \<and> \<not> is_ok r)
      | _ \<Rightarrow> False)"

definition removing_log :: "managed_evidence \<Rightarrow> placement_mode \<Rightarrow> happening list \<Rightarrow> (exn, removal_result) result \<Rightarrow> happening list \<Rightarrow> bool" where
  "removing_log ev mode l0 r l \<longleftrightarrow> (\<exists>hs. l = l0 @ hs \<and> removal_log ev mode r hs)"

lemma removing_nothing: "removing_log ev mode l (Inl e) l"
  by (simp add: removing_log_def removal_log_def)

definition removal_told :: "managed_evidence \<Rightarrow> placement_mode \<Rightarrow> happening list \<Rightarrow> bool \<Rightarrow> happening list \<Rightarrow> bool" where
  "removal_told ev mode l0 unlinked l \<longleftrightarrow>
     (if unlinked then \<exists>d f. l = l0 @ [Told (removal_event ev mode), Did (A_unlink d (path_name (me_path ev)) f)]
      else l = l0 @ [Told (removal_event ev mode)])"

lemma remove_recorded_log:
  "ltriple (\<lambda>l. l = l0) (remove_recorded_target ev mode canonical parent)
    (\<lambda>_. removal_told ev mode l0 True) (\<lambda>_ l. \<exists>u. removal_told ev mode l0 u l)"
proof -
  let ?X = "\<lambda>_ l. \<exists>u. removal_told ev mode l0 u l"
  have start: "ltriple (\<lambda>l. l = l0) (record_journal (removal_event ev mode)) (\<lambda>_. removal_told ev mode l0 False) ?X"
    by (rule ltriple_journal) (auto simp: removal_told_def)
  have unlink: "ltriple (removal_told ev mode l0 False) (io_unlink d (path_name (me_path ev))) (\<lambda>_. removal_told ev mode l0 True) ?X" for d
    unfolding io_unlink_def by (rule ltriple_change) (auto simp: removal_told_def)
  have look: "looks_only m \<Longrightarrow> ltriple (removal_told ev mode l0 False) k Q ?X \<Longrightarrow>
      ltriple (removal_told ev mode l0 False) (io_then m k) Q ?X" for m :: "unit io" and k :: "unit io" and Q
    by (rule ltriple_look_then) auto
  have look_bind: "looks_only m \<Longrightarrow> (\<And>x. ltriple (removal_told ev mode l0 False) (f x) Q ?X) \<Longrightarrow>
      ltriple (removal_told ev mode l0 False) (io_bind m f) Q ?X" for m :: "bool io" and f :: "bool \<Rightarrow> unit io" and Q
    by (rule ltriple_look_bind) auto
  have after: "ltriple (removal_told ev mode l0 True) (io_then (fsync_directory d) (assert_parent_path_stable p))
      (\<lambda>_. removal_told ev mode l0 True) ?X" for d p
    by (rule ltriple_conseq [OF ltriple_looks [where P = "removal_told ev mode l0 True"]], intro looks_intros) auto
  show ?thesis
    unfolding remove_recorded_target_def
    by (rule ltriple_then, rule start, rule look, intro looks_intros, rule look_bind, intro looks_intros, rule look_bind, intro looks_intros,
        rule look, intro looks_intros, rule ltriple_then, rule unlink, rule after)
qed

lemma told_failure:
  "ltriple (\<lambda>l. \<exists>u. removal_told ev mode l0 u l) (io_then (record_failure (removal_event ev mode) c) (io_raise e)) Q
    (\<lambda>e. removing_log ev mode l0 (Inl e))"
proof -
  have told: "\<exists>u. removal_told ev mode l0 u l \<Longrightarrow>
      \<forall>e. removing_log ev mode l0 (Inl e) (l @ [Told (failed_event (removal_event ev mode) c)])" for l
    by (auto simp: removal_told_def removing_log_def removal_log_def failed_event_def is_ok_def Let_def removal_event_def split: if_splits)
  have "ltriple (\<lambda>l. \<exists>u. removal_told ev mode l0 u l) (record_failure (removal_event ev mode) c)
      (\<lambda>_ l. \<forall>e. removing_log ev mode l0 (Inl e) l) (\<lambda>_ l. \<forall>e. removing_log ev mode l0 (Inl e) l)"
    unfolding record_failure_def
    by (rule ltriple_catch, rule ltriple_journal [where X = "\<lambda>_ l. \<forall>e. removing_log ev mode l0 (Inl e) l"])
      (auto intro!: ltriple_return told)
  note failure = this
  show ?thesis
    by (rule ltriple_then [where S = "\<lambda>l. \<forall>e. removing_log ev mode l0 (Inl e) l"], rule ltriple_conseq [OF failure])
      (auto intro: ltriple_raise)
qed

lemma remove_categorised_log:
  "ltriple (\<lambda>l. l = l0) (categorised mode (Some (removal_event ev mode)) (remove_recorded_target ev mode canonical parent))
    (\<lambda>_. removal_told ev mode l0 True) (\<lambda>e. removing_log ev mode l0 (Inl e))"
  unfolding categorised_def
proof (rule ltriple_catch [OF remove_recorded_log])
  have other: "ltriple (\<lambda>l. \<exists>u. removal_told ev mode l0 u l) (io_raise e) Q (\<lambda>e. removing_log ev mode l0 (Inl e))"
    if "uncategorised e" for e and Q
    using that
    by (intro ltriple_raise) (auto simp: removal_told_def removing_log_def removal_log_def Let_def split: if_splits)
  fix e
  show "ltriple (\<lambda>l. \<exists>u. removal_told ev mode l0 u l)
    (case e of
       OS_error x \<Rightarrow> (let err = categorized_os_error mode x
         in io_then (case Some (removal_event ev mode) of None \<Rightarrow> io_return () | Some ev \<Rightarrow> record_failure ev (error_code err)) (io_raise err))
     | _ \<Rightarrow> if is_placement_error e
         then io_then (case Some (removal_event ev mode) of None \<Rightarrow> io_return () | Some ev \<Rightarrow> record_failure ev (error_code e)) (io_raise e)
         else io_raise e) (\<lambda>_. removal_told ev mode l0 True) (\<lambda>e. removing_log ev mode l0 (Inl e))"
    by (cases e) (simp_all add: Let_def told_failure other)
qed

lemma categorised_looks:
  "looks_only m \<Longrightarrow> looks_only (categorised mode None m)"
  unfolding categorised_def Let_def
  by (rule looks.keeps_catch) (auto split: exn.split intro!: looks_intros)

lemma looks_find_recorded [looks_intros]: "looks_only (find_recorded_target ev mode g c)"
  unfolding find_recorded_target_def by (intro looks_intros)

lemma remove_log:
  assumes owned: "require_managed_ownership ev = Inr (mode, own, style)"
  shows "ltriple (\<lambda>l. l = l0) (remove_managed_story_arc_placement ev dest canonical)
    (\<lambda>r. removing_log ev mode l0 (Inr r)) (\<lambda>e. removing_log ev mode l0 (Inl e))"
proof -
  let ?X = "\<lambda>e. removing_log ev mode l0 (Inl e)"
  have bind: "looks_only m \<Longrightarrow> (\<And>x. ltriple (\<lambda>l. l = l0) (f x) Q ?X) \<Longrightarrow> ltriple (\<lambda>l. l = l0) (io_bind m f) Q ?X"
    for m :: "root_guard io" and f :: "root_guard \<Rightarrow> removal_result io" and Q
    by (rule ltriple_look_bind) (auto intro: removing_nothing)
  have bind2: "looks_only m \<Longrightarrow> (\<And>x. ltriple (\<lambda>l. l = l0) (f x) Q ?X) \<Longrightarrow> ltriple (\<lambda>l. l = l0) (io_bind m f) Q ?X"
    for m :: "secure_parent option io" and f :: "secure_parent option \<Rightarrow> removal_result io" and Q
    by (rule ltriple_look_bind) (auto intro: removing_nothing)
  have seq: "looks_only m \<Longrightarrow> ltriple (\<lambda>l. l = l0) k Q ?X \<Longrightarrow> ltriple (\<lambda>l. l = l0) (io_then m k) Q ?X"
    for m :: "unit io" and k :: "removal_result io" and Q
    by (rule ltriple_look_then) (auto intro: removing_nothing)
  have finish: "ltriple (removal_told ev mode l0 True) (io_then (record_journal ((removal_event ev mode)\<lparr>je_stage := ''removed''\<rparr>))
      (io_return \<lparr>rr_path = p, rr_removed = True\<rparr>)) (\<lambda>r. removing_log ev mode l0 (Inr r)) ?X" for p
    by (rule ltriple_then, rule ltriple_journal [where Q = "\<lambda>_ l. \<forall>r. rr_removed r \<longrightarrow> removing_log ev mode l0 (Inr r) l" and X = ?X])
      (auto simp: removal_told_def removing_log_def removal_log_def Let_def intro: ltriple_return)
  have rest: "ltriple (\<lambda>l. l = l0) (case found of
        None \<Rightarrow> io_return \<lparr>rr_path = me_path ev, rr_removed = False\<rparr>
      | Some parent \<Rightarrow>
          io_then (categorised mode (Some (removal_event ev mode)) (remove_recorded_target ev mode canonical parent))
          (io_then (record_journal ((removal_event ev mode)\<lparr>je_stage := ''removed''\<rparr>))
          (io_return \<lparr>rr_path = me_path ev, rr_removed = True\<rparr>)))
      (\<lambda>r. removing_log ev mode l0 (Inr r)) ?X" for found
  proof (cases found)
    case None
    then show ?thesis by (auto intro!: ltriple_return simp: removing_log_def removal_log_def)
  next
    case (Some parent)
    show ?thesis unfolding Some option.case
      by (rule ltriple_then, rule remove_categorised_log, rule finish)
  qed
  have all: "ltriple (\<lambda>l. l = l0)
     (io_bind (validated_root (Some dest)) (\<lambda>guard.
     io_then (io_of_result (validate_target_lexically (rg_path guard) (me_path ev)))
     (io_then (case canonical of
          None \<Rightarrow> io_return ()
        | Some c \<Rightarrow> io_bind (io_resolve_lax c) (\<lambda>real. reject_canonical_destination real (me_path ev)))
     (io_bind (categorised mode None (find_recorded_target ev mode guard canonical)) (\<lambda>found.
      case found of
        None \<Rightarrow> io_return \<lparr>rr_path = me_path ev, rr_removed = False\<rparr>
      | Some parent \<Rightarrow>
          io_then (categorised mode (Some (removal_event ev mode)) (remove_recorded_target ev mode canonical parent))
          (io_then (record_journal ((removal_event ev mode)\<lparr>je_stage := ''removed''\<rparr>))
          (io_return \<lparr>rr_path = me_path ev, rr_removed = True\<rparr>)))))))
      (\<lambda>r. removing_log ev mode l0 (Inr r)) ?X"
      by (rule bind, intro looks_intros, rule seq, intro looks_intros, rule seq, intro looks_intros,
          rule bind2, intro categorised_looks looks_intros, rule rest)
  show ?thesis
    unfolding remove_managed_story_arc_placement_def owned
    using all by (simp add: ltriple_def triple_def io_bind_def [of "io_of_result (Inr (mode, own, style))"] io_of_result_def)
qed

text \<open>C3. Whatever other processes do and whichever calls fail, a removal unlinks nothing unless the evidence
  says that the placement is managed, was created by a recorded action and is no reference; then it unlinks at
  most one entry, under the recorded name, after it has told the journal. It reports a removal just when it has
  unlinked that entry and told the journal so, and a placement error after it told the journal is reported there.\<close>

theorem removal_follows_protocol:
  "\<exists>hs. w_log (snd (remove_managed_story_arc_placement ev dest canonical w)) = w_log w @ hs
     \<and> (case require_managed_ownership ev of
          Inl e \<Rightarrow> hs = [] \<and> fst (remove_managed_story_arc_placement ev dest canonical w) = Inl e
        | Inr (mode, own, style) \<Rightarrow> removal_log ev mode (fst (remove_managed_story_arc_placement ev dest canonical w)) hs)"
proof (cases "require_managed_ownership ev")
  case (Inl e)
  then show ?thesis by (simp add: remove_managed_story_arc_placement_def io_bind_def io_of_result_def)
next
  case (Inr owned)
  obtain mode own style where mos: "owned = (mode, own, style)" by (cases owned)
  show ?thesis
    using ltripleD [OF remove_log [OF Inr [unfolded mos]], of w "w_log w" dest canonical]
    by (cases "remove_managed_story_arc_placement ev dest canonical w")
      (auto simp: removing_log_def Inr mos split: sum.splits)
qed

end
