(* ===== verification/Arc_Quiet.thy ===== *)
theory Arc_Quiet
  imports Arc_Safety
begin

text \<open>
  Executions while nobody else acts, no call fails and the journal raises nothing. They may still be cancelled, the checks may
  refuse the source or the target. What a failed execution leaves
  behind and what a successful one has made is said of the file system.
\<close>

subsection \<open>File systems\<close>

definition entry :: "fs \<Rightarrow> fid \<Rightarrow> pystr \<Rightarrow> fid option" where
  "entry s d n = (case dir_entries s d of None \<Rightarrow> None | Some es \<Rightarrow> map_of es n)"

text \<open>New nodes get fresh numbers, and no entry dangles.\<close>

definition fs_ok :: "fs \<Rightarrow> bool" where
  "fs_ok s \<longleftrightarrow> list_all (\<lambda>(f, nd). fid_inode f < fs_next s \<and>
     (case nd_body nd of Directory es \<Rightarrow> list_all (\<lambda>(n, g). node_of s g \<noteq> None) es | _ \<Rightarrow> True)) (fs_nodes s)"

text \<open>A node is the same up to the time of its last change, and a directory up to its entries.\<close>

definition same_node :: "node \<Rightarrow> node \<Rightarrow> bool" where
  "same_node nd nd' \<longleftrightarrow>
     (case nd_body nd of
        Directory es \<Rightarrow> (case nd_body nd' of Directory es' \<Rightarrow> True | _ \<Rightarrow> False)
      | _ \<Rightarrow> nd\<lparr>nd_ctime := 0\<rparr> = nd'\<lparr>nd_ctime := 0\<rparr>)"

text \<open>From \<open>s0\<close> to \<open>s\<close> nothing was lost or changed, and what was added are directories and the
  entries in \<open>X\<close>.\<close>

definition only_added :: "(fid \<times> pystr) set \<Rightarrow> fs \<Rightarrow> fs \<Rightarrow> bool" where
  "only_added X s0 s \<longleftrightarrow>
     fs_root s = fs_root s0 \<and> fs_cwd s = fs_cwd s0 \<and> fs_next s0 \<le> fs_next s
     \<and> (\<forall>f nd. node_of s f = Some nd \<longrightarrow> fid_inode f < fs_next s)
     \<and> (\<forall>f nd. node_of s0 f = Some nd \<longrightarrow> (\<exists>nd'. node_of s f = Some nd' \<and> same_node nd nd'))
     \<and> (\<forall>d n f. entry s0 d n = Some f \<longrightarrow> entry s d n = Some f)
     \<and> (\<forall>d n f. entry s d n = Some f \<longrightarrow> entry s0 d n = Some f \<or> dir_entries s f \<noteq> None \<or> (d, n) \<in> X)"

lemma node_put [simp]: "node_of (put_node f nd s) g = (if g = f then Some nd else node_of s g)"
  by (simp add: node_of_def put_node_def update_conv')

lemma put_node_fields [simp]:
  "fs_root (put_node f nd s) = fs_root s" "fs_cwd (put_node f nd s) = fs_cwd s" "fs_next (put_node f nd s) = fs_next s"
  "fs_clock (put_node f nd s) = fs_clock s"
  by (simp_all add: put_node_def)

lemma node_of_next [simp]: "node_of (s\<lparr>fs_next := k\<rparr>) f = node_of s f"
  by (simp add: node_of_def)

lemma dir_entries_node: "dir_entries s d = (case node_of s d of
     Some n \<Rightarrow> (case nd_body n of Directory es \<Rightarrow> Some es | _ \<Rightarrow> None) | None \<Rightarrow> None)"
  by (rule dir_entries_def)

lemma dir_entries_Some: "dir_entries s d = Some es \<longleftrightarrow> (\<exists>nd. node_of s d = Some nd \<and> nd_body nd = Directory es)"
  by (auto simp: dir_entries_def split: option.splits node_body.splits)

lemma node_put_entry:
  "node_of s d = Some nd \<Longrightarrow> nd_body nd = Directory es \<Longrightarrow>
   put_entry d n f s = put_node d (nd\<lparr>nd_body := Directory (es @ [(n, f)])\<rparr>) s"
  by (simp add: put_entry_def)

lemma node_drop_entry:
  "node_of s d = Some nd \<Longrightarrow> nd_body nd = Directory es \<Longrightarrow>
   drop_entry d n s = put_node d (nd\<lparr>nd_body := Directory (AList.delete n es)\<rparr>) s"
  by (simp add: drop_entry_def)

lemma same_node_refl: "same_node nd nd"
  by (simp add: same_node_def split: node_body.split)

lemma same_node_entries: "nd_body nd = Directory es \<Longrightarrow> same_node nd (nd\<lparr>nd_body := Directory es'\<rparr>)"
  by (simp add: same_node_def)

lemma same_node_ctime: "same_node nd (nd\<lparr>nd_ctime := c\<rparr>)"
  by (cases nd) (simp add: same_node_def split: node_body.split)

lemma same_node_trans: "same_node a b \<Longrightarrow> same_node b c \<Longrightarrow> same_node a c"
  by (cases a; cases b; cases c) (auto simp: same_node_def split: node_body.splits)

lemma same_node_regular:
  assumes "same_node nd nd'" and "\<And>es. nd_body nd \<noteq> Directory es"
  shows "nd_body nd' = nd_body nd \<and> nd_mode nd' = nd_mode nd \<and> nd_atime nd' = nd_atime nd \<and> nd_mtime nd' = nd_mtime nd"
  using assms by (cases nd; cases nd') (auto simp: same_node_def split: node_body.splits)

text \<open>Adding an entry, changing a node in place, and dropping an added entry\<close>

lemma only_addedD:
  assumes "only_added X s0 s"
  shows "fs_root s = fs_root s0" "fs_cwd s = fs_cwd s0" "fs_next s0 \<le> fs_next s"
    "node_of s f = Some nd \<Longrightarrow> fid_inode f < fs_next s"
    "node_of s0 f = Some nd \<Longrightarrow> \<exists>nd'. node_of s f = Some nd' \<and> same_node nd nd'"
    "entry s0 d n = Some f \<Longrightarrow> entry s d n = Some f"
    "entry s d n = Some f \<Longrightarrow> entry s0 d n = Some f \<or> dir_entries s f \<noteq> None \<or> (d, n) \<in> X"
  using assms unfolding only_added_def by blast+

lemma only_added_refl: "fs_ok s \<Longrightarrow> only_added {} s s"
  by (auto simp: only_added_def fs_ok_def list_all_iff node_of_def dest!: map_of_SomeD intro: same_node_refl)

text \<open>A step that gives the directory \<open>d\<close> new entries \<open>es\<close> and may change the nodes in \<open>F\<close> in a way
  \<open>same_node\<close> allows, or nodes that are not in \<open>s0\<close> at all\<close>

lemma only_added_step:
  assumes base: "only_added X s0 s"
    and fields: "fs_root t = fs_root s" "fs_cwd t = fs_cwd s" "fs_next s \<le> fs_next t"
    and fresh: "\<And>f nd. node_of t f = Some nd \<Longrightarrow> fid_inode f < fs_next t"
    and nodes: "\<And>f nd. node_of s f = Some nd \<Longrightarrow> \<exists>nd'. node_of t f = Some nd' \<and> (same_node nd nd' \<or> node_of s0 f = None)"
    and keep: "\<And>d n f. entry s0 d n = Some f \<Longrightarrow> entry s d n = Some f \<Longrightarrow> entry t d n = Some f"
    and dirs: "\<And>f. dir_entries s f \<noteq> None \<Longrightarrow> dir_entries t f \<noteq> None"
    and new: "\<And>d n f. entry t d n = Some f \<Longrightarrow> entry s d n = Some f \<and> ((d, n) \<in> X \<longrightarrow> (d, n) \<in> Y) \<or> dir_entries t f \<noteq> None
      \<or> (d, n) \<in> Y \<or> entry s0 d n = Some f"
  shows "only_added Y s0 t"
  unfolding only_added_def
proof (intro conjI allI impI)
  note d = only_addedD [OF base]
  show "fs_root t = fs_root s0" "fs_cwd t = fs_cwd s0" "fs_next s0 \<le> fs_next t" using fields d by auto
  show "fid_inode f < fs_next t" if "node_of t f = Some nd" for f nd using that by (rule fresh)
  show "\<exists>nd'. node_of t f = Some nd' \<and> same_node nd nd'" if "node_of s0 f = Some nd" for f nd
    using d(5) [OF that] nodes that by (metis option.distinct(1) same_node_trans)
  show "entry t d n = Some f" if "entry s0 d n = Some f" for d n f using keep [OF that d(6) [OF that]] .
  show "entry s0 d n = Some f \<or> dir_entries t f \<noteq> None \<or> (d, n) \<in> Y" if "entry t d n = Some f" for d n f
    using new [OF that] d(7) dirs by metis
qed

subsection \<open>The effect of the calls\<close>

definition numbered :: "fs \<Rightarrow> bool" where
  "numbered s \<longleftrightarrow> (\<forall>f nd. node_of s f = Some nd \<longrightarrow> fid_inode f < fs_next s)"

lemma only_added_numbered: "only_added X s0 s \<Longrightarrow> numbered s"
  by (simp add: only_added_def numbered_def)

lemma touch_node_Some: "node_of s f = Some nd \<Longrightarrow> touch_node f g s = put_node f ((g nd)\<lparr>nd_ctime := fs_clock s\<rparr>) s"
  by (simp add: touch_node_def)

text \<open>A new entry \<open>n\<close> in the directory \<open>d\<close>\<close>

lemma create_at_effect:
  assumes "create_at body m d n s = (Inr f, t)" and "numbered s"
  obtains dn es where "node_of s d = Some dn" "nd_body dn = Directory es" "map_of es n = None" "node_of s f = None" "f \<noteq> d"
    "fs_root t = fs_root s" "fs_cwd t = fs_cwd s" "fs_next t = fs_next s + 1" "fid_inode f = fs_next s"
    "\<And>g. node_of t g = (if g = d then Some (dn\<lparr>nd_body := Directory (es @ [(n, f)])\<rparr>)
       else if g = f then Some \<lparr>nd_body = body, nd_mode = m, nd_atime = fs_clock s, nd_mtime = fs_clock s, nd_ctime = fs_clock s\<rparr>
       else node_of s g)"
proof -
  from assms(1) obtain es where es: "dir_entries s d = Some es" and free: "map_of es n = None" and f: "f = Fid (fid_device d) (fs_next s)"
    by (auto simp: create_at_def Let_def split: option.splits if_splits)
  from es obtain dn where dn: "node_of s d = Some dn" "nd_body dn = Directory es" by (auto simp: dir_entries_Some)
  have new: "node_of s f = None" using assms(2) f by (cases "node_of s f") (auto simp: numbered_def)
  with dn have ne: "f \<noteq> d" by auto
  let ?nd = "\<lparr>nd_body = body, nd_mode = m, nd_atime = fs_clock s, nd_mtime = fs_clock s, nd_ctime = fs_clock s\<rparr>"
  from assms(1) es free have t: "t = put_entry d n f (put_node f ?nd (s\<lparr>fs_next := fs_next s + 1\<rparr>))"
    by (simp add: create_at_def f Let_def)
  have "node_of (put_node f ?nd (s\<lparr>fs_next := fs_next s + 1\<rparr>)) d = Some dn" using dn ne by auto
  then have t': "t = put_node d (dn\<lparr>nd_body := Directory (es @ [(n, f)])\<rparr>) (put_node f ?nd (s\<lparr>fs_next := fs_next s + 1\<rparr>))"
    unfolding t by (rule node_put_entry) (rule dn(2))
  show thesis
    by (rule that [OF dn free new ne]) (auto simp: t' f)
qed

lemma link_node_effect:
  assumes "link_node (f, nd) d n s = (Inr g, t)" and "node_of s f = Some nd"
  obtains dn es where "node_of s d = Some dn" "nd_body dn = Directory es" "map_of es n = None" "g = f" "f \<noteq> d"
    "\<And>es'. nd_body nd \<noteq> Directory es'" "fs_root t = fs_root s" "fs_cwd t = fs_cwd s" "fs_next t = fs_next s"
    "\<And>g. node_of t g = (if g = d then Some (dn\<lparr>nd_body := Directory (es @ [(n, f)])\<rparr>)
       else if g = f then Some (nd\<lparr>nd_ctime := fs_clock s\<rparr>) else node_of s g)"
proof -
  from assms(1) obtain es where es: "dir_entries s d = Some es" and free: "map_of es n = None" and g: "g = f"
    and nodir: "\<And>es'. nd_body nd \<noteq> Directory es'" and t: "t = put_entry d n f (touch_node f (\<lambda>x. x) s)"
    by (auto simp: link_node_def split: option.splits if_splits node_body.splits)
  from es obtain dn where dn: "node_of s d = Some dn" "nd_body dn = Directory es" by (auto simp: dir_entries_Some)
  with nodir assms(2) have ne: "f \<noteq> d" by auto
  have "node_of (touch_node f (\<lambda>x. x) s) d = Some dn" using dn ne assms(2) by (auto simp: touch_node_Some)
  then have t': "t = put_node d (dn\<lparr>nd_body := Directory (es @ [(n, f)])\<rparr>) (put_node f (nd\<lparr>nd_ctime := fs_clock s\<rparr>) s)"
    unfolding t using node_put_entry [OF _ dn(2)] assms(2) by (simp add: touch_node_Some)
  show thesis
    by (rule that [OF dn free g ne nodir]) (auto simp: t')
qed

lemma find_in_Inr: "find_in s d n = Inr (f, nd) \<longleftrightarrow>
  (\<exists>dn es. node_of s d = Some dn \<and> nd_body dn = Directory es \<and> map_of es n = Some f \<and> node_of s f = Some nd)"
  by (auto simp: find_in_def dir_entries_def split: option.splits node_body.splits)

lemma entry_Some: "entry s d n = Some f \<longleftrightarrow> (\<exists>dn es. node_of s d = Some dn \<and> nd_body dn = Directory es \<and> map_of es n = Some f)"
  by (auto simp: entry_def dir_entries_def split: option.splits node_body.splits)

lemma find_in_entry: "find_in s d n = Inr (f, nd) \<longleftrightarrow> entry s d n = Some f \<and> node_of s f = Some nd"
  by (auto simp: find_in_Inr entry_Some)

lemma unlink_effect:
  assumes "find_in s d n = Inr (f, nd)" and nodir: "\<And>es. nd_body nd \<noteq> Directory es"
  obtains dn es t where "sys_unlink_at d n s = (Inr f, t)" "node_of s d = Some dn" "nd_body dn = Directory es" "f \<noteq> d"
    "fs_root t = fs_root s" "fs_cwd t = fs_cwd s" "fs_next t = fs_next s"
    "\<And>g. node_of t g = (if g = d then Some (dn\<lparr>nd_body := Directory (AList.delete n es)\<rparr>)
       else if g = f then Some (nd\<lparr>nd_ctime := fs_clock s\<rparr>) else node_of s g)"
proof -
  from assms(1) obtain dn es where dn: "node_of s d = Some dn" "nd_body dn = Directory es" "node_of s f = Some nd"
    by (auto simp: find_in_Inr)
  then have ne: "f \<noteq> d" using nodir [of es] by auto
  let ?t = "put_node f (nd\<lparr>nd_ctime := fs_clock s\<rparr>) (put_node d (dn\<lparr>nd_body := Directory (AList.delete n es)\<rparr>) s)"
  have un: "sys_unlink_at d n s = (Inr f, touch_node f (\<lambda>x. x) (drop_entry d n s))"
    using assms(1) nodir by (auto simp: sys_unlink_at_def split: node_body.split)
  have "touch_node f (\<lambda>x. x) (drop_entry d n s) = ?t"
    using dn ne by (simp add: node_drop_entry touch_node_Some)
  with un have run: "sys_unlink_at d n s = (Inr f, ?t)" by simp
  show thesis by (rule that [OF run dn(1,2) ne]) (use ne in auto)
qed

text \<open>What that means for \<open>only_added\<close>\<close>

lemma entry_node: "entry s d n = (case node_of s d of
    Some nd \<Rightarrow> (case nd_body nd of Directory es \<Rightarrow> map_of es n | _ \<Rightarrow> None) | None \<Rightarrow> None)"
  by (simp add: entry_def dir_entries_def split: option.split node_body.split)

lemma only_added_create:
  assumes base: "only_added X s0 s" and run: "create_at body m d n s = (Inr f, t)"
    and body: "\<And>es. body = Directory es \<Longrightarrow> es = []"
  shows "only_added (case body of Directory es \<Rightarrow> X | _ \<Rightarrow> insert (d, n) X) s0 t" and "entry s0 d n = None"
    and "entry t d n = Some f" and "node_of s0 f = None"
    and "\<exists>nd. node_of t f = Some nd \<and> nd_body nd = body"
proof -
  from create_at_effect [OF run only_added_numbered [OF base]] obtain dn es where
    e: "node_of s d = Some dn" "nd_body dn = Directory es" "map_of es n = None" "node_of s f = None" "f \<noteq> d"
    "fs_root t = fs_root s" "fs_cwd t = fs_cwd s" "fs_next t = fs_next s + 1" "fid_inode f = fs_next s"
    and nt: "\<And>g. node_of t g = (if g = d then Some (dn\<lparr>nd_body := Directory (es @ [(n, f)])\<rparr>)
       else if g = f then Some \<lparr>nd_body = body, nd_mode = m, nd_atime = fs_clock s, nd_mtime = fs_clock s, nd_ctime = fs_clock s\<rparr>
       else node_of s g)" by metis
  note D = only_addedD [OF base]
  have free: "entry s d n = None" using e by (simp add: entry_node)
  show "entry s0 d n = None" using D(6) [of d n] free by (cases "entry s0 d n") auto
  show "entry t d n = Some f" using e nt by (simp add: entry_node map_add_def)
  show "node_of s0 f = None" using D(5) [of f] e(4) by (cases "node_of s0 f") auto
  show "\<exists>nd. node_of t f = Some nd \<and> nd_body nd = body" using nt e by simp
  have ent: "entry t g k = (if g = d then (if k = n then Some f else map_of es k)
      else if g = f then None else entry s g k)" for g k
    using nt e body by (auto simp: entry_node map_add_def split: node_body.split option.split)
  have here: "entry s d k = map_of es k" for k using e by (simp add: entry_node)
  have gone: "entry s f k = None" for k using e by (simp add: entry_node)
  show "only_added (case body of Directory es \<Rightarrow> X | _ \<Rightarrow> insert (d, n) X) s0 t"
  proof (rule only_added_step [OF base])
    show "fs_root t = fs_root s" "fs_cwd t = fs_cwd s" "fs_next s \<le> fs_next t" using e by auto
    show "fid_inode g < fs_next t" if "node_of t g = Some nd" for g nd
      using that nt [of g] e D(4) [of g] D(4) [of d dn] by (auto split: if_splits)
    show "\<exists>nd'. node_of t g = Some nd' \<and> (same_node nd nd' \<or> node_of s0 g = None)" if "node_of s g = Some nd" for g nd
      using that nt [of g] e same_node_refl [of nd] same_node_entries [of dn es] by auto
    show "entry t g k = Some h" if "entry s0 g k = Some h" "entry s g k = Some h" for g k h
      using that ent [of g k] here [of k] gone [of k] e(3) by (auto split: if_splits)
    show "dir_entries t g \<noteq> None" if "dir_entries s g \<noteq> None" for g
      using that nt [of g] e by (auto simp: dir_entries_node split: if_splits)
    show "entry s g k = Some h \<and> ((g, k) \<in> X \<longrightarrow> (g, k) \<in> (case body of Directory es \<Rightarrow> X | _ \<Rightarrow> insert (d, n) X))
        \<or> dir_entries t h \<noteq> None \<or> (g, k) \<in> (case body of Directory es \<Rightarrow> X | _ \<Rightarrow> insert (d, n) X) \<or> entry s0 g k = Some h"
      if "entry t g k = Some h" for g k h
      using that ent [of g k] here [of k] nt [of f] e body
      by (auto simp: dir_entries_node split: if_splits node_body.splits)
  qed
qed

lemma only_added_link:
  assumes base: "only_added X s0 s" and run: "link_node (f, nd) d n s = (Inr g, t)" and f: "node_of s f = Some nd"
  shows "only_added (insert (d, n) X) s0 t" and "entry s0 d n = None" and "entry t d n = Some f" and "entry s d n = None"
    and "node_of t f = Some (nd\<lparr>nd_ctime := fs_clock s\<rparr>)" and "g = f"
    and "entry s e k = Some h \<Longrightarrow> entry t e k = Some h"
proof -
  from link_node_effect [OF run f] obtain dn es where
    e: "node_of s d = Some dn" "nd_body dn = Directory es" "map_of es n = None" "g = f" "f \<noteq> d"
    "fs_root t = fs_root s" "fs_cwd t = fs_cwd s" "fs_next t = fs_next s" and nodir: "\<And>es'. nd_body nd \<noteq> Directory es'"
    and nt: "\<And>g. node_of t g = (if g = d then Some (dn\<lparr>nd_body := Directory (es @ [(n, f)])\<rparr>)
       else if g = f then Some (nd\<lparr>nd_ctime := fs_clock s\<rparr>) else node_of s g)" by metis
  note D = only_addedD [OF base]
  show free: "entry s d n = None" using e by (simp add: entry_node)
  show "entry s0 d n = None" using D(6) [of d n] free by (cases "entry s0 d n") auto
  show "entry t d n = Some f" using e nt by (simp add: entry_node map_add_def)
  show "node_of t f = Some (nd\<lparr>nd_ctime := fs_clock s\<rparr>)" and "g = f" using e nt by simp_all
  have ent: "entry t g k = (if g = d \<and> k = n then Some f else entry s g k)" for g k
    using nt e f nodir by (auto simp: entry_node map_add_def split: node_body.split option.split)
  show "entry s e k = Some h \<Longrightarrow> entry t e k = Some h" using ent [of e k] free by auto
  show "only_added (insert (d, n) X) s0 t"
  proof (rule only_added_step [OF base])
    show "fs_root t = fs_root s" "fs_cwd t = fs_cwd s" "fs_next s \<le> fs_next t" using e by auto
    show "fid_inode g < fs_next t" if "node_of t g = Some nd" for g nd
      using that nt [of g] e f D(4) [of g] by (auto split: if_splits)
    show "\<exists>nd'. node_of t g = Some nd' \<and> (same_node md nd' \<or> node_of s0 g = None)" if "node_of s g = Some md" for g md
      using that nt [of g] e f same_node_refl [of md] same_node_entries [of dn es] same_node_ctime [of nd] by auto
    show "entry t g k = Some h" if "entry s0 g k = Some h" "entry s g k = Some h" for g k h
      using that ent [of g k] free by auto
    show "dir_entries t g \<noteq> None" if "dir_entries s g \<noteq> None" for g
      using that nt [of g] e f nodir by (auto simp: dir_entries_node split: if_splits node_body.splits)
    show "entry s g k = Some h \<and> ((g, k) \<in> X \<longrightarrow> (g, k) \<in> insert (d, n) X)
        \<or> dir_entries t h \<noteq> None \<or> (g, k) \<in> insert (d, n) X \<or> entry s0 g k = Some h"
      if "entry t g k = Some h" for g k h
      using that ent [of g k] by (auto split: if_splits)
  qed
qed

text \<open>Changing a new node in place\<close>

lemma only_added_put:
  assumes base: "only_added X s0 s" and new: "node_of s0 f = None" and f: "node_of s f = Some nd"
    and nodir: "\<And>es. nd_body nd \<noteq> Directory es" "\<And>es. nd_body nd' \<noteq> Directory es"
  shows "only_added X s0 (put_node f nd' s)" and "entry (put_node f nd' s) d n = entry s d n"
proof -
  note D = only_addedD [OF base]
  have ent: "entry (put_node f nd' s) g k = entry s g k" for g k
    using f nodir by (auto simp: entry_node split: node_body.split)
  then show "entry (put_node f nd' s) d n = entry s d n" .
  show "only_added X s0 (put_node f nd' s)"
  proof (rule only_added_step [OF base])
    show "fid_inode g < fs_next (put_node f nd' s)" if "node_of (put_node f nd' s) g = Some md" for g md
      using that f D(4) [of g] by (auto split: if_splits)
    show "\<exists>md'. node_of (put_node f nd' s) g = Some md' \<and> (same_node md md' \<or> node_of s0 g = None)" if "node_of s g = Some md" for g md
      using that new by (auto intro: same_node_refl)
    show "dir_entries (put_node f nd' s) g \<noteq> None" if "dir_entries s g \<noteq> None" for g
      using that f nodir by (auto simp: dir_entries_node split: if_splits node_body.splits)
  qed (auto simp: ent)
qed

text \<open>Unlinking an added entry\<close>

lemma only_added_unlink:
  assumes base: "only_added X s0 s" and ent0: "entry s0 d n = None" and ent: "entry s d n = Some f" and f: "node_of s f = Some nd"
    and nodir: "\<And>es. nd_body nd \<noteq> Directory es"
  obtains t where "sys_unlink_at d n s = (Inr f, t)" "only_added (X - {(d, n)}) s0 t"
    "node_of t f = Some (nd\<lparr>nd_ctime := fs_clock s\<rparr>)" "\<forall>e k. (e, k) \<noteq> (d, n) \<longrightarrow> entry t e k = entry s e k"
proof -
  have "find_in s d n = Inr (f, nd)" using ent f by (simp add: find_in_entry)
  from unlink_effect [OF this nodir] obtain dn es t where
    run: "sys_unlink_at d n s = (Inr f, t)" and e: "node_of s d = Some dn" "nd_body dn = Directory es" "f \<noteq> d"
    "fs_root t = fs_root s" "fs_cwd t = fs_cwd s" "fs_next t = fs_next s"
    and nt: "\<And>g. node_of t g = (if g = d then Some (dn\<lparr>nd_body := Directory (AList.delete n es)\<rparr>)
       else if g = f then Some (nd\<lparr>nd_ctime := fs_clock s\<rparr>) else node_of s g)" by metis
  note D = only_addedD [OF base]
  have entt: "entry t g k = (if g = d \<and> k = n then None else entry s g k)" for g k
    using nt e f nodir by (auto simp: entry_node delete_conv' split: node_body.split)
  have "only_added (X - {(d, n)}) s0 t"
  proof (rule only_added_step [OF base])
    show "fs_root t = fs_root s" "fs_cwd t = fs_cwd s" "fs_next s \<le> fs_next t" using e by auto
    show "fid_inode g < fs_next t" if "node_of t g = Some nd" for g nd
      using that nt [of g] e f D(4) [of g] by (auto split: if_splits)
    show "\<exists>nd'. node_of t g = Some nd' \<and> (same_node md nd' \<or> node_of s0 g = None)" if "node_of s g = Some md" for g md
      using that nt [of g] e f same_node_refl [of md] same_node_entries [of dn es] same_node_ctime [of nd] by auto
    show "entry t g k = Some h" if "entry s0 g k = Some h" "entry s g k = Some h" for g k h
      using that entt [of g k] ent0 by auto
    show "dir_entries t g \<noteq> None" if "dir_entries s g \<noteq> None" for g
      using that nt [of g] e f nodir by (auto simp: dir_entries_node split: if_splits node_body.splits)
    show "entry s g k = Some h \<and> ((g, k) \<in> X \<longrightarrow> (g, k) \<in> X - {(d, n)})
        \<or> dir_entries t h \<noteq> None \<or> (g, k) \<in> X - {(d, n)} \<or> entry s0 g k = Some h"
      if "entry t g k = Some h" for g k h
      using that entt [of g k] by (auto split: if_splits)
  qed
  moreover have "node_of t f = Some (nd\<lparr>nd_ctime := fs_clock s\<rparr>)" using nt e by simp
  moreover have "\<forall>e k. (e, k) \<noteq> (d, n) \<longrightarrow> entry t e k = entry s e k" using entt by auto
  ultimately show thesis using run that by blast
qed

subsection \<open>Quiet worlds\<close>

definition quietly :: "(pystr \<Rightarrow> pystr) \<Rightarrow> (fs \<Rightarrow> bool) \<Rightarrow> world \<Rightarrow> bool" where
  "quietly sha P w \<longleftrightarrow> w_env w = [] \<and> w_faults w = [] \<and> w_sha w = sha \<and> P (w_fs w)"

interpretation quiet: assertions "quietly sha" for sha
  by unfold_locales (auto simp: quietly_def untouched_def)

abbreviation qtriple ::
  "(pystr \<Rightarrow> pystr) \<Rightarrow> (fs \<Rightarrow> bool) \<Rightarrow> 'a io \<Rightarrow> ('a \<Rightarrow> fs \<Rightarrow> bool) \<Rightarrow> (exn \<Rightarrow> fs \<Rightarrow> bool) \<Rightarrow> bool" where
  "qtriple sha \<equiv> assertions.holds (quietly sha)"

lemma enter_quiet: "w_env w = [] \<Longrightarrow> enter w = (None, w)"
  by (simp add: enter_def)

lemma io_read_quiet: "w_env w = [] \<Longrightarrow> io_read f w = (case f (w_fs w) of Inl e \<Rightarrow> Inl (OS_error e) | Inr x \<Rightarrow> Inr x, w)"
  by (simp add: io_read_def enter_quiet split: sum.split)

lemma q_read:
  "qtriple sha P (io_read f) (\<lambda>x s. P s \<and> f s = Inr x) (\<lambda>e s. P s \<and> (\<exists>x. e = OS_error x \<and> f s = Inl x))"
  unfolding quiet.holds_def
  by (rule tripleI) (auto simp: quietly_def io_read_quiet split: sum.splits)

lemma q_change:
  "qtriple sha P (io_change act f) (\<lambda>x t. \<exists>s. P s \<and> f s = (Inr x, t)) (\<lambda>e s. P s \<and> (\<exists>x t. e = OS_error x \<and> f s = (Inl x, t)))"
  unfolding quiet.holds_def
  by (rule tripleI) (auto simp: quietly_def io_change_def enter_quiet split: prod.splits sum.splits)

lemma q_sha: "qtriple sha P (io_sha d) (\<lambda>x s. P s \<and> x = sha d) X"
  unfolding quiet.holds_def by (rule tripleI) (auto simp: quietly_def io_sha_def)

lemma q_journal: "qtriple sha P (record_journal ev) (\<lambda>_. P) X"
  unfolding quiet.holds_def
  by (rule tripleI) (auto simp: quietly_def record_journal_def Let_def split: list.splits option.splits)

lemma q_False: "qtriple sha (\<lambda>_. False) m Q X"
  unfolding quiet.holds_def by (rule tripleI) (auto simp: quietly_def)

lemma q_ex:
  assumes "\<And>v. qtriple sha (P v) m Q X"
  shows "qtriple sha (\<lambda>s. \<exists>v. P v s) m Q X"
  unfolding quiet.holds_def
proof (rule tripleI)
  show "quietly sha (X e) w'" if "quietly sha (\<lambda>s. \<exists>v. P v s) w" "m w = (Inl e, w')" for w e w'
  proof -
    from that(1) obtain v where "quietly sha (P v) w" by (auto simp: quietly_def)
    from tripleD(2) [OF assms [unfolded quiet.holds_def] this that(2)] show ?thesis .
  qed
  show "quietly sha (Q x) w'" if "quietly sha (\<lambda>s. \<exists>v. P v s) w" "m w = (Inr x, w')" for w x w'
  proof -
    from that(1) obtain v where "quietly sha (P v) w" by (auto simp: quietly_def)
    from tripleD(1) [OF assms [unfolded quiet.holds_def] this that(2)] show ?thesis .
  qed
qed

lemma q_fact: "(F \<Longrightarrow> qtriple sha P m Q X) \<Longrightarrow> qtriple sha (\<lambda>s. F \<and> P s) m Q X"
  by (cases F) (auto intro: quiet.holds_conseq [OF q_False])

lemmas q_conseq = quiet.holds_conseq
lemmas q_rules = quiet.holds_bind quiet.holds_then

subsection \<open>Parents\<close>

lemma q_descend: "qtriple sha (only_added X s0) (descend create d parts) (\<lambda>_. only_added X s0) (\<lambda>_. only_added X s0)"
proof (induction parts arbitrary: d)
  case Nil
  show ?case by (auto intro: quiet.holds_return)
next
  case (Cons part parts)
  have mk: "qtriple sha (only_added X s0) (io_mkdir d part) (\<lambda>_. only_added X s0) (\<lambda>_. only_added X s0)"
    unfolding io_mkdir_def sys_mkdir_at_def
    by (rule q_conseq [OF q_change [where P = "only_added X s0"]]) (auto dest: only_added_create(1))
  have made: "qtriple sha (only_added X s0) (make_component part d) (\<lambda>_. only_added X s0) (\<lambda>_. only_added X s0)"
    unfolding make_component_def
    by (rule quiet.holds_bind, rule quiet.holds_catch, rule quiet.holds_then, rule mk)
      (auto intro!: quiet.holds_return quiet.holds_looks looks_intros split: if_splits)
  show ?case
    unfolding descend.simps
    by (rule quiet.holds_bind, rule quiet.holds_catch, rule quiet.holds_looks, intro looks_intros)
      (auto intro!: made Cons.IH quiet.holds_look_then looks_intros quiet.holds_raise split: prod.split)
qed

lemma q_open_parent:
  "qtriple sha (only_added X s0) (open_secure_parent_directory g p create) (\<lambda>_. only_added X s0) (\<lambda>_. only_added X s0)"
proof (cases "path_relative_to p (rg_path g)")
  case None
  then show ?thesis unfolding open_secure_parent_directory_def by (auto intro: quiet.holds_raise)
next
  case (Some parts)
  show ?thesis
    unfolding open_secure_parent_directory_def Some option.case
    by (rule quiet.holds_look_bind, intro looks_intros, assumption, rule quiet.holds_bind, rule q_descend,
        rule quiet.holds_look_bind, intro looks_intros, assumption, rule quiet.holds_return, assumption)
qed

subsection \<open>What is published\<close>

text \<open>The entry \<open>n\<close> of \<open>d\<close> is new, alone, and names the node \<open>f\<close> with the content the target must have.\<close>

definition placed :: "fs \<Rightarrow> fid \<Rightarrow> pystr \<Rightarrow> fid \<Rightarrow> node_body \<Rightarrow> fs \<Rightarrow> bool" where
  "placed s0 d n f body s \<longleftrightarrow> only_added {(d, n)} s0 s \<and> entry s0 d n = None \<and> entry s d n = Some f
     \<and> (\<exists>nd. node_of s f = Some nd \<and> nd_body nd = body)"

text \<open>The identity that was recorded is the one of the target.\<close>

definition recorded :: "(pystr \<Rightarrow> pystr) \<Rightarrow> fid \<Rightarrow> node_body \<Rightarrow> published_target \<Rightarrow> fs \<Rightarrow> bool" where
  "recorded sha f body pt s \<longleftrightarrow> (\<exists>nd. node_of s f = Some nd \<and> pt_stat pt = stat_of f nd)
     \<and> (case pt_link_target pt of Some t \<Rightarrow> body = Symlink t
        | None \<Rightarrow> (\<exists>c. body = Regular c \<and> pt_sha256 pt = Some (sha c)))"

lemma stat_fields [simp]:
  "st_kind (stat_of f nd) = body_kind (nd_body nd)" "st_fid (stat_of f nd) = f" "st_dev (stat_of f nd) = fid_device f"
  "st_ino (stat_of f nd) = fid_inode f" "st_size (stat_of f nd) = body_size (nd_body nd)" "st_mtime (stat_of f nd) = nd_mtime nd"
  by (simp_all add: stat_of_def st_fid_def)

lemma run_lstat_at:
  "w_env w = [] \<Longrightarrow> entry (w_fs w) d n = Some f \<Longrightarrow> node_of (w_fs w) f = Some nd \<Longrightarrow>
   entry_lstat_at d n w = (Inr (stat_of f nd), w)"
  by (simp add: entry_lstat_at_def io_read_quiet sys_lstat_at_def find_in_entry [THEN iffD2])

lemma run_readlink_at:
  "w_env w = [] \<Longrightarrow> entry (w_fs w) d n = Some f \<Longrightarrow> node_of (w_fs w) f = Some nd \<Longrightarrow> nd_body nd = Symlink t \<Longrightarrow>
   readlink_at d n w = (Inr t, w)"
  by (simp add: readlink_at_def io_read_quiet sys_readlink_at_def find_in_entry [THEN iffD2])

lemma run_fstat: "w_env w = [] \<Longrightarrow> node_of (w_fs w) f = Some nd \<Longrightarrow> io_fstat f w = (Inr (stat_of f nd), w)"
  by (simp add: io_fstat_def io_read_quiet sys_fstat_def)

lemma run_read_all:
  "w_env w = [] \<Longrightarrow> node_of (w_fs w) f = Some nd \<Longrightarrow> nd_body nd = Regular c \<Longrightarrow> io_read_all f w = (Inr c, w)"
  by (simp add: io_read_all_def io_read_quiet sys_read_def)

lemma run_descriptor:
  "w_env w = [] \<Longrightarrow> node_of (w_fs w) f = Some nd \<Longrightarrow> nd_body nd = Regular c \<Longrightarrow>
   fingerprint_regular_descriptor f w = (Inr (regular_fingerprint (stat_of f nd) (w_sha w c)), w)"
  by (simp add: fingerprint_regular_descriptor_def io_bind_def io_then_def io_when_def io_return_def run_fstat run_read_all
      io_sha_def)

lemma run_fingerprint_at:
  assumes "w_env w = []" and "entry (w_fs w) d n = Some f" and "node_of (w_fs w) f = Some nd" and "nd_body nd = Regular c"
  shows "fingerprint_regular_at d n w = (Inr (regular_fingerprint (stat_of f nd) (w_sha w c)), w)"
proof -
  have "io_read (sys_open_at d n) w = (Inr f, w)"
    using assms by (simp add: io_read_quiet sys_open_at_def find_in_entry [THEN iffD2] open_nofollow_def)
  then have op: "or_safety l (io_read (sys_open_at d n)) w = (Inr f, w)" for l
    by (simp add: or_safety_def except_os_def io_catch_def)
  show ?thesis
    using assms
    by (simp add: fingerprint_regular_at_def fingerprint_opened_def io_bind_def io_then_def io_when_def io_return_def
        run_lstat_at run_fstat run_descriptor op)
qed

lemma fp_get_sha [simp]: "fp_get (regular_fingerprint st d) ''sha256'' = JStr d"
  by (simp add: fp_get_def regular_fingerprint_def)

lemma remove_created_run:
  assumes env: "w_env w = []" and here: "placed s0 d n f body (w_fs w)" and rec: "recorded (w_sha w) f body pt (w_fs w)"
    and d: "d = sp_fd p"
  obtains t where "only_added {} s0 t"
    "remove_created_target_at p n pt w = (Inr (), w\<lparr>w_fs := t, w_log := w_log w @ [Did (A_unlink d n f)]\<rparr>)"
proof -
  from here obtain nd where base: "only_added {(d, n)} s0 (w_fs w)" and ent0: "entry s0 d n = None"
    and ent: "entry (w_fs w) d n = Some f" and nd: "node_of (w_fs w) f = Some nd" and body: "nd_body nd = body"
    by (auto simp: placed_def)
  from rec nd have st: "pt_stat pt = stat_of f nd" by (auto simp: recorded_def)
  have nodir: "nd_body nd \<noteq> Directory es" for es using rec body by (auto simp: recorded_def split: option.splits)
  obtain t where un: "sys_unlink_at d n (w_fs w) = (Inr f, t)" and left: "only_added {} s0 t"
    using only_added_unlink [OF base ent0 ent nd nodir] by (metis Diff_insert_absorb insert_absorb insert_Diff_single insert_not_empty Diff_cancel)
  have ours: "still_ours p n pt w = (Inr True, w)"
    using env ent nd st d by (simp add: still_ours_def io_bind_def io_return_def run_lstat_at)
  have same: "(case pt_link_target pt of
        Some t \<Rightarrow> io_bind (readlink_at (sp_fd p) n) (\<lambda>link_target. io_return (link_target = t))
      | None \<Rightarrow> io_bind (fingerprint_regular_at (sp_fd p) n) (\<lambda>fp.
          io_return (Some (fp_get fp ''sha256'') = map_option JStr (pt_sha256 pt)))) w = (Inr True, w)"
  proof (cases "pt_link_target pt")
    case None
    with rec body obtain c where c: "nd_body nd = Regular c" "pt_sha256 pt = Some (w_sha w c)" by (auto simp: recorded_def)
    then show ?thesis using None env ent nd d by (simp add: io_bind_def io_return_def run_fingerprint_at)
  next
    case (Some t)
    with rec body have "nd_body nd = Symlink t" by (auto simp: recorded_def)
    then show ?thesis using Some env ent nd d by (simp add: io_bind_def io_return_def run_readlink_at)
  qed
  have unlink: "io_unlink d n w = (Inr f, w\<lparr>w_fs := t, w_log := w_log w @ [Did (A_unlink d n f)]\<rparr>)"
    using env un by (simp add: io_unlink_def io_change_def enter_quiet)
  have sync: "fsync_directory d v = (Inr (), v)" if "w_env v = []" for v
    using that by (simp add: fsync_directory_def or_safety_def except_os_def io_catch_def io_fsync_def io_read_quiet)
  have "remove_created_target_at p n pt w = (Inr (), w\<lparr>w_fs := t, w_log := w_log w @ [Did (A_unlink d n f)]\<rparr>)"
    unfolding remove_created_target_at_def io_catch_def
    by (simp add: io_bind_def [of "still_ours p n pt"] ours io_bind_def [of "case_option _ _ _"] same io_then_def
        io_bind_def [of "io_unlink _ _"] d [symmetric] unlink sync env)
  with left show thesis by (rule that)
qed

subsection \<open>Paths stay what they are\<close>

lemma fs_ok_entry: "fs_ok s \<Longrightarrow> entry s d n = Some f \<Longrightarrow> \<exists>nd. node_of s f = Some nd"
  by (force simp: fs_ok_def list_all_iff entry_Some node_of_def dest!: map_of_SomeD)

lemma fid_at_entry: "fid_at s f (n # ns) = (case entry s f n of None \<Rightarrow> None | Some g \<Rightarrow> fid_at s g ns)"
  by (simp add: entry_def split: option.split)

lemma fid_at_mono:
  assumes "only_added X s0 s"
  shows "fid_at s0 f ns = Some g \<Longrightarrow> fid_at s f ns = Some g"
proof (induction ns arbitrary: f)
  case (Cons n ns)
  then obtain h where "entry s0 f n = Some h" "fid_at s0 h ns = Some g"
    unfolding fid_at_entry by (auto split: option.splits)
  with Cons.IH only_addedD(6) [OF assms] show ?case by (simp add: fid_at_entry del: fid_at.simps)
qed simp

lemma entry_below_Inr: "entry_below s here n = Inr f \<longleftrightarrow> (\<exists>d. fid_at s (fs_root s) here = Some d \<and> entry s d n = Some f)"
  by (auto simp: entry_below_def entry_def split: option.splits)

lemma link_of_mono:
  assumes "only_added X s0 s" and "node_of s0 f = Some nd"
  shows "link_of s f = link_of s0 f"
proof -
  obtain nd' where nd': "node_of s f = Some nd'" "same_node nd nd'" using only_addedD(5) [OF assms] by blast
  then show ?thesis
    using assms(2) same_node_regular [OF nd'(2)]
    by (cases "nd_body nd") (auto simp: link_of_def same_node_def split: node_body.splits)
qed

lemma walk_mono:
  assumes "fs_ok s0" and "only_added X s0 s" and "walk True follow s0 links here rest = Inr q"
  shows "walk True follow s links here rest = Inr q"
  using assms
proof (induction True follow s0 links here rest rule: walk.induct)
  case (1 follow s0 links here)
  then show ?case by simp
next
  case (2 follow s0 links here n ns)
  note ok = 2(5) and base = 2(6) and run = 2(7)
  show ?case
  proof (cases "n = ''..''")
    case True
    with 2 show ?thesis by simp
  next
    case False
    then obtain f where f: "entry_below s0 here n = Inr f" using run by (auto split: sum.splits)
    then obtain d where d: "fid_at s0 (fs_root s0) here = Some d" "entry s0 d n = Some f" by (auto simp: entry_below_Inr)
    with fid_at_mono [OF base] only_addedD(1,6) [OF base] have f': "entry_below s here n = Inr f"
      by (auto simp: entry_below_Inr)
    obtain nd where "node_of s0 f = Some nd" using fs_ok_entry [OF ok d(2)] by blast
    then have l: "link_of s f = link_of s0 f" by (rule link_of_mono [OF base])
    show ?thesis
    proof (cases "link_of s0 f")
      case None
      then show ?thesis using 2(3) [OF False f None ok base] run False f f' l by simp
    next
      case (Some t)
      show ?thesis
      proof (cases "ns = [] \<and> \<not> follow")
        case True
        then show ?thesis using run False f f' l Some by simp
      next
        case nolast: False
        show ?thesis
        proof (cases links)
          case 0
          then show ?thesis using run False f f' l Some nolast by simp
        next
          case (Suc k)
          show ?thesis
            using 2(4) [OF False f Some nolast Suc refl ok base] run False f f' l Some nolast Suc by (auto simp: Let_def)
        qed
      qed
    qed
  qed
qed

lemma find_path_Inr: "find_path follow s p = Inr (f, nd) \<longleftrightarrow>
  (\<exists>here. walk True follow s MAXSYMLINKS [] (absolute_parts s p) = Inr here \<and> fid_at s (fs_root s) here = Some f \<and> node_of s f = Some nd)"
  by (auto simp: find_path_def real_parts_def split: option.splits)

lemma find_path_mono:
  assumes ok: "fs_ok s0" and base: "only_added X s0 s" and "find_path follow s0 p = Inr (f, nd)"
  obtains nd' where "find_path follow s p = Inr (f, nd')" "same_node nd nd'"
proof -
  have cwd: "absolute_parts s p = absolute_parts s0 p" using only_addedD(2) [OF base] by (simp add: absolute_parts_def)
  from assms(3) obtain here where h: "walk True follow s0 MAXSYMLINKS [] (absolute_parts s0 p) = Inr here"
    "fid_at s0 (fs_root s0) here = Some f" "node_of s0 f = Some nd" by (auto simp: find_path_Inr)
  obtain nd' where nd': "node_of s f = Some nd'" "same_node nd nd'" using only_addedD(5) [OF base h(3)] by blast
  have "find_path follow s p = Inr (f, nd')"
    using walk_mono [OF ok base h(1)] fid_at_mono [OF base h(2)] nd'(1) only_addedD(1) [OF base] cwd
    by (auto simp: find_path_Inr)
  then show thesis using nd'(2) by (rule that)
qed

subsection \<open>Copies\<close>

text \<open>The temporary file \<open>n\<close> in \<open>d\<close> is a new node \<open>f\<close> with the content \<open>c\<close>.\<close>

definition staged :: "fs \<Rightarrow> fid \<Rightarrow> pystr \<Rightarrow> fid \<Rightarrow> pystr \<Rightarrow> fs \<Rightarrow> bool" where
  "staged s0 d n f c s \<longleftrightarrow> placed s0 d n f (Regular c) s \<and> node_of s0 f = None"

lemma staged_put:
  assumes "staged s0 d n f c s" and "node_of s f = Some nd" and "nd_body nd' = Regular c'"
  shows "staged s0 d n f c' (put_node f nd' s)"
proof -
  from assms(1) have base: "only_added {(d, n)} s0 s" and new: "node_of s0 f = None" and e: "entry s0 d n = None" "entry s d n = Some f"
    and body: "nd_body nd = Regular c"
    using assms(2) by (auto simp: staged_def placed_def)
  have "nd_body nd \<noteq> Directory es" "nd_body nd' \<noteq> Directory es" for es using body assms(3) by auto
  from only_added_put [OF base new assms(2) this] show ?thesis
    using e assms(3) new by (simp add: staged_def placed_def)
qed

lemma staged_node: "staged s0 d n f c s \<Longrightarrow> \<exists>nd. node_of s f = Some nd \<and> nd_body nd = Regular c"
  by (simp add: staged_def placed_def)

lemma q_create_temporary:
  "qtriple sha (only_added {} s0) (create_temporary k d) (\<lambda>(f, n). staged s0 d n f []) (\<lambda>_. only_added {} s0)"
proof (induction k)
  case 0
  show ?case by (auto intro: quiet.holds_raise)
next
  case (Suc k)
  have made: "qtriple sha (only_added {} s0) (io_creat d n) (\<lambda>f. staged s0 d n f []) (\<lambda>_. only_added {} s0)" for n
    unfolding io_creat_def sys_creat_at_def
  proof (rule q_conseq [OF q_change [where P = "only_added {} s0"]])
    fix f t assume "\<exists>s. only_added {} s0 s \<and> create_at (Regular []) 384 d n s = (Inr f, t)"
    then obtain s where "only_added {} s0 s" "create_at (Regular []) 384 d n s = (Inr f, t)" by blast
    from only_added_create [OF this] show "staged s0 d n f [] t" by (auto simp: staged_def placed_def)
  qed auto
  have attempt: "qtriple sha (only_added {} s0)
      (io_catch (io_bind (io_creat d n) (\<lambda>f. io_return (Some f))) (\<lambda>e. if e = OS_error EEXIST then io_return None else io_raise e))
      (\<lambda>r. case r of Some f \<Rightarrow> staged s0 d n f [] | None \<Rightarrow> only_added {} s0) (\<lambda>_. only_added {} s0)" for n
    by (rule quiet.holds_catch, rule quiet.holds_bind, rule made) (auto intro!: quiet.holds_return quiet.holds_raise)
  have rest: "qtriple sha (case r of Some f \<Rightarrow> staged s0 d n f [] | None \<Rightarrow> only_added {} s0)
      (case r of Some f \<Rightarrow> io_return (f, n) | None \<Rightarrow> create_temporary k d)
      (\<lambda>(f, n). staged s0 d n f []) (\<lambda>_. only_added {} s0)" for r n
    using Suc.IH by (cases r) (auto intro: quiet.holds_return)
  show ?case
    unfolding create_temporary.simps Let_def
    by (rule quiet.holds_look_bind [OF looks_token], assumption, rule quiet.holds_bind, rule attempt, rule rest)
qed

lemma q_touch:
  assumes "\<And>s nd. nd_body nd = Regular c \<Longrightarrow> nd_body (g s nd) = Regular c'"
    and "\<And>s. staged s0 d n f c s \<Longrightarrow> call s = (Inr f, touch_node f (g s) s)"
  shows "qtriple sha (staged s0 d n f c) (io_change act call) (\<lambda>_. staged s0 d n f c') X"
proof (rule q_conseq [OF q_change [where P = "staged s0 d n f c"]])
  fix x t assume "\<exists>s. staged s0 d n f c s \<and> call s = (Inr x, t)"
  then obtain s where s: "staged s0 d n f c s" and "call s = (Inr x, t)" by blast
  with assms(2) [OF s] have t: "t = touch_node f (g s) s" by auto
  obtain nd where nd: "node_of s f = Some nd" "nd_body nd = Regular c" using staged_node [OF s] by blast
  have "nd_body ((g s nd)\<lparr>nd_ctime := fs_clock s\<rparr>) = Regular c'" using assms(1) [OF nd(2)] by simp
  from staged_put [OF s nd(1) this] show "staged s0 d n f c' t" by (simp add: t touch_node_Some [OF nd(1)])
next
  fix e s assume "staged s0 d n f c s \<and> (\<exists>x t. e = OS_error x \<and> call s = (Inl x, t))"
  with assms(2) [of s] show "X e s" by auto
qed

lemma q_write:
  "qtriple sha (staged s0 d n f c) (io_write f x) (\<lambda>_. staged s0 d n f (c @ x)) X"
  unfolding io_write_def
  by (rule q_touch [where g = "\<lambda>s nd. nd\<lparr>nd_body := Regular (c @ x), nd_mtime := fs_clock s\<rparr>"])
    (auto simp: sys_write_def dest!: staged_node)

lemma q_fchmod: "qtriple sha (staged s0 d n f c) (io_fchmod f m) (\<lambda>_. staged s0 d n f c) X"
  unfolding io_fchmod_def
  by (rule q_touch [where g = "\<lambda>s nd. nd\<lparr>nd_mode := m\<rparr>"]) (auto simp: sys_fchmod_def)

lemma q_utime: "qtriple sha (staged s0 d n f c) (io_utime f a m) (\<lambda>_. staged s0 d n f c) X"
  unfolding io_utime_def
  by (rule q_touch [where g = "\<lambda>s nd. nd\<lparr>nd_atime := a, nd_mtime := m\<rparr>"]) (auto simp: sys_utime_def)

lemma q_write_chunks:
  "qtriple sha (staged s0 d n f c) (write_chunks f cs) (\<lambda>_. staged s0 d n f (c @ concat cs)) (\<lambda>_ s. \<exists>c'. staged s0 d n f c' s)"
proof (induction cs arbitrary: c)
  case Nil
  show ?case by (auto intro: quiet.holds_return)
next
  case (Cons x cs)
  show ?case
    unfolding write_chunks.simps
    by (rule quiet.holds_look_then [OF looks_cancelled], blast, rule quiet.holds_then, rule q_write)
      (use Cons.IH [of "c @ x"] in simp)
qed

lemma concat_chunks: "concat (chunks data) = data"
proof (induction data rule: chunks.induct)
  case (1 data)
  then show ?case by (subst chunks.simps) auto
qed

text \<open>The source: the node \<open>f\<close> is a regular file of the file system before.\<close>

definition source_file :: "fs \<Rightarrow> fid \<Rightarrow> pystr \<Rightarrow> bool" where
  "source_file s0 f c \<longleftrightarrow> (\<exists>nd. node_of s0 f = Some nd \<and> nd_body nd = Regular c)"

lemma source_file_read:
  assumes "source_file s0 f c" and "only_added X s0 s"
  shows "sys_read f s = Inr c" and "\<exists>nd. node_of s f = Some nd \<and> nd_body nd = Regular c"
proof -
  from assms(1) obtain nd where nd: "node_of s0 f = Some nd" "nd_body nd = Regular c" by (auto simp: source_file_def)
  obtain nd' where nd': "node_of s f = Some nd'" "same_node nd nd'" using only_addedD(5) [OF assms(2) nd(1)] by blast
  have "nd_body nd' = Regular c" using same_node_regular [OF nd'(2)] nd(2) by simp
  with nd' show "sys_read f s = Inr c" "\<exists>nd. node_of s f = Some nd \<and> nd_body nd = Regular c" by (auto simp: sys_read_def)
qed

lemma staged_added: "staged s0 d n f c s \<Longrightarrow> only_added {(d, n)} s0 s"
  by (simp add: staged_def placed_def)

lemma q_fill:
  assumes "source_file s0 sf c"
  shows "qtriple sha (staged s0 d n f []) (fill_temporary sf f st fp)
    (\<lambda>digest s. staged s0 d n f c s \<and> digest = sha c) (\<lambda>_ s. \<exists>c'. staged s0 d n f c' s)"
proof -
  have read: "qtriple sha (staged s0 d n f []) (io_read_all sf) (\<lambda>data s. data = c \<and> staged s0 d n f [] s) (\<lambda>_ s. \<exists>c'. staged s0 d n f c' s)"
    unfolding io_read_all_def
    by (rule q_conseq [OF q_read [where P = "staged s0 d n f []"]])
      (use source_file_read(1) [OF assms staged_added] in auto)
  have tail: "qtriple sha (staged s0 d n f c)
      (io_then (io_fchmod f (st_mode st)) (io_then (io_utime f (st_atime st) (st_mtime st)) (io_then (io_fsync f)
       (io_bind (io_fstat sf) (\<lambda>source_after. io_bind (io_fstat f) (\<lambda>temporary_stat. io_bind (io_sha c) (\<lambda>digest.
        io_then (io_when (\<not> py_eq (JInt (st_size temporary_stat)) (fp_get fp ''size'')
          \<or> \<not> py_eq (JStr digest) (fp_get fp ''sha256'') \<or> \<not> stat_matches_fingerprint source_after fp)
          (Safety ''source_changed''))
        (io_return digest))))))))
      (\<lambda>digest s. staged s0 d n f c s \<and> digest = sha c) (\<lambda>_ s. \<exists>c'. staged s0 d n f c' s)"
    by (rule quiet.holds_then, rule q_fchmod, rule quiet.holds_then, rule q_utime,
        rule quiet.holds_look_then, intro looks_intros, blast, rule quiet.holds_look_bind, intro looks_intros, blast,
        rule quiet.holds_look_bind, intro looks_intros, blast, rule quiet.holds_bind, rule q_sha,
        rule quiet.holds_look_then, intro looks_intros, blast, rule quiet.holds_return, simp)
  show ?thesis
    unfolding fill_temporary_def
  proof (rule quiet.holds_bind [OF read], rule q_fact)
    fix data assume "data = c"
    then show "qtriple sha (staged s0 d n f [])
      (io_then (write_chunks f (chunks data)) (io_then (io_fchmod f (st_mode st)) (io_then (io_utime f (st_atime st) (st_mtime st)) (io_then (io_fsync f)
       (io_bind (io_fstat sf) (\<lambda>source_after. io_bind (io_fstat f) (\<lambda>temporary_stat. io_bind (io_sha data) (\<lambda>digest.
        io_then (io_when (\<not> py_eq (JInt (st_size temporary_stat)) (fp_get fp ''size'')
          \<or> \<not> py_eq (JStr digest) (fp_get fp ''sha256'') \<or> \<not> stat_matches_fingerprint source_after fp)
          (Safety ''source_changed''))
        (io_return digest)))))))))
      (\<lambda>digest s. staged s0 d n f c s \<and> digest = sha c) (\<lambda>_ s. \<exists>c'. staged s0 d n f c' s)"
      using quiet.holds_then [OF q_write_chunks [of sha s0 d n f "[]" "chunks c"]] tail by (simp add: concat_chunks)
  qed
qed

text \<open>Both names at once\<close>

definition both_names :: "fs \<Rightarrow> fid \<Rightarrow> pystr \<Rightarrow> pystr \<Rightarrow> fid \<Rightarrow> pystr \<Rightarrow> fs \<Rightarrow> bool" where
  "both_names s0 d n t f c s \<longleftrightarrow> only_added {(d, n), (d, t)} s0 s \<and> entry s0 d n = None \<and> entry s0 d t = None
     \<and> entry s d n = Some f \<and> entry s d t = Some f \<and> n \<noteq> t \<and> node_of s0 f = None
     \<and> (\<exists>nd. node_of s f = Some nd \<and> nd_body nd = Regular c)"

lemma q_stage_copy:
  assumes "source_file s0 sf c"
  shows "qtriple sha (staged s0 d n f []) (stage_copy sf f st fp n d t)
    (\<lambda>digest s. both_names s0 d n t f c s \<and> digest = sha c) (\<lambda>_ s. \<exists>c'. staged s0 d n f c' s)"
proof -
  have link: "qtriple sha (staged s0 d n f c) (io_link_at n d t) (\<lambda>_. both_names s0 d n t f c) (\<lambda>_ s. \<exists>c'. staged s0 d n f c' s)"
    unfolding io_link_at_def
  proof (rule q_conseq [OF q_change [where P = "staged s0 d n f c"]])
    fix x u assume "\<exists>s. staged s0 d n f c s \<and> sys_link_at n d t s = (Inr x, u)"
    then obtain s where s: "staged s0 d n f c s" and run: "sys_link_at n d t s = (Inr x, u)" by blast
    then obtain nd where e: "entry s d n = Some f" "entry s0 d n = None" "node_of s0 f = None" and nd: "node_of s f = Some nd" "nd_body nd = Regular c"
      by (auto simp: staged_def placed_def)
    then have "find_in s d n = Inr (f, nd)" by (simp add: find_in_entry)
    with run have ln: "link_node (f, nd) d t s = (Inr x, u)" by (simp add: sys_link_at_def)
    note L = only_added_link [OF staged_added [OF s] ln nd(1)]
    from L(4) e(1) have "n \<noteq> t" by auto
    with L e nd show "both_names s0 d n t f c u" by (auto simp: both_names_def insert_commute)
  qed auto
  have finish: "qtriple sha (staged s0 d n f c)
      (io_then raise_if_cancelled (io_then (io_catch (io_link_at n d t)
         (\<lambda>e. if e = OS_error EEXIST then io_raise (Collision ''destination_exists'') else io_raise e)) (io_return (sha c))))
      (\<lambda>digest s. both_names s0 d n t f c s \<and> digest = sha c) (\<lambda>_ s. \<exists>c'. staged s0 d n f c' s)"
    by (rule quiet.holds_look_then [OF looks_cancelled], blast, rule quiet.holds_then, rule quiet.holds_catch, rule link)
      (auto intro!: quiet.holds_return quiet.holds_raise)
  show ?thesis
    unfolding stage_copy_def
  proof (rule quiet.holds_bind)
    show "qtriple sha (staged s0 d n f []) (fill_temporary sf f st fp) (\<lambda>digest s. digest = sha c \<and> staged s0 d n f c s) (\<lambda>_ s. \<exists>c'. staged s0 d n f c' s)"
      by (rule q_conseq [OF q_fill [OF assms]]) auto
    fix digest
    show "qtriple sha (\<lambda>s. digest = sha c \<and> staged s0 d n f c s)
      (io_then raise_if_cancelled (io_then (io_catch (io_link_at n d t)
         (\<lambda>e. if e = OS_error EEXIST then io_raise (Collision ''destination_exists'') else io_raise e)) (io_return digest)))
      (\<lambda>digest s. both_names s0 d n t f c s \<and> digest = sha c) (\<lambda>_ s. \<exists>c'. staged s0 d n f c' s)"
      by (rule q_fact) (use finish in simp)
  qed
qed

lemma q_change_ok:
  assumes "\<And>s. P s \<Longrightarrow> \<exists>x t. call s = (Inr x, t) \<and> Q t"
  shows "qtriple sha P (io_change act call) (\<lambda>_. Q) X"
proof (rule q_conseq [OF q_change [where P = P]])
  fix x t assume "\<exists>s. P s \<and> call s = (Inr x, t)"
  then show "Q t" using assms by fastforce
next
  fix e s assume "P s \<and> (\<exists>x t. e = OS_error x \<and> call s = (Inl x, t))"
  then show "X e s" using assms [of s] by auto
qed auto

lemma q_drop:
  assumes "\<And>s. P s \<Longrightarrow> \<exists>x t. sys_unlink_at d n s = (Inr x, t) \<and> Q t"
  shows "qtriple sha P (drop_temporary d n published) (\<lambda>_. Q) X"
proof -
  have "qtriple sha P (io_unlink d n) (\<lambda>_. Q) (\<lambda>_ _. False)"
    unfolding io_unlink_def by (rule q_change_ok) (rule assms)
  then show ?thesis
    unfolding drop_temporary_def
    by (intro quiet.holds_except_os [where Y = "\<lambda>_ _. False"] quiet.holds_then) (auto intro: quiet.holds_return q_False)
qed

lemma q_drop_staged: "qtriple sha (\<lambda>s. \<exists>c. staged s0 d n f c s) (drop_temporary d n False) (\<lambda>_. only_added {} s0) X"
proof (rule q_drop)
  fix s assume "\<exists>c. staged s0 d n f c s"
  then obtain c nd where s: "staged s0 d n f c s" and e: "entry s0 d n = None" "entry s d n = Some f" and nd: "node_of s f = Some nd" "nd_body nd = Regular c"
    by (auto simp: staged_def placed_def)
  have nodir: "nd_body nd \<noteq> Directory es" for es using nd by simp
  obtain t where "sys_unlink_at d n s = (Inr f, t)" "only_added ({(d, n)} - {(d, n)}) s0 t"
    by (rule only_added_unlink [OF staged_added [OF s] e nd(1) nodir])
  then show "\<exists>x t. sys_unlink_at d n s = (Inr x, t) \<and> only_added {} s0 t" by auto
qed

lemma q_drop_linked:
  "qtriple sha (both_names s0 d n t f c) (drop_temporary d n True)
    (\<lambda>_ s. placed s0 d t f (Regular c) s \<and> node_of s0 f = None) X"
proof (rule q_drop)
  fix s assume b: "both_names s0 d n t f c s"
  then obtain nd where base: "only_added {(d, n), (d, t)} s0 s" and e: "entry s0 d n = None" "entry s d n = Some f"
    and nd: "node_of s f = Some nd" "nd_body nd = Regular c" by (auto simp: both_names_def)
  have nodir: "nd_body nd \<noteq> Directory es" for es using nd by simp
  obtain u where u: "sys_unlink_at d n s = (Inr f, u)" "only_added ({(d, n), (d, t)} - {(d, n)}) s0 u"
    "node_of u f = Some (nd\<lparr>nd_ctime := fs_clock s\<rparr>)" "\<forall>e k. (e, k) \<noteq> (d, n) \<longrightarrow> entry u e k = entry s e k"
    by (rule only_added_unlink [OF base e nd(1) nodir])
  have "{(d, n), (d, t)} - {(d, n)} = {(d, t)}" using b by (auto simp: both_names_def)
  with u b nd have "placed s0 d t f (Regular c) u \<and> node_of s0 f = None" by (auto simp: both_names_def placed_def)
  with u(1) show "\<exists>x v. sys_unlink_at d n s = (Inr x, v) \<and> placed s0 d t f (Regular c) v \<and> node_of s0 f = None" by blast
qed

subsection \<open>The three ways to publish\<close>

text \<open>The text of a symbolic link: it is read in a file system that has only directories more.\<close>

definition link_text :: "fs \<Rightarrow> symlink_style \<Rightarrow> py_path \<Rightarrow> py_path \<Rightarrow> pystr \<Rightarrow> bool" where
  "link_text s0 style source parent l \<longleftrightarrow> (case style of
     Style_absolute \<Rightarrow> l = path_str source
   | Style_relative \<Rightarrow> (\<exists>s start. only_added {} s0 s \<and> sys_resolve True parent s = Inr start
       \<and> l = os_relpath (norm_parts [] (absolute_parts s0 source)) (path_parts start)))"

definition published_as ::
  "fs \<Rightarrow> placement_mode \<Rightarrow> symlink_style option \<Rightarrow> py_path \<Rightarrow> py_path \<Rightarrow> fid \<Rightarrow> pystr \<Rightarrow> fid \<Rightarrow> node_body \<Rightarrow> bool" where
  "published_as s0 mode style source parent sf c f body \<longleftrightarrow> (case mode of
     Mode_copy \<Rightarrow> body = Regular c \<and> node_of s0 f = None
   | Mode_hardlink \<Rightarrow> body = Regular c \<and> f = sf
   | Mode_symlink \<Rightarrow> (\<exists>st l. style = Some st \<and> body = Symlink l \<and> link_text s0 st source parent l \<and> node_of s0 f = None)
   | Mode_reference_only \<Rightarrow> False)"

definition publication ::
  "(pystr \<Rightarrow> pystr) \<Rightarrow> fs \<Rightarrow> placement_mode \<Rightarrow> symlink_style option \<Rightarrow> py_path \<Rightarrow> py_path \<Rightarrow> fid \<Rightarrow> pystr \<Rightarrow> fid \<Rightarrow> pystr \<Rightarrow>
   published_target \<Rightarrow> fs \<Rightarrow> bool" where
  "publication sha s0 mode style source parent sf c d n pt s \<longleftrightarrow>
     (\<exists>f body. placed s0 d n f body s \<and> recorded sha f body pt s \<and> published_as s0 mode style source parent sf c f body)"

lemma sys_open_Inr: "sys_open p s = Inr f \<Longrightarrow> \<exists>nd. find_path False s p = Inr (f, nd)"
  by (cases "find_path False s p") (auto simp: sys_open_def open_nofollow_def split: node_body.splits)

lemma opened_source:
  assumes ok: "fs_ok s0" and src: "find_path False s0 source = Inr (sf, nd)" and base: "only_added X s0 s" and op: "sys_open source s = Inr f"
  shows "f = sf"
proof -
  obtain nd' where "find_path False s source = Inr (sf, nd')" by (rule find_path_mono [OF ok base src])
  with sys_open_Inr [OF op] show ?thesis by auto
qed

lemma q_fstat_at:
  "qtriple sha (\<lambda>s. P s \<and> (\<exists>nd. node_of s f = Some nd)) (io_fstat f) (\<lambda>st s. P s \<and> (\<exists>nd. node_of s f = Some nd \<and> st = stat_of f nd)) X"
  unfolding io_fstat_def
  by (rule q_conseq [OF q_read [where P = "\<lambda>s. P s \<and> (\<exists>nd. node_of s f = Some nd)"]]) (auto simp: sys_fstat_def)

lemma q_publish_copy:
  assumes ok: "fs_ok s0" and src: "find_path False s0 source = Inr (sf, nd)" and body: "nd_body nd = Regular c"
  shows "qtriple sha (only_added {} s0) (publish_copy_at source t p fp)
    (publication sha s0 Mode_copy style source parent sf c (sp_fd p) t) (\<lambda>_. only_added {} s0)"
proof -
  have sfile: "source_file s0 sf c" using src body by (auto simp: source_file_def find_path_Inr)
  have opened: "qtriple sha (only_added {} s0) (or_safety ''source_changed'' (io_read (sys_open source)))
      (\<lambda>f s. f = sf \<and> only_added {} s0 s) (\<lambda>_. only_added {} s0)"
    unfolding or_safety_def
    by (rule quiet.holds_except_os, rule q_conseq [OF q_read [where P = "only_added {} s0"]])
      (auto intro: quiet.holds_raise opened_source [OF ok src])
  have staged: "qtriple sha (staged s0 d n f [])
      (io_catch (stage_copy sf f st fp n d t) (\<lambda>e. io_then (drop_temporary d n False) (io_raise e)))
      (\<lambda>digest s. digest = sha c \<and> both_names s0 d n t f c s) (\<lambda>_. only_added {} s0)" for d n f st
    by (rule quiet.holds_catch [where Y = "\<lambda>_ s. \<exists>c'. staged s0 d n f c' s"], rule q_conseq [OF q_stage_copy [OF sfile]])
      (auto intro!: quiet.holds_then [OF q_drop_staged] quiet.holds_raise)
  have finish: "qtriple sha (both_names s0 d n t f c)
      (io_then (drop_temporary d n True) (io_bind (io_fstat f) (\<lambda>st. io_return \<lparr>pt_stat = st, pt_sha256 = Some (sha c), pt_link_target = None\<rparr>)))
      (publication sha s0 Mode_copy style source parent sf c d t) (\<lambda>_. only_added {} s0)" for d n f
  proof (rule quiet.holds_then, rule q_drop_linked, rule quiet.holds_bind)
    show "qtriple sha (\<lambda>s. placed s0 d t f (Regular c) s \<and> node_of s0 f = None) (io_fstat f)
      (\<lambda>st s. (placed s0 d t f (Regular c) s \<and> node_of s0 f = None) \<and> (\<exists>nd. node_of s f = Some nd \<and> st = stat_of f nd)) (\<lambda>_. only_added {} s0)"
      by (rule q_conseq [OF q_fstat_at [where P = "\<lambda>s. placed s0 d t f (Regular c) s \<and> node_of s0 f = None"]]) (auto simp: placed_def)
  qed (rule quiet.holds_return, simp add: publication_def recorded_def published_as_def, blast)
  have copying: "qtriple sha (only_added {} s0)
      (io_bind (create_temporary 32 (sp_fd p)) (\<lambda>(temporary_fd, temporary_name).
       io_bind (io_catch (stage_copy sf temporary_fd st fp temporary_name (sp_fd p) t)
          (\<lambda>e. io_then (drop_temporary (sp_fd p) temporary_name False) (io_raise e))) (\<lambda>digest.
       io_then (drop_temporary (sp_fd p) temporary_name True)
       (io_bind (io_fstat temporary_fd) (\<lambda>st. io_return \<lparr>pt_stat = st, pt_sha256 = Some digest, pt_link_target = None\<rparr>)))))
      (publication sha s0 Mode_copy style source parent sf c (sp_fd p) t) (\<lambda>_. only_added {} s0)" for st
  proof (rule quiet.holds_bind [OF q_create_temporary], split prod.split, intro allI impI)
    fix x f n assume x: "(x :: fid \<times> pystr) = (f, n)"
    show "qtriple sha (case x of (f, n) \<Rightarrow> staged s0 (sp_fd p) n f [])
      (io_bind (io_catch (stage_copy sf f st fp n (sp_fd p) t) (\<lambda>e. io_then (drop_temporary (sp_fd p) n False) (io_raise e))) (\<lambda>digest.
       io_then (drop_temporary (sp_fd p) n True)
       (io_bind (io_fstat f) (\<lambda>st. io_return \<lparr>pt_stat = st, pt_sha256 = Some digest, pt_link_target = None\<rparr>))))
      (publication sha s0 Mode_copy style source parent sf c (sp_fd p) t) (\<lambda>_. only_added {} s0)"
      unfolding x prod.case by (rule quiet.holds_bind [OF staged], rule q_fact) (use finish in simp)
  qed
  show ?thesis
    unfolding publish_copy_at_def create_temporary_file_at_def
    by (rule quiet.holds_bind [OF opened], rule q_fact, simp, rule quiet.holds_look_bind, intro looks_intros, assumption,
        rule quiet.holds_look_then, intro looks_intros, assumption, rule copying)
qed

lemma q_publish_hardlink:
  assumes ok: "fs_ok s0" and src: "find_path False s0 source = Inr (sf, nd)" and body: "nd_body nd = Regular c"
    and fp: "fp_get fp ''sha256'' = JStr (sha c)"
  shows "qtriple sha (only_added {} s0) (publish_hardlink_at source t p fp)
    (publication sha s0 Mode_hardlink style source parent sf c (sp_fd p) t) (\<lambda>_. only_added {} s0)"
proof -
  have opened: "qtriple sha (only_added {} s0) (io_read (sys_open source)) (\<lambda>f s. f = sf \<and> only_added {} s0 s) (\<lambda>_. only_added {} s0)"
    by (rule q_conseq [OF q_read [where P = "only_added {} s0"]]) (auto intro: opened_source [OF ok src])
  let ?linked = "\<lambda>s. placed s0 (sp_fd p) t sf (Regular c) s"
  have link: "qtriple sha (only_added {} s0) (io_link source (sp_fd p) t) (\<lambda>_. ?linked) (\<lambda>_. only_added {} s0)"
    unfolding io_link_def
  proof (rule q_conseq [OF q_change [where P = "only_added {} s0"]])
    fix x u assume "\<exists>s. only_added {} s0 s \<and> sys_link source (sp_fd p) t s = (Inr x, u)"
    then obtain s where s: "only_added {} s0 s" and run: "sys_link source (sp_fd p) t s = (Inr x, u)" by blast
    obtain nd' where fnd: "find_path False s source = Inr (sf, nd')" and same: "same_node nd nd'" by (rule find_path_mono [OF ok s src])
    then have nd': "node_of s sf = Some nd'" "nd_body nd' = Regular c"
      using same_node_regular [OF same] body by (auto simp: find_path_Inr)
    from run fnd have ln: "link_node (sf, nd') (sp_fd p) t s = (Inr x, u)" by (simp add: sys_link_def)
    from only_added_link [OF s ln nd'(1)] nd'(2) show "?linked u" by (auto simp: placed_def)
  qed auto
  have finish: "qtriple sha ?linked (io_bind (io_fstat sf) (\<lambda>after.
      io_return \<lparr>pt_stat = after, pt_sha256 = json_str_of (fp_get fp ''sha256''), pt_link_target = None\<rparr>))
      (publication sha s0 Mode_hardlink style source parent sf c (sp_fd p) t) (\<lambda>_. only_added {} s0)"
  proof (rule quiet.holds_bind)
    show "qtriple sha ?linked (io_fstat sf) (\<lambda>st s. ?linked s \<and> (\<exists>nd. node_of s sf = Some nd \<and> st = stat_of sf nd)) (\<lambda>_. only_added {} s0)"
      by (rule q_conseq [OF q_fstat_at [where P = ?linked]]) (auto simp: placed_def)
  qed (auto intro!: quiet.holds_return simp: publication_def recorded_def published_as_def fp json_str_of_def)
  show ?thesis
    unfolding publish_hardlink_at_def
    by (rule quiet.holds_bind [OF opened], rule q_fact, simp, rule quiet.holds_except_os, rule quiet.holds_look_bind, intro looks_intros,
        assumption, rule quiet.holds_look_then, intro looks_intros, assumption, rule quiet.holds_look_bind, intro looks_intros, assumption,
        rule quiet.holds_look_then, intro looks_intros, assumption, rule quiet.holds_then, rule link, rule finish)
      (auto intro: quiet.holds_raise)
qed

lemma q_resolved:
  "qtriple sha P (io_resolve p) (\<lambda>x s. P s \<and> sys_resolve True p s = Inr x) (\<lambda>_. P)"
  unfolding io_resolve_def by (rule q_conseq [OF q_read [where P = P]]) auto

lemma q_publish_symlink:
  "qtriple sha (only_added {} s0) (publish_symlink_at source t parent p st)
    (publication sha s0 Mode_symlink (Some st) source parent sf c (sp_fd p) t) (\<lambda>_. only_added {} s0)"
proof -
  have abspath: "qtriple sha P (io_abspath source) (\<lambda>x s. P s \<and> x = norm_parts [] (absolute_parts s source)) (\<lambda>_. P)" for P
    unfolding quiet.holds_def by (rule tripleI) (auto simp: quietly_def io_abspath_def)
  have linktext: "qtriple sha (only_added {} s0) (expected_link (Some st) source parent)
      (\<lambda>l s. link_text s0 st source parent l \<and> only_added {} s0 s) (\<lambda>_. only_added {} s0)"
  proof (cases st)
    case Style_absolute
    then show ?thesis by (auto simp: expected_link_def link_text_def intro!: quiet.holds_return)
  next
    case Style_relative
    have "qtriple sha (only_added {} s0)
      (io_bind (io_resolve parent) (\<lambda>start. io_bind (io_abspath source) (\<lambda>parts. io_return (os_relpath parts (path_parts start)))))
      (\<lambda>l s. link_text s0 st source parent l \<and> only_added {} s0 s) (\<lambda>_. only_added {} s0)"
    proof (rule quiet.holds_bind, rule q_resolved, rule quiet.holds_bind)
      fix start
      show "qtriple sha (\<lambda>s. only_added {} s0 s \<and> sys_resolve True parent s = Inr start) (io_abspath source)
        (\<lambda>x s. (only_added {} s0 s \<and> sys_resolve True parent s = Inr start) \<and> x = norm_parts [] (absolute_parts s source))
        (\<lambda>_. only_added {} s0)"
        by (rule q_conseq [OF abspath [where P = "\<lambda>s. only_added {} s0 s \<and> sys_resolve True parent s = Inr start"]]) auto
    next
      fix start parts
      have same: "only_added {} s0 s \<Longrightarrow> absolute_parts s source = absolute_parts s0 source" for s
        by (simp add: absolute_parts_def only_addedD(2))
      show "qtriple sha (\<lambda>s. (only_added {} s0 s \<and> sys_resolve True parent s = Inr start) \<and> parts = norm_parts [] (absolute_parts s source))
        (io_return (os_relpath parts (path_parts start))) (\<lambda>l s. link_text s0 st source parent l \<and> only_added {} s0 s)
        (\<lambda>_. only_added {} s0)"
        by (rule quiet.holds_return) (auto simp: link_text_def Style_relative same)
    qed
    then show ?thesis by (simp add: expected_link_def Style_relative)
  qed
  let ?made = "\<lambda>l f s. placed s0 (sp_fd p) t f (Symlink l) s \<and> node_of s0 f = None"
  have make: "qtriple sha (only_added {} s0) (io_symlink l (sp_fd p) t) (\<lambda>_ s. \<exists>f. ?made l f s) (\<lambda>_. only_added {} s0)" for l
    unfolding io_symlink_def sys_symlink_at_def
  proof (rule q_conseq [OF q_change [where P = "only_added {} s0"]])
    fix x u assume "\<exists>s. only_added {} s0 s \<and> create_at (Symlink l) 511 (sp_fd p) t s = (Inr x, u)"
    then obtain s where "only_added {} s0 s" "create_at (Symlink l) 511 (sp_fd p) t s = (Inr x, u)" by blast
    from only_added_create [OF this] have "?made l x u" by (auto simp: placed_def)
    then show "\<exists>f. ?made l f u" ..
  qed auto
  have seen: "qtriple sha (\<lambda>s. \<exists>f. ?made l f s) (entry_lstat_at (sp_fd p) t)
      (\<lambda>x s. \<exists>f nd. ?made l f s \<and> node_of s f = Some nd \<and> x = stat_of f nd \<and> nd_body nd = Symlink l) (\<lambda>_. only_added {} s0)" for l
    unfolding entry_lstat_at_def
    by (rule q_conseq [OF q_read [where P = "\<lambda>s. \<exists>f. ?made l f s"]])
      (force simp: sys_lstat_at_def placed_def find_in_entry find_in_entry [THEN iffD2])+
  have finish: "qtriple sha (\<lambda>s. \<exists>f nd. ?made l f s \<and> node_of s f = Some nd \<and> x = stat_of f nd \<and> nd_body nd = Symlink l)
      (io_then (io_when (st_kind x \<noteq> S_IFLNK) (Safety ''publish_validation_failed''))
        (io_return \<lparr>pt_stat = x, pt_sha256 = None, pt_link_target = Some l\<rparr>))
      (publication sha s0 Mode_symlink (Some st) source parent sf c (sp_fd p) t) (\<lambda>_. only_added {} s0)"
    if l: "link_text s0 st source parent l" for l x
  proof (cases "st_kind x = S_IFLNK")
    case True
    then show ?thesis
      by (simp add: io_when_def io_then_def io_bind_def io_return_def quiet.holds_def triple_def quietly_def
          publication_def recorded_def published_as_def l) blast
  next
    case False
    then show ?thesis by (auto intro: q_conseq [OF q_False])
  qed
  have after: "qtriple sha (only_added {} s0)
      (io_then (io_symlink l (sp_fd p) t) (io_bind (entry_lstat_at (sp_fd p) t) (\<lambda>created.
       io_then (io_when (st_kind created \<noteq> S_IFLNK) (Safety ''publish_validation_failed''))
        (io_return \<lparr>pt_stat = created, pt_sha256 = None, pt_link_target = Some l\<rparr>))))
      (publication sha s0 Mode_symlink (Some st) source parent sf c (sp_fd p) t) (\<lambda>_. only_added {} s0)"
    if "link_text s0 st source parent l" for l
    by (rule quiet.holds_then, rule make, rule quiet.holds_bind, rule seen, rule finish [OF that])
  show ?thesis
    unfolding publish_symlink_at_def
    by (rule quiet.holds_bind, rule linktext, rule q_fact, rule quiet.holds_look_bind, intro looks_intros, assumption,
        rule quiet.holds_look_then, intro looks_intros, assumption, rule after)
qed

lemma q_pointwise:
  assumes "\<And>t. P t \<Longrightarrow> qtriple sha (\<lambda>s. s = t) m Q X"
  shows "qtriple sha P m Q X"
proof -
  have "qtriple sha (\<lambda>s. \<exists>t. P t \<and> s = t) m Q X"
    by (rule q_ex, rule q_fact, rule assms)
  then show ?thesis by (rule q_conseq) auto
qed

subsection \<open>The directory of the target\<close>

text \<open>\<open>d\<close> is what the path of \<open>parent\<close> names below the root.\<close>

definition names_directory :: "py_path \<Rightarrow> py_path \<Rightarrow> fid \<Rightarrow> fs \<Rightarrow> bool" where
  "names_directory base parent d s \<longleftrightarrow> (\<exists>parts rf nd. path_relative_to parent base = Some parts
     \<and> find_path False s base = Inr (rf, nd) \<and> fid_at s rf parts = Some d)"

lemma q_here: "qtriple sha (\<lambda>s. s = t) (io_read f) (\<lambda>x s. s = t \<and> f t = Inr x) (\<lambda>_ s. s = t)"
  by (rule q_conseq [OF q_read [where P = "\<lambda>s. s = t"]]) auto

lemma q_here_looks: "looks_only m \<Longrightarrow> qtriple sha (\<lambda>s. s = t) m (\<lambda>_ s. s = t) (\<lambda>_ s. s = t)"
  by (rule quiet.holds_looks)

lemma q_here_bind:
  assumes "qtriple sha (\<lambda>s. s = t) m (\<lambda>x s. s = t \<and> F x) X" and "\<And>x. F x \<Longrightarrow> qtriple sha (\<lambda>s. s = t) (k x) Q X"
  shows "qtriple sha (\<lambda>s. s = t) (io_bind m k) Q X"
proof (rule quiet.holds_bind)
  show "qtriple sha (\<lambda>s. s = t) m (\<lambda>x s. F x \<and> s = t) X"
    by (rule q_conseq [OF assms(1)]) auto
  show "qtriple sha (\<lambda>s. F x \<and> s = t) (k x) Q X" for x
    by (rule q_fact) (rule assms(2))
qed

lemma q_open_component:
  "qtriple sha (\<lambda>s. s = t) (open_directory_component n d) (\<lambda>f s. s = t \<and> entry t d n = Some f) (\<lambda>_ s. s = t)"
proof -
  have "sys_open_dir_at d n t = Inr f \<Longrightarrow> entry t d n = Some f" for f
    by (cases "find_in t d n") (auto simp: sys_open_dir_at_def open_directory_def find_in_entry split: node_body.splits)
  then have opened: "qtriple sha (\<lambda>s. s = t)
      (except_os (io_read (sys_open_dir_at d n)) (\<lambda>e. if e = ELOOP \<or> e = EMLINK then io_raise (Safety ''symlink_parent'')
         else if e = ENOTDIR then io_raise (Safety ''parent_not_directory'') else io_raise (OS_error e)))
      (\<lambda>f s. s = t \<and> entry t d n = Some f) (\<lambda>_ s. s = t)"
    by (intro quiet.holds_except_os [where Y = "\<lambda>_ s. s = t"] q_conseq [OF q_here]) (auto intro: quiet.holds_raise)
  show ?thesis
    unfolding open_directory_component_def
    by (rule q_here_bind [OF opened], rule quiet.holds_look_bind, intro looks_intros, assumption,
        rule quiet.holds_look_then, intro looks_intros, assumption, rule quiet.holds_return, simp)
qed

lemma q_descend_here:
  "qtriple sha (\<lambda>s. s = t) (descend False d parts) (\<lambda>f s. s = t \<and> fid_at t d parts = Some f) (\<lambda>_ s. s = t)"
proof (induction parts arbitrary: d)
  case Nil
  show ?case by (auto intro: quiet.holds_return)
next
  case (Cons part parts)
  have first: "qtriple sha (\<lambda>s. s = t)
      (io_catch (io_bind (open_directory_component part d) (\<lambda>f. io_return (f, False)))
        (\<lambda>e. if e = OS_error ENOENT \<and> False then make_component part d else io_raise e))
      (\<lambda>x s. s = t \<and> (snd x = False \<and> entry t d part = Some (fst x))) (\<lambda>_ s. s = t)"
    by (rule quiet.holds_catch, rule q_here_bind [OF q_open_component]) (auto intro!: quiet.holds_return quiet.holds_raise)
  show ?case
    unfolding descend.simps
  proof (rule q_here_bind [OF first])
    fix x :: "fid \<times> bool" assume "snd x = False \<and> entry t d part = Some (fst x)"
    then obtain f where x: "x = (f, False)" and e: "entry t d part = Some f" by (cases x) auto
    show "qtriple sha (\<lambda>s. s = t)
      (case x of (f, created) \<Rightarrow> io_then (if created then io_then (fsync_directory f) (fsync_directory d) else io_return ()) (descend False f parts))
      (\<lambda>f s. s = t \<and> fid_at t d (part # parts) = Some f) (\<lambda>_ s. s = t)"
      unfolding x prod.case if_False fid_at_entry e option.case
      by (rule quiet.holds_look_then, intro looks_intros, assumption, rule Cons.IH)
  qed
qed

lemma q_open_root_here:
  "qtriple sha (\<lambda>s. s = t) (open_root g) (\<lambda>f s. s = t \<and> (\<exists>nd. find_path False t (rg_path g) = Inr (f, nd))) (\<lambda>_ s. s = t)"
proof -
  have "sys_open_dir p t = Inr f \<Longrightarrow> \<exists>nd. find_path False t p = Inr (f, nd)" for f p
    by (cases "find_path False t p") (auto simp: sys_open_dir_def open_directory_def split: node_body.splits)
  then have opened: "qtriple sha (\<lambda>s. s = t)
      (except_os (io_read (sys_open_dir (rg_path g))) (\<lambda>e. io_raise (Safety (if e = ELOOP \<or> e = EMLINK then ''symlink_root'' else ''root_changed''))))
      (\<lambda>f s. s = t \<and> (\<exists>nd. find_path False t (rg_path g) = Inr (f, nd))) (\<lambda>_ s. s = t)"
    by (intro quiet.holds_except_os [where Y = "\<lambda>_ s. s = t"] q_conseq [OF q_here]) (auto intro: quiet.holds_raise)
  show ?thesis
    unfolding open_root_def
    by (rule q_here_bind [OF opened], rule quiet.holds_look_bind, intro looks_intros, assumption,
        rule quiet.holds_look_then, intro looks_intros, assumption, rule quiet.holds_return, simp)
qed

lemma q_open_parent_here:
  "qtriple sha (\<lambda>s. s = t) (open_secure_parent_directory g p False)
     (\<lambda>sp s. s = t \<and> names_directory (rg_path g) p (Fid (sp_device sp) (sp_inode sp)) t) (\<lambda>_ s. s = t)"
proof (cases "path_relative_to p (rg_path g)")
  case None
  then show ?thesis unfolding open_secure_parent_directory_def by (auto intro: quiet.holds_raise)
next
  case (Some parts)
  have stat: "qtriple sha (\<lambda>s. s = t) (io_fstat f) (\<lambda>st s. s = t \<and> Fid (st_dev st) (st_ino st) = f) (\<lambda>_ s. s = t)" for f
    unfolding io_fstat_def by (rule q_conseq [OF q_here]) (auto simp: sys_fstat_def split: option.splits)
  show ?thesis
    unfolding open_secure_parent_directory_def Some option.case
    by (rule q_here_bind [OF q_open_root_here], rule q_here_bind [OF q_descend_here], rule q_here_bind [OF stat], rule quiet.holds_return)
      (auto simp: names_directory_def Some)
qed

lemma q_stable_here:
  "qtriple sha (\<lambda>s. s = t) (assert_parent_path_stable p)
     (\<lambda>_ s. s = t \<and> names_directory (rg_path (sp_guard p)) (sp_path p) (Fid (sp_device p) (sp_inode p)) t) (\<lambda>_ s. s = t)"
proof -
  have reopened: "qtriple sha (\<lambda>s. s = t)
      (io_bind (open_secure_parent_directory (sp_guard p) (sp_path p) False) (\<lambda>reopened.
        io_when (sp_device reopened \<noteq> sp_device p \<or> sp_inode reopened \<noteq> sp_inode p) (Safety ''parent_changed'')))
     (\<lambda>_ s. s = t \<and> names_directory (rg_path (sp_guard p)) (sp_path p) (Fid (sp_device p) (sp_inode p)) t) (\<lambda>_ s. s = t)"
    by (rule q_here_bind [OF q_open_parent_here]) (auto simp: io_when_def intro!: quiet.holds_return quiet.holds_raise)
  have handler: "qtriple sha (\<lambda>s. s = t) (case e of
          Safety c \<Rightarrow> io_raise (if c = ''root_changed'' \<or> c = ''symlink_root'' then e else Safety ''parent_changed'')
        | OS_error x \<Rightarrow> io_raise (if x = ENOENT then Safety ''parent_changed'' else e)
        | _ \<Rightarrow> io_raise e) Q (\<lambda>_ s. s = t)" for e Q
    by (cases e) (auto intro: quiet.holds_raise)
  show ?thesis
    unfolding assert_parent_path_stable_def
    by (rule quiet.holds_look_then, intro looks_intros, assumption, rule quiet.holds_catch, rule reopened, rule handler)
qed

subsection \<open>Whole executions\<close>

definition pinned :: "root_guard \<Rightarrow> py_path \<Rightarrow> secure_parent \<Rightarrow> bool" where
  "pinned g parent p \<longleftrightarrow> sp_guard p = g \<and> sp_path p = parent \<and> Fid (sp_device p) (sp_inode p) = sp_fd p"

lemma q_open_pinned:
  "qtriple sha (only_added X s0) (open_secure_parent_directory g parent create)
     (\<lambda>p s. pinned g parent p \<and> only_added X s0 s) (\<lambda>_. only_added X s0)"
proof (cases "path_relative_to parent (rg_path g)")
  case None
  then show ?thesis unfolding open_secure_parent_directory_def by (auto intro: quiet.holds_raise)
next
  case (Some parts)
  have stat: "qtriple sha (only_added X s0) (io_fstat f) (\<lambda>st s. Fid (st_dev st) (st_ino st) = f \<and> only_added X s0 s) (\<lambda>_. only_added X s0)" for f
    unfolding io_fstat_def
    by (rule q_conseq [OF q_read [where P = "only_added X s0"]]) (auto simp: sys_fstat_def split: option.splits)
  show ?thesis
    unfolding open_secure_parent_directory_def Some option.case
    by (rule quiet.holds_look_bind, intro looks_intros, assumption, rule quiet.holds_bind, rule q_descend,
        rule quiet.holds_bind, rule stat, rule quiet.holds_return) (auto simp: pinned_def)
qed

lemma q_publish_at:
  assumes ok: "fs_ok s0" and src: "find_path False s0 source = Inr (sf, nd)" and body: "nd_body nd = Regular c"
    and fp: "fp_get fp ''sha256'' = JStr (sha c)"
  shows "qtriple sha (only_added {} s0) (publish_at mode style source target p fp)
    (publication sha s0 mode style source (path_parent target) sf c (sp_fd p) (path_name target)) (\<lambda>_. only_added {} s0)"
proof (cases mode)
  case Mode_copy
  then show ?thesis by (auto simp: publish_at_def intro: q_publish_copy [OF ok src body])
next
  case Mode_hardlink
  then show ?thesis by (auto simp: publish_at_def intro: q_publish_hardlink [where sha = sha, OF ok src body fp])
next
  case Mode_symlink
  then show ?thesis
    by (cases style) (auto simp: publish_at_def intro: q_publish_symlink quiet.holds_raise)
next
  case Mode_reference_only
  then show ?thesis by (auto simp: publish_at_def intro: quiet.holds_raise)
qed

lemma q_remove_created:
  "qtriple sha (publication sha s0 mode style source parent sf c (sp_fd p) n pt) (remove_created_target_at p n pt)
     (\<lambda>_. only_added {} s0) X"
  unfolding quiet.holds_def
proof (rule tripleI)
  fix w e w'
  assume w: "quietly sha (publication sha s0 mode style source parent sf c (sp_fd p) n pt) w"
  then obtain f body where "w_env w = []" "placed s0 (sp_fd p) n f body (w_fs w)" "recorded (w_sha w) f body pt (w_fs w)"
    by (auto simp: quietly_def publication_def)
  from remove_created_run [OF this refl] obtain t where t: "only_added {} s0 t"
    "remove_created_target_at p n pt w = (Inr (), w\<lparr>w_fs := t, w_log := w_log w @ [Did (A_unlink (sp_fd p) n f)]\<rparr>)" by blast
  show "quietly sha (X e) w'" if "remove_created_target_at p n pt w = (Inl e, w')" using that t by simp
  show "quietly sha (only_added {} s0) w'" if "remove_created_target_at p n pt w = (Inr x, w')" for x
    using that t w by (auto simp: quietly_def)
qed

text \<open>The target of a created placement, in the file system \<open>s\<close> after the execution: the path of its
  parent leads to a directory where the target is a new entry and the only one that is not a directory;
  the source, an unchanged regular file, is what it copies, shares or points to.\<close>

definition target_made ::
  "fs \<Rightarrow> placement_mode \<Rightarrow> symlink_style option \<Rightarrow> py_path \<Rightarrow> py_path \<Rightarrow> py_path \<Rightarrow> fid \<Rightarrow> pystr \<Rightarrow> fs \<Rightarrow> bool" where
  "target_made s0 mode style source base target sf c s \<longleftrightarrow>
     (\<exists>d f body. names_directory base (path_parent target) d s \<and> placed s0 d (path_name target) f body s
       \<and> published_as s0 mode style source (path_parent target) sf c f body)"

lemma q_publish_in_parent:
  assumes ok: "fs_ok s0" and src: "find_path False s0 source = Inr (sf, nd)" and body: "nd_body nd = Regular c"
    and fp: "fp_get fp ''sha256'' = JStr (sha c)" and pin: "pinned g (path_parent target) p"
  shows "qtriple sha (only_added {} s0) (publish_in_parent mode style source target fp p)
    (\<lambda>_. target_made s0 mode style source (rg_path g) target sf c) (\<lambda>_. only_added {} s0)"
proof -
  let ?pub = "publication sha s0 mode style source (path_parent target) sf c (sp_fd p) (path_name target)"
  have checked: "qtriple sha (?pub pt) (validated_publication mode style source fp (path_name target) p)
      (\<lambda>_. target_made s0 mode style source (rg_path g) target sf c) (\<lambda>_. ?pub pt)" for pt
  proof -
    have stable: "qtriple sha (?pub pt) (assert_parent_path_stable p)
      (\<lambda>_ s. ?pub pt s \<and> names_directory (rg_path g) (path_parent target) (sp_fd p) s) (\<lambda>_. ?pub pt)"
    proof (rule q_pointwise)
      fix t assume "?pub pt t"
      then show "qtriple sha (\<lambda>s. s = t) (assert_parent_path_stable p)
        (\<lambda>_ s. ?pub pt s \<and> names_directory (rg_path g) (path_parent target) (sp_fd p) s) (\<lambda>_. ?pub pt)"
        using pin by (intro q_conseq [OF q_stable_here [of sha t p]]) (auto simp: pinned_def)
    qed
    show ?thesis
      unfolding validated_publication_def
      by (rule quiet.holds_look_then, intro looks_intros, assumption, rule quiet.holds_look_bind, intro looks_intros, assumption,
          rule quiet.holds_look_then, intro looks_intros, assumption, rule quiet.holds_then, rule stable, rule quiet.holds_return)
        (auto simp: target_made_def publication_def)
  qed
  show ?thesis
    unfolding publish_in_parent_def
    by (rule quiet.holds_look_then, intro looks_intros, assumption, rule quiet.holds_look_then, intro looks_intros, assumption,
        rule quiet.holds_bind, rule q_publish_at [where sha = sha, OF ok src body fp], rule quiet.holds_catch, rule checked, rule quiet.holds_then,
        rule q_remove_created, rule quiet.holds_raise, assumption)
qed

lemma q_categorised:
  assumes "qtriple sha P m Q (\<lambda>_. R)"
  shows "qtriple sha P (categorised mode (Some ev) m) Q (\<lambda>_. R)"
proof -
  have failure: "qtriple sha R (io_then (record_failure ev l) (io_raise e)) Q (\<lambda>_. R)" for l e
    unfolding record_failure_def
    by (rule quiet.holds_then, rule quiet.holds_catch, rule q_journal [where X = "\<lambda>_. R"])
      (auto intro: quiet.holds_return quiet.holds_raise)
  have "qtriple sha R (case e of
         OS_error x \<Rightarrow> (let err = categorized_os_error mode x
            in io_then (case Some ev of None \<Rightarrow> io_return () | Some ev \<Rightarrow> record_failure ev (error_code err)) (io_raise err))
       | _ \<Rightarrow> if is_placement_error e
           then io_then (case Some ev of None \<Rightarrow> io_return () | Some ev \<Rightarrow> record_failure ev (error_code e)) (io_raise e)
           else io_raise e) Q (\<lambda>_. R)" for e
    by (cases e) (auto simp: Let_def intro: failure quiet.holds_raise)
  then show ?thesis unfolding categorised_def by (rule quiet.holds_catch [OF assms])
qed

text \<open>What an execution that created a placement returns\<close>

definition placement_made ::
  "(pystr \<Rightarrow> pystr) \<Rightarrow> fs \<Rightarrow> arc_plan \<Rightarrow> placement_result \<Rightarrow> fs \<Rightarrow> bool" where
  "placement_made sha s0 plan r s \<longleftrightarrow>
     (\<exists>canonical base source target sf nd c. ap_canonical plan = Some canonical \<and> ap_destination plan = Some base
       \<and> pr_target r = Some target \<and> sys_resolve True canonical s0 = Inr source
       \<and> find_path False s0 source = Inr (sf, nd) \<and> nd_body nd = Regular c
       \<and> pr_source r = regular_fingerprint (stat_of sf nd) (sha c)
       \<and> target_made s0 (pr_mode r) (pr_style r) source base target sf c s)"

lemma q_publish_placement:
  assumes ok: "fs_ok s0" and src: "find_path False s0 source = Inr (sf, nd)" and body: "nd_body nd = Regular c"
    and fp: "fp = regular_fingerprint (stat_of sf nd) (sha c)"
    and canonical: "ap_canonical plan = Some canonical" "sys_resolve True canonical s0 = Inr source"
    and base: "ap_destination plan = Some (rg_path g)"
  shows "qtriple sha (\<lambda>s. s = s0) (publish_placement plan mode style source target g fp)
    (\<lambda>r s. pr_state r = R_created \<and> placement_made sha s0 plan r s) (\<lambda>_. only_added {} s0)"
proof -
  have sha256: "fp_get fp ''sha256'' = JStr (sha c)" by (simp add: fp)
  have parent: "qtriple sha (only_added {} s0)
      (io_bind (open_secure_parent_directory g (path_parent target) True) (publish_in_parent mode style source target fp))
      (\<lambda>_. target_made s0 mode style source (rg_path g) target sf c) (\<lambda>_. only_added {} s0)"
    by (rule quiet.holds_bind, rule q_open_pinned, rule q_fact, rule q_publish_in_parent [where sha = sha, OF ok src body sha256])
  have made: "placement_made sha s0 plan (plan_result plan R_created (Some target) mode Managed style fp tfp) s"
    if "target_made s0 mode style source (rg_path g) target sf c s" for s tfp
    using that src body fp canonical base by (auto simp: placement_made_def plan_result_def)
  show ?thesis
    unfolding publish_placement_def Let_def
    by (rule quiet.holds_then, rule q_conseq [OF q_journal [where P = "only_added {} s0" and X = "\<lambda>_. only_added {} s0"]],
        use only_added_refl [OF ok] in simp, assumption, assumption,
        rule quiet.holds_bind, rule q_categorised, rule parent, rule quiet.holds_then, rule q_journal, rule quiet.holds_return)
      (auto simp: made, simp add: plan_result_def)
qed

lemma q_here_then: "looks_only m \<Longrightarrow> qtriple sha (\<lambda>s. s = t) k Q (\<lambda>_ s. s = t) \<Longrightarrow> qtriple sha (\<lambda>s. s = t) (io_then m k) Q (\<lambda>_ s. s = t)"
  by (rule quiet.holds_look_then)

lemma q_here_look: "looks_only m \<Longrightarrow> (\<And>x. qtriple sha (\<lambda>s. s = t) (f x) Q (\<lambda>_ s. s = t)) \<Longrightarrow>
    qtriple sha (\<lambda>s. s = t) (io_bind m f) Q (\<lambda>_ s. s = t)"
  by (rule quiet.holds_look_bind)

lemma q_here_safety:
  "qtriple sha (\<lambda>s. s = t) m (\<lambda>x s. s = t \<and> F x) (\<lambda>_ s. s = t) \<Longrightarrow>
   qtriple sha (\<lambda>s. s = t) (or_safety l m) (\<lambda>x s. s = t \<and> F x) (\<lambda>_ s. s = t)"
  unfolding or_safety_def by (rule quiet.holds_except_os) (auto intro: quiet.holds_raise)

lemma q_here_when:
  "qtriple sha (\<lambda>s. s = t) (io_when c e) (\<lambda>_ s. s = t \<and> \<not> c) (\<lambda>_ s. s = t)"
  by (auto simp: io_when_def intro: quiet.holds_return quiet.holds_raise)

lemma q_here_then_fact:
  assumes "qtriple sha (\<lambda>s. s = t) m (\<lambda>_ s. s = t \<and> F) X" and "F \<Longrightarrow> qtriple sha (\<lambda>s. s = t) k Q X"
  shows "qtriple sha (\<lambda>s. s = t) (io_then m k) Q X"
  unfolding io_then_def by (rule q_here_bind [OF assms])

definition is_fingerprint :: "(pystr \<Rightarrow> pystr) \<Rightarrow> fs \<Rightarrow> py_path \<Rightarrow> fingerprint \<Rightarrow> bool" where
  "is_fingerprint sha s p fp \<longleftrightarrow> (\<exists>f nd c. find_path False s p = Inr (f, nd) \<and> nd_body nd = Regular c
     \<and> fp = regular_fingerprint (stat_of f nd) (sha c))"

lemma q_fingerprint_here:
  "qtriple sha (\<lambda>s. s = t) (fingerprint_regular_nofollow p) (\<lambda>fp s. s = t \<and> is_fingerprint sha t p fp) (\<lambda>_ s. s = t)"
proof -
  have stat: "qtriple sha (\<lambda>s. s = t) (io_fstat f) (\<lambda>st s. s = t \<and> (\<exists>nd. node_of t f = Some nd \<and> st = stat_of f nd)) (\<lambda>_ s. s = t)" for f
    unfolding io_fstat_def by (rule q_conseq [OF q_here]) (auto simp: sys_fstat_def split: option.splits)
  have read: "qtriple sha (\<lambda>s. s = t) (io_read_all f) (\<lambda>d s. s = t \<and> (\<exists>nd. node_of t f = Some nd \<and> nd_body nd = Regular d)) (\<lambda>_ s. s = t)" for f
    unfolding io_read_all_def by (rule q_conseq [OF q_here]) (auto simp: sys_read_def split: option.splits node_body.splits)
  have hash: "qtriple sha (\<lambda>s. s = t) (io_sha d) (\<lambda>x s. s = t \<and> x = sha d) X" for d X
    by (rule q_sha)
  have descriptor: "qtriple sha (\<lambda>s. s = t) (fingerprint_regular_descriptor f)
      (\<lambda>fp s. s = t \<and> (\<exists>nd c. node_of t f = Some nd \<and> nd_body nd = Regular c \<and> fp = regular_fingerprint (stat_of f nd) (sha c))) (\<lambda>_ s. s = t)" for f
    unfolding fingerprint_regular_descriptor_def
    by (rule q_here_look, intro looks_intros, rule q_here_then, intro looks_intros, rule q_here_bind [OF read], rule q_here_bind [OF hash],
        rule q_here_bind [OF stat], rule q_here_then, intro looks_intros, rule quiet.holds_return) auto
  have opened: "qtriple sha (\<lambda>s. s = t) (or_safety ''source_changed''
       (io_bind (io_lstat p) (\<lambda>st1. io_bind (io_read (sys_open p)) (\<lambda>f. io_return (st1, f)))))
      (\<lambda>x s. s = t \<and> (\<exists>nd. find_path False t p = Inr (snd x, nd))) (\<lambda>_ s. s = t)"
    by (rule q_here_safety, rule q_here_look, intro looks_intros, rule q_here_bind [OF q_here], rule quiet.holds_return)
      (auto dest: sys_open_Inr)
  show ?thesis
    unfolding fingerprint_regular_nofollow_def
  proof (rule q_here_bind [OF opened])
    fix x :: "stat_result \<times> fid" assume "\<exists>nd. find_path False t p = Inr (snd x, nd)"
    then obtain st f nd where x: "x = (st, f)" and f: "find_path False t p = Inr (f, nd)" by (cases x) auto
    have "qtriple sha (\<lambda>s. s = t) (fingerprint_opened l st f (or_safety l' (io_lstat p))) (\<lambda>fp s. s = t \<and> is_fingerprint sha t p fp) (\<lambda>_ s. s = t)" for l l'
      unfolding fingerprint_opened_def
      by (rule q_here_look, intro looks_intros, rule q_here_then, intro looks_intros, rule q_here_bind [OF descriptor],
          rule q_here_look, intro looks_intros, rule q_here_then, intro looks_intros, rule quiet.holds_return)
        (use f in \<open>auto simp: is_fingerprint_def find_path_Inr\<close>)
    then show "qtriple sha (\<lambda>s. s = t) (case x of (st1, f) \<Rightarrow>
        io_then (if st_kind st1 \<noteq> S_IFREG then io_then (io_fstat f) (io_raise (Safety ''source_changed'')) else io_return ())
          (fingerprint_opened ''source_changed'' st1 f (or_safety ''source_changed'' (io_lstat p))))
        (\<lambda>fp s. s = t \<and> is_fingerprint sha t p fp) (\<lambda>_ s. s = t)"
      unfolding x prod.case by (intro q_here_then looks_intros)
  qed
qed

lemma q_source_here:
  "qtriple sha (\<lambda>s. s = t) (validated_regular_source c)
    (\<lambda>source s. s = t \<and> (\<exists>p. c = Some p \<and> sys_resolve True p t = Inr source)) (\<lambda>_ s. s = t)"
proof (cases c)
  case None
  then show ?thesis by (auto simp: validated_regular_source_def intro: quiet.holds_raise)
next
  case (Some p)
  have resolve: "qtriple sha (\<lambda>s. s = t) (or_safety ''source_unavailable''
           (io_bind (io_resolve p) (\<lambda>resolved. io_bind (io_stat resolved) (\<lambda>st. io_return (resolved, st)))))
      (\<lambda>x s. s = t \<and> sys_resolve True p t = Inr (fst x)) (\<lambda>_ s. s = t)"
    unfolding io_resolve_def
    by (rule q_here_safety, rule q_here_bind [OF q_here], rule q_here_look, intro looks_intros, rule quiet.holds_return) auto
  show ?thesis
    unfolding validated_regular_source_def Some option.case
    by (rule q_here_then, intro looks_intros, rule q_here_look, intro looks_intros, rule q_here_then, intro looks_intros,
        rule q_here_bind [OF resolve], split prod.split, intro allI impI, rule q_here_then, intro looks_intros, rule quiet.holds_return)
      auto
qed

lemma q_root_here:
  "qtriple sha (\<lambda>s. s = t) (validated_root r) (\<lambda>g s. s = t \<and> r = Some (rg_path g)) (\<lambda>_ s. s = t)"
proof (cases r)
  case None
  then show ?thesis by (auto simp: validated_root_def intro: quiet.holds_raise)
next
  case (Some p)
  show ?thesis
    unfolding validated_root_def Some option.case
    by (rule q_here_then, intro looks_intros, rule q_here_look, intro looks_intros, rule q_here_then, intro looks_intros,
        rule q_here_look, intro looks_intros, split prod.split, intro allI impI, rule q_here_look, intro looks_intros,
        rule q_here_then, intro looks_intros, rule quiet.holds_return) simp
qed

lemma q_checked_here:
  "qtriple sha (\<lambda>s. s = t) (checked_destination plan target)
    (\<lambda>x s. s = t \<and> (\<exists>p. ap_canonical plan = Some p \<and> sys_resolve True p t = Inr (fst x)) \<and> ap_destination plan = Some (rg_path (snd x)))
    (\<lambda>_ s. s = t)"
  unfolding checked_destination_def
  by (rule q_here_bind [OF q_source_here], rule q_here_bind [OF q_root_here], rule q_here_then, intro looks_intros, rule q_here_then,
      intro looks_intros, rule q_here_then, intro looks_intros, rule q_here_then, intro looks_intros, rule quiet.holds_return) simp

text \<open>The outcome of an execution from the file system \<open>s0\<close>\<close>

definition execution_outcome ::
  "(pystr \<Rightarrow> pystr) \<Rightarrow> fs \<Rightarrow> arc_plan \<Rightarrow> (exn, placement_result) result \<Rightarrow> fs \<Rightarrow> bool" where
  "execution_outcome sha s0 plan r s \<longleftrightarrow> (case r of
     Inl e \<Rightarrow> only_added {} s0 s
   | Inr x \<Rightarrow> if pr_state x = R_created then placement_made sha s0 plan x s else s = s0)"

lemma q_existing_here:
  "qtriple sha (\<lambda>s. s = t) (resolve_existing_target pl m st s fp tg ex)
    (\<lambda>r s. s = t \<and> (case r of None \<Rightarrow> True | Some x \<Rightarrow> pr_state x \<noteq> R_created)) (\<lambda>_ s. s = t)"
  unfolding quiet.holds_def
proof (rule tripleI)
  fix w e w' assume "quietly sha (\<lambda>s. s = t) w" "resolve_existing_target pl m st s fp tg ex w = (Inl e, w')"
  then show "quietly sha (\<lambda>s. s = t) w'"
    using quiet.emb_looks [OF looks.keepsD [OF looks_resolve_existing]] by blast
next
  fix w r w' assume w: "quietly sha (\<lambda>s. s = t) w" and run: "resolve_existing_target pl m st s fp tg ex w = (Inr r, w')"
  have "quietly sha (\<lambda>s. s = t) w'"
    using quiet.emb_looks [OF looks.keepsD [OF looks_resolve_existing run] w] .
  moreover have "case r of None \<Rightarrow> True | Some x \<Rightarrow> pr_state x \<noteq> R_created"
    using ltripleD [OF resolve_existing_log, of w "w_log w" pl m st s fp tg ex] run by auto
  ultimately show "quietly sha (\<lambda>s. s = t \<and> (case r of None \<Rightarrow> True | Some x \<Rightarrow> pr_state x \<noteq> R_created)) w'"
    by (simp add: quietly_def)
qed

lemma only_added_here: "fs_ok s0 \<Longrightarrow> qtriple sha (\<lambda>s. s = s0) m Q (\<lambda>_ s. s = s0) \<Longrightarrow> qtriple sha (\<lambda>s. s = s0) m Q (\<lambda>_. only_added {} s0)"
  by (erule q_conseq) (auto simp: only_added_refl)

lemma q_look_outcome:
  "fs_ok s0 \<Longrightarrow> looks_only m \<Longrightarrow> qtriple sha (\<lambda>s. s = s0) k Q (\<lambda>_. only_added {} s0) \<Longrightarrow>
   qtriple sha (\<lambda>s. s = s0) (io_then m k) Q (\<lambda>_. only_added {} s0)"
  by (rule quiet.holds_look_then) (simp_all add: only_added_refl)

lemma q_raise_outcome: "fs_ok s0 \<Longrightarrow> qtriple sha (\<lambda>s. s = s0) (io_raise e) Q (\<lambda>_. only_added {} s0)"
  by (rule quiet.holds_raise) (simp add: only_added_refl)

lemma q_execute_free:
  assumes ok: "fs_ok s0" and found: "case found of None \<Rightarrow> True | Some x \<Rightarrow> pr_state x \<noteq> R_created"
    and fp: "is_fingerprint sha s0 source fp" and canonical: "ap_canonical plan = Some p" "sys_resolve True p s0 = Inr source"
    and base: "ap_destination plan = Some (rg_path g)"
  shows "qtriple sha (\<lambda>s. s = s0) (execute_free plan existing mode style pv source g fp target found)
    (\<lambda>r. execution_outcome sha s0 plan (Inr r)) (\<lambda>_. only_added {} s0)"
proof (cases found)
  case None
  from fp obtain f nd c where "find_path False s0 source = Inr (f, nd)" "nd_body nd = Regular c"
    "fp = regular_fingerprint (stat_of f nd) (sha c)" by (auto simp: is_fingerprint_def)
  from q_publish_placement [where sha = sha, OF ok this canonical base]
  have "qtriple sha (\<lambda>s. s = s0) (publish_placement plan mode style source target g fp)
      (\<lambda>r. execution_outcome sha s0 plan (Inr r)) (\<lambda>_. only_added {} s0)"
    by (rule q_conseq) (auto simp: execution_outcome_def)
  then have "qtriple sha (\<lambda>s. s = s0)
      (io_then (io_when (pv_state pv \<noteq> Pv_ready) (Safety ''preview_not_ready''))
        (io_then (case existing of None \<Rightarrow> io_return () | Some ev \<Rightarrow> io_of_result (validate_managed_evidence ev plan mode style target fp))
          (publish_placement plan mode style source target g fp)))
      (\<lambda>r. execution_outcome sha s0 plan (Inr r)) (\<lambda>_. only_added {} s0)"
    by (intro q_look_outcome [OF ok] looks_intros)
  then show ?thesis using None by (auto simp: execute_free_def raise_from_preview_def q_raise_outcome [OF ok])
next
  case (Some r)
  with found show ?thesis by (auto intro: quiet.holds_return simp: execute_free_def execution_outcome_def)
qed

lemma q_execute_target:
  assumes ok: "fs_ok s0"
  shows "qtriple sha (\<lambda>s. s = s0) (execute_target plan existing prep mode style pv target)
    (\<lambda>r. execution_outcome sha s0 plan (Inr r)) (\<lambda>_. only_added {} s0)"
  unfolding execute_target_def
proof (rule q_here_bind [OF only_added_here [OF ok q_checked_here]], split prod.split, intro allI impI)
  fix x and source and g :: root_guard
  assume x: "x = (source, g)"
    and checked: "(\<exists>p. ap_canonical plan = Some p \<and> sys_resolve True p s0 = Inr (fst x)) \<and> ap_destination plan = Some (rg_path (snd x))"
  then obtain p where c: "ap_canonical plan = Some p" "sys_resolve True p s0 = Inr source" "ap_destination plan = Some (rg_path g)"
    by auto
  show "qtriple sha (\<lambda>s. s = s0) (io_bind (fingerprint_regular_nofollow source) (\<lambda>source_fp.
     io_then (io_of_result (check_preparation prep (plan_preparation plan target mode style source_fp g)))
     (io_bind (resolve_existing_target plan mode style source source_fp target existing)
       (execute_free plan existing mode style pv source g source_fp target))))
    (\<lambda>r. execution_outcome sha s0 plan (Inr r)) (\<lambda>_. only_added {} s0)"
    by (rule q_here_bind [OF only_added_here [OF ok q_fingerprint_here]], rule q_look_outcome [OF ok], intro looks_intros,
        rule q_here_bind [OF only_added_here [OF ok q_existing_here]], rule q_execute_free [OF ok _ _ c])
qed

lemma q_execute:
  assumes ok: "fs_ok s0"
  shows "qtriple sha (\<lambda>s. s = s0) (execute_story_arc_placement plan existing prep)
    (\<lambda>r. execution_outcome sha s0 plan (Inr r)) (\<lambda>_. only_added {} s0)"
proof -
  have refused: "qtriple sha (\<lambda>s. s = s0) (io_then (io_when c e) (io_return (plan_result plan R_reference_only tg m own st fp tfp)))
      (\<lambda>r. execution_outcome sha s0 plan (Inr r)) (\<lambda>_. only_added {} s0)" for c e tg m own st fp tfp
    by (rule q_look_outcome [OF ok], intro looks_intros, rule quiet.holds_return) (simp add: execution_outcome_def plan_result_def)
  show ?thesis
    unfolding execute_story_arc_placement_def
    by (rule quiet.holds_look_bind, intro looks_intros, simp add: only_added_refl ok, split prod.split, intro allI impI,
        rule q_look_outcome [OF ok], intro looks_intros)
      (auto intro!: refused q_look_outcome [OF ok] looks_intros quiet.holds_look_bind q_execute_target [OF ok] q_raise_outcome [OF ok]
        simp: only_added_refl ok raise_from_preview_def split: option.split)
qed

text \<open>C2. Where nobody else acts, no call fails and the journal raises nothing, an execution that fails, is refused or
  is cancelled at any moment has left the file system as it was but for new directories: no temporary file, no
  target, nothing changed or lost. One that reports a created placement has made just the target: the path of the
  target leads to a new entry, which is a new file with the content of the source, the source itself, or a symbolic link
  to it, and the source is as it was. Any other result means that nothing was done.\<close>

theorem execution_all_or_nothing:
  assumes "w_env w = []" and "w_faults w = []" and "fs_ok (w_fs w)"
  shows "execution_outcome (w_sha w) (w_fs w) plan (fst (execute_story_arc_placement plan existing prep w))
    (w_fs (snd (execute_story_arc_placement plan existing prep w)))"
proof -
  have w: "quietly (w_sha w) (\<lambda>s. s = w_fs w) w" using assms by (simp add: quietly_def)
  note run = tripleD [OF q_execute [OF assms(3), of "w_sha w" plan existing prep, unfolded quiet.holds_def] w]
  show ?thesis
  proof (cases "execute_story_arc_placement plan existing prep w")
    case (Pair r w')
    then show ?thesis
      using run by (cases r) (auto simp: quietly_def execution_outcome_def)
  qed
qed

text \<open>A file system with the issue \<open>/l/x.cbz\<close> and the empty root \<open>/a\<close>, and a plan for it\<close>

definition sample_node :: "node_body \<Rightarrow> node" where
  "sample_node body = \<lparr>nd_body = body, nd_mode = 420, nd_atime = 1, nd_mtime = 2, nd_ctime = 3\<rparr>"

definition sample_fs :: fs where
  "sample_fs = \<lparr>fs_nodes = [(Fid 1 1, sample_node (Directory [(''l'', Fid 1 2), (''a'', Fid 1 3)])),
     (Fid 1 2, sample_node (Directory [(''x.cbz'', Fid 1 4)])), (Fid 1 3, sample_node (Directory [])),
     (Fid 1 4, sample_node (Regular ''pq''))], fs_root = Fid 1 1, fs_cwd = [], fs_clock = 50, fs_next = 10\<rparr>"

definition sample_world :: world where
  "sample_world = \<lparr>w_fs = sample_fs, w_env = [], w_cancel = [], w_faults = [], w_token = (\<lambda>_. ''t''), w_drawn = 0,
     w_sha = (\<lambda>s. s), w_log = []\<rparr>"

definition sample_arc_plan :: arc_plan where
  "sample_arc_plan = \<lparr>ap_issue = 5, ap_library_file = Some 3, ap_canonical = Some (PPath True [''l'', ''x.cbz'']),
     ap_destination = Some (PPath True [''a'']), ap_values = sample_arc, ap_mode = ''copy'', ap_style = None,
     ap_folder_template = Some ''{StoryArc}'', ap_file_template = Some ''{Series}'', ap_adopt = False\<rparr>"

lemma sample_fs_ok: "fs_ok sample_fs"
  by code_simp

theorem execution_all_or_nothing_witness:
  "execution_outcome (w_sha sample_world) (w_fs sample_world) sample_arc_plan
     (fst (execute_story_arc_placement sample_arc_plan None None sample_world))
     (w_fs (snd (execute_story_arc_placement sample_arc_plan None None sample_world)))"
  by (rule execution_all_or_nothing) (simp_all add: sample_world_def sample_fs_ok)

end
