(* ===== verification/Arc_Tables.thy ===== *)
theory Arc_Tables
  imports Arc_Placement
begin

text \<open>
  The tables that the story-arc synchronisation reads and writes, as far as it uses them: the work
  rows (\<open>models/story_arc_sync.py\<close>), library files, memberships, arcs and placements
  (\<open>models/library.py\<close>, \<open>models/story_arc.py\<close>), import jobs with their actions and staged arcs
  (\<open>models/import_job.py\<close>, \<open>models/story_arc_import.py\<close>). A table is the list of its rows; a row
  holds the columns the code uses, a JSON column its document. Columns that only rows of one table
  are copied to are kept together.
\<close>

subsection \<open>Enumerations\<close>

datatype arc_lifecycle = Arc_ACTIVE | Arc_ARCHIVED

datatype resolution_state = Res_PENDING | Res_RESOLVED | Res_MISSING | Res_AMBIGUOUS | Res_CONFLICT | Res_SKIPPED

datatype arc_source_kind = Src_LEGACY | Src_PULLBOX | Src_MYLAR3 | Src_FOLDER | Src_COMICINFO | Src_PROVIDER

datatype placement_state = Pl_CURRENT | Pl_MISSING | Pl_DRIFTED | Pl_FAILED

datatype staged_status = Staged_DETECTED | Staged_NEEDS_REVIEW | Staged_READY | Staged_CONFIRMED | Staged_SKIPPED
  | Staged_IMPORTED | Staged_FAILED

datatype sync_state = Sync_QUEUED | Sync_RUNNING | Sync_RETRY_WAIT | Sync_FAILED | Sync_COMPLETED | Sync_CANCELLED

datatype sync_reason = Reason_CANONICAL_REGISTERED | Reason_DISCREPANCY_RECOVERY

datatype import_status = Imp_PENDING | Imp_SCANNING | Imp_PAUSING | Imp_PAUSED | Imp_ANALYZING | Imp_MATCHING
  | Imp_FILE_MATCHING | Imp_REVIEW | Imp_IMPORTING | Imp_STALLED | Imp_CANCELLING | Imp_ROLLING_BACK | Imp_ROLLED_BACK
  | Imp_COMPLETED | Imp_FAILED | Imp_CANCELLED

datatype import_control = Control_NONE | Control_PAUSE | Control_CANCEL

datatype action_status = Action_COMPLETED | Action_ROLLED_BACK | Action_ROLLBACK_FAILED

subsection \<open>Rows\<close>

record library_file =
  lf_id :: int
  lf_issue :: "int option"
  lf_path :: pystr
  lf_size :: int
  lf_modified :: timestamp
  lf_hash :: "pystr option"
  lf_signature :: json

record membership =
  ms_id :: int
  ms_arc :: int
  ms_issue :: "int option"
  ms_sequence :: int
  ms_resolution :: resolution_state
  ms_sync_eligible :: bool
  ms_evidence :: json

record story_arc =
  sa_id :: int
  sa_lifecycle :: arc_lifecycle
  sa_sync_enabled :: bool
  sa_schema :: "int option"
  sa_policy :: json
  sa_revision :: int

text \<open>The columns of a work row that describe the file it was made for\<close>

record file_columns =
  fc_path :: pystr
  fc_size :: int
  fc_modified :: timestamp
  fc_hash :: "pystr option"
  fc_schema :: "int option"
  fc_resolved :: "pystr option"
  fc_sig_size :: "int option"
  fc_mtime_ns :: "int option"
  fc_device :: "int option"
  fc_inode :: "int option"

record sync_work =
  sw_id :: int
  sw_created :: timestamp
  sw_membership :: int
  sw_file :: int
  sw_origin_action :: "int option"
  sw_origin_job :: "int option"
  sw_origin_arc :: "int option"
  sw_origin_entry :: "int option"
  sw_generation :: pystr
  sw_source_hash :: pystr
  sw_columns :: file_columns
  sw_revision :: int
  sw_sequence :: int
  sw_schema :: int
  sw_reason :: sync_reason
  sw_state :: sync_state
  sw_claimable :: bool
  sw_attempts :: int
  sw_next_attempt :: "timestamp option"
  sw_token :: "pystr option"
  sw_claimed_at :: "timestamp option"
  sw_cancel_requested :: "timestamp option"
  sw_error :: "(pystr \<times> pystr \<times> pystr) option"
  sw_result :: json

record import_job =
  ij_id :: int
  ij_status :: import_status
  ij_control :: import_control
  ij_snapshot :: json
  ij_snapshot_revision :: int
  ij_import_started :: "timestamp option"
  ij_import_completed :: "timestamp option"
  ij_error :: "pystr option"
  ij_followup :: bool
  ij_waiting_work :: "int option"

record import_action =
  ia_id :: int
  ia_job :: int
  ia_phase :: pystr
  ia_type :: pystr
  ia_status :: action_status
  ia_payload :: json

record staged_arc =
  sg_id :: int
  sg_job :: int
  sg_status :: staged_status
  sg_arc :: "int option"

record staged_entry =
  se_id :: int
  se_arc :: int
  se_membership :: "int option"
  se_issue :: "int option"
  se_resolution :: resolution_state

record placement_row =
  pl_id :: int
  pl_membership :: int
  pl_file :: "int option"
  pl_mode :: placement_mode
  pl_ownership :: ownership
  pl_source_kind :: arc_source_kind
  pl_job :: "int option"
  pl_action :: "int option"
  pl_order :: "int option"
  pl_schema :: "int option"
  pl_token :: "pystr option"
  pl_state :: placement_state
  pl_result :: json

record arc_tables =
  at_files :: "library_file list"
  at_memberships :: "membership list"
  at_arcs :: "story_arc list"
  at_work :: "sync_work list"
  at_next_work :: int
  at_jobs :: "import_job list"
  at_actions :: "import_action list"
  at_staged_arcs :: "staged_arc list"
  at_staged_entries :: "staged_entry list"
  at_placements :: "placement_row list"

subsection \<open>Statements\<close>

text \<open>A row by its key, and the joins of the queries: the rows of the first table with the rows they refer to\<close>

definition row_by :: "('a \<Rightarrow> int) \<Rightarrow> int \<Rightarrow> 'a list \<Rightarrow> 'a option" where
  "row_by key i rows = find (\<lambda>r. key r = i) rows"

definition row_ref :: "('a \<Rightarrow> int) \<Rightarrow> int option \<Rightarrow> 'a list \<Rightarrow> 'a option" where
  "row_ref key i rows = (case i of None \<Rightarrow> None | Some k \<Rightarrow> row_by key k rows)"

text \<open>\<open>UPDATE story_arc_sync_work SET ... WHERE ...\<close>: the number of changed rows, and the table after it\<close>

definition update_work :: "(sync_work \<Rightarrow> bool) \<Rightarrow> (sync_work \<Rightarrow> sync_work) \<Rightarrow> arc_tables \<Rightarrow> nat \<times> arc_tables" where
  "update_work selected f t =
     (length (filter selected (at_work t)),
      t\<lparr>at_work := map (\<lambda>w. if selected w then f w else w) (at_work t)\<rparr>)"

definition put_import_job :: "import_job \<Rightarrow> arc_tables \<Rightarrow> arc_tables" where
  "put_import_job j t = t\<lparr>at_jobs := map (\<lambda>k. if ij_id k = ij_id j then j else k) (at_jobs t)\<rparr>"

definition put_import_action :: "import_action \<Rightarrow> arc_tables \<Rightarrow> arc_tables" where
  "put_import_action a t = t\<lparr>at_actions := map (\<lambda>b. if ia_id b = ia_id a then a else b) (at_actions t)\<rparr>"

text \<open>\<open>column["key"].as_string()\<close> compared with a text, and \<open>dict(column or {}).get(key)\<close> compared with one\<close>

definition json_is :: "json \<Rightarrow> pystr \<Rightarrow> pystr \<Rightarrow> bool" where
  "json_is d k s \<longleftrightarrow> json_get d k = Some (JStr s)"

text \<open>\<open>isinstance(v, int) and not isinstance(v, bool)\<close>, and the same with \<open>v > 0\<close>\<close>

definition json_whole :: "json option \<Rightarrow> int option" where
  "json_whole v = (case v of Some (JInt n) \<Rightarrow> Some n | _ \<Rightarrow> None)"

definition positive_int :: "json option \<Rightarrow> int option" where
  "positive_int v = (case json_whole v of Some n \<Rightarrow> if 0 < n then Some n else None | None \<Rightarrow> None)"

definition positive :: "int option \<Rightarrow> bool" where
  "positive v = (case v of Some n \<Rightarrow> 0 < n | None \<Rightarrow> False)"

definition json_keys :: "json \<Rightarrow> pystr list" where
  "json_keys d = map fst (json_items d)"

lemma row_by_Some: "row_by key i rows = Some r \<Longrightarrow> r \<in> set rows \<and> key r = i"
  by (auto simp: row_by_def find_Some_iff in_set_conv_nth)

lemma row_by_unique: "distinct (map key rows) \<Longrightarrow> r \<in> set rows \<Longrightarrow> row_by key (key r) rows = Some r"
  unfolding row_by_def by (induction rows) (auto simp: image_iff)

lemma row_by_filter:
  "distinct (map key ws) \<Longrightarrow> row_by key i (filter P ws) =
     (case row_by key i ws of None \<Rightarrow> None | Some w \<Rightarrow> if P w then Some w else None)"
proof (induction ws)
  case (Cons w ws)
  have "row_by key i ws = None" if "key w = i"
    using Cons.prems that by (auto simp: row_by_def find_None_iff) (metis imageI)
  with Cons show ?case by (auto simp: row_by_def)
qed (simp add: row_by_def)

lemma update_work_tables [simp]:
  "at_jobs (snd (update_work P f t)) = at_jobs t" "at_files (snd (update_work P f t)) = at_files t"
  "at_memberships (snd (update_work P f t)) = at_memberships t" "at_arcs (snd (update_work P f t)) = at_arcs t"
  "at_actions (snd (update_work P f t)) = at_actions t" "at_placements (snd (update_work P f t)) = at_placements t"
  "at_staged_arcs (snd (update_work P f t)) = at_staged_arcs t"
  "at_staged_entries (snd (update_work P f t)) = at_staged_entries t" "at_next_work (snd (update_work P f t)) = at_next_work t"
  by (simp_all add: update_work_def)

end
