(* ===== verification/Arc_Sync_Queue.thy ===== *)
theory Arc_Sync_Queue
  imports Arc_Tables "HOL-Library.Option_ord"
begin

text \<open>
  The durable queue of story-arc synchronisation (\<open>services/story_arc_sync_queue.py\<close>): which work is
  made, how a worker leases a work row, and how the row records what came of it. Every operation is
  one transaction on the tables. The hash of a JSON document, the text of an instant in it and the
  claim token are arguments, and so is what a database makes of a JSON value of another type than
  the column (\<open>sql_cast\<close>).
\<close>

subsection \<open>Constants\<close>

definition STORY_ARC_PLACEMENT_POLICY_SCHEMA_VERSION :: int where "STORY_ARC_PLACEMENT_POLICY_SCHEMA_VERSION = 1"
definition MAX_STORY_ARC_SYNC_BATCH_SIZE :: int where "MAX_STORY_ARC_SYNC_BATCH_SIZE = 100"
definition MAX_STORY_ARC_SYNC_ENQUEUE_MEMBERSHIPS :: nat where "MAX_STORY_ARC_SYNC_ENQUEUE_MEMBERSHIPS = 200"
definition DEFAULT_STORY_ARC_DISCOVERY_LIMIT :: int where "DEFAULT_STORY_ARC_DISCOVERY_LIMIT = 200"

definition CLAIM_LEASE :: timestamp where "CLAIM_LEASE = 15 * 60 * 1000000"
definition MAX_ATTEMPTS :: int where "MAX_ATTEMPTS = 5"
definition RETRY_DELAYS :: "timestamp list" where
  "RETRY_DELAYS = [30 * 1000000, 2 * 60 * 1000000, 10 * 60 * 1000000, 30 * 60 * 1000000, 60 * 60 * 1000000]"

definition POLICY_KEYS :: "pystr list" where
  "POLICY_KEYS = [''schema_version'', ''mode'', ''target_library_root_id'', ''destination_root'', ''folder_template'',
     ''file_template'', ''symlink_style'', ''synchronize'']"

definition IMPORT_PLACEMENT_ACTION_TYPE :: pystr where
  "IMPORT_PLACEMENT_ACTION_TYPE = ''story_arc_managed_placement_requested''"
definition IMPORT_PLACEMENT_PHASE :: pystr where "IMPORT_PLACEMENT_PHASE = ''story_arc_placements''"
definition STARTUP_RECOVERY_PAUSE_REASON :: pystr where "STARTUP_RECOVERY_PAUSE_REASON = ''startup_recovery''"

definition IMPORT_PLACEMENT_PAYLOAD_KEYS :: "pystr list" where
  "IMPORT_PLACEMENT_PAYLOAD_KEYS = [''schema_version'', ''sync_work_id'', ''membership_id'', ''desired_generation'',
     ''imported_story_arc_id'', ''imported_story_arc_entry_id'', ''source_import_job_id'']"

definition RETRYABLE_ERROR_CODES :: "pystr list" where
  "RETRYABLE_ERROR_CODES = [''placement_concurrency_conflict'', ''placement_execution_failed'']"

text \<open>The errors of the queue: a database constraint, \<open>ValueError\<close>, \<open>StoryArcPlacementIntegrationError\<close> with code
  and category, \<open>NotFoundError\<close>, \<open>ValidationError\<close>, the two job control errors and \<open>RuntimeError\<close>\<close>

datatype sync_error = Integrity_error | Bad_value | Integration pystr pystr | Not_found | Invalid
  | Job_cancelled | Job_paused | Runtime_fault

subsection \<open>Generations\<close>

record hashing =
  hs_digest :: "json \<Rightarrow> pystr"
  hs_time :: "timestamp \<Rightarrow> pystr"

definition source_signature_hash :: "hashing \<Rightarrow> library_file \<Rightarrow> pystr" where
  "source_signature_hash hs f = hs_digest hs (JObj
     [(''file_path'', JStr (lf_path f)), (''file_size'', JInt (lf_size f)),
      (''file_modified_at'', JStr (hs_time hs (lf_modified f))), (''file_hash'', json_opt_str (lf_hash f)),
      (''source_signature'', lf_signature f)])"

definition signature_int :: "library_file \<Rightarrow> pystr \<Rightarrow> int option" where
  "signature_int f k = json_whole (json_get (lf_signature f) k)"

definition signature_path :: "library_file \<Rightarrow> pystr option" where
  "signature_path f = (case json_get (lf_signature f) ''resolved_path'' of Some (JStr s) \<Rightarrow> Some s | _ \<Rightarrow> None)"

definition desired_generation :: "hashing \<Rightarrow> library_file \<Rightarrow> membership \<Rightarrow> story_arc \<Rightarrow> pystr \<times> pystr" where
  "desired_generation hs f m a =
     (let source = source_signature_hash hs f
      in (hs_digest hs (JObj
            [(''library_file_id'', JInt (lf_id f)), (''source_signature_hash'', JStr source),
             (''issue_story_arc_id'', JInt (ms_id m)), (''sequence_number'', JInt (ms_sequence m)),
             (''story_arc_revision'', JInt (sa_revision a)), (''policy_schema_version'', json_opt_int (sa_schema a))]),
          source))"

text \<open>\<open>isinstance(v, str) and bool(v.strip())\<close>\<close>

definition filled_str :: "json option \<Rightarrow> bool" where
  "filled_str v = (case v of Some (JStr s) \<Rightarrow> py_strip s \<noteq> [] | _ \<Rightarrow> False)"

definition same_value :: "json option \<Rightarrow> json \<Rightarrow> bool" where
  "same_value v w = (case v of Some x \<Rightarrow> py_eq x w | None \<Rightarrow> False)"

definition automatic_sync_enabled :: "story_arc \<Rightarrow> bool" where
  "automatic_sync_enabled a \<longleftrightarrow>
     (let s = sa_policy a in
      sa_lifecycle a = Arc_ACTIVE \<and> sa_sync_enabled a
      \<and> sa_schema a = Some STORY_ARC_PLACEMENT_POLICY_SCHEMA_VERSION
      \<and> set (json_keys s) = set POLICY_KEYS
      \<and> same_value (json_get s ''schema_version'') (JInt STORY_ARC_PLACEMENT_POLICY_SCHEMA_VERSION)
      \<and> json_get s ''synchronize'' = Some (JBool True)
      \<and> \<not> json_is s ''mode'' ''logical''
      \<and> filled_str (json_get s ''destination_root'')
      \<and> json_whole (json_get s ''target_library_root_id'') \<noteq> None)"

subsection \<open>Making work\<close>

text \<open>What the statements ask of a membership and its arc before the policy is read\<close>

definition eligible_rows :: "membership \<Rightarrow> story_arc \<Rightarrow> bool" where
  "eligible_rows m a \<longleftrightarrow> ms_sync_eligible m \<and> ms_resolution m = Res_RESOLVED \<and> sa_lifecycle a = Arc_ACTIVE
     \<and> sa_sync_enabled a \<and> sa_schema a = Some STORY_ARC_PLACEMENT_POLICY_SCHEMA_VERSION"

definition arc_of :: "arc_tables \<Rightarrow> membership \<Rightarrow> story_arc option" where
  "arc_of t m = row_by sa_id (ms_arc m) (at_arcs t)"

definition eligible_memberships_for_issue :: "arc_tables \<Rightarrow> int \<Rightarrow> (membership \<times> story_arc) list" where
  "eligible_memberships_for_issue t issue =
     filter (\<lambda>(m, a). automatic_sync_enabled a)
       (take MAX_STORY_ARC_SYNC_ENQUEUE_MEMBERSHIPS
         (List.map_filter (\<lambda>m. case arc_of t m of
              Some a \<Rightarrow> if ms_issue m = Some issue \<and> eligible_rows m a then Some (m, a) else None
            | None \<Rightarrow> None)
           (sort_key ms_id (at_memberships t))))"

definition file_columns_of :: "library_file \<Rightarrow> file_columns" where
  "file_columns_of f =
     \<lparr>fc_path = lf_path f, fc_size = lf_size f, fc_modified = lf_modified f, fc_hash = lf_hash f,
      fc_schema = signature_int f ''schema_version'', fc_resolved = signature_path f, fc_sig_size = signature_int f ''size'',
      fc_mtime_ns = signature_int f ''mtime_ns'', fc_device = signature_int f ''device'', fc_inode = signature_int f ''inode''\<rparr>"

definition schema_or_default :: "story_arc \<Rightarrow> int" where
  "schema_or_default a = (case sa_schema a of
     Some v \<Rightarrow> if v = 0 then STORY_ARC_PLACEMENT_POLICY_SCHEMA_VERSION else v
   | None \<Rightarrow> STORY_ARC_PLACEMENT_POLICY_SCHEMA_VERSION)"

definition new_work :: "hashing \<Rightarrow> timestamp \<Rightarrow> sync_reason \<Rightarrow> library_file \<Rightarrow> membership \<times> story_arc \<Rightarrow> sync_work" where
  "new_work hs now reason f p = (case p of (m, a) \<Rightarrow>
     \<lparr>sw_id = 0, sw_created = now, sw_membership = ms_id m, sw_file = lf_id f, sw_origin_action = None, sw_origin_job = None,
      sw_origin_arc = None, sw_origin_entry = None, sw_generation = fst (desired_generation hs f m a),
      sw_source_hash = snd (desired_generation hs f m a), sw_columns = file_columns_of f, sw_revision = sa_revision a,
      sw_sequence = ms_sequence m, sw_schema = schema_or_default a, sw_reason = reason, sw_state = Sync_QUEUED,
      sw_claimable = True, sw_attempts = 0, sw_next_attempt = None, sw_token = None, sw_claimed_at = None,
      sw_cancel_requested = None, sw_error = None, sw_result = JObj []\<rparr>)"

definition work_key :: "sync_work \<Rightarrow> int \<times> pystr" where
  "work_key w = (sw_membership w, sw_generation w)"

text \<open>\<open>INSERT\<close>: identifiers are assigned in order, and the two unique constraints are checked.\<close>

definition origin_actions :: "sync_work list \<Rightarrow> int list" where
  "origin_actions ws = List.map_filter sw_origin_action ws"

definition with_ids :: "int \<Rightarrow> sync_work list \<Rightarrow> sync_work list" where
  "with_ids next_id ws = map (\<lambda>(i, w). w\<lparr>sw_id := next_id + int i\<rparr>) (enumerate 0 ws)"

definition insert_work :: "sync_work list \<Rightarrow> arc_tables \<Rightarrow> (sync_error, sync_work list \<times> arc_tables) result" where
  "insert_work ws t =
     (let new = with_ids (at_next_work t) ws; work = at_work t @ new
      in if distinct (map work_key work) \<and> distinct (origin_actions work)
         then Inr (new, t\<lparr>at_work := work, at_next_work := at_next_work t + int (length ws)\<rparr>)
         else Inl Integrity_error)"

definition enqueue_pairs ::
  "hashing \<Rightarrow> timestamp \<Rightarrow> library_file \<Rightarrow> (membership \<times> story_arc) list \<Rightarrow> sync_reason \<Rightarrow> arc_tables \<Rightarrow>
   (sync_error, nat \<times> arc_tables) result" where
  "enqueue_pairs hs now f pairs reason t =
     (let proposals = map (new_work hs now reason f) pairs;
          existing = take (length proposals)
            (filter (\<lambda>k. fst k \<in> set (map sw_membership proposals) \<and> snd k \<in> set (map sw_generation proposals))
              (map work_key (at_work t)));
          missing = filter (\<lambda>w. work_key w \<notin> set existing) proposals
      in if missing = [] then Inr (0, t)
         else bind_result (insert_work missing t) (\<lambda>(new, t'). Inr (length missing, t')))"

definition enqueue_story_arc_sync_work ::
  "hashing \<Rightarrow> timestamp \<Rightarrow> library_file \<Rightarrow> sync_reason \<Rightarrow> arc_tables \<Rightarrow> (sync_error, nat \<times> arc_tables) result" where
  "enqueue_story_arc_sync_work hs now f reason t = (case lf_issue f of
     None \<Rightarrow> Inr (0, t)
   | Some issue \<Rightarrow> enqueue_pairs hs now f (eligible_memberships_for_issue t issue) reason t)"

text \<open>The comparison of a JSON value with an integer or text column\<close>

record sql_cast =
  cast_int :: "json \<Rightarrow> int option"
  cast_text :: "json \<Rightarrow> pystr option"

definition sql_int :: "sql_cast \<Rightarrow> json option \<Rightarrow> int option" where
  "sql_int c v = (case v of None \<Rightarrow> None | Some JNull \<Rightarrow> None | Some (JInt n) \<Rightarrow> Some n | Some w \<Rightarrow> cast_int c w)"

definition sql_text :: "sql_cast \<Rightarrow> json option \<Rightarrow> pystr option" where
  "sql_text c v = (case v of None \<Rightarrow> None | Some JNull \<Rightarrow> None | Some (JStr s) \<Rightarrow> Some s | Some w \<Rightarrow> cast_text c w)"

definition current_work :: "sql_cast \<Rightarrow> library_file \<Rightarrow> membership \<Rightarrow> story_arc \<Rightarrow> sync_work \<Rightarrow> bool" where
  "current_work c f m a w \<longleftrightarrow>
     (let col = sw_columns w; sig = json_get (lf_signature f) in
      sw_membership w = ms_id m \<and> sw_file w = lf_id f \<and> sw_revision w = sa_revision a \<and> sw_sequence w = ms_sequence m
      \<and> Some (sw_schema w) = sa_schema a \<and> fc_path col = lf_path f \<and> fc_size col = lf_size f
      \<and> fc_modified col = lf_modified f \<and> fc_hash col = lf_hash f
      \<and> fc_schema col = sql_int c (sig ''schema_version'') \<and> fc_resolved col = sql_text c (sig ''resolved_path'')
      \<and> fc_sig_size col = sql_int c (sig ''size'') \<and> fc_mtime_ns col = sql_int c (sig ''mtime_ns'')
      \<and> fc_device col = sql_int c (sig ''device'') \<and> fc_inode col = sql_int c (sig ''inode''))"

definition discrepancies :: "sql_cast \<Rightarrow> arc_tables \<Rightarrow> (library_file \<times> membership \<times> story_arc) list" where
  "discrepancies c t =
     filter (\<lambda>(f, m, a). eligible_rows m a \<and> \<not> list_ex (current_work c f m a) (at_work t))
       (concat (map (\<lambda>m. case arc_of t m of
            None \<Rightarrow> []
          | Some a \<Rightarrow> map (\<lambda>f. (f, m, a))
              (filter (\<lambda>f. lf_issue f \<noteq> None \<and> lf_issue f = ms_issue m) (sort_key lf_id (at_files t))))
         (sort_key ms_id (at_memberships t))))"

fun discover_rows ::
  "hashing \<Rightarrow> timestamp \<Rightarrow> (library_file \<times> membership \<times> story_arc) list \<Rightarrow> nat \<Rightarrow> arc_tables \<Rightarrow>
   (sync_error, nat \<times> arc_tables) result" where
  "discover_rows hs now [] queued t = Inr (queued, t)"
| "discover_rows hs now ((f, m, a) # rows) queued t =
     (if \<not> automatic_sync_enabled a then discover_rows hs now rows queued t
      else bind_result (enqueue_pairs hs now f [(m, a)] Reason_DISCREPANCY_RECOVERY t)
        (\<lambda>(n, t'). discover_rows hs now rows (queued + n) t'))"

definition discover_story_arc_sync_work ::
  "hashing \<Rightarrow> sql_cast \<Rightarrow> timestamp \<Rightarrow> int \<Rightarrow> arc_tables \<Rightarrow> (sync_error, nat \<times> arc_tables) result" where
  "discover_story_arc_sync_work hs c now limit t =
     (if limit < 1 \<or> DEFAULT_STORY_ARC_DISCOVERY_LIMIT < limit then Inl Bad_value
      else discover_rows hs now (take (nat limit) (discrepancies c t)) 0 t)"

subsection \<open>Claims\<close>

text \<open>Import-origin work is held back while its import waits to be resumed after a restart.\<close>

definition startup_recovery_paused :: "arc_tables \<Rightarrow> sync_work \<Rightarrow> bool" where
  "startup_recovery_paused t w = (case row_ref ij_id (sw_origin_job w) (at_jobs t) of
     None \<Rightarrow> False
   | Some j \<Rightarrow> ij_status j = Imp_PAUSED \<and> json_is (ij_snapshot j) ''pause_reason'' STARTUP_RECOVERY_PAUSE_REASON)"

definition in_scope :: "bool \<Rightarrow> arc_tables \<Rightarrow> sync_work \<Rightarrow> bool" where
  "in_scope import_only t w \<longleftrightarrow>
     (import_only \<longrightarrow> sw_origin_job w \<noteq> None) \<and> \<not> startup_recovery_paused t w \<and> sw_claimable w"

definition at_most :: "timestamp option \<Rightarrow> timestamp \<Rightarrow> bool" where
  "at_most v limit = (case v of Some x \<Rightarrow> x \<le> limit | None \<Rightarrow> False)"

definition claim_story_arc_sync_work ::
  "int \<Rightarrow> timestamp \<Rightarrow> pystr \<Rightarrow> bool \<Rightarrow> arc_tables \<Rightarrow> pystr option \<times> arc_tables" where
  "claim_story_arc_sync_work work_id now token import_only t =
     (let (rows, t') = update_work
          (\<lambda>w. in_scope import_only t w \<and> sw_id w = work_id \<and>
             (sw_state w = Sync_QUEUED
              \<or> sw_state w = Sync_RETRY_WAIT \<and> at_most (sw_next_attempt w) now
              \<or> sw_state w = Sync_RUNNING \<and> (sw_claimed_at w = None \<or> at_most (sw_claimed_at w) (now - CLAIM_LEASE))))
          (\<lambda>w. w\<lparr>sw_state := Sync_RUNNING, sw_attempts := sw_attempts w + 1, sw_next_attempt := None,
              sw_token := Some token, sw_claimed_at := Some now\<rparr>) t
      in (if rows = 1 then Some token else None, t'))"

text \<open>The condition of every later statement of the worker that made the claim\<close>

definition held_by :: "int \<Rightarrow> pystr \<Rightarrow> sync_work \<Rightarrow> bool" where
  "held_by work_id token w \<longleftrightarrow> sw_id w = work_id \<and> sw_token w = Some token \<and> sw_state w = Sync_RUNNING"

definition refresh_story_arc_sync_claim :: "int \<Rightarrow> pystr \<Rightarrow> timestamp \<Rightarrow> arc_tables \<Rightarrow> bool \<times> arc_tables" where
  "refresh_story_arc_sync_claim work_id token now t =
     (let (rows, t') = update_work (held_by work_id token) (\<lambda>w. w\<lparr>sw_claimed_at := Some now\<rparr>) t
      in (rows = 1, t'))"

text \<open>The four lanes of ready work, each with the instant it is ordered by and cut at the limit\<close>

definition lane ::
  "nat \<Rightarrow> (sync_work \<Rightarrow> bool) \<Rightarrow> (sync_work \<Rightarrow> timestamp option) \<Rightarrow> arc_tables \<Rightarrow> (int \<times> timestamp option) list" where
  "lane limit selected ready_at t =
     map (\<lambda>w. (sw_id w, ready_at w))
       (take limit (sort_key (\<lambda>w. (ready_at w, sw_id w)) (filter selected (at_work t))))"

definition unclaimed_lane :: "bool \<Rightarrow> arc_tables \<Rightarrow> sync_work \<Rightarrow> bool" where
  "unclaimed_lane import_only t w \<longleftrightarrow> in_scope import_only t w \<and> sw_state w = Sync_RUNNING \<and> sw_claimed_at w = None"

definition queued_lane :: "bool \<Rightarrow> arc_tables \<Rightarrow> sync_work \<Rightarrow> bool" where
  "queued_lane import_only t w \<longleftrightarrow> in_scope import_only t w \<and> sw_state w = Sync_QUEUED"

definition retry_lane :: "timestamp \<Rightarrow> bool \<Rightarrow> arc_tables \<Rightarrow> sync_work \<Rightarrow> bool" where
  "retry_lane now import_only t w \<longleftrightarrow>
     in_scope import_only t w \<and> sw_state w = Sync_RETRY_WAIT \<and> at_most (sw_next_attempt w) now"

definition stale_lane :: "timestamp \<Rightarrow> bool \<Rightarrow> arc_tables \<Rightarrow> sync_work \<Rightarrow> bool" where
  "stale_lane now import_only t w \<longleftrightarrow>
     in_scope import_only t w \<and> sw_state w = Sync_RUNNING \<and> at_most (sw_claimed_at w) (now - CLAIM_LEASE)"

definition ready_work_statements :: "timestamp \<Rightarrow> nat \<Rightarrow> bool \<Rightarrow> arc_tables \<Rightarrow> (int \<times> timestamp option) list list" where
  "ready_work_statements now limit import_only t =
     [lane limit (unclaimed_lane import_only t) sw_claimed_at t,
      lane limit (queued_lane import_only t) (\<lambda>w. Some (sw_created w)) t,
      lane limit (retry_lane now import_only t) sw_next_attempt t,
      lane limit (stale_lane now import_only t) sw_claimed_at t]"

text \<open>\<open>datetime.min\<close> in UTC\<close>

definition DATETIME_MIN :: timestamp where "DATETIME_MIN = - 62135596800000000"

type_synonym ready_key = "timestamp \<times> nat \<times> int"

definition offer :: "int \<times> ready_key \<Rightarrow> (int, ready_key) dict \<Rightarrow> (int, ready_key) dict" where
  "offer c candidates = (case map_of candidates (fst c) of
     None \<Rightarrow> AList.update (fst c) (snd c) candidates
   | Some existing \<Rightarrow> if snd c < existing then AList.update (fst c) (snd c) candidates else candidates)"

definition ready_work_ids :: "timestamp \<Rightarrow> nat \<Rightarrow> bool \<Rightarrow> arc_tables \<Rightarrow> int list" where
  "ready_work_ids now limit import_only t =
     (let offers = concat (map (\<lambda>(rank, rows). map (\<lambda>(i, ready_at). (i, (or_else ready_at DATETIME_MIN, rank, i))) rows)
            (enumerate 0 (ready_work_statements now limit import_only t)));
          candidates = fold offer offers []
      in map fst (take limit (sort_key snd candidates)))"

definition has_ready_work :: "timestamp \<Rightarrow> bool \<Rightarrow> arc_tables \<Rightarrow> bool" where
  "has_ready_work now import_only t \<longleftrightarrow> ready_work_ids now 1 import_only t \<noteq> []"

definition next_retry_at :: "bool \<Rightarrow> arc_tables \<Rightarrow> timestamp option" where
  "next_retry_at import_only t =
     (case List.map_filter sw_next_attempt
        (filter (\<lambda>w. in_scope import_only t w \<and> sw_state w = Sync_RETRY_WAIT) (at_work t)) of
        [] \<Rightarrow> None | n # ns \<Rightarrow> Some (fold min ns n))"

subsection \<open>The context of a claim\<close>

definition requires_order_review :: "membership \<Rightarrow> bool" where
  "requires_order_review m \<longleftrightarrow> json_get (ms_evidence m) ''catalog_review_required'' = Some (JBool True)"

definition import_managed_policy_configured :: "story_arc \<Rightarrow> bool" where
  "import_managed_policy_configured a \<longleftrightarrow>
     (let s = sa_policy a; mode = json_get s ''mode''; style = json_get s ''symlink_style'' in
      sa_lifecycle a = Arc_ACTIVE \<and> sa_schema a = Some STORY_ARC_PLACEMENT_POLICY_SCHEMA_VERSION
      \<and> set (json_keys s) = set POLICY_KEYS
      \<and> same_value (json_get s ''schema_version'') (JInt STORY_ARC_PLACEMENT_POLICY_SCHEMA_VERSION)
      \<and> mode \<in> {Some (JStr ''copy''), Some (JStr ''hardlink''), Some (JStr ''symlink'')}
      \<and> filled_str (json_get s ''destination_root'')
      \<and> json_whole (json_get s ''target_library_root_id'') \<noteq> None
      \<and> (\<exists>b \<in> {True, False}. json_get s ''synchronize'' = Some (JBool b))
      \<and> (mode = Some (JStr ''symlink'') \<and> style \<in> {Some (JStr ''absolute''), Some (JStr ''relative'')}
         \<or> mode \<noteq> Some (JStr ''symlink'') \<and> style \<in> {None, Some JNull}))"

definition origin_payload_matches :: "import_action \<Rightarrow> sync_work \<Rightarrow> int \<Rightarrow> int \<Rightarrow> bool" where
  "origin_payload_matches action w job_id membership_id \<longleftrightarrow>
     (let p = json_get (ia_payload action) in
      sw_origin_job w = Some job_id \<and> positive (sw_origin_arc w) \<and> positive (sw_origin_entry w)
      \<and> set (json_keys (ia_payload action)) = set IMPORT_PLACEMENT_PAYLOAD_KEYS
      \<and> positive_int (p ''schema_version'') = Some 1
      \<and> positive_int (p ''sync_work_id'') = Some (sw_id w)
      \<and> positive_int (p ''membership_id'') = Some membership_id
      \<and> p ''desired_generation'' = Some (JStr (sw_generation w))
      \<and> positive_int (p ''imported_story_arc_id'') \<noteq> None \<and> positive_int (p ''imported_story_arc_id'') = sw_origin_arc w
      \<and> positive_int (p ''imported_story_arc_entry_id'') \<noteq> None
      \<and> positive_int (p ''imported_story_arc_entry_id'') = sw_origin_entry w
      \<and> positive_int (p ''source_import_job_id'') \<noteq> None \<and> positive_int (p ''source_import_job_id'') = sw_origin_job w)"

definition publishing_action :: "import_action \<Rightarrow> bool" where
  "publishing_action a \<longleftrightarrow> ia_phase a = IMPORT_PLACEMENT_PHASE \<and> ia_type a = IMPORT_PLACEMENT_ACTION_TYPE
     \<and> ia_status a = Action_COMPLETED"

definition publishing_job :: "import_job \<Rightarrow> bool" where
  "publishing_job j \<longleftrightarrow> ij_status j = Imp_IMPORTING \<and> ij_control j = Control_NONE
     \<and> json_is (ij_snapshot j) ''phase'' IMPORT_PLACEMENT_PHASE"

definition origin_claim_may_publish :: "int \<Rightarrow> pystr \<Rightarrow> arc_tables \<Rightarrow> bool" where
  "origin_claim_may_publish work_id token t = (case find (held_by work_id token) (at_work t) of
     None \<Rightarrow> False
   | Some w \<Rightarrow>
       (case (row_ref ia_id (sw_origin_action w) (at_actions t), row_ref ij_id (sw_origin_job w) (at_jobs t)) of
          (Some a, Some j) \<Rightarrow>
            sw_cancel_requested w = None \<and> Some (ia_job a) = sw_origin_job w \<and> publishing_action a \<and> publishing_job j
            \<and> origin_payload_matches a w (ij_id j) (sw_membership w)
        | _ \<Rightarrow> False))"

record work_context =
  cx_work :: int
  cx_membership :: int
  cx_arc :: int
  cx_file :: int
  cx_attempts :: int
  cx_provenance :: "(int \<times> int) option"

text \<open>The import job and action of origin work that may be published, when every binding is exact\<close>

definition origin_provenance :: "arc_tables \<Rightarrow> sync_work \<Rightarrow> membership \<Rightarrow> story_arc \<Rightarrow> (int \<times> int) option" where
  "origin_provenance t w m a =
     (case (row_ref ia_id (sw_origin_action w) (at_actions t), row_ref ij_id (sw_origin_job w) (at_jobs t)) of
        (Some act, Some j) \<Rightarrow>
          if sw_cancel_requested w = None \<and> Some (ia_job act) = sw_origin_job w \<and> positive (sw_origin_arc w)
             \<and> positive (sw_origin_entry w) \<and> publishing_action act \<and> publishing_job j
             \<and> import_managed_policy_configured a \<and> origin_payload_matches act w (ij_id j) (ms_id m)
             \<and> (case (row_ref sg_id (sw_origin_arc w) (at_staged_arcs t), row_ref se_id (sw_origin_entry w) (at_staged_entries t)) of
                  (Some sg, Some se) \<Rightarrow> se_arc se = sg_id sg \<and> sg_job sg = ij_id j \<and> sg_arc sg = Some (sa_id a)
                    \<and> se_membership se = Some (ms_id m)
                | _ \<Rightarrow> False)
          then Some (ij_id j, ia_id act) else None
      | _ \<Rightarrow> None)"

definition context_of :: "hashing \<Rightarrow> arc_tables \<Rightarrow> sync_work \<Rightarrow> membership \<Rightarrow> story_arc \<Rightarrow> library_file \<Rightarrow> work_context option" where
  "context_of hs t w m a f =
     (let context = (\<lambda>p. \<lparr>cx_work = sw_id w, cx_membership = ms_id m, cx_arc = sa_id a, cx_file = lf_id f,
            cx_attempts = sw_attempts w, cx_provenance = p\<rparr>)
      in if ms_issue m = None \<or> ms_issue m \<noteq> lf_issue f \<or> ms_resolution m \<noteq> Res_RESOLVED
            \<or> sw_generation w \<noteq> fst (desired_generation hs f m a) \<or> requires_order_review m then None
         else if sw_origin_action w = None then
           (if sw_origin_job w \<noteq> None \<or> sw_origin_arc w \<noteq> None \<or> sw_origin_entry w \<noteq> None
               \<or> \<not> ms_sync_eligible m \<or> \<not> automatic_sync_enabled a then None
            else Some (context None))
         else map_option (\<lambda>p. context (Some p)) (origin_provenance t w m a))"

definition load_claimed_context :: "hashing \<Rightarrow> int \<Rightarrow> pystr \<Rightarrow> arc_tables \<Rightarrow> work_context option" where
  "load_claimed_context hs work_id token t = (case find (held_by work_id token) (at_work t) of
     None \<Rightarrow> None
   | Some w \<Rightarrow>
       (case row_by ms_id (sw_membership w) (at_memberships t) of
          None \<Rightarrow> None
        | Some m \<Rightarrow>
            (case (arc_of t m, row_by lf_id (sw_file w) (at_files t)) of
               (Some a, Some f) \<Rightarrow> context_of hs t w m a f
             | _ \<Rightarrow> None)))"

subsection \<open>What became of a claim\<close>

definition finish_work :: "work_context \<Rightarrow> pystr \<Rightarrow> pystr \<Rightarrow> arc_tables \<Rightarrow> bool \<times> arc_tables" where
  "finish_work cx token outcome t =
     (let (rows, t') = update_work (held_by (cx_work cx) token)
          (\<lambda>w. w\<lparr>sw_state := Sync_COMPLETED, sw_token := None, sw_claimed_at := None, sw_next_attempt := None,
              sw_error := None, sw_result := JObj [(''schema_version'', JInt 1), (''outcome'', JStr outcome)]\<rparr>) t
      in (rows = 1, t'))"

definition cancel_work :: "int \<Rightarrow> pystr \<Rightarrow> pystr \<Rightarrow> arc_tables \<Rightarrow> bool \<times> arc_tables" where
  "cancel_work work_id token label t =
     (let (rows, t') = update_work (held_by work_id token)
          (\<lambda>w. w\<lparr>sw_state := Sync_CANCELLED, sw_token := None, sw_claimed_at := None, sw_next_attempt := None,
              sw_error := Some (label, ''superseded'', ''Automatic story-arc synchronization is no longer eligible.'')\<rparr>) t
      in (rows = 1, t'))"

definition is_retryable :: "pystr \<Rightarrow> pystr \<Rightarrow> bool" where
  "is_retryable label category \<longleftrightarrow> label \<in> set RETRYABLE_ERROR_CODES \<or> category \<in> {''operation'', ''cancelled''}"

text \<open>Indexing from the end for a negative index\<close>

definition py_nth :: "'a list \<Rightarrow> int \<Rightarrow> 'a" where
  "py_nth xs i = (if 0 \<le> i then xs ! nat i else xs ! nat (int (length xs) + i))"

definition retry_delay :: "int \<Rightarrow> timestamp" where
  "retry_delay attempts = py_nth RETRY_DELAYS (min (attempts - 1) (int (length RETRY_DELAYS) - 1))"

definition fail_or_retry_work ::
  "work_context \<Rightarrow> pystr \<Rightarrow> timestamp \<Rightarrow> pystr \<Rightarrow> pystr \<Rightarrow> pystr \<Rightarrow> bool \<Rightarrow> arc_tables \<Rightarrow> sync_state option \<times> arc_tables" where
  "fail_or_retry_work cx token now label category detail retryable t =
     (let should_retry = (retryable \<and> cx_attempts cx < MAX_ATTEMPTS);
          state = (if should_retry then Sync_RETRY_WAIT else Sync_FAILED);
          next_at = (if should_retry then Some (now + retry_delay (cx_attempts cx)) else None);
          (rows, t') = update_work (held_by (cx_work cx) token)
            (\<lambda>w. w\<lparr>sw_state := state, sw_token := None, sw_claimed_at := None, sw_next_attempt := next_at,
                sw_error := Some (label, category, detail)\<rparr>) t
      in (if rows = 1 then Some state else None, t'))"

end
