(* ===== verification/Arc_Sync_Import.thy ===== *)
theory Arc_Sync_Import
  imports Arc_Sync_Queue
begin

text \<open>
  Placement work that an import owns: making it (\<open>enqueue_import_story_arc_sync_work_batch\<close>), sealing
  it, judging the import by it (\<open>services/import_story_arc_placement_completion.py\<close>), reopening it,
  fencing it for a rollback (\<open>services/import_job_actions.py\<close>) and discarding it with the history.
\<close>

subsection \<open>Reading in pages\<close>

text \<open>The loops that read rows by pages of at most \<open>limit\<close> with identifiers after the last one seen\<close>

definition page :: "nat \<Rightarrow> ('a \<Rightarrow> int) \<Rightarrow> int \<Rightarrow> 'a list \<Rightarrow> 'a list" where
  "page limit key after rows = take limit (sort_key key (filter (\<lambda>r. after < key r) rows))"

function read_pages :: "nat \<Rightarrow> ('a \<Rightarrow> int) \<Rightarrow> int \<Rightarrow> 'a list \<Rightarrow> 'a list list" where
  "read_pages limit key after rows =
     (let p = page limit key after rows
      in if p = [] then [] else p # read_pages limit key (key (last p)) rows)"
  by pat_completeness auto
termination
proof (relation "measure (\<lambda>(limit, key, after, rows). length (filter (\<lambda>r. after < key r) rows))", simp)
  fix limit and key :: "'a \<Rightarrow> int" and after rows p
  assume p: "p = page limit key after rows" "p \<noteq> []"
  have "set p \<subseteq> set (filter (\<lambda>r. after < key r) rows)"
    unfolding p(1) page_def by (auto dest!: in_set_takeD)
  then have last: "last p \<in> set rows" "after < key (last p)"
    using last_in_set [OF p(2)] by auto
  have "length (filter (\<lambda>r. key (last p) < key r) rows) < length (filter (\<lambda>r. after < key r) rows)"
    using last
  proof (induction rows)
    case (Cons x xs)
    have "length (filter (\<lambda>r. key (last p) < key r) ys) \<le> length (filter (\<lambda>r. after < key r) ys)" for ys
      using last(2) by (induction ys) auto
    with Cons show ?case by (auto simp: less_Suc_eq_le)
  qed simp
  then show "((limit, key, key (last p), rows), limit, key, after, rows)
      \<in> measure (\<lambda>(limit, key, after, rows). length (filter (\<lambda>r. after < key r) rows))"
    by simp
qed

declare read_pages.simps [simp del]

subsection \<open>The work of an import\<close>

record work_counts =
  wc_queued :: nat
  wc_running :: nat
  wc_retry_wait :: nat
  wc_failed :: nat
  wc_completed :: nat
  wc_cancelled :: nat

definition counts_total :: "work_counts \<Rightarrow> nat" where
  "counts_total c = wc_queued c + wc_running c + wc_retry_wait c + wc_failed c + wc_completed c + wc_cancelled c"

definition counts_as_dict :: "work_counts \<Rightarrow> (pystr, nat) dict" where
  "counts_as_dict c = [(''queued'', wc_queued c), (''running'', wc_running c), (''retry_wait'', wc_retry_wait c),
     (''failed'', wc_failed c), (''completed'', wc_completed c), (''cancelled'', wc_cancelled c)]"

text \<open>A row of \<open>_origin_work_page_statement\<close>: the action and what its outer joins find\<close>

record origin_row =
  or_action :: import_action
  or_work :: "sync_work option"
  or_membership :: "membership option"
  or_file :: "library_file option"
  or_staged :: "staged_arc option"
  or_entry :: "staged_entry option"

definition origin_row_of :: "arc_tables \<Rightarrow> import_action \<Rightarrow> origin_row" where
  "origin_row_of t a =
     (let work = find (\<lambda>w. sw_origin_action w = Some (ia_id a)) (at_work t);
          via = (\<lambda>f. Option.bind work f)
      in \<lparr>or_action = a, or_work = work,
          or_membership = row_ref ms_id (map_option sw_membership work) (at_memberships t),
          or_file = row_ref lf_id (map_option sw_file work) (at_files t),
          or_staged = row_ref sg_id (via sw_origin_arc) (at_staged_arcs t),
          or_entry = row_ref se_id (via sw_origin_entry) (at_staged_entries t)\<rparr>)"

definition origin_candidates :: "int \<Rightarrow> arc_tables \<Rightarrow> import_action list" where
  "origin_candidates job_id t =
     filter (\<lambda>a. ia_job a = job_id \<and> (ia_phase a = IMPORT_PLACEMENT_PHASE \<or> ia_type a = IMPORT_PLACEMENT_ACTION_TYPE))
       (at_actions t)"

definition origin_row_is_valid :: "int \<Rightarrow> origin_row \<Rightarrow> bool" where
  "origin_row_is_valid job_id r =
     (case (or_work r, or_staged r, or_entry r) of
        (Some w, Some sg, Some se) \<Rightarrow>
          (let a = or_action r; p = json_get (ia_payload a) in
           publishing_action a \<and> 0 < sw_id w \<and> sw_origin_action w = Some (ia_id a) \<and> sw_origin_job w = Some job_id
           \<and> 0 < sw_membership w \<and> positive (sw_origin_arc w) \<and> positive (sw_origin_entry w)
           \<and> length (sw_generation w) = 64
           \<and> set (json_keys (ia_payload a)) = set IMPORT_PLACEMENT_PAYLOAD_KEYS
           \<and> positive_int (p ''schema_version'') = Some 1
           \<and> positive_int (p ''sync_work_id'') = Some (sw_id w)
           \<and> positive_int (p ''membership_id'') = Some (sw_membership w)
           \<and> p ''desired_generation'' = Some (JStr (sw_generation w))
           \<and> positive_int (p ''imported_story_arc_id'') = sw_origin_arc w
           \<and> positive_int (p ''imported_story_arc_entry_id'') = sw_origin_entry w
           \<and> positive_int (p ''source_import_job_id'') = Some job_id
           \<and> Some (sg_id sg) = sw_origin_arc w \<and> sg_job sg = job_id \<and> sg_status sg = Staged_IMPORTED
           \<and> sg_arc sg = map_option ms_arc (or_membership r)
           \<and> Some (se_id se) = sw_origin_entry w \<and> se_arc se = sg_id sg \<and> se_membership se = Some (sw_membership w)
           \<and> se_issue se = Option.bind (or_file r) lf_issue \<and> se_resolution se = Res_RESOLVED)
      | _ \<Rightarrow> False)"

definition ORIGIN_PAGE_SIZE :: nat where "ORIGIN_PAGE_SIZE = 1000"

definition count_state :: "sync_state \<Rightarrow> origin_row list \<Rightarrow> nat" where
  "count_state s rows = length (filter (\<lambda>r. map_option sw_state (or_work r) = Some s) rows)"

text \<open>The number of actions, of invalid rows, and the counts by state\<close>

definition aggregate_origin_work :: "int \<Rightarrow> arc_tables \<Rightarrow> nat \<times> nat \<times> work_counts" where
  "aggregate_origin_work job_id t =
     (let rows = map (origin_row_of t) (concat (read_pages ORIGIN_PAGE_SIZE ia_id 0 (origin_candidates job_id t)))
      in (length rows, length (filter (\<lambda>r. \<not> origin_row_is_valid job_id r) rows),
          \<lparr>wc_queued = count_state Sync_QUEUED rows, wc_running = count_state Sync_RUNNING rows,
           wc_retry_wait = count_state Sync_RETRY_WAIT rows, wc_failed = count_state Sync_FAILED rows,
           wc_completed = count_state Sync_COMPLETED rows, wc_cancelled = count_state Sync_CANCELLED rows\<rparr>))"

definition inspect_import_story_arc_placement_origin :: "int \<Rightarrow> arc_tables \<Rightarrow> (sync_error, work_counts) result" where
  "inspect_import_story_arc_placement_origin job_id t =
     (case aggregate_origin_work job_id t of (actions, invalid, counts) \<Rightarrow>
        if invalid \<noteq> 0 \<or> counts_total counts \<noteq> actions then Inl Invalid else Inr counts)"

text \<open>The completed work of an import that has not exactly one placement, and that a valid one\<close>

definition valid_completed_placement :: "int \<Rightarrow> import_action \<Rightarrow> sync_work \<Rightarrow> placement_row \<Rightarrow> bool" where
  "valid_completed_placement job_id a w p \<longleftrightarrow>
     pl_job p = Some job_id \<and> pl_action p = Some (ia_id a) \<and> pl_membership p = sw_membership w \<and> pl_file p = Some (sw_file w)
     \<and> pl_ownership p = Managed \<and> pl_mode p \<in> {Mode_copy, Mode_hardlink, Mode_symlink} \<and> pl_state p = Pl_CURRENT
     \<and> pl_source_kind p = Src_PULLBOX \<and> pl_schema p = Some (sw_schema w) \<and> pl_order p = Some (sw_sequence w)
     \<and> pl_token p = None \<and> json_is (pl_result p) ''status'' ''complete''"

definition count_invalid_completed_placements :: "int \<Rightarrow> arc_tables \<Rightarrow> nat" where
  "count_invalid_completed_placements job_id t =
     (let owned = (\<lambda>a. filter (\<lambda>p. pl_action p = Some (ia_id a)) (at_placements t))
      in length (filter (\<lambda>(a, w). length (owned a) \<noteq> 1 \<or> length (filter (valid_completed_placement job_id a w) (owned a)) \<noteq> 1)
           (List.map_filter (\<lambda>a. case find (\<lambda>w. sw_origin_action w = Some (ia_id a)) (at_work t) of
                None \<Rightarrow> None
              | Some w \<Rightarrow>
                  if ia_job a = job_id \<and> ia_phase a = IMPORT_PLACEMENT_PHASE \<and> ia_type a = IMPORT_PLACEMENT_ACTION_TYPE
                     \<and> sw_origin_job w = Some job_id \<and> sw_state w = Sync_COMPLETED
                  then Some (a, w) else None)
             (at_actions t))))"

subsection \<open>Judging an import\<close>

datatype completion_state = Compl_PENDING | Compl_STALLED | Compl_COMPLETED

record completion_outcome =
  co_job :: int
  co_state :: completion_state
  co_counts :: work_counts
  co_error :: "pystr option"

definition placement_error_message :: "pystr \<Rightarrow> pystr" where
  "placement_error_message label =
     (if label = ''story_arc_placement_origin_invalid'' then
        ''Story-arc placement recovery data is incomplete. Roll back the import.''
      else if label = ''story_arc_placement_work_failed'' then
        ''One or more story-arc placements failed. Retry the placement work or roll back the import.''
      else if label = ''story_arc_placement_work_cancelled'' then
        ''Story-arc placement work ended unexpectedly. Retry the placement work or roll back the import.''
      else ''Story-arc placement verification is incomplete. Roll back the import.'')"

definition put_items :: "(pystr \<times> json) list \<Rightarrow> json \<Rightarrow> json" where
  "put_items kvs d = fold (\<lambda>(k, v). json_put k v) kvs d"

definition with_counts :: "json \<Rightarrow> work_counts \<Rightarrow> int \<Rightarrow> json" where
  "with_counts snapshot c expected_total =
     put_items ((''story_arc_placements_total'', JInt expected_total)
        # map (\<lambda>(s, n). (''story_arc_placements_'' @ s, JInt (int n))) (counts_as_dict c)) snapshot"

definition count_of :: "json \<Rightarrow> pystr \<Rightarrow> nat" where
  "count_of snapshot s = (case json_whole (json_get snapshot (''story_arc_placements_'' @ s)) of
     Some n \<Rightarrow> nat n | None \<Rightarrow> 0)"

definition counts_from_snapshot :: "json \<Rightarrow> work_counts" where
  "counts_from_snapshot s =
     \<lparr>wc_queued = count_of s ''queued'', wc_running = count_of s ''running'', wc_retry_wait = count_of s ''retry_wait'',
      wc_failed = count_of s ''failed'', wc_completed = count_of s ''completed'', wc_cancelled = count_of s ''cancelled''\<rparr>"

definition apply_job_state ::
  "import_job \<Rightarrow> import_status \<Rightarrow> json \<Rightarrow> pystr option \<Rightarrow> timestamp option \<Rightarrow> import_job" where
  "apply_job_state j status snapshot error completed_at =
     (if ij_status j = status \<and> py_eq (ij_snapshot j) snapshot \<and> ij_error j = error \<and> ij_import_completed j = completed_at then j
      else j\<lparr>ij_status := status, ij_snapshot := snapshot, ij_error := error, ij_import_completed := completed_at,
          ij_snapshot_revision := ij_snapshot_revision j + 1\<rparr>)"

definition phase_items :: "pystr \<Rightarrow> pystr \<Rightarrow> int \<Rightarrow> pystr \<Rightarrow> (pystr \<times> json) list" where
  "phase_items status phase progress message =
     [(''status'', JStr status), (''mode'', JStr ''import''), (''phase'', JStr phase), (''progress'', JInt progress),
      (''message'', JStr message)]"

definition WAITING_MESSAGE :: pystr where
  "WAITING_MESSAGE = ''Creating the approved story-arc copies and links...''"

definition outcome_of :: "import_job \<Rightarrow> completion_state \<Rightarrow> work_counts \<Rightarrow> pystr option \<Rightarrow> completion_outcome" where
  "outcome_of j s c e = \<lparr>co_job = ij_id j, co_state = s, co_counts = c, co_error = e\<rparr>"

definition mark_pending :: "import_job \<Rightarrow> work_counts \<Rightarrow> int \<Rightarrow> completion_outcome \<times> import_job" where
  "mark_pending j c expected_total =
     (outcome_of j Compl_PENDING c None,
      apply_job_state (j\<lparr>ij_followup := False\<rparr>) Imp_IMPORTING
        (put_items (phase_items ''importing'' IMPORT_PLACEMENT_PHASE 99 WAITING_MESSAGE)
          (with_counts (ij_snapshot j) c expected_total)) None None)"

definition stall :: "import_job \<Rightarrow> work_counts \<Rightarrow> int option \<Rightarrow> pystr \<Rightarrow> completion_outcome \<times> import_job" where
  "stall j c expected_total label =
     (outcome_of j Compl_STALLED c (Some label),
      apply_job_state (j\<lparr>ij_followup := False\<rparr>) Imp_STALLED
        (put_items (phase_items ''stalled'' IMPORT_PLACEMENT_PHASE 99 (placement_error_message label))
          (with_counts (ij_snapshot j) c (or_else expected_total (int (counts_total c)))))
        (Some (placement_error_message label)) None)"

definition complete_import :: "import_job \<Rightarrow> work_counts \<Rightarrow> timestamp \<Rightarrow> completion_outcome \<times> import_job" where
  "complete_import j c completed_at =
     (outcome_of j Compl_COMPLETED c None,
      apply_job_state (j\<lparr>ij_followup := True\<rparr>) Imp_COMPLETED
        (put_items (phase_items ''completed'' ''done'' 100 ''Import completed.''
            @ [(''story_arc_placement_followup_pending'', JBool True)])
          (with_counts (ij_snapshot j) c (int (counts_total c)))) None (Some completed_at))"

text \<open>What the counts say of an import, before its placements are looked at\<close>

definition judge_counts :: "int option \<Rightarrow> nat \<times> nat \<times> work_counts \<Rightarrow> pystr option" where
  "judge_counts expected_total origin = (case origin of (actions, invalid, c) \<Rightarrow>
     if expected_total \<noteq> Some (int actions) \<or> invalid \<noteq> 0 \<or> counts_total c \<noteq> actions
     then Some ''story_arc_placement_origin_invalid''
     else if wc_failed c \<noteq> 0 then Some ''story_arc_placement_work_failed''
     else if wc_cancelled c \<noteq> 0 then Some ''story_arc_placement_work_cancelled''
     else None)"

definition finalize_job :: "timestamp \<Rightarrow> import_job \<Rightarrow> arc_tables \<Rightarrow> completion_outcome \<times> import_job" where
  "finalize_job now j t =
     (let expected_total = positive_int (json_get (ij_snapshot j) ''story_arc_placements_total'');
          origin = aggregate_origin_work (ij_id j) t;
          c = snd (snd origin)
      in case judge_counts expected_total origin of
           Some label \<Rightarrow> stall j c expected_total label
         | None \<Rightarrow>
             if wc_queued c \<noteq> 0 \<or> wc_running c \<noteq> 0 \<or> wc_retry_wait c \<noteq> 0 then mark_pending j c (or_else expected_total 0)
             else if count_invalid_completed_placements (ij_id j) t \<noteq> 0
             then stall j c expected_total ''story_arc_placement_evidence_invalid''
             else if Some (int (wc_completed c)) \<noteq> expected_total
             then stall j c expected_total ''story_arc_placement_origin_invalid''
             else complete_import j c now)"

definition finalize_import_story_arc_placements ::
  "timestamp \<Rightarrow> int \<Rightarrow> arc_tables \<Rightarrow> (sync_error, completion_outcome \<times> arc_tables) result" where
  "finalize_import_story_arc_placements now job_id t = (case row_by ij_id job_id (at_jobs t) of
     None \<Rightarrow> Inl Not_found
   | Some j \<Rightarrow>
       if ij_status j = Imp_COMPLETED \<and> json_is (ij_snapshot j) ''phase'' ''done''
       then Inr (outcome_of j Compl_COMPLETED (counts_from_snapshot (ij_snapshot j)) None, t)
       else if ij_status j \<notin> {Imp_IMPORTING, Imp_STALLED} \<or> \<not> json_is (ij_snapshot j) ''phase'' IMPORT_PLACEMENT_PHASE
       then Inl Invalid
       else if ij_control j \<noteq> Control_NONE then Inl Invalid
       else (case finalize_job now j t of (outcome, j') \<Rightarrow> Inr (outcome, put_import_job j' t)))"

subsection \<open>Sealing\<close>

definition seal_fence_error :: "int \<Rightarrow> arc_tables \<Rightarrow> sync_error" where
  "seal_fence_error job_id t = (case row_by ij_id job_id (at_jobs t) of
     None \<Rightarrow> Job_cancelled
   | Some j \<Rightarrow>
       if ij_control j = Control_CANCEL \<or> ij_status j \<in> {Imp_CANCELLING, Imp_CANCELLED, Imp_ROLLING_BACK, Imp_ROLLED_BACK}
       then Job_cancelled
       else if ij_control j = Control_PAUSE \<or> ij_status j \<in> {Imp_PAUSING, Imp_PAUSED} then Job_paused
       else Invalid)"

definition seal_import_story_arc_placement_origin ::
  "int \<Rightarrow> arc_tables \<Rightarrow> (sync_error, work_counts \<times> arc_tables) result" where
  "seal_import_story_arc_placement_origin job_id t =
     (if \<not> list_ex (\<lambda>j. ij_id j = job_id \<and> ij_status j = Imp_IMPORTING \<and> ij_control j = Control_NONE
           \<and> json_is (ij_snapshot j) ''phase'' ''story_arcs'') (at_jobs t)
      then Inl (seal_fence_error job_id t)
      else bind_result (inspect_import_story_arc_placement_origin job_id t) (\<lambda>counts.
        if list_ex (\<lambda>w. sw_origin_job w = Some job_id \<and> \<not> sw_claimable w \<and> sw_state w \<noteq> Sync_QUEUED) (at_work t)
        then Inl Invalid
        else Inr (counts, snd (update_work
          (\<lambda>w. sw_origin_job w = Some job_id \<and> \<not> sw_claimable w \<and> sw_state w = Sync_QUEUED)
          (\<lambda>w. w\<lparr>sw_claimable := True\<rparr>) t))))"

subsection \<open>Reopening\<close>

text \<open>The rows a work row is joined with\<close>

definition joined_work :: "arc_tables \<Rightarrow> sync_work \<Rightarrow> (sync_work \<times> membership \<times> story_arc \<times> library_file) option" where
  "joined_work t w = (case row_by ms_id (sw_membership w) (at_memberships t) of
     None \<Rightarrow> None
   | Some m \<Rightarrow>
       (case (arc_of t m, row_by lf_id (sw_file w) (at_files t)) of
          (Some a, Some f) \<Rightarrow> Some (w, m, a, f)
        | _ \<Rightarrow> None))"

definition terminal_state :: "sync_work \<Rightarrow> bool" where
  "terminal_state w \<longleftrightarrow> sw_state w = Sync_FAILED \<or> sw_state w = Sync_CANCELLED"

definition retryable_work :: "hashing \<Rightarrow> sync_work \<times> membership \<times> story_arc \<times> library_file \<Rightarrow> bool" where
  "retryable_work hs r = (case r of (w, m, a, f) \<Rightarrow>
     sw_claimable w \<and> sw_token w = None \<and> sw_claimed_at w = None \<and> sw_next_attempt w = None \<and> sw_cancel_requested w = None
     \<and> import_managed_policy_configured a
     \<and> sw_generation w = fst (desired_generation hs f m a) \<and> sw_source_hash w = snd (desired_generation hs f m a)
     \<and> sw_revision w = sa_revision a \<and> sw_sequence w = ms_sequence m \<and> sw_schema w = schema_or_default a)"

definition reopened :: "sync_work \<Rightarrow> sync_work" where
  "reopened w = w\<lparr>sw_state := Sync_QUEUED, sw_attempts := 0, sw_next_attempt := None, sw_token := None, sw_claimed_at := None,
     sw_cancel_requested := None, sw_error := None, sw_result := JObj []\<rparr>"

definition reopen_work :: "int \<Rightarrow> int set \<Rightarrow> arc_tables \<Rightarrow> nat \<times> arc_tables" where
  "reopen_work job_id ids = update_work
     (\<lambda>w. sw_id w \<in> ids \<and> sw_origin_job w = Some job_id \<and> terminal_state w \<and> sw_claimable w \<and> sw_token w = None
        \<and> sw_claimed_at w = None \<and> sw_cancel_requested w = None) reopened"

definition retry_snapshot :: "json \<Rightarrow> work_counts \<Rightarrow> json" where
  "retry_snapshot snapshot c =
     put_items (phase_items ''importing'' IMPORT_PLACEMENT_PHASE 99 WAITING_MESSAGE
       @ [(''story_arc_placements_total'', JInt (int (counts_total c))),
          (''story_arc_placements_queued'', JInt (int (wc_queued c + (wc_failed c + wc_cancelled c)))),
          (''story_arc_placements_running'', JInt (int (wc_running c))),
          (''story_arc_placements_retry_wait'', JInt (int (wc_retry_wait c))),
          (''story_arc_placements_failed'', JInt 0),
          (''story_arc_placements_completed'', JInt (int (wc_completed c))),
          (''story_arc_placements_cancelled'', JInt 0),
          (''story_arc_placement_followup_pending'', JBool False)]) snapshot"

definition retried_job :: "import_job \<Rightarrow> work_counts \<Rightarrow> import_job" where
  "retried_job j c = j\<lparr>ij_status := Imp_IMPORTING, ij_error := None, ij_import_completed := None, ij_followup := False,
     ij_snapshot := retry_snapshot (ij_snapshot j) c, ij_snapshot_revision := ij_snapshot_revision j + 1\<rparr>"

definition retry_import_story_arc_sync_work ::
  "hashing \<Rightarrow> int \<Rightarrow> arc_tables \<Rightarrow> (sync_error, (import_job \<times> nat) \<times> arc_tables) result" where
  "retry_import_story_arc_sync_work hs job_id t = (case row_by ij_id job_id (at_jobs t) of
     None \<Rightarrow> Inl Not_found
   | Some j \<Rightarrow>
       if ij_status j \<noteq> Imp_STALLED \<or> ij_import_started j = None
          \<or> \<not> json_is (ij_snapshot j) ''phase'' IMPORT_PLACEMENT_PHASE then Inl Invalid
       else if ij_control j \<noteq> Control_NONE then Inl Invalid
       else bind_result (inspect_import_story_arc_placement_origin job_id t) (\<lambda>c.
         if positive_int (json_get (ij_snapshot j) ''story_arc_placements_total'') \<noteq> Some (int (counts_total c)) then Inl Invalid
         else
           let retrying = wc_failed c + wc_cancelled c;
               rows = List.map_filter (joined_work t)
                 (sort_key sw_id (filter (\<lambda>w. sw_origin_job w = Some job_id \<and> terminal_state w) (at_work t)))
           in if retrying = 0 \<or> length rows \<noteq> retrying then Inl Invalid
              else if \<not> list_all (retryable_work hs) rows then Inl Invalid
              else
                let changed = reopen_work job_id (set (map (\<lambda>r. sw_id (fst r)) rows)) t
                in if fst changed \<noteq> retrying then Inl Invalid
                   else Inr ((retried_job j c, retrying), put_import_job (retried_job j c) (snd changed))))"

subsection \<open>Discarding with the history\<close>

definition is_exact_unpublished_import_work ::
  "int set \<Rightarrow> sync_work \<times> import_action option \<times> staged_arc option \<times> staged_entry option \<Rightarrow> bool" where
  "is_exact_unpublished_import_work placement_action_ids r = (case r of (w, act, sg, se) \<Rightarrow>
     \<not> sw_claimable w \<and> sw_state w = Sync_QUEUED \<and> sw_attempts w = 0 \<and> sw_next_attempt w = None \<and> sw_token w = None
     \<and> sw_claimed_at w = None \<and> sw_cancel_requested w = None \<and> sw_error w = None \<and> \<not> truthy (sw_result w)
     \<and> (case (act, sg, se) of
          (Some a, Some g, Some e) \<Rightarrow>
            ia_id a \<notin> placement_action_ids \<and> positive (sw_origin_job w) \<and> Some (ia_id a) = sw_origin_action w
            \<and> Some (ia_job a) = sw_origin_job w \<and> publishing_action a
            \<and> origin_payload_matches a w (or_else (sw_origin_job w) 0) (sw_membership w)
            \<and> Some (sg_id g) = sw_origin_arc w \<and> Some (sg_job g) = sw_origin_job w
            \<and> Some (se_id e) = sw_origin_entry w \<and> se_arc e = sg_id g \<and> se_membership e = Some (sw_membership w)
        | _ \<Rightarrow> False))"

definition IMPORT_HISTORY_CLEANUP_PAGE_SIZE :: nat where "IMPORT_HISTORY_CLEANUP_PAGE_SIZE = 1000"

definition history_row :: "arc_tables \<Rightarrow> sync_work \<Rightarrow> sync_work \<times> import_action option \<times> staged_arc option \<times> staged_entry option" where
  "history_row t w = (w, row_ref ia_id (sw_origin_action w) (at_actions t), row_ref sg_id (sw_origin_arc w) (at_staged_arcs t),
     row_ref se_id (sw_origin_entry w) (at_staged_entries t))"

definition history_page_ok :: "arc_tables \<Rightarrow> sync_work list \<Rightarrow> bool" where
  "history_page_ok t ws =
     (let rows = map (history_row t) ws;
          action_ids = set (List.map_filter (\<lambda>r. map_option ia_id (fst (snd r))) rows);
          owned = {i \<in> action_ids. list_ex (\<lambda>p. pl_action p = Some i) (at_placements t)}
      in list_all (is_exact_unpublished_import_work owned) rows)"

definition of_jobs :: "int list \<Rightarrow> sync_work \<Rightarrow> bool" where
  "of_jobs job_ids w \<longleftrightarrow> (case sw_origin_job w of Some j \<Rightarrow> j \<in> set job_ids | None \<Rightarrow> False)"

definition discard_unpublished_import_story_arc_sync_work ::
  "int list \<Rightarrow> arc_tables \<Rightarrow> (sync_error, nat \<times> arc_tables) result" where
  "discard_unpublished_import_story_arc_sync_work job_ids t =
     (let jobs = filter (\<lambda>j. 0 < j) job_ids;
          held = (\<lambda>w. of_jobs jobs w \<and> \<not> sw_claimable w)
      in if jobs = [] then Inr (0, t)
         else if list_ex (\<lambda>w. of_jobs jobs w \<and> sw_claimable w
             \<and> sw_state w \<in> {Sync_QUEUED, Sync_RUNNING, Sync_RETRY_WAIT, Sync_FAILED}) (at_work t) then Inl Invalid
         else if \<not> list_all (history_page_ok t)
             (read_pages IMPORT_HISTORY_CLEANUP_PAGE_SIZE sw_id 0 (filter held (at_work t))) then Inl Invalid
         else Inr (length (filter held (at_work t)), t\<lparr>at_work := filter (\<lambda>w. \<not> held w) (at_work t)\<rparr>))"

subsection \<open>Fencing for a rollback\<close>

text \<open>One round of \<open>_fence_import_story_arc_work_for_rollback\<close>, with the work row as it was read before: the
  rollback waits for the worker, the work is fenced or needs no fence, or it changed and is read again.\<close>

datatype fence = Fence_deferred | Fence_done | Fence_settled | Fence_again

definition same_binding :: "sync_work \<Rightarrow> sync_work \<Rightarrow> bool" where
  "same_binding w v \<longleftrightarrow> sw_id v = sw_id w \<and> sw_origin_action v = sw_origin_action w \<and> sw_origin_job v = sw_origin_job w
     \<and> sw_origin_arc v = sw_origin_arc w \<and> sw_origin_entry v = sw_origin_entry w \<and> sw_membership v = sw_membership w
     \<and> sw_generation v = sw_generation w"

definition fence_import_story_arc_work :: "timestamp \<Rightarrow> json \<Rightarrow> sync_work \<Rightarrow> arc_tables \<Rightarrow> fence \<times> arc_tables" where
  "fence_import_story_arc_work now checkpoint w t =
     (if sw_state w \<noteq> Sync_RUNNING \<and> sw_token w \<noteq> None then (Fence_deferred, t)
      else if sw_state w = Sync_RUNNING then
        (let (rows, t') = update_work (\<lambda>v. same_binding w v \<and> sw_state v = Sync_RUNNING)
             (\<lambda>v. v\<lparr>sw_cancel_requested := Some now\<rparr>) t
         in (if rows = 1 then Fence_deferred else Fence_again, t'))
      else if sw_state w \<in> {Sync_QUEUED, Sync_RETRY_WAIT, Sync_FAILED} then
        (let (rows, t') = update_work (\<lambda>v. same_binding w v \<and> sw_state v = sw_state w)
             (\<lambda>v. v\<lparr>sw_state := Sync_CANCELLED, sw_token := None, sw_claimed_at := None, sw_next_attempt := None,
                sw_cancel_requested := Some now,
                sw_error := Some (''import_rollback_requested'', ''cancelled'', ''Import rollback fenced Story Arc placement work.''),
                sw_result := checkpoint\<rparr>) t
         in (if rows = 1 then Fence_done else Fence_again, t'))
      else (Fence_settled, t))"

end
