(* ===== verification/Arc_Sync_Worker.thy ===== *)
theory Arc_Sync_Worker
  imports Arc_Sync_Import
begin

text \<open>
  The worker of the synchronisation queue: \<open>process_story_arc_sync_work\<close> of
  \<open>services/story_arc_sync_queue.py\<close>. It takes a batch of ready work; for each row it claims the row,
  loads its context, runs the placement service while a heartbeat keeps the claim, and records the
  outcome, every step in a session of its own. What others do in between, and what the placement
  service does and answers, are arguments (\<open>item_run\<close>).
\<close>

subsection \<open>One item\<close>

datatype sync_outcome = Sync_done pystr | Sync_failed pystr pystr pystr | Sync_unexpected | Sync_interrupted

record item_run =
  ir_now :: timestamp
  ir_token :: pystr
  ir_before :: "arc_tables \<Rightarrow> arc_tables"
  ir_others :: "arc_tables \<Rightarrow> arc_tables"
  ir_sync :: "work_context \<Rightarrow> arc_tables \<Rightarrow> sync_outcome \<times> bool \<times> arc_tables"
  ir_later :: timestamp

record drain_counts =
  dc_claimed :: nat
  dc_completed :: nat
  dc_failed :: nat
  dc_retrying :: nat
  dc_cancelled :: nat
  dc_lost :: nat

definition no_items :: drain_counts where
  "no_items = \<lparr>dc_claimed = 0, dc_completed = 0, dc_failed = 0, dc_retrying = 0, dc_cancelled = 0, dc_lost = 0\<rparr>"

definition count_cancelled :: "bool \<Rightarrow> drain_counts \<Rightarrow> drain_counts" where
  "count_cancelled held d = (if held then d\<lparr>dc_cancelled := dc_cancelled d + 1\<rparr> else d\<lparr>dc_lost := dc_lost d + 1\<rparr>)"

definition count_failure :: "sync_state option \<Rightarrow> drain_counts \<Rightarrow> drain_counts" where
  "count_failure state d = (case state of
     None \<Rightarrow> d\<lparr>dc_lost := dc_lost d + 1\<rparr>
   | Some s \<Rightarrow> if s = Sync_RETRY_WAIT then d\<lparr>dc_retrying := dc_retrying d + 1\<rparr> else d\<lparr>dc_failed := dc_failed d + 1\<rparr>)"

text \<open>The end of an item: whether the worker goes on, the tables and the counts\<close>

definition record_outcome ::
  "work_context \<Rightarrow> item_run \<Rightarrow> sync_outcome \<Rightarrow> bool \<Rightarrow> arc_tables \<Rightarrow> drain_counts \<Rightarrow> bool \<times> arc_tables \<times> drain_counts" where
  "record_outcome cx r outcome cancel_requested t d = (case outcome of
     Sync_done result \<Rightarrow>
       (let (held, t') = finish_work cx (ir_token r) result t
        in (True, t', if held then d\<lparr>dc_completed := dc_completed d + 1\<rparr> else d\<lparr>dc_lost := dc_lost d + 1\<rparr>))
   | Sync_interrupted \<Rightarrow>
       (let (state, t') = fail_or_retry_work cx (ir_token r) (ir_later r) ''sync_worker_cancelled'' ''cancelled''
              ''Automatic story-arc synchronization was interrupted.'' True t
        in (False, t', d))
   | Sync_failed label category detail \<Rightarrow>
       if cx_provenance cx \<noteq> None \<and> (cancel_requested \<or> category = ''cancelled'') then
         (let (held, t') = cancel_work (cx_work cx) (ir_token r) label t in (True, t', count_cancelled held d))
       else
         (let (state, t') = fail_or_retry_work cx (ir_token r) (ir_later r) label category detail (is_retryable label category) t
          in (True, t', count_failure state d))
   | Sync_unexpected \<Rightarrow>
       (let (state, t') = fail_or_retry_work cx (ir_token r) (ir_later r) ''story_arc_sync_unexpected_failure'' ''operation''
              ''Automatic story-arc synchronization failed unexpectedly.'' True t
        in (True, t', count_failure state d)))"

definition process_item ::
  "hashing \<Rightarrow> bool \<Rightarrow> int \<times> item_run \<Rightarrow> arc_tables \<Rightarrow> drain_counts \<Rightarrow> bool \<times> arc_tables \<times> drain_counts" where
  "process_item hs import_only x t d = (case x of (work_id, r) \<Rightarrow>
     (case claim_story_arc_sync_work work_id (ir_now r) (ir_token r) import_only (ir_before r t) of
        (None, t1) \<Rightarrow> (True, t1, d)
      | (Some token, t1) \<Rightarrow>
          let d1 = d\<lparr>dc_claimed := dc_claimed d + 1\<rparr>; t2 = ir_others r t1
          in (case load_claimed_context hs work_id token t2 of
                None \<Rightarrow>
                  (let (held, t3) = cancel_work work_id token ''sync_work_superseded'' t2
                   in (True, t3, count_cancelled held d1))
              | Some cx \<Rightarrow>
                  (case ir_sync r cx t2 of (outcome, cancel_requested, t3) \<Rightarrow>
                     record_outcome cx r outcome cancel_requested t3 d1))))"

fun process_items ::
  "hashing \<Rightarrow> bool \<Rightarrow> (int \<times> item_run) list \<Rightarrow> arc_tables \<Rightarrow> drain_counts \<Rightarrow> bool \<times> arc_tables \<times> drain_counts" where
  "process_items hs import_only [] t d = (True, t, d)"
| "process_items hs import_only (x # xs) t d =
     (case process_item hs import_only x t d of
        (True, t', d') \<Rightarrow> process_items hs import_only xs t' d'
      | (False, t', d') \<Rightarrow> (False, t', d'))"

subsection \<open>Imports that wait for their placements\<close>

definition MAX_IMPORT_PLACEMENT_FINALIZE_BATCH_SIZE :: nat where "MAX_IMPORT_PLACEMENT_FINALIZE_BATCH_SIZE = 100"

definition waiting_finalizer :: "arc_tables \<Rightarrow> import_job \<Rightarrow> bool" where
  "waiting_finalizer t j \<longleftrightarrow>
     ij_status j \<in> {Imp_IMPORTING, Imp_STALLED} \<and> ij_control j = Control_NONE
       \<and> json_is (ij_snapshot j) ''phase'' IMPORT_PLACEMENT_PHASE
       \<and> \<not> list_ex (\<lambda>w. sw_origin_job w = Some (ij_id j) \<and> sw_state w \<in> {Sync_QUEUED, Sync_RUNNING, Sync_RETRY_WAIT}) (at_work t)
     \<or> ij_status j = Imp_COMPLETED \<and> ij_followup j"

definition origin_import_job_ids_for_work_ids :: "int list \<Rightarrow> arc_tables \<Rightarrow> int list" where
  "origin_import_job_ids_for_work_ids ids t =
     sort (remdups (List.map_filter sw_origin_job (filter (\<lambda>w. sw_id w \<in> set ids) (at_work t))))"

text \<open>The jobs one call looks at: of those touched at most 99, then any others that wait, 100 in all\<close>

definition finalizer_candidates :: "int list option \<Rightarrow> arc_tables \<Rightarrow> import_job list" where
  "finalizer_candidates touched t =
     (let chosen = take MAX_IMPORT_PLACEMENT_FINALIZE_BATCH_SIZE
            (rev (remdups (rev (filter (\<lambda>j. 0 < j) (or_else touched [])))));
          waiting = sort_key ij_id (filter (waiting_finalizer t) (at_jobs t));
          first = (if chosen = [] then []
                   else take (MAX_IMPORT_PLACEMENT_FINALIZE_BATCH_SIZE - 1) (filter (\<lambda>j. ij_id j \<in> set chosen) waiting));
          others = filter (\<lambda>j. ij_id j \<notin> set chosen) waiting
      in first @ take (MAX_IMPORT_PLACEMENT_FINALIZE_BATCH_SIZE - length first) others)"

record finalized_jobs =
  fj_evaluated :: "int list"
  fj_completed :: "int list"
  fj_stalled :: "int list"

fun finalize_candidates :: "timestamp \<Rightarrow> (int \<times> import_status) list \<Rightarrow> arc_tables \<Rightarrow> finalized_jobs \<Rightarrow> finalized_jobs \<times> arc_tables" where
  "finalize_candidates now [] t acc = (acc, t)"
| "finalize_candidates now ((job_id, status) # cs) t acc =
     (if status = Imp_COMPLETED then
        finalize_candidates now cs t
          (acc\<lparr>fj_evaluated := fj_evaluated acc @ [job_id], fj_completed := fj_completed acc @ [job_id]\<rparr>)
      else (case finalize_import_story_arc_placements now job_id t of
          Inl e \<Rightarrow> finalize_candidates now cs t acc
        | Inr (outcome, t') \<Rightarrow>
            finalize_candidates now cs t'
              (acc\<lparr>fj_evaluated := fj_evaluated acc @ [job_id],
                  fj_completed := fj_completed acc @ (if co_state outcome = Compl_COMPLETED then [job_id] else []),
                  fj_stalled := fj_stalled acc @ (if co_state outcome = Compl_STALLED then [job_id] else [])\<rparr>)))"

definition finalize_waiting_import_story_arc_placements ::
  "timestamp \<Rightarrow> int list option \<Rightarrow> arc_tables \<Rightarrow> finalized_jobs \<times> arc_tables" where
  "finalize_waiting_import_story_arc_placements now touched t =
     finalize_candidates now (map (\<lambda>j. (ij_id j, ij_status j)) (finalizer_candidates touched t)) t
       \<lparr>fj_evaluated = [], fj_completed = [], fj_stalled = []\<rparr>"

definition has_remaining_import_story_arc_finalizers :: "int list \<Rightarrow> arc_tables \<Rightarrow> bool" where
  "has_remaining_import_story_arc_finalizers excluded t \<longleftrightarrow>
     list_ex (\<lambda>j. waiting_finalizer t j \<and> ij_id j \<notin> set excluded) (at_jobs t)"

definition ready_import_story_arc_rollbacks :: "arc_tables \<Rightarrow> int list" where
  "ready_import_story_arc_rollbacks t =
     take MAX_IMPORT_PLACEMENT_FINALIZE_BATCH_SIZE (sort (map ij_id (filter (\<lambda>j.
       ij_status j = Imp_ROLLING_BACK \<and> ij_waiting_work j \<noteq> None
       \<and> (case row_ref sw_id (ij_waiting_work j) (at_work t) of None \<Rightarrow> True | Some w \<Rightarrow> sw_state w \<noteq> Sync_RUNNING)) (at_jobs t))))"

subsection \<open>A drain\<close>

record drain_result =
  dn_discovered :: nat
  dn_counts :: drain_counts
  dn_has_more :: bool
  dn_next_retry :: "timestamp option"
  dn_jobs :: finalized_jobs
  dn_rollback_ready :: "int list"

text \<open>An interrupted drain raises, and an error of the discovery or of the batch size is one.\<close>

datatype drain_error = Drain_error sync_error | Drain_interrupted

definition process_story_arc_sync_work ::
  "hashing \<Rightarrow> sql_cast \<Rightarrow> int \<Rightarrow> bool \<Rightarrow> bool \<Rightarrow> timestamp \<Rightarrow> timestamp \<Rightarrow> (int \<Rightarrow> item_run) \<Rightarrow> arc_tables \<Rightarrow>
   (drain_error, drain_result) result \<times> arc_tables" where
  "process_story_arc_sync_work hs c batch_size discover import_only now later runs t =
     (if batch_size < 1 \<or> MAX_STORY_ARC_SYNC_BATCH_SIZE < batch_size then (Inl (Drain_error Bad_value), t)
      else case (if discover \<and> \<not> import_only then discover_story_arc_sync_work hs c now DEFAULT_STORY_ARC_DISCOVERY_LIMIT t
                 else Inr (0, t)) of
        Inl e \<Rightarrow> (Inl (Drain_error e), t)
      | Inr (discovered, t1) \<Rightarrow>
          let work_ids = ready_work_ids now (nat batch_size) import_only t1
          in (case process_items hs import_only (map (\<lambda>i. (i, runs i)) work_ids) t1 no_items of
                (False, t2, d) \<Rightarrow> (Inl Drain_interrupted, t2)
              | (True, t2, d) \<Rightarrow>
                  let touched = origin_import_job_ids_for_work_ids work_ids t2;
                      more = has_ready_work later import_only t2;
                      (jobs, t3) = finalize_waiting_import_story_arc_placements later
                        (if work_ids = [] then None else Some touched) t2
                  in (Inr \<lparr>dn_discovered = discovered, dn_counts = d,
                         dn_has_more = (more \<or> has_remaining_import_story_arc_finalizers (fj_evaluated jobs) t3),
                         dn_next_retry = next_retry_at import_only t2, dn_jobs = jobs,
                         dn_rollback_ready = ready_import_story_arc_rollbacks t3\<rparr>, t3)))"

end
