(* ===== verification/Arc_Import_Enqueue.thy ===== *)
theory Arc_Import_Enqueue
  imports Arc_Sync_Import
begin

text \<open>
  \<open>enqueue_import_story_arc_sync_work_batch\<close> of \<open>services/story_arc_sync_queue.py\<close>: the work an import
  asks for, each bound to a journal action and to the staged entry it comes from. The recorder of
  actions is an argument: it writes the journal and returns the actions.
\<close>

record proposal =
  pp_file :: library_file
  pp_membership :: membership
  pp_arc :: story_arc
  pp_staged :: int
  pp_entry :: int

record prepared_proposal =
  pr_proposal :: proposal
  pr_generation :: pystr
  pr_hash :: pystr

record enqueue_result =
  er_work :: "sync_work option"
  er_action :: "import_action option"
  er_class :: pystr
  er_generation :: pystr

definition prepared_key :: "prepared_proposal \<Rightarrow> int \<times> pystr" where
  "prepared_key i = (ms_id (pp_membership (pr_proposal i)), pr_generation i)"

definition prepared_origin :: "prepared_proposal \<Rightarrow> int \<times> int" where
  "prepared_origin i = (pp_staged (pr_proposal i), pp_entry (pr_proposal i))"

subsection \<open>Checks before anything is written\<close>

definition MAX_IMPORT_STORY_ARC_SYNC_ENQUEUE_BATCH_SIZE :: nat where "MAX_IMPORT_STORY_ARC_SYNC_ENQUEUE_BATCH_SIZE = 200"

definition proposal_valid :: "import_job \<Rightarrow> proposal \<Rightarrow> bool" where
  "proposal_valid j p \<longleftrightarrow>
     0 < ij_id j \<and> 0 < lf_id (pp_file p) \<and> 0 < ms_id (pp_membership p) \<and> 0 < sa_id (pp_arc p) \<and> 0 < pp_staged p \<and> 0 < pp_entry p
     \<and> ms_arc (pp_membership p) = sa_id (pp_arc p) \<and> ms_issue (pp_membership p) \<noteq> None
     \<and> ms_issue (pp_membership p) = lf_issue (pp_file p) \<and> ms_resolution (pp_membership p) = Res_RESOLVED
     \<and> import_managed_policy_configured (pp_arc p)"

definition prepare_proposal :: "hashing \<Rightarrow> proposal \<Rightarrow> prepared_proposal" where
  "prepare_proposal hs p =
     (let g = desired_generation hs (pp_file p) (pp_membership p) (pp_arc p)
      in \<lparr>pr_proposal = p, pr_generation = fst g, pr_hash = snd g\<rparr>)"

type_synonym staged_binding = "int \<times> int option \<times> int \<times> int option"

definition staged_binding :: "arc_tables \<Rightarrow> int \<Rightarrow> staged_binding option" where
  "staged_binding t entry_id = (case row_by se_id entry_id (at_staged_entries t) of
     None \<Rightarrow> None
   | Some e \<Rightarrow> map_option (\<lambda>g. (sg_id g, se_membership e, sg_job g, sg_arc g)) (row_by sg_id (se_arc e) (at_staged_arcs t)))"

definition owns_membership :: "arc_tables \<Rightarrow> import_job \<Rightarrow> prepared_proposal \<Rightarrow> bool" where
  "owns_membership t j i \<longleftrightarrow>
     (let p = pr_proposal i
      in staged_binding t (pp_entry p) = Some (pp_staged p, Some (ms_id (pp_membership p)), ij_id j, Some (sa_id (pp_arc p))))"

definition one_arc_per_key :: "prepared_proposal list \<Rightarrow> bool" where
  "one_arc_per_key items \<longleftrightarrow>
     list_all (\<lambda>i. case find (\<lambda>k. prepared_key k = prepared_key i) items of
       Some first \<Rightarrow> pp_staged (pr_proposal first) = pp_staged (pr_proposal i) | None \<Rightarrow> True) items"

subsection \<open>Work that exists\<close>

definition invalid_existing_origin :: sync_error where
  "invalid_existing_origin = Integration ''import_sync_existing_origin_invalid'' ''ownership''"
definition unusable_existing_work :: sync_error where
  "unusable_existing_work = Integration ''import_sync_existing_work_unusable'' ''conflict''"
definition invalid_completed_placement :: sync_error where
  "invalid_completed_placement = Integration ''import_sync_completed_placement_invalid'' ''ownership''"
definition unverified_non_origin_placement :: sync_error where
  "unverified_non_origin_placement = Integration ''import_sync_non_origin_placement_unverified'' ''conflict''"

definition work_matches_prepared_generation :: "sync_work \<Rightarrow> prepared_proposal \<Rightarrow> bool" where
  "work_matches_prepared_generation w i \<longleftrightarrow>
     (let p = pr_proposal i in
      sw_membership w = ms_id (pp_membership p) \<and> sw_file w = lf_id (pp_file p) \<and> sw_generation w = pr_generation i
      \<and> sw_source_hash w = pr_hash i \<and> sw_revision w = sa_revision (pp_arc p) \<and> sw_sequence w = ms_sequence (pp_membership p)
      \<and> sw_schema w = schema_or_default (pp_arc p))"

definition placement_matches_work_generation :: "placement_row \<Rightarrow> sync_work \<Rightarrow> bool" where
  "placement_matches_work_generation p w \<longleftrightarrow>
     pl_membership p = sw_membership w \<and> pl_file p = Some (sw_file w) \<and> pl_order p = Some (sw_sequence w)
     \<and> pl_schema p = Some (sw_schema w) \<and> pl_state p = Pl_CURRENT \<and> pl_token p = None
     \<and> (pl_mode p = Mode_reference_only \<and> pl_ownership p = Referenced
        \<or> pl_mode p \<in> {Mode_copy, Mode_hardlink, Mode_symlink} \<and> pl_ownership p = Managed)"

definition completed_origin_placement_matches :: "placement_row \<Rightarrow> sync_work \<Rightarrow> bool" where
  "completed_origin_placement_matches p w \<longleftrightarrow>
     placement_matches_work_generation p w \<and> pl_ownership p = Managed \<and> pl_mode p \<in> {Mode_copy, Mode_hardlink, Mode_symlink}
     \<and> pl_source_kind p = Src_PULLBOX \<and> json_is (pl_result p) ''status'' ''complete''"

definition pair_placements :: "arc_tables \<Rightarrow> sync_work \<Rightarrow> placement_row list" where
  "pair_placements t w = sort_key pl_id
     (filter (\<lambda>p. pl_membership p = sw_membership w \<and> pl_file p = Some (sw_file w)) (at_placements t))"

definition action_placements :: "arc_tables \<Rightarrow> sync_work \<Rightarrow> placement_row list" where
  "action_placements t w = (case sw_origin_action w of
     None \<Rightarrow> [] | Some a \<Rightarrow> sort_key pl_id (filter (\<lambda>p. pl_action p = Some a) (at_placements t)))"

definition existing_result :: "sync_work \<Rightarrow> import_action option \<Rightarrow> pystr \<Rightarrow> prepared_proposal \<Rightarrow> enqueue_result" where
  "existing_result w act label i = \<lparr>er_work = Some w, er_action = act, er_class = label, er_generation = pr_generation i\<rparr>"

definition classify_non_origin :: "arc_tables \<Rightarrow> prepared_proposal \<Rightarrow> sync_work \<Rightarrow> (sync_error, enqueue_result) result" where
  "classify_non_origin t i w =
     (if sw_origin_job w \<noteq> None \<or> sw_origin_arc w \<noteq> None \<or> sw_origin_entry w \<noteq> None then Inl invalid_existing_origin
      else if length (filter (\<lambda>p. placement_matches_work_generation p w) (pair_placements t w)) \<noteq> 1
      then Inl unverified_non_origin_placement
      else Inr (existing_result w None ''existing_non_origin_placement'' i))"

definition classify_origin ::
  "arc_tables \<Rightarrow> int \<Rightarrow> prepared_proposal \<Rightarrow> sync_work \<Rightarrow> import_action option \<Rightarrow> (sync_error, enqueue_result) result" where
  "classify_origin t job_id i w act =
     (let p = pr_proposal i;
          binding = Option.bind (sw_origin_entry w) (staged_binding t);
          same = (sw_origin_arc w = Some (pp_staged p) \<and> sw_origin_entry w = Some (pp_entry p))
      in case act of
           None \<Rightarrow> Inl invalid_existing_origin
         | Some a \<Rightarrow>
             if Some (ia_id a) \<noteq> sw_origin_action w \<or> ia_job a \<noteq> job_id \<or> \<not> publishing_action a \<or> sw_origin_job w \<noteq> Some job_id
                \<or> map_option (\<lambda>(g, m, j, arc). (Some g, m, j, arc)) binding
                    \<noteq> Some (sw_origin_arc w, Some (sw_membership w), job_id, Some (sa_id (pp_arc p)))
                \<or> \<not> origin_payload_matches a w job_id (ms_id (pp_membership p))
             then Inl invalid_existing_origin
             else if \<not> same \<and> sw_origin_arc w \<noteq> Some (pp_staged p) then Inl invalid_existing_origin
             else if sw_state w \<in> {Sync_QUEUED, Sync_RUNNING, Sync_RETRY_WAIT} then
               Inr (existing_result w act
                 (if same then ''existing_import_work_pending'' else ''existing_import_membership_duplicate'') i)
             else if sw_state w = Sync_COMPLETED then
               (case action_placements t w of
                  [pl] \<Rightarrow>
                    if pl_job pl \<noteq> Some job_id \<or> pl_action pl \<noteq> Some (ia_id a) \<or> \<not> completed_origin_placement_matches pl w
                    then Inl invalid_completed_placement
                    else Inr (existing_result w act
                      (if same then ''existing_import_work_completed'' else ''existing_import_membership_duplicate'') i)
                | _ \<Rightarrow> Inl invalid_completed_placement)
             else Inl unusable_existing_work)"

definition classify_existing_import_work ::
  "arc_tables \<Rightarrow> int \<Rightarrow> prepared_proposal \<Rightarrow> sync_work \<Rightarrow> (sync_error, enqueue_result) result" where
  "classify_existing_import_work t job_id i w =
     (if \<not> work_matches_prepared_generation w i then
        Inl (if sw_origin_action w \<noteq> None then invalid_existing_origin else unverified_non_origin_placement)
      else if sw_origin_action w = None then classify_non_origin t i w
      else classify_origin t job_id i w (row_ref ia_id (sw_origin_action w) (at_actions t)))"

fun classify_all ::
  "arc_tables \<Rightarrow> int \<Rightarrow> (sync_work \<Rightarrow> prepared_proposal) \<Rightarrow> sync_work list \<Rightarrow>
   (sync_error, (int \<times> pystr, enqueue_result) dict) result" where
  "classify_all t job_id rep [] = Inr []"
| "classify_all t job_id rep (w # ws) =
     bind_result (classify_existing_import_work t job_id (rep w) w) (\<lambda>r.
     bind_result (classify_all t job_id rep ws) (\<lambda>rs. Inr ((work_key w, r) # rs)))"

subsection \<open>Which proposal stands for which\<close>

text \<open>The representative of a key: the index of the first proposal with the least staged entry\<close>

definition representative_step :: "prepared_proposal list \<Rightarrow> nat \<Rightarrow> (int \<times> pystr, nat) dict \<Rightarrow> (int \<times> pystr, nat) dict" where
  "representative_step items n reps =
     (let i = items ! n in
      case map_of reps (prepared_key i) of
        None \<Rightarrow> AList.update (prepared_key i) n reps
      | Some prior \<Rightarrow>
          if pp_entry (pr_proposal i) < pp_entry (pr_proposal (items ! prior))
          then AList.update (prepared_key i) n reps else reps)"

definition representatives :: "prepared_proposal list \<Rightarrow> (int \<times> pystr, nat) dict" where
  "representatives items = fold (representative_step items) [0..<length items] []"

definition rep_index :: "prepared_proposal list \<Rightarrow> int \<times> pystr \<Rightarrow> nat" where
  "rep_index items k = or_else (map_of (representatives items) k) 0"

text \<open>The first placement of a membership\<close>

definition first_placement :: "arc_tables \<Rightarrow> int \<Rightarrow> placement_row option" where
  "first_placement t m = (case sort_key pl_id (filter (\<lambda>p. pl_membership p = m) (at_placements t)) of
     [] \<Rightarrow> None | p # ps \<Rightarrow> Some p)"

definition placement_result_of :: "placement_row \<Rightarrow> prepared_proposal \<Rightarrow> enqueue_result" where
  "placement_result_of p i =
     \<lparr>er_work = None, er_action = None,
      er_class = (if pl_ownership p = Managed then ''existing_managed_placement'' else ''existing_referenced_placement''),
      er_generation = pr_generation i\<rparr>"

text \<open>The answer for a proposal that needs nothing new: a representative with work or a placement\<close>

definition found_result ::
  "arc_tables \<Rightarrow> (int \<times> pystr, enqueue_result) dict \<Rightarrow> prepared_proposal \<Rightarrow> enqueue_result option" where
  "found_result t existing i = (case map_of existing (prepared_key i) of
     Some r \<Rightarrow> Some r
   | None \<Rightarrow> map_option (\<lambda>p. placement_result_of p i) (first_placement t (fst (prepared_key i))))"

definition creation_indexes :: "arc_tables \<Rightarrow> (int \<times> pystr, enqueue_result) dict \<Rightarrow> prepared_proposal list \<Rightarrow> nat list" where
  "creation_indexes t existing items =
     filter (\<lambda>n. rep_index items (prepared_key (items ! n)) = n \<and> found_result t existing (items ! n) = None)
       [0..<length items]"

subsection \<open>Making the work\<close>

definition action_payload :: "int \<Rightarrow> prepared_proposal \<Rightarrow> json" where
  "action_payload job_id i =
     (let p = pr_proposal i in JObj
        [(''schema_version'', JInt 1), (''sync_work_id'', JNull), (''membership_id'', JInt (ms_id (pp_membership p))),
         (''desired_generation'', JStr (pr_generation i)), (''imported_story_arc_id'', JInt (pp_staged p)),
         (''imported_story_arc_entry_id'', JInt (pp_entry p)), (''source_import_job_id'', JInt job_id)])"

definition import_work_row :: "timestamp \<Rightarrow> int \<Rightarrow> prepared_proposal \<times> import_action \<Rightarrow> sync_work" where
  "import_work_row now job_id x = (case x of (i, act) \<Rightarrow>
     let p = pr_proposal i in
     \<lparr>sw_id = 0, sw_created = now, sw_membership = ms_id (pp_membership p), sw_file = lf_id (pp_file p),
      sw_origin_action = Some (ia_id act), sw_origin_job = Some job_id, sw_origin_arc = Some (pp_staged p),
      sw_origin_entry = Some (pp_entry p), sw_generation = pr_generation i, sw_source_hash = pr_hash i,
      sw_columns = file_columns_of (pp_file p), sw_revision = sa_revision (pp_arc p), sw_sequence = ms_sequence (pp_membership p),
      sw_schema = schema_or_default (pp_arc p), sw_reason = Reason_CANONICAL_REGISTERED, sw_state = Sync_QUEUED,
      sw_claimable = False, sw_attempts = 0, sw_next_attempt = None, sw_token = None, sw_claimed_at = None,
      sw_cancel_requested = None, sw_error = None, sw_result = JObj []\<rparr>)"

type_synonym action_recorder =
  "import_job \<Rightarrow> (pystr \<times> pystr \<times> json) list \<Rightarrow> arc_tables \<Rightarrow> (sync_error, import_action list \<times> arc_tables) result"

definition action_of_spec :: "import_job \<Rightarrow> pystr \<times> pystr \<times> json \<Rightarrow> import_action \<Rightarrow> bool" where
  "action_of_spec j spec a = (case spec of (phase, kind, payload) \<Rightarrow>
     0 < ia_id a \<and> ia_job a = ij_id j \<and> ia_phase a = phase \<and> ia_type a = kind \<and> py_eq (ia_payload a) payload)"

definition action_invalid :: sync_error where
  "action_invalid = Integration ''import_sync_action_invalid'' ''ownership''"

text \<open>Each work row with its action, whose payload then names the row\<close>

definition bind_action :: "int \<Rightarrow> prepared_proposal \<times> import_action \<times> sync_work \<Rightarrow> enqueue_result" where
  "bind_action job_id x = (case x of (i, act, w) \<Rightarrow>
     \<lparr>er_work = Some w, er_action = Some (act\<lparr>ia_payload := json_put ''sync_work_id'' (JInt (sw_id w)) (action_payload job_id i)\<rparr>),
      er_class = ''created'', er_generation = pr_generation i\<rparr>)"

definition create_import_work ::
  "action_recorder \<Rightarrow> timestamp \<Rightarrow> import_job \<Rightarrow> prepared_proposal list \<Rightarrow> arc_tables \<Rightarrow>
   (sync_error, enqueue_result list \<times> arc_tables) result" where
  "create_import_work record now j items t =
     (if items = [] then Inr ([], t)
      else
        let specs = map (\<lambda>i. (IMPORT_PLACEMENT_PHASE, IMPORT_PLACEMENT_ACTION_TYPE, action_payload (ij_id j) i)) items
        in bind_result (record j specs t) (\<lambda>(actions, t1).
           if length actions \<noteq> length specs \<or> \<not> distinct (map ia_id actions)
              \<or> \<not> list_all2 (action_of_spec j) specs actions then Inl action_invalid
           else bind_result (insert_work (map (import_work_row now (ij_id j)) (zip items actions)) t1) (\<lambda>(works, t2).
             if list_ex (\<lambda>w. sw_id w \<le> 0) works then Inl action_invalid
             else
               let results = map (bind_action (ij_id j)) (zip items (zip actions works))
               in Inr (results, fold (\<lambda>r u. case er_action r of Some a \<Rightarrow> put_import_action a u | None \<Rightarrow> u) results t2))))"

definition duplicate_result :: "prepared_proposal \<Rightarrow> prepared_proposal \<Rightarrow> enqueue_result \<Rightarrow> enqueue_result" where
  "duplicate_result i rep r = r\<lparr>er_class :=
     (if prepared_origin i = prepared_origin rep then ''in_call_duplicate'' else ''in_call_membership_duplicate'')\<rparr>"

text \<open>The answer for every proposal, in order\<close>

definition assemble ::
  "arc_tables \<Rightarrow> (int \<times> pystr, enqueue_result) dict \<Rightarrow> prepared_proposal list \<Rightarrow> (nat \<times> enqueue_result) list \<Rightarrow> nat \<Rightarrow>
   enqueue_result option" where
  "assemble t existing items created n =
     (let i = items ! n; k = rep_index items (prepared_key i);
          own = (case found_result t existing (items ! k) of Some r \<Rightarrow> Some r | None \<Rightarrow> map_of created k)
      in if k = n then own else map_option (duplicate_result i (items ! k)) own)"

definition enqueue_import_story_arc_sync_work_batch ::
  "hashing \<Rightarrow> action_recorder \<Rightarrow> timestamp \<Rightarrow> import_job \<Rightarrow> proposal list \<Rightarrow> arc_tables \<Rightarrow>
   (sync_error, enqueue_result list \<times> arc_tables) result" where
  "enqueue_import_story_arc_sync_work_batch hs record now j proposals t =
     (if proposals = [] then Inr ([], t)
      else if MAX_IMPORT_STORY_ARC_SYNC_ENQUEUE_BATCH_SIZE < length proposals then Inl Bad_value
      else if \<not> list_all (proposal_valid j) proposals then Inl (Integration ''import_sync_context_invalid'' ''validation'')
      else if ij_status j \<noteq> Imp_IMPORTING \<or> ij_control j \<noteq> Control_NONE
         \<or> \<not> (json_is (ij_snapshot j) ''phase'' ''story_arcs'' \<or> json_is (ij_snapshot j) ''phase'' IMPORT_PLACEMENT_PHASE)
      then Inl (Integration ''import_sync_job_inactive'' ''cancelled'')
      else
        let items = map (prepare_proposal hs) proposals
        in if \<not> list_all (owns_membership t j) items
           then Inl (Integration ''import_sync_origin_binding_invalid'' ''ownership'')
           else if \<not> one_arc_per_key items then Inl invalid_existing_origin
           else
             bind_result (classify_all t (ij_id j) (\<lambda>w. items ! rep_index items (work_key w))
                 (filter (\<lambda>w. work_key w \<in> set (map prepared_key items)) (at_work t))) (\<lambda>existing.
             let indexes = creation_indexes t existing items
             in bind_result (create_import_work record now j (map (\<lambda>n. items ! n) indexes) t) (\<lambda>(made, t').
                let results = map (assemble t existing items (zip indexes made)) [0..<length items]
                in if list_ex (\<lambda>r. r = None) results then Inl Runtime_fault
                   else Inr (List.map_filter id results, t'))))"

end
