(* ===== verification/Arc_Sync_Lease.thy ===== *)
theory Arc_Sync_Lease
  imports Arc_Sync_Worker Arc_Import_Enqueue
begin

text \<open>
  What holds of the synchronisation queue under every interleaving of workers, heartbeats, imports
  and operators: the table of work stays well formed, and the claims on a row are a lease that
  passes to another worker only when it has ended or has not been refreshed for fifteen minutes.
\<close>

subsection \<open>Operations, and the leases they show\<close>

datatype sync_op =
    Op_claim int timestamp pystr bool
  | Op_refresh int pystr timestamp
  | Op_finish work_context pystr pystr
  | Op_cancel int pystr pystr
  | Op_fail work_context pystr timestamp pystr pystr pystr bool
  | Op_enqueue hashing timestamp library_file sync_reason
  | Op_discover hashing sql_cast timestamp int
  | Op_import hashing action_recorder timestamp import_job "proposal list"
  | Op_seal int
  | Op_finalize timestamp int
  | Op_retry hashing int
  | Op_discard "int list"
  | Op_fence timestamp json sync_work

definition after :: "('e, 'a \<times> arc_tables) result \<Rightarrow> arc_tables \<Rightarrow> arc_tables" where
  "after r t = (case r of Inl e \<Rightarrow> t | Inr (x, t') \<Rightarrow> t')"

fun run_op :: "sync_op \<Rightarrow> arc_tables \<Rightarrow> arc_tables" where
  "run_op (Op_claim i now tk io) t = snd (claim_story_arc_sync_work i now tk io t)"
| "run_op (Op_refresh i tk now) t = snd (refresh_story_arc_sync_claim i tk now t)"
| "run_op (Op_finish cx tk result) t = snd (finish_work cx tk result t)"
| "run_op (Op_cancel i tk label) t = snd (cancel_work i tk label t)"
| "run_op (Op_fail cx tk now label category detail retryable) t =
     snd (fail_or_retry_work cx tk now label category detail retryable t)"
| "run_op (Op_enqueue hs now f reason) t = after (enqueue_story_arc_sync_work hs now f reason t) t"
| "run_op (Op_discover hs c now limit) t = after (discover_story_arc_sync_work hs c now limit t) t"
| "run_op (Op_import hs rec now j ps) t = after (enqueue_import_story_arc_sync_work_batch hs rec now j ps t) t"
| "run_op (Op_seal job) t = after (seal_import_story_arc_placement_origin job t) t"
| "run_op (Op_finalize now job) t = after (finalize_import_story_arc_placements now job t) t"
| "run_op (Op_retry hs job) t = after (retry_import_story_arc_sync_work hs job t) t"
| "run_op (Op_discard jobs) t = after (discard_unpublished_import_story_arc_sync_work jobs t) t"
| "run_op (Op_fence now checkpoint w) t = snd (fence_import_story_arc_work now checkpoint w t)"

definition run_ops :: "sync_op list \<Rightarrow> arc_tables \<Rightarrow> arc_tables" where
  "run_ops ops t = fold run_op ops t"

text \<open>The recorder of an import journals actions and leaves the table of work alone.\<close>

fun op_ok :: "sync_op \<Rightarrow> bool" where
  "op_ok (Op_import hs rec now j ps) \<longleftrightarrow>
     (\<forall>k specs t. at_work (after (rec k specs t) t) = at_work t \<and> at_next_work (after (rec k specs t) t) = at_next_work t)"
| "op_ok _ \<longleftrightarrow> True"

text \<open>What an operation that succeeds shows of the claims on row \<open>i\<close>\<close>

datatype lease_event = Ev_claim pystr timestamp | Ev_refresh pystr timestamp | Ev_end pystr

fun lease_shown :: "int \<Rightarrow> sync_op \<Rightarrow> arc_tables \<Rightarrow> lease_event list" where
  "lease_shown i (Op_claim k now tk io) t =
     (if k = i \<and> fst (claim_story_arc_sync_work k now tk io t) \<noteq> None then [Ev_claim tk now] else [])"
| "lease_shown i (Op_refresh k tk now) t =
     (if k = i \<and> fst (refresh_story_arc_sync_claim k tk now t) then [Ev_refresh tk now] else [])"
| "lease_shown i (Op_finish cx tk result) t =
     (if cx_work cx = i \<and> fst (finish_work cx tk result t) then [Ev_end tk] else [])"
| "lease_shown i (Op_cancel k tk label) t = (if k = i \<and> fst (cancel_work k tk label t) then [Ev_end tk] else [])"
| "lease_shown i (Op_fail cx tk now label category detail retryable) t =
     (if cx_work cx = i \<and> fst (fail_or_retry_work cx tk now label category detail retryable t) \<noteq> None then [Ev_end tk] else [])"
| "lease_shown i _ t = []"

fun lease_events :: "int \<Rightarrow> sync_op list \<Rightarrow> arc_tables \<Rightarrow> lease_event list" where
  "lease_events i [] t = []"
| "lease_events i (op # ops) t = lease_shown i op t @ lease_events i ops (run_op op t)"

text \<open>The lease: who holds the row, since when or since the last refresh\<close>

type_synonym lease = "(pystr \<times> timestamp) option"

fun lease_next :: "lease_event \<Rightarrow> lease \<Rightarrow> lease option" where
  "lease_next (Ev_claim tk now) l = (case l of
     None \<Rightarrow> Some (Some (tk, now))
   | Some (holder, since) \<Rightarrow> if since + CLAIM_LEASE \<le> now then Some (Some (tk, now)) else None)"
| "lease_next (Ev_refresh tk now) l = (case l of
     None \<Rightarrow> None
   | Some (holder, since) \<Rightarrow> if holder = tk then Some (Some (tk, now)) else None)"
| "lease_next (Ev_end tk) l = (case l of
     None \<Rightarrow> None
   | Some (holder, since) \<Rightarrow> if holder = tk then Some None else None)"

fun lease_run :: "lease_event list \<Rightarrow> lease \<Rightarrow> lease option" where
  "lease_run [] l = Some l"
| "lease_run (e # es) l = (case lease_next e l of None \<Rightarrow> None | Some m \<Rightarrow> lease_run es m)"

definition row_lease :: "sync_work \<Rightarrow> lease" where
  "row_lease w = (case (sw_token w, sw_claimed_at w) of
     (Some tk, Some since) \<Rightarrow> if sw_state w = Sync_RUNNING then Some (tk, since) else None
   | _ \<Rightarrow> None)"

definition lease_of :: "arc_tables \<Rightarrow> int \<Rightarrow> lease" where
  "lease_of t i = Option.bind (row_by sw_id i (at_work t)) row_lease"

subsection \<open>The table of work\<close>

definition work_ok :: "sync_work \<Rightarrow> bool" where
  "work_ok w \<longleftrightarrow> (sw_state w = Sync_RUNNING \<longleftrightarrow> sw_token w \<noteq> None) \<and> (sw_state w = Sync_RUNNING \<longleftrightarrow> sw_claimed_at w \<noteq> None)
     \<and> (sw_state w = Sync_RETRY_WAIT \<longleftrightarrow> sw_next_attempt w \<noteq> None) \<and> 0 \<le> sw_attempts w
     \<and> (sw_state w = Sync_RUNNING \<longrightarrow> 0 < sw_attempts w \<and> sw_claimable w)"

definition queue_ok :: "arc_tables \<Rightarrow> bool" where
  "queue_ok t \<longleftrightarrow> distinct (map sw_id (at_work t)) \<and> (\<forall>w \<in> set (at_work t). work_ok w \<and> sw_id w < at_next_work t)
     \<and> distinct (map work_key (at_work t)) \<and> distinct (origin_actions (at_work t))"

text \<open>Changing rows without their keys keeps the table well formed.\<close>

definition keeps_keys :: "(sync_work \<Rightarrow> sync_work) \<Rightarrow> bool" where
  "keeps_keys f \<longleftrightarrow> (\<forall>w. sw_id (f w) = sw_id w \<and> work_key (f w) = work_key w \<and> sw_origin_action (f w) = sw_origin_action w)"

lemma map_update_keys:
  assumes "keeps_keys f"
  shows "map sw_id (map (\<lambda>w. if P w then f w else w) ws) = map sw_id ws"
    "map work_key (map (\<lambda>w. if P w then f w else w) ws) = map work_key ws"
    "origin_actions (map (\<lambda>w. if P w then f w else w) ws) = origin_actions ws"
proof -
  show "map sw_id (map (\<lambda>w. if P w then f w else w) ws) = map sw_id ws"
    using assms by (auto simp: keeps_keys_def)
  show "map work_key (map (\<lambda>w. if P w then f w else w) ws) = map work_key ws"
    using assms by (auto simp: keeps_keys_def)
  show "origin_actions (map (\<lambda>w. if P w then f w else w) ws) = origin_actions ws"
    using assms
    by (induction ws) (auto simp: origin_actions_def keeps_keys_def List.map_filter_simps split: option.split)
qed

lemma queue_ok_update:
  assumes "queue_ok t" and "keeps_keys f" and "\<And>w. w \<in> set (at_work t) \<Longrightarrow> P w \<Longrightarrow> work_ok w \<Longrightarrow> work_ok (f w)"
  shows "queue_ok (snd (update_work P f t))"
proof -
  let ?ws = "map (\<lambda>w. if P w then f w else w) (at_work t)"
  have "work_ok w \<and> sw_id w < at_next_work t" if "w \<in> set ?ws" for w
    using that assms by (auto simp: queue_ok_def keeps_keys_def)
  then show ?thesis
    using assms(1) map_update_keys [OF assms(2), of P "at_work t"]
    by (simp only: queue_ok_def update_work_def snd_conv) (simp del: map_map)
qed

lemma row_by_update:
  assumes "keeps_keys f"
  shows "row_by sw_id i (at_work (snd (update_work P f t))) =
    map_option (\<lambda>w. if P w then f w else w) (row_by sw_id i (at_work t))"
proof -
  have "find (\<lambda>r. sw_id r = i) (map (\<lambda>w. if P w then f w else w) ws) =
      map_option (\<lambda>w. if P w then f w else w) (find (\<lambda>r. sw_id r = i) ws)" for ws
    using assms by (induction ws) (auto simp: keeps_keys_def)
  then show ?thesis by (simp add: row_by_def update_work_def)
qed

text \<open>A statement that names one row changes one row or none.\<close>

lemma update_count:
  assumes "queue_ok t" and "\<And>w. P w \<Longrightarrow> sw_id w = i"
  shows "fst (update_work P f t) = (case row_by sw_id i (at_work t) of None \<Rightarrow> 0 | Some w \<Rightarrow> if P w then 1 else 0)"
proof -
  have "length (filter P ws) = (case find (\<lambda>r. sw_id r = i) ws of None \<Rightarrow> 0 | Some w \<Rightarrow> if P w then 1 else 0)"
    if "distinct (map sw_id ws)" for ws
    using that
  proof (induction ws)
    case (Cons w ws)
    have "filter P ws = []" if "sw_id w = i"
      using Cons.prems assms(2) that by (auto simp: filter_empty_conv) (metis image_eqI)
    moreover have "\<not> P w" if "sw_id w \<noteq> i" using assms(2) that by blast
    ultimately show ?case using Cons by auto
  qed simp
  then show ?thesis using assms(1) by (simp add: update_work_def row_by_def queue_ok_def)
qed

text \<open>What has to be shown of an operation on a well-formed table\<close>

definition follows_lease :: "sync_op \<Rightarrow> arc_tables \<Rightarrow> bool" where
  "follows_lease op t \<longleftrightarrow> queue_ok (run_op op t)
     \<and> (\<forall>i. lease_run (lease_shown i op t) (lease_of t i) = Some (lease_of (run_op op t) i))"

lemma lease_of_update:
  "keeps_keys f \<Longrightarrow> lease_of (snd (update_work P f t)) i =
     (case row_by sw_id i (at_work t) of None \<Rightarrow> None | Some w \<Rightarrow> row_lease (if P w then f w else w))"
  by (simp add: lease_of_def row_by_update split: option.split)

lemma row_ok: "queue_ok t \<Longrightarrow> row_by sw_id i (at_work t) = Some w \<Longrightarrow> work_ok w \<and> sw_id w = i"
  using row_by_Some [of sw_id i "at_work t" w] by (auto simp: queue_ok_def)

lemma row_lease_held: "work_ok w \<Longrightarrow> held_by i tk w \<Longrightarrow> \<exists>since. row_lease w = Some (tk, since)"
  by (cases "sw_claimed_at w") (auto simp: row_lease_def work_ok_def held_by_def)

lemma row_lease_idle: "work_ok w \<Longrightarrow> sw_state w \<noteq> Sync_RUNNING \<Longrightarrow> row_lease w = None"
  by (auto simp: row_lease_def work_ok_def split: option.split)

lemma row_lease_running: "work_ok w \<Longrightarrow> sw_state w = Sync_RUNNING \<Longrightarrow>
    \<exists>tk since. sw_token w = Some tk \<and> sw_claimed_at w = Some since \<and> row_lease w = Some (tk, since)"
  by (auto simp: row_lease_def work_ok_def)

text \<open>A statement of the worker that holds the claim\<close>

lemma held_update:
  assumes ok: "queue_ok t" and keys: "keeps_keys f"
    and work: "\<And>w. work_ok w \<Longrightarrow> held_by k tk w \<Longrightarrow> work_ok (f w)"
    and lease: "\<And>w since. work_ok w \<Longrightarrow> held_by k tk w \<Longrightarrow> row_lease w = Some (tk, since) \<Longrightarrow>
        lease_next ev (Some (tk, since)) = Some (row_lease (f w))"
  shows "queue_ok (snd (update_work (held_by k tk) f t))"
    "lease_run (if k = i \<and> fst (update_work (held_by k tk) f t) = 1 then [ev] else []) (lease_of t i) =
      Some (lease_of (snd (update_work (held_by k tk) f t)) i)"
proof -
  show "queue_ok (snd (update_work (held_by k tk) f t))" by (rule queue_ok_update [OF ok keys work])
  have count: "fst (update_work (held_by k tk) f t) =
      (case row_by sw_id k (at_work t) of None \<Rightarrow> 0 | Some w \<Rightarrow> if held_by k tk w then 1 else 0)"
    by (rule update_count [OF ok]) (simp add: held_by_def)
  show "lease_run (if k = i \<and> fst (update_work (held_by k tk) f t) = 1 then [ev] else []) (lease_of t i) =
      Some (lease_of (snd (update_work (held_by k tk) f t)) i)"
  proof (cases "row_by sw_id i (at_work t)")
    case None
    then show ?thesis using count by (auto simp: lease_of_update [OF keys] lease_of_def [of t i])
  next
    case (Some w)
    have w: "work_ok w" "sw_id w = i" using row_ok [OF ok Some] by auto
    show ?thesis
    proof (cases "held_by k tk w")
      case True
      then have "k = i" using w by (simp add: held_by_def)
      moreover obtain since where "row_lease w = Some (tk, since)" using row_lease_held [OF w(1) True] by blast
      ultimately show ?thesis
        using count Some True lease [OF w(1) True] by (simp add: lease_of_update [OF keys] lease_of_def [of t i])
    next
      case False
      then show ?thesis using count Some by (auto simp: lease_of_update [OF keys] lease_of_def [of t i])
    qed
  qed
qed

text \<open>A statement that neither starts nor ends a claim\<close>

lemma silent_update:
  assumes ok: "queue_ok t" and keys: "keeps_keys f"
    and work: "\<And>w. work_ok w \<Longrightarrow> P w \<Longrightarrow> work_ok (f w) \<and> row_lease (f w) = row_lease w"
  shows "queue_ok (snd (update_work P f t))" "lease_of (snd (update_work P f t)) i = lease_of t i"
proof -
  show "queue_ok (snd (update_work P f t))" by (rule queue_ok_update [OF ok keys]) (use work in blast)
  show "lease_of (snd (update_work P f t)) i = lease_of t i"
    using work row_ok [OF ok, of i] by (auto simp: lease_of_update [OF keys] lease_of_def [of t i] split: option.split)
qed

lemma follows_silent:
  "queue_ok (run_op op t) \<Longrightarrow> (\<And>i. lease_shown i op t = []) \<Longrightarrow> (\<And>i. lease_of (run_op op t) i = lease_of t i) \<Longrightarrow>
   follows_lease op t"
  by (simp add: follows_lease_def)

lemma same_work_lease: "at_work t' = at_work t \<Longrightarrow> lease_of t' i = lease_of t i"
  by (simp add: lease_of_def)

lemma same_work_ok: "at_work t' = at_work t \<Longrightarrow> at_next_work t' = at_next_work t \<Longrightarrow> queue_ok t \<Longrightarrow> queue_ok t'"
  by (simp add: queue_ok_def)

lemma claim_follows: 
  assumes ok: "queue_ok t"
  shows "follows_lease (Op_claim k now tk io) t"
proof -
  let ?P = "\<lambda>w. in_scope io t w \<and> sw_id w = k \<and>
             (sw_state w = Sync_QUEUED
              \<or> sw_state w = Sync_RETRY_WAIT \<and> at_most (sw_next_attempt w) now
              \<or> sw_state w = Sync_RUNNING \<and> (sw_claimed_at w = None \<or> at_most (sw_claimed_at w) (now - CLAIM_LEASE)))"
  let ?f = "\<lambda>w. w\<lparr>sw_state := Sync_RUNNING, sw_attempts := sw_attempts w + 1, sw_next_attempt := None,
              sw_token := Some tk, sw_claimed_at := Some now\<rparr>"
  have keys: "keeps_keys ?f" by (simp add: keeps_keys_def work_key_def)
  have run: "run_op (Op_claim k now tk io) t = snd (update_work ?P ?f t)"
    "fst (claim_story_arc_sync_work k now tk io t) = (if fst (update_work ?P ?f t) = 1 then Some tk else None)"
    by (simp_all add: claim_story_arc_sync_work_def split: prod.split)
  have count: "fst (update_work ?P ?f t) = (case row_by sw_id k (at_work t) of None \<Rightarrow> 0 | Some w \<Rightarrow> if ?P w then 1 else 0)"
    by (rule update_count [OF ok]) simp
  have lease: "lease_next (Ev_claim tk now) (row_lease w) = Some (row_lease (?f w))" if "work_ok w" "?P w" for w
  proof (cases "sw_state w = Sync_RUNNING")
    case True
    then show ?thesis
      using row_lease_running [OF that(1) True] that(2) by (auto simp: at_most_def row_lease_def)
  next
    case False
    then show ?thesis using row_lease_idle [OF that(1) False] by (simp add: row_lease_def)
  qed
  have "lease_run (lease_shown i (Op_claim k now tk io) t) (lease_of t i) = Some (lease_of (snd (update_work ?P ?f t)) i)" for i
  proof (cases "row_by sw_id i (at_work t)")
    case None
    then show ?thesis using count run by (auto simp: lease_of_update [OF keys] lease_of_def [of t i])
  next
    case (Some w)
    have w: "work_ok w" "sw_id w = i" using row_ok [OF ok Some] by auto
    show ?thesis
      using count run(2) Some w(2) lease [OF w(1)] by (auto simp: lease_of_update [OF keys] lease_of_def [of t i])
  qed
  moreover have "queue_ok (snd (update_work ?P ?f t))"
    by (rule queue_ok_update [OF ok keys]) (auto simp: work_ok_def in_scope_def)
  ultimately show ?thesis by (simp only: follows_lease_def run(1)) blast
qed

lemma held_follows:
  assumes "queue_ok t" "keeps_keys f"
    and "\<And>w. work_ok w \<Longrightarrow> held_by k tk w \<Longrightarrow> work_ok (f w)"
    and "\<And>w since. work_ok w \<Longrightarrow> held_by k tk w \<Longrightarrow> row_lease w = Some (tk, since) \<Longrightarrow>
        lease_next ev (Some (tk, since)) = Some (row_lease (f w))"
    and "run_op op t = snd (update_work (held_by k tk) f t)"
    and "\<And>i. lease_shown i op t = (if k = i \<and> fst (update_work (held_by k tk) f t) = 1 then [ev] else [])"
  shows "follows_lease op t"
  unfolding follows_lease_def assms(5,6)
  using held_update [OF assms(1-4)] by blast

lemma refresh_follows: "queue_ok t \<Longrightarrow> follows_lease (Op_refresh k tk now) t"
  by (rule held_follows [where k = k and tk = tk and ev = "Ev_refresh tk now" and f = "\<lambda>w. w\<lparr>sw_claimed_at := Some now\<rparr>"])
    (auto simp: keeps_keys_def work_key_def work_ok_def row_lease_def held_by_def refresh_story_arc_sync_claim_def split: prod.split)

lemma finish_follows: "queue_ok t \<Longrightarrow> follows_lease (Op_finish cx tk result) t"
  by (rule held_follows [where k = "cx_work cx" and tk = tk and ev = "Ev_end tk"
        and f = "\<lambda>w. w\<lparr>sw_state := Sync_COMPLETED, sw_token := None, sw_claimed_at := None, sw_next_attempt := None,
              sw_error := None, sw_result := JObj [(''schema_version'', JInt 1), (''outcome'', JStr result)]\<rparr>"])
    (auto simp: keeps_keys_def work_key_def work_ok_def row_lease_def held_by_def finish_work_def split: prod.split)

lemma cancel_follows: "queue_ok t \<Longrightarrow> follows_lease (Op_cancel k tk label) t"
  by (rule held_follows [where k = k and tk = tk and ev = "Ev_end tk"
        and f = "\<lambda>w. w\<lparr>sw_state := Sync_CANCELLED, sw_token := None, sw_claimed_at := None, sw_next_attempt := None,
              sw_error := Some (label, ''superseded'', ''Automatic story-arc synchronization is no longer eligible.'')\<rparr>"])
    (auto simp: keeps_keys_def work_key_def work_ok_def row_lease_def held_by_def cancel_work_def split: prod.split)

lemma fail_follows:
  assumes ok: "queue_ok t"
  shows "follows_lease (Op_fail cx tk now label category detail retryable) t"
proof -
  let ?again = "retryable \<and> cx_attempts cx < MAX_ATTEMPTS"
  let ?state = "if ?again then Sync_RETRY_WAIT else Sync_FAILED"
  let ?next = "if ?again then Some (now + retry_delay (cx_attempts cx)) else None"
  let ?f = "\<lambda>w. w\<lparr>sw_state := ?state, sw_token := None, sw_claimed_at := None, sw_next_attempt := ?next,
                sw_error := Some (label, category, detail)\<rparr>"
  show ?thesis
    by (rule held_follows [where k = "cx_work cx" and tk = tk and ev = "Ev_end tk" and f = ?f, OF ok])
      (auto simp: keeps_keys_def work_key_def work_ok_def row_lease_def held_by_def fail_or_retry_work_def Let_def
        split: prod.split)
qed

text \<open>New rows are not claimed.\<close>

lemma find_append: "find P (xs @ ys) = (case find P xs of None \<Rightarrow> find P ys | Some x \<Rightarrow> Some x)"
  by (induction xs) auto

definition fresh_work :: "sync_work \<Rightarrow> bool" where
  "fresh_work w \<longleftrightarrow> sw_state w = Sync_QUEUED \<and> sw_token w = None \<and> sw_claimed_at w = None \<and> sw_next_attempt w = None \<and> sw_attempts w = 0"

lemma with_ids_props:
  "map sw_id (with_ids n ws) = map (\<lambda>i. n + int i) [0..<length ws]"
  "w \<in> set (with_ids n ws) \<Longrightarrow> \<exists>v \<in> set ws. \<exists>i < length ws. w = v\<lparr>sw_id := n + int i\<rparr>"
proof -
  show "map sw_id (with_ids n ws) = map (\<lambda>i. n + int i) [0..<length ws]"
    by (rule nth_equalityI) (simp_all add: with_ids_def nth_enumerate_eq)
  show "w \<in> set (with_ids n ws) \<Longrightarrow> \<exists>v \<in> set ws. \<exists>i < length ws. w = v\<lparr>sw_id := n + int i\<rparr>"
    by (force simp: with_ids_def in_set_enumerate_eq)
qed

lemma insert_follows:
  assumes ok: "queue_ok t" and fresh: "\<forall>w \<in> set ws. fresh_work w" and ins: "insert_work ws t = Inr (new, t')"
  shows "queue_ok t'" "lease_of t' i = lease_of t i" "at_work t' = at_work t @ new" "\<forall>w \<in> set new. fresh_work w"
proof -
  have t': "at_work t' = at_work t @ new" "at_next_work t' = at_next_work t + int (length ws)" "new = with_ids (at_next_work t) ws"
    "distinct (map work_key (at_work t @ new))" "distinct (origin_actions (at_work t @ new))"
    using ins by (auto simp: insert_work_def Let_def split: if_splits)
  show "at_work t' = at_work t @ new" by fact
  have new: "fresh_work w \<and> at_next_work t \<le> sw_id w \<and> sw_id w < at_next_work t'" if "w \<in> set new" for w
    using with_ids_props(2) [OF that [unfolded t'(3)]] fresh by (auto simp: fresh_work_def t'(2))
  then show "\<forall>w \<in> set new. fresh_work w" by blast
  have ids: "distinct (map sw_id new)"
    unfolding t'(3) with_ids_props(1) by (simp add: distinct_map inj_on_def)
  have old: "sw_id w < at_next_work t" if "w \<in> set (at_work t)" for w using ok that by (simp add: queue_ok_def)
  have "work_ok w" if "fresh_work w" for w using that by (simp add: fresh_work_def work_ok_def)
  then show "queue_ok t'"
    using ok t' ids new old by (fastforce simp: queue_ok_def)
  have "row_by sw_id i (at_work t') = (case row_by sw_id i (at_work t) of None \<Rightarrow> row_by sw_id i new | Some w \<Rightarrow> Some w)"
    unfolding row_by_def t'(1) by (simp add: find_append)
  moreover have "row_lease w = None" if "row_by sw_id i new = Some w" for w
    using new row_by_Some [OF that] by (auto simp: row_lease_def fresh_work_def)
  ultimately show "lease_of t' i = lease_of t i"
    by (cases "row_by sw_id i new") (auto simp: lease_of_def split: option.split)
qed

subsection \<open>Operations that leave the leases alone\<close>

lemma enqueue_pairs_fresh: "\<forall>w \<in> set (filter P (map (new_work hs now reason f) pairs)). fresh_work w"
  by (auto simp: new_work_def fresh_work_def)

lemma enqueue_pairs_keeps:
  assumes "queue_ok t" and "enqueue_pairs hs now f pairs reason t = Inr (n, t')"
  shows "queue_ok t' \<and> lease_of t' i = lease_of t i"
proof -
  let ?missing = "filter (\<lambda>w. work_key w \<notin> set (take (length (map (new_work hs now reason f) pairs))
            (filter (\<lambda>k. fst k \<in> set (map sw_membership (map (new_work hs now reason f) pairs))
                \<and> snd k \<in> set (map sw_generation (map (new_work hs now reason f) pairs)))
              (map work_key (at_work t))))) (map (new_work hs now reason f) pairs)"
  from assms(2) consider "t' = t" | new where "insert_work ?missing t = Inr (new, t')"
    by (auto simp: enqueue_pairs_def Let_def bind_result_Inr_iff simp del: map_map split: if_splits)
  then show ?thesis
    using insert_follows [OF assms(1) enqueue_pairs_fresh] assms(1) by cases blast+
qed

lemma discover_rows_keeps:
  "discover_rows hs now rows n t = Inr (m, t') \<Longrightarrow> queue_ok t \<Longrightarrow> queue_ok t' \<and> lease_of t' i = lease_of t i"
proof (induction hs now rows n t rule: discover_rows.induct)
  case (2 hs now f m a rows queued t)
  then show ?case
    by (auto simp: bind_result_Inr_iff split: if_splits) (metis enqueue_pairs_keeps)+
qed simp

lemma put_import_job_work [simp]: "at_work (put_import_job j t) = at_work t" "at_next_work (put_import_job j t) = at_next_work t"
  by (simp_all add: put_import_job_def)

lemma enqueue_follows: "queue_ok t \<Longrightarrow> follows_lease (Op_enqueue hs now f reason) t"
proof (rule follows_silent)
  assume ok: "queue_ok t"
  have "queue_ok (run_op (Op_enqueue hs now f reason) t) \<and> lease_of (run_op (Op_enqueue hs now f reason) t) i = lease_of t i" for i
  proof (cases "enqueue_story_arc_sync_work hs now f reason t")
    case (Inr r)
    then show ?thesis
      using enqueue_pairs_keeps [OF ok] ok
      by (cases r) (auto simp: after_def enqueue_story_arc_sync_work_def split: option.splits)
  qed (simp add: after_def ok)
  then show "queue_ok (run_op (Op_enqueue hs now f reason) t)"
    "\<And>i. lease_of (run_op (Op_enqueue hs now f reason) t) i = lease_of t i" by blast+
qed simp

lemma discover_follows: "queue_ok t \<Longrightarrow> follows_lease (Op_discover hs c now limit) t"
proof (rule follows_silent)
  assume ok: "queue_ok t"
  have "queue_ok (run_op (Op_discover hs c now limit) t) \<and> lease_of (run_op (Op_discover hs c now limit) t) i = lease_of t i" for i
  proof (cases "discover_story_arc_sync_work hs c now limit t")
    case (Inr r)
    then show ?thesis
      using discover_rows_keeps [OF _ ok]
      by (cases r) (auto simp: after_def discover_story_arc_sync_work_def split: if_splits)
  qed (simp add: after_def ok)
  then show "queue_ok (run_op (Op_discover hs c now limit) t)"
    "\<And>i. lease_of (run_op (Op_discover hs c now limit) t) i = lease_of t i" by blast+
qed simp

lemma fold_put_action_work:
  "at_work (fold (\<lambda>r u. case er_action r of Some a \<Rightarrow> put_import_action a u | None \<Rightarrow> u) rs t) = at_work t"
  "at_next_work (fold (\<lambda>r u. case er_action r of Some a \<Rightarrow> put_import_action a u | None \<Rightarrow> u) rs t) = at_next_work t"
  by (induction rs arbitrary: t) (auto simp: put_import_action_def split: option.split)

lemma create_import_keeps:
  assumes ok: "queue_ok t"
    and rec: "\<forall>k specs t. at_work (after (rec k specs t) t) = at_work t \<and> at_next_work (after (rec k specs t) t) = at_next_work t"
    and made: "create_import_work rec now j items t = Inr (rs, t')"
  shows "queue_ok t' \<and> lease_of t' i = lease_of t i"
proof (cases "items = []")
  case True
  with made ok show ?thesis by (simp add: create_import_work_def)
next
  case False
  with made obtain actions t1 works t2 specs where
    r: "rec j specs t = Inr (actions, t1)"
    and ins: "insert_work (map (import_work_row now (ij_id j)) (zip items actions)) t1 = Inr (works, t2)"
    and t': "at_work t' = at_work t2" "at_next_work t' = at_next_work t2"
    by (auto simp: create_import_work_def Let_def fold_put_action_work split: if_splits)
  have t1: "at_work t1 = at_work t" "at_next_work t1 = at_next_work t"
    using rec [rule_format, of j specs t] r by (auto simp: after_def)
  have ok1: "queue_ok t1" by (rule same_work_ok [OF t1 ok])
  have fresh: "\<forall>w \<in> set (map (import_work_row now (ij_id j)) (zip items actions)). fresh_work w"
    by (auto simp: import_work_row_def fresh_work_def Let_def)
  show ?thesis
    using insert_follows(1,2) [OF ok1 fresh ins] same_work_ok [OF t'] same_work_lease [OF t'(1)] same_work_lease [OF t1(1)]
    by simp
qed

lemma import_follows:
  assumes ok: "queue_ok t" and op: "op_ok (Op_import hs rec now j ps)"
  shows "follows_lease (Op_import hs rec now j ps) t"
proof (rule follows_silent)
  have "queue_ok (run_op (Op_import hs rec now j ps) t) \<and> lease_of (run_op (Op_import hs rec now j ps) t) i = lease_of t i" for i
  proof (cases "enqueue_import_story_arc_sync_work_batch hs rec now j ps t")
    case (Inr r)
    then obtain rs t' where r: "enqueue_import_story_arc_sync_work_batch hs rec now j ps t = Inr (rs, t')" by (cases r) auto
    then consider "t' = t" | items made where "create_import_work rec now j items t = Inr (made, t')"
      by (auto simp: enqueue_import_story_arc_sync_work_batch_def Let_def split: if_splits)
    then show ?thesis
      using create_import_keeps [OF ok] op ok by cases (auto simp: after_def r)
  qed (simp add: after_def ok)
  then show "queue_ok (run_op (Op_import hs rec now j ps) t)"
    "\<And>i. lease_of (run_op (Op_import hs rec now j ps) t) i = lease_of t i" by blast+
qed simp

text \<open>A statement whose rows are not running\<close>

lemma idle_follows:
  assumes ok: "queue_ok t" and keys: "keeps_keys f"
    and idle: "\<And>w. P w \<Longrightarrow> sw_state w \<noteq> Sync_RUNNING" "\<And>w. P w \<Longrightarrow> sw_state (f w) \<noteq> Sync_RUNNING"
    and work: "\<And>w. work_ok w \<Longrightarrow> P w \<Longrightarrow> work_ok (f w)"
  shows "queue_ok (snd (update_work P f t)) \<and> lease_of (snd (update_work P f t)) i = lease_of t i"
  using silent_update [OF ok keys, of P] idle work by (auto simp: row_lease_idle)

lemma seal_follows: "queue_ok t \<Longrightarrow> follows_lease (Op_seal job) t"
proof (rule follows_silent)
  assume ok: "queue_ok t"
  have "queue_ok (run_op (Op_seal job) t) \<and> lease_of (run_op (Op_seal job) t) i = lease_of t i" for i
    using ok idle_follows [OF ok, of "\<lambda>w. w\<lparr>sw_claimable := True\<rparr>"
        "\<lambda>w. sw_origin_job w = Some job \<and> \<not> sw_claimable w \<and> sw_state w = Sync_QUEUED" i]
    by (auto simp: after_def seal_import_story_arc_placement_origin_def keeps_keys_def work_key_def work_ok_def split: sum.splits if_splits)
  then show "queue_ok (run_op (Op_seal job) t)" "\<And>i. lease_of (run_op (Op_seal job) t) i = lease_of t i" by blast+
qed simp

lemma finalize_follows: "queue_ok t \<Longrightarrow> follows_lease (Op_finalize now job) t"
proof (rule follows_silent)
  assume ok: "queue_ok t"
  have "run_op (Op_finalize now job) t = t \<or> (\<exists>j'. run_op (Op_finalize now job) t = put_import_job j' t)"
  proof (cases "row_by ij_id job (at_jobs t)")
    case (Some j)
    then show ?thesis
      by (cases "finalize_job now j t") (simp add: after_def finalize_import_story_arc_placements_def, blast)
  qed (simp add: after_def finalize_import_story_arc_placements_def)
  then have "at_work (run_op (Op_finalize now job) t) = at_work t \<and> at_next_work (run_op (Op_finalize now job) t) = at_next_work t"
    by auto
  then show "queue_ok (run_op (Op_finalize now job) t)" "\<And>i. lease_of (run_op (Op_finalize now job) t) i = lease_of t i"
    using same_work_ok same_work_lease ok by blast+
qed simp

lemma retry_Inr:
  "retry_import_story_arc_sync_work hs job t = Inr ((j', n), t') \<Longrightarrow>
   \<exists>ids. t' = put_import_job j' (snd (reopen_work job ids t)) \<and> fst (reopen_work job ids t) = n"
  by (auto simp: retry_import_story_arc_sync_work_def Let_def split: option.splits if_splits)

lemma reopen_keeps:
  assumes "queue_ok t"
  shows "queue_ok (snd (reopen_work job ids t)) \<and> lease_of (snd (reopen_work job ids t)) i = lease_of t i"
  unfolding reopen_work_def
  by (rule idle_follows [OF assms]) (auto simp: keeps_keys_def work_key_def work_ok_def reopened_def terminal_state_def)

lemma retry_follows: "queue_ok t \<Longrightarrow> follows_lease (Op_retry hs job) t"
proof (rule follows_silent)
  assume ok: "queue_ok t"
  have "queue_ok (run_op (Op_retry hs job) t) \<and> lease_of (run_op (Op_retry hs job) t) i = lease_of t i" for i
  proof (cases "retry_import_story_arc_sync_work hs job t")
    case (Inr r)
    then obtain j' n t' where r: "retry_import_story_arc_sync_work hs job t = Inr ((j', n), t')" by (cases r) auto
    then obtain ids where t': "t' = put_import_job j' (snd (reopen_work job ids t))" using retry_Inr by blast
    show ?thesis
      using r t' reopen_keeps [OF ok, of job ids i] same_work_ok [of t' "snd (reopen_work job ids t)"]
        same_work_lease [of t' "snd (reopen_work job ids t)" i]
      by (simp add: after_def)
  qed (simp add: after_def ok)
  then show "queue_ok (run_op (Op_retry hs job) t)" "\<And>i. lease_of (run_op (Op_retry hs job) t) i = lease_of t i" by blast+
qed simp

lemma origin_actions_filter: "distinct (origin_actions ws) \<Longrightarrow> distinct (origin_actions (filter Q ws))"
proof (induction ws)
  case (Cons w ws)
  have "set (origin_actions (filter Q ws)) \<subseteq> set (origin_actions ws)"
    by (induction ws) (auto simp: origin_actions_def List.map_filter_simps split: option.split)
  with Cons show ?case by (auto simp: origin_actions_def List.map_filter_simps split: option.splits)
qed simp

lemma discard_follows: "queue_ok t \<Longrightarrow> follows_lease (Op_discard jobs) t"
proof (rule follows_silent)
  assume ok: "queue_ok t"
  have "queue_ok (run_op (Op_discard jobs) t) \<and> lease_of (run_op (Op_discard jobs) t) i = lease_of t i" for i
  proof (cases "discard_unpublished_import_story_arc_sync_work jobs t")
    case (Inr r)
    then obtain n t' where r: "discard_unpublished_import_story_arc_sync_work jobs t = Inr (n, t')" by (cases r) auto
    then consider "t' = t"
      | js where "t' = t\<lparr>at_work := filter (\<lambda>w. of_jobs js w \<longrightarrow> sw_claimable w) (at_work t)\<rparr>"
      by (auto simp: discard_unpublished_import_story_arc_sync_work_def Let_def split: if_splits)
    then show ?thesis
    proof cases
      case 2
      let ?P = "\<lambda>w. of_jobs js w \<longrightarrow> sw_claimable w"
      let ?ws = "filter ?P (at_work t)"
      have "distinct (origin_actions ws) \<Longrightarrow> distinct (origin_actions (filter Q ws))" for ws Q by (rule origin_actions_filter)
      then have "queue_ok t'"
        using ok by (auto simp: queue_ok_def 2 distinct_map_filter)
      moreover have "row_by sw_id i ?ws = (case row_by sw_id i (at_work t) of None \<Rightarrow> None | Some w \<Rightarrow> if ?P w then Some w else None)"
        using ok by (simp add: queue_ok_def row_by_filter)
      ultimately show ?thesis
        using 2 row_ok [OF ok, of i] by (auto simp: r after_def lease_of_def row_lease_idle work_ok_def split: option.split)
    qed (simp add: r after_def ok)
  qed (simp add: after_def ok)
  then show "queue_ok (run_op (Op_discard jobs) t)" "\<And>i. lease_of (run_op (Op_discard jobs) t) i = lease_of t i" by blast+
qed simp

lemma fence_follows: "queue_ok t \<Longrightarrow> follows_lease (Op_fence now checkpoint w) t"
proof (rule follows_silent)
  assume ok: "queue_ok t"
  have request: "queue_ok (snd (update_work P (\<lambda>v. v\<lparr>sw_cancel_requested := Some now\<rparr>) t))
      \<and> lease_of (snd (update_work P (\<lambda>v. v\<lparr>sw_cancel_requested := Some now\<rparr>) t)) i = lease_of t i" for P i
  proof -
    let ?f = "\<lambda>v. v\<lparr>sw_cancel_requested := Some now\<rparr>"
    have keys: "keeps_keys ?f" by (simp add: keeps_keys_def work_key_def)
    have "row_lease (?f v) = row_lease v" "work_ok v \<Longrightarrow> work_ok (?f v)" for v
      by (auto simp: work_ok_def row_lease_def split: option.split)
    then show ?thesis using silent_update [OF ok keys, where P = P] by blast
  qed
  have fenced: "queue_ok (snd (update_work (\<lambda>v. same_binding w v \<and> sw_state v = sw_state w) f t))
      \<and> lease_of (snd (update_work (\<lambda>v. same_binding w v \<and> sw_state v = sw_state w) f t)) i = lease_of t i"
    if "sw_state w \<noteq> Sync_RUNNING" and "f = (\<lambda>v. v\<lparr>sw_state := Sync_CANCELLED, sw_token := None, sw_claimed_at := None,
      sw_next_attempt := None, sw_cancel_requested := Some now, sw_error := e, sw_result := checkpoint\<rparr>)" for f e i
    by (rule idle_follows [OF ok]) (use that in \<open>auto simp: keeps_keys_def work_key_def work_ok_def\<close>)
  have "queue_ok (run_op (Op_fence now checkpoint w) t) \<and> lease_of (run_op (Op_fence now checkpoint w) t) i = lease_of t i" for i
    unfolding run_op.simps fence_import_story_arc_work_def case_prod_unfold Let_def
    by (simp only: snd_conv if_distrib [where f = snd] split: if_split) (use request fenced [OF _ refl] ok in blast)
  then show "queue_ok (run_op (Op_fence now checkpoint w) t)" "\<And>i. lease_of (run_op (Op_fence now checkpoint w) t) i = lease_of t i"
    by blast+
qed simp

lemma op_follows: "queue_ok t \<Longrightarrow> op_ok op \<Longrightarrow> follows_lease op t"
  by (cases op) (auto simp del: op_ok.simps(1) intro: claim_follows refresh_follows finish_follows cancel_follows fail_follows
      enqueue_follows discover_follows import_follows seal_follows finalize_follows retry_follows discard_follows fence_follows)

lemma lease_run_append: "lease_run (es @ fs) l = (case lease_run es l of None \<Rightarrow> None | Some m \<Rightarrow> lease_run fs m)"
  by (induction es arbitrary: l) (auto split: option.split)

lemma ops_follow:
  "queue_ok t \<Longrightarrow> list_all op_ok ops \<Longrightarrow>
   queue_ok (run_ops ops t) \<and> lease_run (lease_events i ops t) (lease_of t i) = Some (lease_of (run_ops ops t) i)"
proof (induction ops arbitrary: t)
  case (Cons op ops)
  then have "follows_lease op t" by (simp add: op_follows)
  with Cons show ?case by (auto simp: run_ops_def follows_lease_def lease_run_append)
qed (simp add: run_ops_def)

subsection \<open>Claims are exclusive\<close>

text \<open>The holder of a lease made the last claim, and nothing but its refreshes came after.\<close>

fun event_time :: "lease_event \<Rightarrow> timestamp option" where
  "event_time (Ev_claim tk now) = Some now"
| "event_time (Ev_refresh tk now) = Some now"
| "event_time (Ev_end tk) = None"

definition refreshes :: "pystr \<Rightarrow> lease_event list \<Rightarrow> bool" where
  "refreshes tk es \<longleftrightarrow> (\<forall>e \<in> set es. \<exists>now. e = Ev_refresh tk now)"

definition held_since :: "pystr \<Rightarrow> timestamp \<Rightarrow> lease_event list \<Rightarrow> bool" where
  "held_since tk since es \<longleftrightarrow>
     (\<exists>us now vs. es = us @ Ev_claim tk now # vs \<and> refreshes tk vs) \<and> event_time (last es) = Some since"

lemma lease_run_held: "lease_run es None = Some (Some (tk, since)) \<Longrightarrow> held_since tk since es"
proof (induction es arbitrary: since rule: rev_induct)
  case (snoc e es)
  from snoc.prems obtain m where m: "lease_run es None = Some m" "lease_next e m = Some (Some (tk, since))"
    by (auto simp: lease_run_append split: option.splits)
  show ?case
  proof (cases e)
    case (Ev_claim tk' now)
    with m show ?thesis
      by (auto simp: held_since_def refreshes_def intro!: exI [of _ es] split: option.splits if_splits)
  next
    case (Ev_refresh tk' now)
    with m obtain old where old: "m = Some (tk, old)" "tk' = tk" "now = since" by (auto split: option.splits if_splits)
    with snoc.IH m have "held_since tk old es" by simp
    then obtain us t0 vs where "es = us @ Ev_claim tk t0 # vs" "refreshes tk vs" by (auto simp: held_since_def)
    then have "es @ [e] = us @ Ev_claim tk t0 # (vs @ [e])" "refreshes tk (vs @ [e])"
      using Ev_refresh old by (auto simp: refreshes_def)
    moreover have "event_time (last (es @ [e])) = Some since" using Ev_refresh old by simp
    ultimately show ?thesis unfolding held_since_def by blast
  qed (use m in \<open>auto split: option.splits if_splits\<close>)
qed simp

lemma lease_run_free: "lease_run es None = Some None \<Longrightarrow> es = [] \<or> event_time (last es) = None"
proof (induction es rule: rev_induct)
  case (snoc e es)
  then obtain m where "lease_next e m = Some None" by (auto simp: lease_run_append split: option.splits)
  then show ?case by (cases e) (auto split: option.splits if_splits)
qed simp

text \<open>C8. The table of synchronisation work stays well formed under every sequence of claims, heartbeats,
  outcomes, new work of all three kinds, sealing, judging, reopening, discarding and fencing: identifiers, generations
  and import actions are unique, a row is running exactly while it has a claim token and a claim time, waits for
  a retry exactly while it has a time for it, and only work that was released runs.\<close>

theorem sync_work_well_formed:
  assumes "queue_ok t" and "list_all op_ok ops"
  shows "queue_ok (run_ops ops t)"
  using ops_follow [OF assms] by blast

text \<open>C5. Whatever workers, heartbeats, imports and operators do, and in whatever order, an outcome or a
  refresh is only recorded by the worker whose claim on the row is the last one and has not ended. A
  claim succeeds only on a row that nobody holds, or whose holder has neither claimed nor refreshed it for
  fifteen minutes.\<close>

theorem claims_are_exclusive:
  assumes "queue_ok t" and "list_all op_ok ops" and "lease_of t i = None" and "lease_events i ops t = es @ e # fs"
  shows "case e of
      Ev_claim tk now \<Rightarrow> es = [] \<or> (case event_time (last es) of None \<Rightarrow> True | Some since \<Rightarrow> since + CLAIM_LEASE \<le> now)
    | Ev_refresh tk now \<Rightarrow> (\<exists>since. held_since tk since es)
    | Ev_end tk \<Rightarrow> (\<exists>since. held_since tk since es)"
proof -
  have "lease_run (lease_events i ops t) (lease_of t i) = Some (lease_of (run_ops ops t) i)"
    using ops_follow [OF assms(1,2)] by (rule conjunct2)
  then have run: "lease_run (es @ e # fs) None \<noteq> None" unfolding assms(3,4) by (rule ssubst) (rule option.distinct)
  obtain m where m: "lease_run es None = Some m"
    using run by (cases "lease_run es None") (simp_all add: lease_run_append)
  obtain n where n: "lease_next e m = Some n"
    using run m by (cases "lease_next e m") (simp_all add: lease_run_append)
  show ?thesis
  proof (cases m)
    case None
    with m have "es = [] \<or> event_time (last es) = None" by (intro lease_run_free) simp
    then have free: "es = [] \<or> (case event_time (last es) of None \<Rightarrow> True | Some since \<Rightarrow> since + CLAIM_LEASE \<le> now)" for now
      by (auto simp only: option.case)
    have "lease_next e None = Some n" using n None by simp
    then show ?thesis using free by (cases e) (simp_all only: lease_event.case lease_next.simps option.case option.distinct)
  next
    case (Some l)
    obtain tk since where l: "l = (tk, since)" by (cases l)
    have held: "held_since tk since es" by (rule lease_run_held) (simp add: m Some l)
    then have "event_time (last es) = Some since" by (simp add: held_since_def)
    then show ?thesis using n l Some held by (cases e) (auto split: if_splits)
  qed
qed

text \<open>One queued work row, two workers of which the first goes silent, and the table they work on\<close>

definition sample_work :: sync_work where
  "sample_work = \<lparr>sw_id = 1, sw_created = 5, sw_membership = 2, sw_file = 3, sw_origin_action = None, sw_origin_job = None,
      sw_origin_arc = None, sw_origin_entry = None, sw_generation = ''g'', sw_source_hash = ''h'',
      sw_columns = \<lparr>fc_path = ''p'', fc_size = 1, fc_modified = 1, fc_hash = None, fc_schema = None, fc_resolved = None,
        fc_sig_size = None, fc_mtime_ns = None, fc_device = None, fc_inode = None\<rparr>, sw_revision = 1,
      sw_sequence = 1, sw_schema = 1, sw_reason = Reason_CANONICAL_REGISTERED, sw_state = Sync_QUEUED,
      sw_claimable = True, sw_attempts = 0, sw_next_attempt = None, sw_token = None, sw_claimed_at = None,
      sw_cancel_requested = None, sw_error = None, sw_result = JObj []\<rparr>"

definition sample_queue :: arc_tables where
  "sample_queue = \<lparr>at_files = [], at_memberships = [], at_arcs = [], at_work = [sample_work], at_next_work = 2, at_jobs = [],
     at_actions = [], at_staged_arcs = [], at_staged_entries = [], at_placements = []\<rparr>"

definition sample_context :: work_context where
  "sample_context = \<lparr>cx_work = 1, cx_membership = 2, cx_arc = 1, cx_file = 3, cx_attempts = 1, cx_provenance = None\<rparr>"

definition sample_ops :: "sync_op list" where
  "sample_ops = [Op_claim 1 0 ''a'' False, Op_refresh 1 ''a'' 60000000, Op_claim 1 900000000 ''b'' False,
     Op_claim 1 960000000 ''b'' False, Op_finish sample_context ''a'' ''current'', Op_finish sample_context ''b'' ''current'']"

lemma sample_queue_ok: "queue_ok sample_queue"
  by (simp add: queue_ok_def sample_queue_def sample_work_def work_ok_def origin_actions_def List.map_filter_simps)

theorem sync_work_well_formed_witness: "queue_ok (run_ops sample_ops sample_queue)"
  by (rule sync_work_well_formed [OF sample_queue_ok]) (simp add: sample_ops_def)

text \<open>The row as the operations leave it\<close>

definition sample_row :: "sync_state \<Rightarrow> int \<Rightarrow> pystr option \<Rightarrow> timestamp option \<Rightarrow> arc_tables" where
  "sample_row s n tk since = sample_queue\<lparr>at_work := [sample_work\<lparr>sw_state := s, sw_attempts := n, sw_token := tk,
     sw_claimed_at := since\<rparr>]\<rparr>"

lemma sample_queue_row: "sample_queue = sample_row Sync_QUEUED 0 None None"
  by (simp add: sample_row_def sample_queue_def sample_work_def)

lemma sample_claim:
  "claim_story_arc_sync_work 1 now tk False (sample_row s n holder since) =
     (if s = Sync_QUEUED \<or> s = Sync_RUNNING \<and> (since = None \<or> at_most since (now - CLAIM_LEASE))
      then (Some tk, sample_row Sync_RUNNING (n + 1) (Some tk) (Some now)) else (None, sample_row s n holder since))"
  by (simp add: claim_story_arc_sync_work_def update_work_def sample_row_def sample_queue_def sample_work_def in_scope_def
      startup_recovery_paused_def row_ref_def at_most_def)

lemma sample_refresh:
  "refresh_story_arc_sync_claim 1 tk now (sample_row s n holder since) =
     (if holder = Some tk \<and> s = Sync_RUNNING then (True, sample_row s n holder (Some now)) else (False, sample_row s n holder since))"
  by (simp add: refresh_story_arc_sync_claim_def update_work_def sample_row_def sample_queue_def sample_work_def held_by_def)

lemma sample_finish:
  "fst (finish_work sample_context tk result (sample_row s n holder since)) \<longleftrightarrow> holder = Some tk \<and> s = Sync_RUNNING"
  "holder \<noteq> Some tk \<Longrightarrow> snd (finish_work sample_context tk result (sample_row s n holder since)) = sample_row s n holder since"
  by (simp_all add: finish_work_def update_work_def sample_row_def sample_queue_def sample_work_def held_by_def sample_context_def)

lemma sample_events:
  "lease_events 1 sample_ops sample_queue =
     [Ev_claim ''a'' 0, Ev_refresh ''a'' 60000000, Ev_claim ''b'' 960000000] @ Ev_end ''b'' # []"
  by (simp add: sample_ops_def sample_queue_row sample_claim sample_refresh sample_finish at_most_def CLAIM_LEASE_def)
    (simp add: sample_context_def)

theorem claims_are_exclusive_witness:
  "\<exists>since. held_since ''b'' since [Ev_claim ''a'' 0, Ev_refresh ''a'' 60000000, Ev_claim ''b'' 960000000]"
  using claims_are_exclusive [OF sample_queue_ok _ _ sample_events]
  by (simp add: sample_ops_def lease_of_def sample_queue_def row_by_def sample_work_def row_lease_def)

end
