(* ===== verification/Arc_Sync_Ready.thy ===== *)
theory Arc_Sync_Ready
  imports Arc_Sync_Lease
begin

text \<open>
  The list of ready work: the four bounded lanes that a worker merges are the beginning of one
  list of everything that can be claimed, and a claim succeeds just on what that list holds.
\<close>

subsection \<open>The beginning of a sorted list\<close>

lemma take_insort_key:
  "sorted (map k zs) \<Longrightarrow> n \<le> length (filter (\<lambda>y. k y < k b) zs) \<Longrightarrow> take n (insort_key k b zs) = take n zs"
proof (induction zs arbitrary: n)
  case (Cons z zs)
  show ?case
  proof (cases n)
    case (Suc m)
    have "k z < k b"
    proof (rule ccontr)
      assume "\<not> k z < k b"
      then have "filter (\<lambda>y. k y < k b) (z # zs) = []" using Cons.prems(1) by (auto simp: filter_empty_conv)
      with Cons.prems(2) Suc show False by simp
    qed
    with Cons Suc show ?thesis by simp
  qed simp
qed simp

lemma take_sort_key_append:
  assumes "\<And>b. b \<in> set bs \<Longrightarrow> n \<le> length (filter (\<lambda>y. k y < k b) zs)"
  shows "take n (sort_key k (bs @ zs)) = take n (sort_key k zs)"
  using assms
proof (induction bs)
  case (Cons b bs)
  have "n \<le> length (filter (\<lambda>y. k y < k b) zs)" using Cons.prems by simp
  also have "\<dots> \<le> length (filter (\<lambda>y. k y < k b) (bs @ zs))" by simp
  also have "\<dots> = length (filter (\<lambda>y. k y < k b) (sort_key k (bs @ zs)))"
    by (simp only: size_mset [symmetric] mset_filter mset_sort)
  finally have "take n (insort_key k b (sort_key k (bs @ zs))) = take n (sort_key k (bs @ zs))"
    by (intro take_insort_key) simp_all
  with Cons show ?case by simp
qed simp

lemma strictly_sorted_by_key:
  assumes "distinct (map k xs)"
  shows "sorted_wrt (\<lambda>x y. k x < (k y :: 'a::linorder)) (sort_key k xs)"
proof -
  have "mset (map k (sort_key k xs)) = mset (map k xs)" by simp
  then have "distinct (map k (sort_key k xs))" using assms mset_eq_imp_distinct_iff by blast
  then show ?thesis using sorted_sort_key [of k xs] by (simp add: strict_sorted_iff sorted_wrt_map [symmetric])
qed

text \<open>The first \<open>n\<close> of several lists are among the first \<open>n\<close> of each, when the key tells their elements apart.\<close>

lemma dropped_has_smaller:
  assumes "distinct (map k xs)" and "b \<in> set (drop n (sort_key k xs))"
  shows "n \<le> length (filter (\<lambda>y. k y < k b) (take n (sort_key k xs)))"
proof -
  let ?s = "sort_key k xs"
  have "sorted_wrt (\<lambda>x y. k x < k y) (take n ?s @ drop n ?s)"
    using strictly_sorted_by_key [OF assms(1)] by simp
  then have "\<forall>y \<in> set (take n ?s). k y < k b" using assms(2) by (simp only: sorted_wrt_append) blast
  moreover have "n \<le> length ?s" using assms(2) by (cases "n \<le> length ?s") simp_all
  ultimately show ?thesis by simp
qed

lemma sort_key_mset_eq:
  assumes "mset xs = mset ys" and "distinct (map k ys)"
  shows "sort_key k xs = sort_key k ys"
  using assms mset_eq_setD [OF assms(1)] by (intro sort_key_eqI_mset) (simp_all add: distinct_map)

lemma mset_cut:
  "mset (concat (map (\<lambda>xs. drop n (sort_key k xs)) lss) @ concat (map (\<lambda>xs. take n (sort_key k xs)) lss)) = mset (concat lss)"
proof (induction lss)
  case (Cons xs lss)
  have "mset (take n (sort_key k xs)) + mset (drop n (sort_key k xs)) = mset xs"
    by (metis append_take_drop_id mset_append mset_sort)
  with Cons show ?case by (simp add: ac_simps)
qed simp

lemma distinct_cut:
  assumes "distinct (map g (concat lss))"
  shows "distinct (map g (concat (map (\<lambda>xs. take n (sort_key k xs)) lss)))"
proof -
  let ?cut = "concat (map (\<lambda>xs. drop n (sort_key k xs)) lss) @ concat (map (\<lambda>xs. take n (sort_key k xs)) lss)"
  have "mset (map g ?cut) = mset (map g (concat lss))"
    unfolding mset_map mset_cut ..
  then have "distinct (map g ?cut)" using assms mset_eq_imp_distinct_iff by blast
  then show ?thesis by (simp only: map_append distinct_append)
qed

lemma take_sort_concat:
  assumes "distinct (map k (concat lss))"
  shows "take n (sort_key k (concat (map (\<lambda>xs. take n (sort_key k xs)) lss))) = take n (sort_key k (concat lss))"
proof -
  let ?top = "concat (map (\<lambda>xs. take n (sort_key k xs)) lss)"
  let ?rest = "concat (map (\<lambda>xs. drop n (sort_key k xs)) lss)"
  have "sort_key k (?rest @ ?top) = sort_key k (concat lss)"
    using assms by (intro sort_key_mset_eq mset_cut)
  moreover have "take n (sort_key k (?rest @ ?top)) = take n (sort_key k ?top)"
  proof (rule take_sort_key_append)
    fix b assume "b \<in> set ?rest"
    then obtain xs where xs: "xs \<in> set lss" "b \<in> set (drop n (sort_key k xs))" by auto
    then obtain us vs where lss: "lss = us @ xs # vs" by (auto dest: split_list)
    then have "n \<le> length (filter (\<lambda>y. k y < k b) (take n (sort_key k xs)))"
      using assms xs(2) by (intro dropped_has_smaller) simp_all
    then show "n \<le> length (filter (\<lambda>y. k y < k b) ?top)" by (simp add: lss)
  qed
  ultimately show ?thesis by simp
qed

subsection \<open>The lanes\<close>

definition claimable_now :: "timestamp \<Rightarrow> bool \<Rightarrow> arc_tables \<Rightarrow> sync_work \<Rightarrow> bool" where
  "claimable_now now io t w \<longleftrightarrow> in_scope io t w
     \<and> (sw_state w = Sync_QUEUED
        \<or> sw_state w = Sync_RETRY_WAIT \<and> at_most (sw_next_attempt w) now
        \<or> sw_state w = Sync_RUNNING \<and> (sw_claimed_at w = None \<or> at_most (sw_claimed_at w) (now - CLAIM_LEASE)))"

text \<open>What ready work is ordered by: since when it is ready, its lane and its number\<close>

definition ready_order :: "sync_work \<Rightarrow> ready_key" where
  "ready_order w = (case sw_state w of
     Sync_RUNNING \<Rightarrow> (case sw_claimed_at w of None \<Rightarrow> (DATETIME_MIN, 0, sw_id w) | Some c \<Rightarrow> (c, 3, sw_id w))
   | Sync_RETRY_WAIT \<Rightarrow> (or_else (sw_next_attempt w) DATETIME_MIN, 2, sw_id w)
   | _ \<Rightarrow> (sw_created w, 1, sw_id w))"

lemma ready_order_id: "snd (snd (ready_order w)) = sw_id w"
  by (simp add: ready_order_def split: sync_state.split option.split)

definition lanes :: "timestamp \<Rightarrow> bool \<Rightarrow> arc_tables \<Rightarrow> sync_work list list" where
  "lanes now io t = map (\<lambda>P. filter P (at_work t)) [unclaimed_lane io t, queued_lane io t, retry_lane now io t, stale_lane now io t]"

lemma mset_filter_disj:
  "(\<And>x. x \<in> set xs \<Longrightarrow> \<not> (P x \<and> Q x)) \<Longrightarrow> mset (filter (\<lambda>x. P x \<or> Q x) xs) = mset (filter P xs) + mset (filter Q xs)"
  by (induction xs) auto

lemma mset_lanes: "mset (concat (lanes now io t)) = mset (filter (claimable_now now io t) (at_work t))"
proof -
  let ?ws = "at_work t"
  have eq: "claimable_now now io t = (\<lambda>w. unclaimed_lane io t w \<or> (queued_lane io t w \<or> (retry_lane now io t w \<or> stale_lane now io t w)))"
    by (auto simp: fun_eq_iff claimable_now_def unclaimed_lane_def queued_lane_def retry_lane_def stale_lane_def at_most_def)
  have "mset (filter (\<lambda>w. retry_lane now io t w \<or> stale_lane now io t w) ?ws) =
      mset (filter (retry_lane now io t) ?ws) + mset (filter (stale_lane now io t) ?ws)"
    by (rule mset_filter_disj) (auto simp: retry_lane_def stale_lane_def)
  moreover have "mset (filter (\<lambda>w. queued_lane io t w \<or> (retry_lane now io t w \<or> stale_lane now io t w)) ?ws) =
      mset (filter (queued_lane io t) ?ws) + mset (filter (\<lambda>w. retry_lane now io t w \<or> stale_lane now io t w) ?ws)"
    by (rule mset_filter_disj) (auto simp: queued_lane_def retry_lane_def stale_lane_def)
  moreover have "mset (filter (claimable_now now io t) ?ws) = mset (filter (unclaimed_lane io t) ?ws)
      + mset (filter (\<lambda>w. queued_lane io t w \<or> (retry_lane now io t w \<or> stale_lane now io t w)) ?ws)"
    unfolding eq by (rule mset_filter_disj)
      (auto simp: unclaimed_lane_def queued_lane_def retry_lane_def stale_lane_def at_most_def)
  ultimately show ?thesis by (simp add: lanes_def)
qed

text \<open>A lane is sorted by its own instant and the number, which is the order of all ready work within the lane.\<close>

lemma insort_key_cong_le:
  "(\<And>y. y \<in> set ys \<Longrightarrow> k x \<le> k y \<longleftrightarrow> l x \<le> l y) \<Longrightarrow> insort_key k x ys = insort_key l x ys"
  by (induction ys) auto

lemma sort_key_cong_le:
  "(\<And>x y. x \<in> set xs \<Longrightarrow> y \<in> set xs \<Longrightarrow> k x \<le> k y \<longleftrightarrow> l x \<le> l y) \<Longrightarrow> sort_key k xs = sort_key l xs"
proof (induction xs)
  case (Cons x xs)
  then have "sort_key k xs = sort_key l xs" by simp
  moreover have "insort_key k x (sort_key l xs) = insort_key l x (sort_key l xs)"
    by (rule insort_key_cong_le) (use Cons.prems in simp)
  ultimately show ?case by simp
qed simp

lemma lane_offers:
  assumes "\<And>w. w \<in> set (filter P (at_work t)) \<Longrightarrow> ready_order w = (or_else (ready_at w) DATETIME_MIN, rank, sw_id w)"
    and "\<And>w v. w \<in> set (filter P (at_work t)) \<Longrightarrow> v \<in> set (filter P (at_work t)) \<Longrightarrow> (ready_at w = None) = (ready_at v = None)"
  shows "map (\<lambda>(i, r). (i, (or_else r DATETIME_MIN, rank, i))) (lane limit P ready_at t) =
    map (\<lambda>w. (sw_id w, ready_order w)) (take limit (sort_key ready_order (filter P (at_work t))))"
proof -
  let ?ws = "filter P (at_work t)"
  have "sort_key (\<lambda>w. (ready_at w, sw_id w)) ?ws = sort_key ready_order ?ws"
  proof (rule sort_key_cong_le)
    fix x y assume xy: "x \<in> set ?ws" "y \<in> set ?ws"
    show "(ready_at x, sw_id x) \<le> (ready_at y, sw_id y) \<longleftrightarrow> ready_order x \<le> ready_order y"
      unfolding assms(1) [OF xy(1)] assms(1) [OF xy(2)]
      using assms(2) [OF xy] by (cases "ready_at x"; cases "ready_at y") auto
  qed
  then show ?thesis
    using assms(1) by (auto simp: lane_def dest!: in_set_takeD)
qed

lemma AList_update_new: "k \<notin> fst ` set d \<Longrightarrow> AList.update k v d = d @ [(k, v)]"
  by (induction d) auto

text \<open>Identifiers are offered once, so nothing is overwritten.\<close>

lemma offers_distinct: "distinct (map fst (cs @ os)) \<Longrightarrow> fold offer os cs = cs @ os"
proof (induction os arbitrary: cs)
  case (Cons c os)
  then have "fst c \<notin> fst ` set cs" by auto
  then have "offer c cs = cs @ [c]"
    by (simp add: offer_def AList_update_new map_of_eq_None_iff [THEN iffD2])
  with Cons show ?case by simp
qed simp

text \<open>Each lane of the statements holds the first \<open>limit\<close> of its rows in the common order.\<close>

definition ready_offer :: "sync_work \<Rightarrow> int \<times> ready_key" where
  "ready_offer w = (sw_id w, ready_order w)"

lemma ready_order_lanes:
  "unclaimed_lane io t w \<Longrightarrow> ready_order w = (or_else (sw_claimed_at w) DATETIME_MIN, 0, sw_id w)"
  "queued_lane io t w \<Longrightarrow> ready_order w = (or_else (Some (sw_created w)) DATETIME_MIN, 1, sw_id w)"
  "retry_lane now io t w \<Longrightarrow> ready_order w = (or_else (sw_next_attempt w) DATETIME_MIN, 2, sw_id w)"
  "stale_lane now io t w \<Longrightarrow> ready_order w = (or_else (sw_claimed_at w) DATETIME_MIN, 3, sw_id w)"
  by (auto simp: ready_order_def unclaimed_lane_def queued_lane_def retry_lane_def stale_lane_def at_most_def
      split: option.splits)

lemma offers_of_lanes:
  "concat (map (\<lambda>(rank, rows). map (\<lambda>(i, ready_at). (i, (or_else ready_at DATETIME_MIN, rank, i))) rows)
     (enumerate 0 (ready_work_statements now limit io t))) =
   map ready_offer (concat (map (\<lambda>xs. take limit (sort_key ready_order xs)) (lanes now io t)))"
proof -
  have ready_offer_eq: "ready_offer = (\<lambda>w. (sw_id w, ready_order w))" by (simp add: fun_eq_iff ready_offer_def)
  have "map (\<lambda>(i, r). (i, (or_else r DATETIME_MIN, 0, i))) (lane limit (unclaimed_lane io t) sw_claimed_at t) =
      map ready_offer (take limit (sort_key ready_order (filter (unclaimed_lane io t) (at_work t))))"
    unfolding ready_offer_eq by (rule lane_offers) (auto simp: ready_order_lanes unclaimed_lane_def)
  moreover have "map (\<lambda>(i, r). (i, (or_else r DATETIME_MIN, 1, i))) (lane limit (queued_lane io t) (\<lambda>w. Some (sw_created w)) t) =
      map ready_offer (take limit (sort_key ready_order (filter (queued_lane io t) (at_work t))))"
    unfolding ready_offer_eq by (rule lane_offers) (auto simp only: set_filter mem_Collect_eq ready_order_lanes)
  moreover have "map (\<lambda>(i, r). (i, (or_else r DATETIME_MIN, 2, i))) (lane limit (retry_lane now io t) sw_next_attempt t) =
      map ready_offer (take limit (sort_key ready_order (filter (retry_lane now io t) (at_work t))))"
    unfolding ready_offer_eq
    by (rule lane_offers) (auto simp: ready_order_lanes retry_lane_def at_most_def split: option.splits)
  moreover have "map (\<lambda>(i, r). (i, (or_else r DATETIME_MIN, 3, i))) (lane limit (stale_lane now io t) sw_claimed_at t) =
      map ready_offer (take limit (sort_key ready_order (filter (stale_lane now io t) (at_work t))))"
    unfolding ready_offer_eq
    by (rule lane_offers) (auto simp: ready_order_lanes stale_lane_def at_most_def split: option.splits)
  ultimately show ?thesis
    by (simp add: ready_work_statements_def lanes_def numeral_2_eq_2 numeral_3_eq_3)
qed

lemma ready_list:
  assumes "distinct (map sw_id (at_work t))"
  shows "ready_work_ids now limit io t =
    map sw_id (take limit (sort_key ready_order (filter (claimable_now now io t) (at_work t))))"
proof -
  let ?tops = "concat (map (\<lambda>xs. take limit (sort_key ready_order xs)) (lanes now io t))"
  have ids: "distinct (map sw_id (concat (lanes now io t)))"
  proof -
    have "mset (map sw_id (concat (lanes now io t))) = mset (map sw_id (filter (claimable_now now io t) (at_work t)))"
      using mset_lanes [of now io t] by simp
    moreover have "distinct (map sw_id (filter (claimable_now now io t) (at_work t)))"
      using assms by (rule distinct_map_filter)
    ultimately show ?thesis using mset_eq_imp_distinct_iff by blast
  qed
  have orders: "distinct (map ready_order ws)" if "distinct (map sw_id ws)" for ws
    using that ready_order_id by (auto simp: distinct_map inj_on_def) metis
  have "fold offer (map ready_offer ?tops) [] = map ready_offer ?tops"
  proof -
    have "distinct (map fst ([] @ map ready_offer ?tops))"
      using distinct_cut [OF ids, of limit ready_order] by (simp add: comp_def ready_offer_def)
    then show ?thesis using offers_distinct [of "[]"] by simp
  qed
  then have "ready_work_ids now limit io t = map sw_id (take limit (sort_key ready_order ?tops))"
    unfolding ready_work_ids_def Let_def offers_of_lanes
    by (simp only: sort_key_map take_map map_map comp_def) (simp add: ready_offer_def)
  also have "take limit (sort_key ready_order ?tops) = take limit (sort_key ready_order (concat (lanes now io t)))"
    by (rule take_sort_concat [OF orders [OF ids]])
  also have "sort_key ready_order (concat (lanes now io t)) =
      sort_key ready_order (filter (claimable_now now io t) (at_work t))"
    by (rule sort_key_mset_eq [OF mset_lanes orders]) (rule distinct_map_filter [OF assms])
  finally show ?thesis .
qed

lemma claim_accepted:
  assumes "queue_ok t"
  shows "fst (claim_story_arc_sync_work i now tk io t) = Some tk \<longleftrightarrow>
    (\<exists>w \<in> set (at_work t). sw_id w = i \<and> claimable_now now io t w)"
proof -
  let ?P = "\<lambda>w. in_scope io t w \<and> sw_id w = i \<and>
             (sw_state w = Sync_QUEUED
              \<or> sw_state w = Sync_RETRY_WAIT \<and> at_most (sw_next_attempt w) now
              \<or> sw_state w = Sync_RUNNING \<and> (sw_claimed_at w = None \<or> at_most (sw_claimed_at w) (now - CLAIM_LEASE)))"
  have P: "?P w \<longleftrightarrow> sw_id w = i \<and> claimable_now now io t w" for w by (auto simp: claimable_now_def)
  have ids: "distinct (map sw_id (at_work t))" using assms by (simp add: queue_ok_def)
  have "fst (claim_story_arc_sync_work i now tk io t) = Some tk \<longleftrightarrow> (\<exists>w. row_by sw_id i (at_work t) = Some w \<and> ?P w)"
    unfolding claim_story_arc_sync_work_def case_prod_unfold Let_def fst_conv
    by (subst update_count [OF assms, where i = i]) (auto split: option.split)
  also have "\<dots> \<longleftrightarrow> (\<exists>w \<in> set (at_work t). sw_id w = i \<and> claimable_now now io t w)"
    unfolding P using row_by_Some [of sw_id i "at_work t"] row_by_unique [OF ids] by blast
  finally show ?thesis .
qed

text \<open>C7. The ready work of a worker, which four bounded statements and a merge by identifier find, is the
  beginning of one list: all work that can be claimed now, by the instant since which it is ready, then the lane,
  then the identifier. No bound of a lane hides a row that belongs to that beginning, and a claim succeeds just
  for the rows of that list: nothing that is offered is refused, and nothing that could be claimed is left out.\<close>

theorem ready_is_first_claimable:
  assumes "queue_ok t"
  shows "ready_work_ids now limit io t =
      map sw_id (take limit (sort_key ready_order (filter (claimable_now now io t) (at_work t))))
    \<and> (fst (claim_story_arc_sync_work i now tk io t) = Some tk \<longleftrightarrow> i \<in> set (ready_work_ids now (length (at_work t)) io t))"
proof (rule conjI)
  have ids: "distinct (map sw_id (at_work t))" using assms by (simp add: queue_ok_def)
  show "ready_work_ids now limit io t =
      map sw_id (take limit (sort_key ready_order (filter (claimable_now now io t) (at_work t))))"
    by (rule ready_list [OF ids])
  have "take (length (at_work t)) (sort_key ready_order (filter (claimable_now now io t) (at_work t))) =
      sort_key ready_order (filter (claimable_now now io t) (at_work t))"
    by simp
  then show "fst (claim_story_arc_sync_work i now tk io t) = Some tk \<longleftrightarrow> i \<in> set (ready_work_ids now (length (at_work t)) io t)"
    unfolding claim_accepted [OF assms] ready_list [OF ids] by auto
qed

text \<open>The queued row of the sample is ready, and can be claimed.\<close>

lemma sample_claimable: "claimable_now 0 False sample_queue sample_work"
  by (simp add: claimable_now_def in_scope_def startup_recovery_paused_def row_ref_def sample_work_def)

theorem ready_is_first_claimable_witness:
  "ready_work_ids 0 5 False sample_queue = [1]
   \<and> fst (claim_story_arc_sync_work 1 0 ''a'' False sample_queue) = Some ''a''"
proof -
  have work: "at_work sample_queue = [sample_work]" "sw_id sample_work = 1"
    by (simp_all add: sample_queue_def sample_work_def)
  show ?thesis
    using ready_is_first_claimable [OF sample_queue_ok, of 0 5 False 1 "''a''"]
      ready_is_first_claimable [OF sample_queue_ok, of 0 1 False 1 "''a''"]
    by (simp add: work sample_claimable)
qed

end
