(* ===== verification/Arc_Sync_Finish.thy ===== *)
theory Arc_Sync_Finish
  imports Arc_Sync_Ready
begin

text \<open>
  How an import that owns placements ends: it is completed just when every placement it asked for has
  been delivered, judging it again changes nothing, and reopening it queues just the work that failed.
\<close>

subsection \<open>Pages\<close>

text \<open>Pages with the identifiers after the last one seen are all rows in order.\<close>

lemma sorted_filter_greater:
  assumes "sorted_wrt (\<lambda>x y. k x < (k y :: int)) (us @ vs)" and "us \<noteq> []"
  shows "filter (\<lambda>x. k (last us) < k x) (us @ vs) = vs"
proof -
  have "\<forall>x \<in> set us. k x \<le> k (last us)"
  proof
    fix x assume "x \<in> set us"
    moreover obtain ws where us: "us = ws @ [last us]" using assms(2) append_butlast_last_id by metis
    ultimately consider "x = last us" | "x \<in> set ws" by (metis Un_iff empty_iff list.set insert_iff set_append)
    then show "k x \<le> k (last us)"
    proof cases
      case 2
      have "sorted_wrt (\<lambda>x y. k x < k y) (ws @ [last us])" using assms(1) us sorted_wrt_append by metis
      with 2 show ?thesis by (auto simp: sorted_wrt_append intro: less_imp_le)
    qed simp
  qed
  moreover have "\<forall>x \<in> set vs. k (last us) < k x"
    using assms by (simp add: sorted_wrt_append)
  ultimately show ?thesis by (auto simp: filter_empty_conv filter_id_conv not_less)
qed

lemma concat_read_pages:
  assumes "0 < limit" and "distinct (map key rows)"
  shows "concat (read_pages limit key low rows) = sort_key key (filter (\<lambda>r. low < key r) rows)"
  using assms
proof (induction limit key low rows rule: read_pages.induct)
  case (1 limit key low rows)
  let ?s = "sort_key key (filter (\<lambda>r. low < key r) rows)"
  let ?p = "page limit key low rows"
  have p: "?p = take limit ?s" by (simp add: page_def)
  show ?case
  proof (cases "?p = []")
    case True
    then show ?thesis using 1(2) p by (simp add: read_pages.simps [of limit key low rows])
  next
    case False
    have last: "last ?p \<in> set ?s" using last_in_set [OF False] unfolding p by (rule in_set_takeD)
    have "sorted_wrt (\<lambda>x y. key x < key y) (take limit ?s @ drop limit ?s)"
      using strictly_sorted_by_key [OF distinct_map_filter [OF 1(3)]] by simp
    then have "filter (\<lambda>x. key (last ?p) < key x) (take limit ?s @ drop limit ?s) = drop limit ?s"
      using False unfolding p by (rule sorted_filter_greater)
    then have "drop limit ?s = sort_key key (filter (\<lambda>x. key (last ?p) < key x) (filter (\<lambda>r. low < key r) rows))"
      by (simp add: filter_sort)
    also have "filter (\<lambda>x. key (last ?p) < key x) (filter (\<lambda>r. low < key r) rows) = filter (\<lambda>x. key (last ?p) < key x) rows"
      using last by (auto simp: filter_filter intro!: filter_cong)
    also have "sort_key key \<dots> = concat (read_pages limit key (key (last ?p)) rows)"
      using 1 False by simp
    finally have "drop limit ?s = concat (read_pages limit key (key (last ?p)) rows)" .
    then have "concat (read_pages limit key low rows) = take limit ?s @ drop limit ?s"
      using False p by (simp add: read_pages.simps [of limit key low rows] Let_def)
    then show ?thesis by simp
  qed
qed

subsection \<open>An import is completed when everything was delivered\<close>

definition action_ids_ok :: "arc_tables \<Rightarrow> bool" where
  "action_ids_ok t \<longleftrightarrow> distinct (map ia_id (at_actions t)) \<and> list_all (\<lambda>a. 0 < ia_id a) (at_actions t)"

text \<open>An action has the work it describes, that is completed, and exactly one placement, which is as the work asked.\<close>

definition delivered :: "int \<Rightarrow> arc_tables \<Rightarrow> import_action \<Rightarrow> bool" where
  "delivered job t a = (case find (\<lambda>w. sw_origin_action w = Some (ia_id a)) (at_work t) of
     None \<Rightarrow> False
   | Some w \<Rightarrow> origin_row_is_valid job (origin_row_of t a) \<and> sw_state w = Sync_COMPLETED
       \<and> (\<exists>p. filter (\<lambda>p. pl_action p = Some (ia_id a)) (at_placements t) = [p] \<and> valid_completed_placement job a w p))"

definition origin_rows :: "int \<Rightarrow> arc_tables \<Rightarrow> origin_row list" where
  "origin_rows job t = map (origin_row_of t) (sort_key ia_id (origin_candidates job t))"

definition row_counts :: "origin_row list \<Rightarrow> work_counts" where
  "row_counts rows = \<lparr>wc_queued = count_state Sync_QUEUED rows, wc_running = count_state Sync_RUNNING rows,
     wc_retry_wait = count_state Sync_RETRY_WAIT rows, wc_failed = count_state Sync_FAILED rows,
     wc_completed = count_state Sync_COMPLETED rows, wc_cancelled = count_state Sync_CANCELLED rows\<rparr>"

lemma aggregate_rows:
  assumes "action_ids_ok t"
  shows "aggregate_origin_work job t =
    (length (origin_candidates job t), length (filter (\<lambda>r. \<not> origin_row_is_valid job r) (origin_rows job t)),
     row_counts (origin_rows job t))"
proof -
  have ids: "distinct (map ia_id (origin_candidates job t))"
    using assms by (auto simp: action_ids_ok_def origin_candidates_def intro: distinct_map_filter)
  have "filter (\<lambda>a. 0 < ia_id a) (origin_candidates job t) = origin_candidates job t"
    by (rule filter_True) (use assms in \<open>auto simp: action_ids_ok_def origin_candidates_def list_all_iff\<close>)
  then have "concat (read_pages ORIGIN_PAGE_SIZE ia_id 0 (origin_candidates job t)) = sort_key ia_id (origin_candidates job t)"
    using concat_read_pages [OF _ ids, of ORIGIN_PAGE_SIZE 0] by (simp add: ORIGIN_PAGE_SIZE_def)
  then show ?thesis by (simp add: aggregate_origin_work_def origin_rows_def row_counts_def Let_def)
qed

lemma length_filter_all: "length (filter P xs) = length xs \<longleftrightarrow> (\<forall>x \<in> set xs. P x)"
  by (metis filter_id_conv length_filter_less less_irrefl)

lemma count_state_all: "count_state s rows = length rows \<longleftrightarrow> (\<forall>r \<in> set rows. map_option sw_state (or_work r) = Some s)"
  unfolding count_state_def by (rule length_filter_all)

lemma all_completed:
  "(counts_total (row_counts rows) = length rows \<and> wc_queued (row_counts rows) = 0 \<and> wc_running (row_counts rows) = 0
     \<and> wc_retry_wait (row_counts rows) = 0 \<and> wc_failed (row_counts rows) = 0 \<and> wc_cancelled (row_counts rows) = 0)
   \<longleftrightarrow> (\<forall>r \<in> set rows. map_option sw_state (or_work r) = Some Sync_COMPLETED)" (is "?counts \<longleftrightarrow> ?all")
proof
  assume ?counts
  then have "count_state Sync_COMPLETED rows = length rows" by (simp add: counts_total_def row_counts_def)
  then show ?all by (simp only: count_state_all)
next
  assume all: ?all
  then have "count_state Sync_COMPLETED rows = length rows" by (simp only: count_state_all)
  moreover have "count_state s rows = 0" if "s \<noteq> Sync_COMPLETED" for s
    using all that by (auto simp: count_state_def filter_empty_conv)
  ultimately show ?counts by (simp add: counts_total_def row_counts_def)
qed

lemma or_work_origin [simp]:
  "or_work (origin_row_of t a) = find (\<lambda>w. sw_origin_action w = Some (ia_id a)) (at_work t)"
  "or_action (origin_row_of t a) = a"
  by (simp_all add: origin_row_of_def Let_def)

lemma valid_origin_action:
  "origin_row_is_valid job (origin_row_of t a) \<Longrightarrow> find (\<lambda>w. sw_origin_action w = Some (ia_id a)) (at_work t) = Some w \<Longrightarrow>
   publishing_action a \<and> sw_origin_job w = Some job"
  by (auto simp: origin_row_is_valid_def Let_def split: option.splits)

lemma only_one: "length xs = 1 \<and> length (filter Q xs) = 1 \<longleftrightarrow> (\<exists>x. xs = [x] \<and> Q x)"
  by (auto simp: length_Suc_conv split: if_splits)

text \<open>The placements of completed work, when every action is valid and its work is completed\<close>

lemma no_invalid_placement:
  assumes "\<And>a. a \<in> set (origin_candidates job t) \<Longrightarrow> origin_row_is_valid job (origin_row_of t a)
      \<and> map_option sw_state (find (\<lambda>w. sw_origin_action w = Some (ia_id a)) (at_work t)) = Some Sync_COMPLETED"
  shows "count_invalid_completed_placements job t = 0 \<longleftrightarrow> (\<forall>a \<in> set (origin_candidates job t). delivered job t a)"
proof -
  let ?owned = "\<lambda>a. filter (\<lambda>p. pl_action p = Some (ia_id a)) (at_placements t)"
  let ?good = "\<lambda>a w. length (?owned a) = 1 \<and> length (filter (valid_completed_placement job a w) (?owned a)) = 1"
  have good: "?good a w \<longleftrightarrow> (\<exists>p. ?owned a = [p] \<and> valid_completed_placement job a w p)" for a w
    by (rule only_one)
  have "count_invalid_completed_placements job t = 0 \<longleftrightarrow>
      (\<forall>a \<in> set (at_actions t). \<forall>w. find (\<lambda>w. sw_origin_action w = Some (ia_id a)) (at_work t) = Some w \<longrightarrow>
        ia_job a = job \<and> ia_phase a = IMPORT_PLACEMENT_PHASE \<and> ia_type a = IMPORT_PLACEMENT_ACTION_TYPE
          \<and> sw_origin_job w = Some job \<and> sw_state w = Sync_COMPLETED \<longrightarrow> ?good a w)"
    unfolding count_invalid_completed_placements_def Let_def
    by (fastforce simp: filter_empty_conv List.map_filter_def split: option.splits if_splits)
  also have "\<dots> \<longleftrightarrow> (\<forall>a \<in> set (origin_candidates job t). delivered job t a)"
  proof (intro iffI ballI allI impI)
    fix a assume all: "\<forall>a \<in> set (at_actions t). \<forall>w. find (\<lambda>w. sw_origin_action w = Some (ia_id a)) (at_work t) = Some w \<longrightarrow>
        ia_job a = job \<and> ia_phase a = IMPORT_PLACEMENT_PHASE \<and> ia_type a = IMPORT_PLACEMENT_ACTION_TYPE
          \<and> sw_origin_job w = Some job \<and> sw_state w = Sync_COMPLETED \<longrightarrow> ?good a w"
      and a: "a \<in> set (origin_candidates job t)"
    from assms [OF a] obtain w where w: "find (\<lambda>w. sw_origin_action w = Some (ia_id a)) (at_work t) = Some w"
      "sw_state w = Sync_COMPLETED" "origin_row_is_valid job (origin_row_of t a)" by auto
    have "?good a w"
      using all a w valid_origin_action [OF w(3,1)] by (auto simp: origin_candidates_def publishing_action_def)
    then show "delivered job t a" using w good by (simp add: delivered_def)
  next
    fix a w assume all: "\<forall>a \<in> set (origin_candidates job t). delivered job t a" and a: "a \<in> set (at_actions t)"
      and w: "find (\<lambda>w. sw_origin_action w = Some (ia_id a)) (at_work t) = Some w"
      and c: "ia_job a = job \<and> ia_phase a = IMPORT_PLACEMENT_PHASE \<and> ia_type a = IMPORT_PLACEMENT_ACTION_TYPE
          \<and> sw_origin_job w = Some job \<and> sw_state w = Sync_COMPLETED"
    then have "delivered job t a" by (simp add: origin_candidates_def)
    then show "?good a w" unfolding good using w by (simp add: delivered_def)
  qed
  finally show ?thesis .
qed

lemma completes_job_iff:
  assumes "action_ids_ok t"
  shows "co_state (fst (finalize_job now j t)) = Compl_COMPLETED \<longleftrightarrow>
    positive_int (json_get (ij_snapshot j) ''story_arc_placements_total'') = Some (int (length (origin_candidates (ij_id j) t)))
    \<and> (\<forall>a \<in> set (origin_candidates (ij_id j) t). delivered (ij_id j) t a)"
proof -
  let ?total = "positive_int (json_get (ij_snapshot j) ''story_arc_placements_total'')"
  let ?cs = "origin_candidates (ij_id j) t"
  let ?rows = "origin_rows (ij_id j) t"
  let ?c = "row_counts ?rows"
  have len: "length ?rows = length ?cs" by (simp add: origin_rows_def)
  have set: "set ?rows = origin_row_of t ` set ?cs" by (simp add: origin_rows_def)
  have state [simp]: "co_state (fst (stall j c n label)) = Compl_STALLED" "co_state (fst (mark_pending j c m)) = Compl_PENDING"
    "co_state (fst (complete_import j c now)) = Compl_COMPLETED" for c n label m
    by (simp_all add: stall_def mark_pending_def complete_import_def outcome_of_def)
  have "co_state (fst (finalize_job now j t)) = Compl_COMPLETED \<longleftrightarrow>
      ?total = Some (int (length ?cs)) \<and> (\<forall>r \<in> set ?rows. origin_row_is_valid (ij_id j) r)
      \<and> (counts_total ?c = length ?rows \<and> wc_queued ?c = 0 \<and> wc_running ?c = 0 \<and> wc_retry_wait ?c = 0
         \<and> wc_failed ?c = 0 \<and> wc_cancelled ?c = 0)
      \<and> count_invalid_completed_placements (ij_id j) t = 0 \<and> wc_completed ?c = length ?cs"
    unfolding finalize_job_def judge_counts_def Let_def aggregate_rows [OF assms]
    by (auto simp: filter_empty_conv len)
  also have "\<dots> \<longleftrightarrow> ?total = Some (int (length ?cs)) \<and> (\<forall>r \<in> set ?rows. origin_row_is_valid (ij_id j) r)
      \<and> (\<forall>r \<in> set ?rows. map_option sw_state (or_work r) = Some Sync_COMPLETED)
      \<and> count_invalid_completed_placements (ij_id j) t = 0"
  proof -
    have "wc_completed ?c = length ?cs" if "\<forall>r \<in> set ?rows. map_option sw_state (or_work r) = Some Sync_COMPLETED"
      using that by (simp add: row_counts_def len [symmetric] count_state_all)
    then show ?thesis unfolding all_completed by blast
  qed
  also have "\<dots> \<longleftrightarrow> ?total = Some (int (length ?cs)) \<and> (\<forall>a \<in> set ?cs. delivered (ij_id j) t a)"
  proof -
    have "origin_row_is_valid (ij_id j) (origin_row_of t a)
        \<and> map_option sw_state (find (\<lambda>w. sw_origin_action w = Some (ia_id a)) (at_work t)) = Some Sync_COMPLETED"
      if "delivered (ij_id j) t a" for a
      using that by (auto simp: delivered_def split: option.splits)
    then show ?thesis unfolding set using no_invalid_placement [of "ij_id j" t] by auto
  qed
  finally show ?thesis .
qed

text \<open>C6. An import that waits for its placements is completed if and only if the number of placements it
  was sealed with is the number of recorded requests and each of them was delivered: its action, work row, staged
  arc and staged entry describe each other, its work is completed, and exactly one placement belongs to it, which is
  current, managed, and has the membership, file, order and policy the work asked for. One missing, doubled or
  altered placement keeps the import open, however often it is judged.\<close>

theorem import_completes_iff_delivered:
  assumes "action_ids_ok t" and "row_by ij_id job (at_jobs t) = Some j"
    and "ij_status j = Imp_IMPORTING \<or> ij_status j = Imp_STALLED"
    and "json_is (ij_snapshot j) ''phase'' IMPORT_PLACEMENT_PHASE" and "ij_control j = Control_NONE"
  shows "(\<exists>outcome t'. finalize_import_story_arc_placements now job t = Inr (outcome, t')
        \<and> co_state outcome = Compl_COMPLETED) \<longleftrightarrow>
    positive_int (json_get (ij_snapshot j) ''story_arc_placements_total'') = Some (int (length (origin_candidates job t)))
    \<and> (\<forall>a \<in> set (origin_candidates job t). delivered job t a)"
proof -
  have "ij_id j = job" using row_by_Some [OF assms(2)] by simp
  then show ?thesis
    using completes_job_iff [OF assms(1), of now j] assms(2-)
    by (auto simp: finalize_import_story_arc_placements_def case_prod_unfold)
qed

text \<open>An import that asked for one placement and got it\<close>

definition done_work :: sync_work where
  "done_work = sample_work\<lparr>sw_origin_action := Some 4, sw_origin_job := Some 7, sw_origin_arc := Some 8, sw_origin_entry := Some 9,
     sw_generation := replicate 64 CHR ''g'', sw_state := Sync_COMPLETED, sw_attempts := 1\<rparr>"

definition done_action :: import_action where
  "done_action = \<lparr>ia_id = 4, ia_job = 7, ia_phase = IMPORT_PLACEMENT_PHASE, ia_type = IMPORT_PLACEMENT_ACTION_TYPE,
     ia_status = Action_COMPLETED, ia_payload = JObj [(''schema_version'', JInt 1), (''sync_work_id'', JInt 1),
       (''membership_id'', JInt 2), (''desired_generation'', JStr (replicate 64 CHR ''g'')), (''imported_story_arc_id'', JInt 8),
       (''imported_story_arc_entry_id'', JInt 9), (''source_import_job_id'', JInt 7)]\<rparr>"

definition done_job :: "int \<Rightarrow> import_job" where
  "done_job n = \<lparr>ij_id = 7, ij_status = Imp_IMPORTING, ij_control = Control_NONE,
     ij_snapshot = JObj [(''phase'', JStr IMPORT_PLACEMENT_PHASE), (''story_arc_placements_total'', JInt n)],
     ij_snapshot_revision = 3, ij_import_started = Some 1, ij_import_completed = None, ij_error = None, ij_followup = False,
     ij_waiting_work = None\<rparr>"

definition done_placement :: placement_row where
  "done_placement = \<lparr>pl_id = 5, pl_membership = 2, pl_file = Some 3, pl_mode = Mode_hardlink, pl_ownership = Managed,
     pl_source_kind = Src_PULLBOX, pl_job = Some 7, pl_action = Some 4, pl_order = Some 1, pl_schema = Some 1, pl_token = None,
     pl_state = Pl_CURRENT, pl_result = JObj [(''status'', JStr ''complete'')]\<rparr>"

definition done_tables :: "int \<Rightarrow> arc_tables" where
  "done_tables n = sample_queue\<lparr>at_work := [done_work], at_jobs := [done_job n], at_actions := [done_action],
     at_files := [\<lparr>lf_id = 3, lf_issue = Some 6, lf_path = ''p'', lf_size = 1, lf_modified = 1, lf_hash = None, lf_signature = JNull\<rparr>],
     at_memberships := [\<lparr>ms_id = 2, ms_arc = 1, ms_issue = Some 6, ms_sequence = 1, ms_resolution = Res_RESOLVED,
       ms_sync_eligible = True, ms_evidence = JObj []\<rparr>],
     at_staged_arcs := [\<lparr>sg_id = 8, sg_job = 7, sg_status = Staged_IMPORTED, sg_arc = Some 1\<rparr>],
     at_staged_entries := [\<lparr>se_id = 9, se_arc = 8, se_membership = Some 2, se_issue = Some 6, se_resolution = Res_RESOLVED\<rparr>],
     at_placements := [done_placement]\<rparr>"

lemma done_tables_rows:
  "at_work (done_tables n) = [done_work]" "at_jobs (done_tables n) = [done_job n]" "at_actions (done_tables n) = [done_action]"
  "at_placements (done_tables n) = [done_placement]"
  by (simp_all add: done_tables_def)

lemma done_valid: "origin_row_is_valid 7 (origin_row_of (done_tables n) done_action)"
  by (simp add: origin_row_is_valid_def origin_row_of_def done_tables_def done_action_def done_work_def sample_work_def
      row_ref_def row_by_def publishing_action_def positive_def positive_int_def json_whole_def json_keys_def
      IMPORT_PLACEMENT_PAYLOAD_KEYS_def IMPORT_PLACEMENT_PHASE_def IMPORT_PLACEMENT_ACTION_TYPE_def sample_queue_def Let_def)

lemma done_delivered: "delivered 7 (done_tables n) done_action"
proof -
  have work: "find (\<lambda>w. sw_origin_action w = Some (ia_id done_action)) [done_work] = Some done_work"
    by (simp add: done_action_def done_work_def)
  have placement: "valid_completed_placement 7 done_action done_work done_placement"
    by (simp add: valid_completed_placement_def done_placement_def done_action_def done_work_def sample_work_def json_is_def)
  have "filter (\<lambda>p. pl_action p = Some (ia_id done_action)) [done_placement] = [done_placement]"
    by (simp add: done_action_def done_placement_def)
  then show ?thesis
    unfolding delivered_def done_tables_rows work option.case using done_valid placement
    by (simp add: done_work_def)
qed

lemma done_candidates: "origin_candidates 7 (done_tables n) = [done_action]" "action_ids_ok (done_tables n)"
  by (simp_all add: origin_candidates_def done_tables_rows done_action_def action_ids_ok_def)

lemma done_waits: "row_by ij_id 7 (at_jobs (done_tables n)) = Some (done_job n)" "ij_status (done_job n) = Imp_IMPORTING"
  "json_is (ij_snapshot (done_job n)) ''phase'' IMPORT_PLACEMENT_PHASE" "ij_control (done_job n) = Control_NONE"
  "positive_int (json_get (ij_snapshot (done_job n)) ''story_arc_placements_total'') = (if 0 < n then Some n else None)"
  by (simp_all add: row_by_def done_tables_rows done_job_def json_is_def positive_int_def json_whole_def)

theorem import_completes_iff_delivered_witness:
  "(\<exists>outcome t'. finalize_import_story_arc_placements 50 7 (done_tables 1) = Inr (outcome, t') \<and> co_state outcome = Compl_COMPLETED)
   \<and> \<not> (\<exists>outcome t'. finalize_import_story_arc_placements 50 7 (done_tables 2) = Inr (outcome, t')
        \<and> co_state outcome = Compl_COMPLETED)"
  unfolding import_completes_iff_delivered [OF done_candidates(2) done_waits(1) disjI1 [OF done_waits(2)] done_waits(3,4)]
  by (simp add: done_waits(5) done_candidates(1) done_delivered)

subsection \<open>Judging again\<close>

lemma json_put_present: "json_get d k = Some v \<Longrightarrow> json_put k v d = d"
proof (cases d)
  case (JObj kvs)
  assume "json_get d k = Some v"
  then have "map_of kvs k = Some v" using JObj by simp
  then have "AList.update k v kvs = kvs" by (induction kvs) (auto split: if_splits)
  then show ?thesis using JObj by simp
qed simp_all

lemma put_items_Cons: "put_items (kv # kvs) d = put_items kvs (json_put (fst kv) (snd kv) d)"
  by (simp add: put_items_def case_prod_unfold)

lemma put_items_Nil: "put_items [] d = d"
  by (simp add: put_items_def)

lemma put_items_append: "put_items (kvs @ ls) d = put_items ls (put_items kvs d)"
  by (simp add: put_items_def)

lemma put_items_present: "(\<And>kv. kv \<in> set kvs \<Longrightarrow> json_get d (fst kv) = Some (snd kv)) \<Longrightarrow> put_items kvs d = d"
  by (induction kvs) (simp_all add: put_items_Nil put_items_Cons json_put_present)

lemma is_obj_put_items [simp]: "is_obj (put_items kvs d) = is_obj d"
  by (induction kvs arbitrary: d) (simp_all add: put_items_Nil put_items_Cons)

lemma json_get_put_items:
  "is_obj d \<Longrightarrow> distinct (map fst kvs) \<Longrightarrow> json_get (put_items kvs d) k = (case map_of kvs k of Some v \<Rightarrow> Some v | None \<Rightarrow> json_get d k)"
proof (induction kvs arbitrary: d)
  case (Cons kv kvs)
  then have "map_of kvs (fst kv) = None" by (simp add: map_of_eq_None_iff)
  with Cons show ?case by (auto simp: put_items_Cons split: option.split)
qed (simp add: put_items_Nil)

lemma put_items_twice:
  assumes "is_obj d" and "distinct (map fst kvs)"
  shows "put_items kvs (put_items kvs d) = put_items kvs d"
proof (rule put_items_present)
  fix kv assume "kv \<in> set kvs"
  then have "map_of kvs (fst kv) = Some (snd kv)" using map_of_is_SomeI [OF assms(2), of "fst kv" "snd kv"] by simp
  then show "json_get (put_items kvs d) (fst kv) = Some (snd kv)"
    by (simp only: json_get_put_items [OF assms] option.case)
qed

text \<open>The columns of a job that stays open, as one list of keys\<close>

definition open_items :: "work_counts \<Rightarrow> int \<Rightarrow> pystr \<Rightarrow> pystr \<Rightarrow> (pystr \<times> json) list" where
  "open_items c n status message =
     ((''story_arc_placements_total'', JInt n) # map (\<lambda>(s, m). (''story_arc_placements_'' @ s, JInt (int m))) (counts_as_dict c))
     @ phase_items status IMPORT_PLACEMENT_PHASE 99 message"

definition open_job :: "import_job \<Rightarrow> import_status \<Rightarrow> work_counts \<Rightarrow> int \<Rightarrow> pystr \<Rightarrow> pystr \<Rightarrow> pystr option \<Rightarrow> import_job" where
  "open_job j state c n status message error =
     apply_job_state (j\<lparr>ij_followup := False\<rparr>) state (put_items (open_items c n status message) (ij_snapshot j)) error None"

lemma open_items_keys: "distinct (map fst (open_items c n status message))"
  by (simp add: open_items_def counts_as_dict_def phase_items_def)

lemma open_items_values:
  "map_of (open_items c n status message) ''story_arc_placements_total'' = Some (JInt n)"
  "map_of (open_items c n status message) ''phase'' = Some (JStr IMPORT_PLACEMENT_PHASE)"
  by (simp_all add: open_items_def counts_as_dict_def phase_items_def)

lemma stall_open: "stall j c (Some n) label =
    (outcome_of j Compl_STALLED c (Some label),
     open_job j Imp_STALLED c n ''stalled'' (placement_error_message label) (Some (placement_error_message label)))"
  by (simp add: stall_def open_job_def open_items_def with_counts_def put_items_append [symmetric] or_else_def)

lemma mark_pending_open: "mark_pending j c n =
    (outcome_of j Compl_PENDING c None, open_job j Imp_IMPORTING c n ''importing'' WAITING_MESSAGE None)"
  by (simp add: mark_pending_def open_job_def open_items_def with_counts_def put_items_append [symmetric])

lemma open_job_simps [simp]:
  "ij_id (open_job j state c n status message error) = ij_id j"
  "ij_control (open_job j state c n status message error) = ij_control j"
  "ij_status (open_job j state c n status message error) = state"
  by (simp_all add: open_job_def apply_job_state_def)

lemma open_job_snapshot:
  assumes "is_obj (ij_snapshot j)" and "json_is (ij_snapshot j) ''phase'' IMPORT_PLACEMENT_PHASE"
    and "positive_int (json_get (ij_snapshot j) ''story_arc_placements_total'') = Some n"
  shows "json_is (ij_snapshot (open_job j state c n status message error)) ''phase'' IMPORT_PLACEMENT_PHASE"
    "positive_int (json_get (ij_snapshot (open_job j state c n status message error)) ''story_arc_placements_total'') = Some n"
proof -
  have "0 < n" using assms(3) by (auto simp: positive_int_def split: option.splits if_splits)
  then show "json_is (ij_snapshot (open_job j state c n status message error)) ''phase'' IMPORT_PLACEMENT_PHASE"
    "positive_int (json_get (ij_snapshot (open_job j state c n status message error)) ''story_arc_placements_total'') = Some n"
    using assms by (simp_all add: open_job_def apply_job_state_def json_is_def json_get_put_items open_items_keys open_items_values
      positive_int_def json_whole_def)
qed

lemma json_wf_put_items:
  "json_wf d \<Longrightarrow> list_all (\<lambda>kv. json_wf (snd kv)) kvs \<Longrightarrow> json_wf (put_items kvs d)"
  by (induction kvs arbitrary: d) (simp_all add: put_items_Nil put_items_Cons json_wf_put)

lemma open_job_again:
  assumes "is_obj (ij_snapshot j)" and "json_wf (ij_snapshot j)"
  shows "open_job (open_job j state c n status message error) state c n status message error =
    open_job j state c n status message error"
proof -
  let ?kvs = "open_items c n status message"
  have "list_all (\<lambda>kv. json_wf (snd kv)) ?kvs" by (simp add: open_items_def counts_as_dict_def phase_items_def)
  then have "py_eq (put_items ?kvs (ij_snapshot j)) (put_items ?kvs (ij_snapshot j))"
    by (intro py_eq_refl json_wf_put_items assms)
  then show ?thesis
    using put_items_twice [OF assms(1) open_items_keys, of c n status message]
    by (auto simp: open_job_def apply_job_state_def)
qed

lemma put_job_tables [simp]:
  "at_work (put_import_job j t) = at_work t" "at_actions (put_import_job j t) = at_actions t"
  "at_placements (put_import_job j t) = at_placements t" "at_memberships (put_import_job j t) = at_memberships t"
  "at_files (put_import_job j t) = at_files t" "at_staged_arcs (put_import_job j t) = at_staged_arcs t"
  "at_staged_entries (put_import_job j t) = at_staged_entries t"
  by (simp_all add: put_import_job_def)

lemma put_job_row [simp]: "origin_row_of (put_import_job j t) = origin_row_of t"
  by (rule ext) (simp add: origin_row_of_def)

lemma put_job_origin [simp]:
  "aggregate_origin_work job (put_import_job j t) = aggregate_origin_work job t"
  "count_invalid_completed_placements job (put_import_job j t) = count_invalid_completed_placements job t"
  by (simp_all add: aggregate_origin_work_def origin_candidates_def count_invalid_completed_placements_def)

lemma row_by_put_job:
  "row_by ij_id job (at_jobs t) = Some j \<Longrightarrow> ij_id j' = job \<Longrightarrow> row_by ij_id job (at_jobs (put_import_job j' t)) = Some j'"
proof -
  have "find (\<lambda>r. ij_id r = job) js = Some j \<Longrightarrow> ij_id j' = job \<Longrightarrow>
      find (\<lambda>r. ij_id r = job) (map (\<lambda>k. if ij_id k = ij_id j' then j' else k) js) = Some j'" for js
    by (induction js) (auto split: if_splits)
  then show "row_by ij_id job (at_jobs t) = Some j \<Longrightarrow> ij_id j' = job \<Longrightarrow> ?thesis"
    by (simp add: row_by_def put_import_job_def)
qed

lemma put_job_twice: "put_import_job j (put_import_job j t) = put_import_job j t"
  by (simp add: put_import_job_def comp_def cong: if_cong)

text \<open>Every judgement of a job with a known total leaves it open in one of two ways or completes it.\<close>

lemma finalize_job_cases:
  assumes "positive_int (json_get (ij_snapshot j) ''story_arc_placements_total'') = Some n"
  obtains (stalled) label where "\<And>now k. ij_id k = ij_id j \<Longrightarrow>
      positive_int (json_get (ij_snapshot k) ''story_arc_placements_total'') = Some n \<Longrightarrow>
      finalize_job now k t = stall k (snd (snd (aggregate_origin_work (ij_id j) t))) (Some n) label"
  | (pending) "\<And>now k. ij_id k = ij_id j \<Longrightarrow>
      positive_int (json_get (ij_snapshot k) ''story_arc_placements_total'') = Some n \<Longrightarrow>
      finalize_job now k t = mark_pending k (snd (snd (aggregate_origin_work (ij_id j) t))) n"
  | (completed) "\<And>now k. ij_id k = ij_id j \<Longrightarrow>
      positive_int (json_get (ij_snapshot k) ''story_arc_placements_total'') = Some n \<Longrightarrow>
      finalize_job now k t = complete_import k (snd (snd (aggregate_origin_work (ij_id j) t))) now"
proof -
  let ?c = "snd (snd (aggregate_origin_work (ij_id j) t))"
  show thesis
  proof (cases "judge_counts (Some n) (aggregate_origin_work (ij_id j) t)")
    case (Some label)
    then show thesis by (intro stalled [of label]) (simp add: finalize_job_def Let_def)
  next
    case None
    consider "wc_queued ?c \<noteq> 0 \<or> wc_running ?c \<noteq> 0 \<or> wc_retry_wait ?c \<noteq> 0"
      | "\<not> (wc_queued ?c \<noteq> 0 \<or> wc_running ?c \<noteq> 0 \<or> wc_retry_wait ?c \<noteq> 0)"
        "count_invalid_completed_placements (ij_id j) t \<noteq> 0"
      | "\<not> (wc_queued ?c \<noteq> 0 \<or> wc_running ?c \<noteq> 0 \<or> wc_retry_wait ?c \<noteq> 0)"
        "count_invalid_completed_placements (ij_id j) t = 0" "Some (int (wc_completed ?c)) \<noteq> Some n"
      | "\<not> (wc_queued ?c \<noteq> 0 \<or> wc_running ?c \<noteq> 0 \<or> wc_retry_wait ?c \<noteq> 0)"
        "count_invalid_completed_placements (ij_id j) t = 0" "Some (int (wc_completed ?c)) = Some n"
      by blast
    then show thesis
    proof cases
      case 1
      show thesis using None 1 by (intro pending) (simp add: finalize_job_def Let_def or_else_def)
    next
      case 2
      show thesis
        using None 2 by (intro stalled [of "''story_arc_placement_evidence_invalid''"]) (simp add: finalize_job_def Let_def)
    next
      case 3
      show thesis
        using None 3 by (intro stalled [of "''story_arc_placement_origin_invalid''"]) (simp add: finalize_job_def Let_def)
    next
      case 4
      show thesis using None 4 by (intro completed) (simp add: finalize_job_def Let_def)
    qed
  qed
qed

lemma finalize_job_put [simp]: "finalize_job now k (put_import_job j t) = finalize_job now k t"
  by (simp add: finalize_job_def Let_def split: option.split)

text \<open>A completed import reads its counts back from its snapshot.\<close>

lemma complete_import_job:
  assumes "is_obj (ij_snapshot j)" and "ij_status j \<noteq> Imp_COMPLETED"
  shows "ij_status (snd (complete_import j c now)) = Imp_COMPLETED"
    "json_is (ij_snapshot (snd (complete_import j c now))) ''phase'' ''done''"
    "counts_from_snapshot (ij_snapshot (snd (complete_import j c now))) = c" "ij_id (snd (complete_import j c now)) = ij_id j"
proof -
  let ?kvs = "((''story_arc_placements_total'', JInt (int (counts_total c)))
      # map (\<lambda>(s, n). (''story_arc_placements_'' @ s, JInt (int n))) (counts_as_dict c))
      @ phase_items ''completed'' ''done'' 100 ''Import completed.'' @ [(''story_arc_placement_followup_pending'', JBool True)]"
  have snapshot: "ij_snapshot (snd (complete_import j c now)) = put_items ?kvs (ij_snapshot j)"
    using assms(2) by (simp add: complete_import_def apply_job_state_def with_counts_def put_items_append [symmetric])
  have keys: "distinct (map fst ?kvs)" by (simp add: counts_as_dict_def phase_items_def)
  note get = json_get_put_items [OF assms(1) keys]
  show "json_is (ij_snapshot (snd (complete_import j c now))) ''phase'' ''done''"
    unfolding json_is_def snapshot get by (simp add: counts_as_dict_def phase_items_def)
  show "counts_from_snapshot (ij_snapshot (snd (complete_import j c now))) = c"
    unfolding counts_from_snapshot_def count_of_def snapshot get by (simp add: counts_as_dict_def json_whole_def)
  show "ij_status (snd (complete_import j c now)) = Imp_COMPLETED" "ij_id (snd (complete_import j c now)) = ij_id j"
    using assms(2) by (simp_all add: complete_import_def apply_job_state_def)
qed

text \<open>C10. Judging an import settles it: judged again at any later time, with nothing changed in between, it gets
  the same answer with the same counts, and no row changes - not the snapshot, its revision or the time of completion.
  This holds for each answer, completed, pending and stalled, of an import whose promised total is recorded.\<close>

theorem finalize_settles:
  assumes "finalize_import_story_arc_placements now job t = Inr (outcome, t')"
    and "row_by ij_id job (at_jobs t) = Some j" and "is_obj (ij_snapshot j)" and "json_wf (ij_snapshot j)"
    and "positive_int (json_get (ij_snapshot j) ''story_arc_placements_total'') = Some n"
  shows "finalize_import_story_arc_placements later job t' = Inr (outcome, t')"
proof (cases "ij_status j = Imp_COMPLETED \<and> json_is (ij_snapshot j) ''phase'' ''done''")
  case True
  then show ?thesis using assms(1,2) by (auto simp: finalize_import_story_arc_placements_def)
next
  case False
  have id: "ij_id j = job" using row_by_Some [OF assms(2)] by simp
  from assms(1,2) False have open_import: "ij_status j \<in> {Imp_IMPORTING, Imp_STALLED}" "ij_control j = Control_NONE"
      "json_is (ij_snapshot j) ''phase'' IMPORT_PLACEMENT_PHASE" and fin: "outcome = fst (finalize_job now j t)"
      "t' = put_import_job (snd (finalize_job now j t)) t"
    by (auto simp: finalize_import_story_arc_placements_def case_prod_unfold split: if_splits)
  note kept = open_job_snapshot [OF assms(3) open_import(3) assms(5)]
  note again = open_job_again [OF assms(3,4)]
  show ?thesis
  proof (rule finalize_job_cases [OF assms(5), where t = t], goal_cases stalled pending completed)
    case (stalled label)
    then show ?thesis
      using fin id open_import kept again stalled [OF refl assms(5)] row_by_put_job [OF assms(2)]
      by (simp add: stall_open finalize_import_story_arc_placements_def put_job_twice outcome_of_def)
  next
    case pending
    then show ?thesis
      using fin id open_import kept again pending [OF refl assms(5)] row_by_put_job [OF assms(2)]
      by (simp add: mark_pending_open finalize_import_story_arc_placements_def put_job_twice outcome_of_def)
  next
    case completed
    let ?c = "snd (snd (aggregate_origin_work (ij_id j) t))"
    have j': "t' = put_import_job (snd (complete_import j ?c now)) t" "outcome = outcome_of j Compl_COMPLETED ?c None"
      using fin completed [OF refl assms(5)] by (simp_all add: complete_import_def)
    have "ij_status j \<noteq> Imp_COMPLETED" using open_import(1) by auto
    note facts = complete_import_job [OF assms(3) this, of ?c now]
    then show ?thesis
      using row_by_put_job [OF assms(2), of "snd (complete_import j ?c now)"] id
      by (simp add: j' finalize_import_story_arc_placements_def outcome_of_def)
  qed
qed

lemma done_job_snapshot: "is_obj (ij_snapshot (done_job n))" "json_wf (ij_snapshot (done_job n))"
  by (simp_all add: done_job_def)

lemma done_twice:
  "\<exists>t'. finalize_import_story_arc_placements now 7 (done_tables n) = Inr (fst (finalize_job now (done_job n) (done_tables n)), t')"
  using done_waits [of n] by (simp add: finalize_import_story_arc_placements_def case_prod_unfold done_job_def)

theorem finalize_settles_witness:
  "\<exists>outcome t'. finalize_import_story_arc_placements 50 7 (done_tables 2) = Inr (outcome, t')
     \<and> finalize_import_story_arc_placements 80 7 t' = Inr (outcome, t')"
proof -
  obtain t' where "finalize_import_story_arc_placements 50 7 (done_tables 2) =
      Inr (fst (finalize_job 50 (done_job 2) (done_tables 2)), t')"
    using done_twice by blast
  moreover from this have "finalize_import_story_arc_placements 80 7 t' = Inr (fst (finalize_job 50 (done_job 2) (done_tables 2)), t')"
    by (rule finalize_settles [OF _ done_waits(1) done_job_snapshot, where n = 2]) (simp add: done_waits(5))
  ultimately show ?thesis by blast
qed



subsection \<open>Reopening\<close>

definition ended_work :: "int \<Rightarrow> arc_tables \<Rightarrow> sync_work \<Rightarrow> bool" where
  "ended_work job t w \<longleftrightarrow> sw_origin_job w = Some job \<and> terminal_state w \<and> joined_work t w \<noteq> None"

lemma joined_work_fst: "joined_work t w = Some r \<Longrightarrow> fst r = w"
  by (auto simp: joined_work_def split: option.splits)

lemma joined_rows:
  "map fst (List.map_filter (joined_work t) ws) = filter (\<lambda>w. joined_work t w \<noteq> None) ws"
  by (induction ws) (auto simp: List.map_filter_simps joined_work_fst split: option.split)

lemma map_if_cong: "(\<And>x. x \<in> set xs \<Longrightarrow> P x \<longleftrightarrow> Q x) \<Longrightarrow> map (\<lambda>x. if P x then f x else x) xs = map (\<lambda>x. if Q x then f x else x) xs"
  by simp

lemma reopen_work_ended:
  assumes "queue_ok t" and rows: "rows = List.map_filter (joined_work t)
      (sort_key sw_id (filter (\<lambda>w. sw_origin_job w = Some job \<and> terminal_state w) (at_work t)))"
    and ready: "list_all (retryable_work hs) rows"
  shows "snd (reopen_work job ((\<lambda>r. sw_id (fst r)) ` set rows) t) =
      t\<lparr>at_work := map (\<lambda>w. if ended_work job t w then reopened w else w) (at_work t)\<rparr>"
    "fst (reopen_work job ((\<lambda>r. sw_id (fst r)) ` set rows) t) = length (filter (ended_work job t) (at_work t))"
proof -
  let ?ids = "(\<lambda>r. sw_id (fst r)) ` set rows"
  let ?P = "\<lambda>w. sw_id w \<in> ?ids \<and> sw_origin_job w = Some job \<and> terminal_state w \<and> sw_claimable w \<and> sw_token w = None
        \<and> sw_claimed_at w = None \<and> sw_cancel_requested w = None"
  have works: "set (map fst rows) = {w \<in> set (at_work t). ended_work job t w}"
    unfolding rows joined_rows by (auto simp: ended_work_def)
  have ids: "?ids = sw_id ` set (map fst rows)" by (simp add: image_image)
  have P: "?P w \<longleftrightarrow> ended_work job t w" if w: "w \<in> set (at_work t)" for w
  proof
    assume "?P w"
    then have "sw_id w \<in> sw_id ` set (map fst rows)" unfolding ids by (rule conjunct1)
    then obtain v where "v \<in> set (map fst rows)" "sw_id v = sw_id w" by (auto simp only: image_iff)
    moreover from this have "v = w" using w works assms(1) by (auto simp: queue_ok_def distinct_map inj_on_def)
    ultimately show "ended_work job t w" unfolding works by simp
  next
    assume ended: "ended_work job t w"
    then have "w \<in> set (map fst rows)" using w works by simp
    moreover from this obtain r where "r \<in> set rows" "fst r = w" by auto
    then have "sw_claimable w \<and> sw_token w = None \<and> sw_claimed_at w = None \<and> sw_cancel_requested w = None"
      using ready by (auto simp: list_all_iff retryable_work_def)
    ultimately show "?P w" using ended unfolding ids by (simp add: ended_work_def)
  qed
  then show "snd (reopen_work job ?ids t) = t\<lparr>at_work := map (\<lambda>w. if ended_work job t w then reopened w else w) (at_work t)\<rparr>"
    unfolding reopen_work_def update_work_def by (simp only: snd_conv map_if_cong [OF P])
  show "fst (reopen_work job ?ids t) = length (filter (ended_work job t) (at_work t))"
    unfolding reopen_work_def update_work_def using filter_cong [OF refl P, of "at_work t"] by (simp only: fst_conv)
qed


text \<open>An import whose only placement failed, with a digest that maps every document to the same text\<close>

definition flat_hashing :: hashing where
  "flat_hashing = \<lparr>hs_digest = (\<lambda>d. replicate 64 CHR ''g''), hs_time = (\<lambda>i. [])\<rparr>"

definition failed_work :: sync_work where
  "failed_work = done_work\<lparr>sw_source_hash := replicate 64 CHR ''g'', sw_state := Sync_FAILED, sw_attempts := 5,
     sw_error := Some (''placement_execution_failed'', ''operation'', ''The link could not be made.'')\<rparr>"

definition failed_arc :: story_arc where
  "failed_arc = \<lparr>sa_id = 1, sa_lifecycle = Arc_ACTIVE, sa_sync_enabled = False, sa_schema = Some 1,
     sa_policy = JObj [(''schema_version'', JInt 1), (''mode'', JStr ''hardlink''), (''target_library_root_id'', JInt 1),
       (''destination_root'', JStr ''/arcs''), (''folder_template'', JStr ''{arc}''), (''file_template'', JStr ''{issue}''),
       (''symlink_style'', JNull), (''synchronize'', JBool False)], sa_revision = 1\<rparr>"

definition failed_tables :: arc_tables where
  "failed_tables = (done_tables 1)\<lparr>at_work := [failed_work], at_arcs := [failed_arc],
     at_jobs := [(done_job 1)\<lparr>ij_status := Imp_STALLED, ij_error := Some ''One or more failed.''\<rparr>]\<rparr>"

lemma failed_destination: "filled_str (Some (JStr ''/arcs''))"
  by code_simp

lemma failed_policy: "import_managed_policy_configured failed_arc"
  using failed_destination
  by (simp add: import_managed_policy_configured_def failed_arc_def STORY_ARC_PLACEMENT_POLICY_SCHEMA_VERSION_def POLICY_KEYS_def
      json_keys_def same_value_def json_whole_def)

lemma failed_origin: "inspect_import_story_arc_placement_origin 7 failed_tables =
    Inr \<lparr>wc_queued = 0, wc_running = 0, wc_retry_wait = 0, wc_failed = 1, wc_completed = 0, wc_cancelled = 0\<rparr>"
proof -
  have actions: "origin_candidates 7 failed_tables = [done_action]" "action_ids_ok failed_tables"
    using done_candidates by (simp_all add: failed_tables_def origin_candidates_def action_ids_ok_def)
  have row: "origin_row_of failed_tables done_action =
      (origin_row_of (done_tables 1) done_action)\<lparr>or_work := Some failed_work\<rparr>"
    by (simp add: origin_row_of_def failed_tables_def failed_work_def done_tables_rows done_work_def done_action_def Let_def)
  have "origin_row_is_valid 7 (origin_row_of failed_tables done_action)"
    by (simp add: origin_row_is_valid_def origin_row_of_def failed_tables_def failed_work_def done_tables_def done_action_def
        done_work_def sample_work_def row_ref_def row_by_def publishing_action_def positive_def positive_int_def json_whole_def
        json_keys_def IMPORT_PLACEMENT_PAYLOAD_KEYS_def IMPORT_PLACEMENT_PHASE_def IMPORT_PLACEMENT_ACTION_TYPE_def Let_def)
  then show ?thesis
    by (simp add: inspect_import_story_arc_placement_origin_def aggregate_rows [OF actions(2)] actions(1) origin_rows_def
        row_counts_def count_state_def row failed_work_def counts_total_def)
qed

lemma failed_joined:
  "joined_work failed_tables failed_work = Some (failed_work, hd (at_memberships (done_tables 1)), failed_arc, hd (at_files (done_tables 1)))"
  by (simp add: joined_work_def failed_tables_def done_tables_def failed_work_def done_work_def sample_work_def row_by_def arc_of_def
      failed_arc_def)

lemma failed_retryable:
  "retryable_work flat_hashing (failed_work, hd (at_memberships (done_tables 1)), failed_arc, hd (at_files (done_tables 1)))"
  using failed_policy
  by (simp add: retryable_work_def failed_work_def done_work_def sample_work_def desired_generation_def source_signature_hash_def
      flat_hashing_def done_tables_def failed_arc_def schema_or_default_def Let_def)

lemma failed_queue_ok: "queue_ok failed_tables"
  by (simp add: queue_ok_def failed_tables_def failed_work_def done_work_def sample_work_def work_ok_def origin_actions_def
      List.map_filter_simps done_tables_def sample_queue_def)

lemma failed_ended: "ended_work 7 failed_tables failed_work" "at_work failed_tables = [failed_work]"
  unfolding ended_work_def failed_joined
  by (simp_all add: failed_work_def done_work_def terminal_state_def failed_tables_def)

lemma failed_retry: "\<exists>j t'. retry_import_story_arc_sync_work flat_hashing 7 failed_tables = Inr ((j, 1), t')"
proof -
  let ?k = "(done_job 1)\<lparr>ij_status := Imp_STALLED, ij_error := Some ''One or more failed.''\<rparr>"
  let ?row = "(failed_work, hd (at_memberships (done_tables 1)), failed_arc, hd (at_files (done_tables 1)))"
  have job: "row_by ij_id 7 (at_jobs failed_tables) = Some ?k"
    by (simp add: failed_tables_def row_by_def done_job_def)
  have rows: "[?row] = List.map_filter (joined_work failed_tables)
      (sort_key sw_id (filter (\<lambda>w. sw_origin_job w = Some 7 \<and> terminal_state w) (at_work failed_tables)))"
    using failed_ended(1) by (simp add: failed_ended(2) failed_joined ended_work_def List.map_filter_simps)
  have "list_all (retryable_work flat_hashing) [?row]" using failed_retryable by simp
  then have "fst (reopen_work 7 ((\<lambda>r. sw_id (fst r)) ` set [?row]) failed_tables) = 1"
    using reopen_work_ended(2) [OF failed_queue_ok rows] failed_ended by simp
  then show ?thesis
    using failed_retryable done_waits(3,5) [of 1]
    by (simp add: retry_import_story_arc_sync_work_def job failed_origin rows [symmetric] counts_total_def Let_def)
      (simp add: done_job_def)
qed


end
