(* ===== verification/Arc_Sync_Drain.thy ===== *)
theory Arc_Sync_Drain
  imports Arc_Sync_Finish
begin

text \<open>
  A drain of the synchronisation queue as a whole: what its counts say, what it does to the table of
  work whatever happens beside it, and how long work waits for its next attempt.
\<close>

subsection \<open>Counts\<close>

definition settled :: "drain_counts \<Rightarrow> nat" where
  "settled d = dc_completed d + dc_failed d + dc_retrying d + dc_cancelled d + dc_lost d"

lemma settled_simps [simp]:
  "settled no_items = 0" "dc_claimed no_items = 0" "settled (d\<lparr>dc_claimed := n\<rparr>) = settled d"
  "settled (count_cancelled held d) = settled d + 1" "dc_claimed (count_cancelled held d) = dc_claimed d"
  "settled (count_failure s d) = settled d + 1" "dc_claimed (count_failure s d) = dc_claimed d"
  by (simp_all add: settled_def no_items_def count_cancelled_def count_failure_def split: option.split)

text \<open>An outcome settles the claim, and an interrupted worker leaves it unsettled.\<close>

lemma record_outcome_counts:
  "record_outcome cx r outcome requested t d = (go, t', d') \<Longrightarrow>
   settled d' + (if go then 0 else 1) = settled d + 1 \<and> dc_claimed d' = dc_claimed d"
  by (auto simp: record_outcome_def case_prod_unfold settled_def Let_def split: sync_outcome.splits if_splits)
    (auto simp: count_cancelled_def count_failure_def split: option.splits if_splits)

lemma process_item_counts:
  assumes "process_item hs io x t d = (go, t', d')"
  shows "settled d' + (if go then 0 else 1) + dc_claimed d = dc_claimed d' + settled d \<and> dc_claimed d' \<le> dc_claimed d + 1"
proof -
  obtain i r where x: "x = (i, r)" by (cases x)
  obtain claim t1 where claim: "claim_story_arc_sync_work i (ir_now r) (ir_token r) io (ir_before r t) = (claim, t1)"
    by (cases "claim_story_arc_sync_work i (ir_now r) (ir_token r) io (ir_before r t)")
  show ?thesis
  proof (cases claim)
    case None
    then show ?thesis using assms by (auto simp: process_item_def x claim)
  next
    case (Some tk)
    let ?d = "d\<lparr>dc_claimed := dc_claimed d + 1\<rparr>"
    show ?thesis
    proof (cases "load_claimed_context hs i tk (ir_others r t1)")
      case None
      then show ?thesis using assms by (auto simp: process_item_def x claim Some Let_def case_prod_unfold)
    next
      case cx: (Some cx)
      obtain outcome requested t2 where "ir_sync r cx (ir_others r t1) = (outcome, requested, t2)"
        by (cases "ir_sync r cx (ir_others r t1)")
      then have "record_outcome cx r outcome requested t2 ?d = (go, t', d')"
        using assms by (simp add: process_item_def x claim Some Let_def cx)
      from record_outcome_counts [OF this] show ?thesis by (auto split: if_splits)
    qed
  qed
qed

lemma process_items_counts:
  "process_items hs io xs t d = (go, t', d') \<Longrightarrow>
   settled d' + (if go then 0 else 1) + dc_claimed d = dc_claimed d' + settled d \<and> dc_claimed d' \<le> dc_claimed d + length xs"
proof (induction xs arbitrary: t d)
  case (Cons x xs)
  obtain go1 t1 d1 where one: "process_item hs io x t d = (go1, t1, d1)" by (cases "process_item hs io x t d")
  note first = process_item_counts [OF one]
  show ?case
  proof (cases go1)
    case True
    then have "process_items hs io xs t1 d1 = (go, t', d')" using Cons.prems one by simp
    from Cons.IH [OF this] first True show ?thesis by (auto split: if_splits)
  next
    case False
    then show ?thesis using Cons.prems one first by auto
  qed
qed simp

lemma ready_work_bound: "length (ready_work_ids now limit io t) \<le> limit"
  by (simp add: ready_work_ids_def Let_def)

text \<open>A drain that returns accounts for every claim it made: each ended completed, failed, waiting for a
  retry, cancelled or lost to another worker, in exactly one of these counts, and there are at most as many as the
  batch size, which is between 1 and 100. This holds whatever other workers and the placement service do meanwhile.\<close>

theorem drain_accounts_for_claims:
  "case process_story_arc_sync_work hs c n discover io now later runs t of
     (Inr result, t') \<Rightarrow> dc_claimed (dn_counts result) = settled (dn_counts result)
       \<and> int (dc_claimed (dn_counts result)) \<le> n \<and> 1 \<le> n \<and> n \<le> 100
   | (Inl e, t') \<Rightarrow> e = Drain_interrupted \<or> e = Drain_error Bad_value \<or> discover"
proof -
  define found where "found = (if discover \<and> \<not> io then discover_story_arc_sync_work hs c now DEFAULT_STORY_ARC_DISCOVERY_LIMIT t
      else Inr (0, t))"
  show ?thesis
  proof (cases "n < 1 \<or> MAX_STORY_ARC_SYNC_BATCH_SIZE < n")
    case True
    then show ?thesis by (simp add: process_story_arc_sync_work_def)
  next
    case False
    then have n: "1 \<le> n" "n \<le> 100" by (simp_all add: MAX_STORY_ARC_SYNC_BATCH_SIZE_def)
    show ?thesis
    proof (cases found)
      case (Inl e)
      then show ?thesis using False by (auto simp: process_story_arc_sync_work_def found_def [symmetric]) (auto simp: found_def)
    next
      case (Inr r)
      obtain discovered t1 where r: "r = (discovered, t1)" by (cases r)
      let ?ids = "ready_work_ids now (nat n) io t1"
      obtain go t2 d where items: "process_items hs io (map (\<lambda>i. (i, runs i)) ?ids) t1 no_items = (go, t2, d)"
        by (cases "process_items hs io (map (\<lambda>i. (i, runs i)) ?ids) t1 no_items")
      have "settled d + (if go then 0 else 1) = dc_claimed d \<and> dc_claimed d \<le> nat n"
        using process_items_counts [OF items] ready_work_bound [of now "nat n" io t1] by auto
      then show ?thesis
        using False n items
        by (cases go) (auto simp: process_story_arc_sync_work_def found_def [symmetric] Inr r Let_def case_prod_unfold nat_le_iff)
    qed
  qed
qed

subsection \<open>The table of work\<close>

text \<open>What happens beside a drain keeps the table well formed, as every sequence of operations does.\<close>

definition keeps_queue :: "(arc_tables \<Rightarrow> arc_tables) \<Rightarrow> bool" where
  "keeps_queue f \<longleftrightarrow> (\<forall>t. queue_ok t \<longrightarrow> queue_ok (f t))"

definition run_keeps_queue :: "item_run \<Rightarrow> bool" where
  "run_keeps_queue r \<longleftrightarrow> keeps_queue (ir_before r) \<and> keeps_queue (ir_others r) \<and> (\<forall>cx. keeps_queue (\<lambda>t. snd (snd (ir_sync r cx t))))"

lemma op_keeps_queue: "op_ok op \<Longrightarrow> queue_ok t \<Longrightarrow> queue_ok (run_op op t)"
  using op_follows [of t op] by (simp add: follows_lease_def)

lemmas worker_keeps_queue =
  op_keeps_queue [of "Op_claim i now tk io" for i now tk io, simplified]
  op_keeps_queue [of "Op_finish cx tk result" for cx tk result, simplified]
  op_keeps_queue [of "Op_cancel i tk label" for i tk label, simplified]
  op_keeps_queue [of "Op_fail cx tk now label category detail retryable" for cx tk now label category detail retryable, simplified]

lemma record_outcome_queue: "queue_ok t \<Longrightarrow> queue_ok (fst (snd (record_outcome cx r outcome requested t d)))"
  by (cases outcome) (simp_all add: record_outcome_def Let_def case_prod_unfold worker_keeps_queue)

lemma process_item_queue:
  assumes "queue_ok t" and "run_keeps_queue (snd x)"
  shows "queue_ok (fst (snd (process_item hs io x t d)))"
proof -
  obtain i r where x: "x = (i, r)" by (cases x)
  obtain claim t1 where claim: "claim_story_arc_sync_work i (ir_now r) (ir_token r) io (ir_before r t) = (claim, t1)"
    by (cases "claim_story_arc_sync_work i (ir_now r) (ir_token r) io (ir_before r t)")
  have "queue_ok (ir_before r t)" using assms by (simp add: x run_keeps_queue_def keeps_queue_def)
  then have t1: "queue_ok t1" using worker_keeps_queue(1) [of "ir_before r t" i "ir_now r" "ir_token r" io] by (simp add: claim)
  then have t2: "queue_ok (ir_others r t1)" using assms(2) by (simp add: x run_keeps_queue_def keeps_queue_def)
  then have "queue_ok (snd (snd (ir_sync r cx (ir_others r t1))))" for cx
    using assms(2) by (simp add: x run_keeps_queue_def keeps_queue_def)
  then show ?thesis
    using t1 t2 worker_keeps_queue(3)
    by (auto simp: process_item_def x claim Let_def case_prod_unfold record_outcome_queue split: option.split)
qed

lemma process_items_queue:
  "queue_ok t \<Longrightarrow> list_all (\<lambda>x. run_keeps_queue (snd x)) xs \<Longrightarrow> queue_ok (fst (snd (process_items hs io xs t d)))"
proof (induction xs arbitrary: t d)
  case (Cons x xs)
  obtain go t1 d1 where one: "process_item hs io x t d = (go, t1, d1)" by (cases "process_item hs io x t d")
  have "queue_ok t1" using process_item_queue [of t x hs io d] Cons.prems by (simp add: one)
  with Cons one show ?case by (cases go) simp_all
qed simp

lemma finalize_queue:
  "queue_ok t \<Longrightarrow> finalize_import_story_arc_placements now job t = Inr (outcome, t') \<Longrightarrow> queue_ok t'"
  using op_keeps_queue [of "Op_finalize now job" t] by (simp add: after_def)

lemma finalize_candidates_queue: "queue_ok t \<Longrightarrow> queue_ok (snd (finalize_candidates now cs t acc))"
proof (induction cs arbitrary: t acc)
  case (Cons c cs)
  then show ?case using finalize_queue [OF Cons.prems] by (cases c) (simp split: sum.split)
qed simp

text \<open>C13. A drain keeps the table of work well formed, also when it fails or is interrupted in the middle,
  provided that whatever runs beside it does: the claims it makes, the outcomes it records, the work it
  discovers and the imports it judges leave every row unique, and running exactly while it is claimed.\<close>

theorem drain_keeps_queue_well_formed:
  assumes "queue_ok t" and "\<And>i. run_keeps_queue (runs i)"
  shows "queue_ok (snd (process_story_arc_sync_work hs c n discover io now later runs t))"
proof -
  define found where "found = (if discover \<and> \<not> io then discover_story_arc_sync_work hs c now DEFAULT_STORY_ARC_DISCOVERY_LIMIT t
      else Inr (0, t))"
  have found_ok: "queue_ok t1" if "found = Inr (m, t1)" for m t1
    using that op_keeps_queue [of "Op_discover hs c now DEFAULT_STORY_ARC_DISCOVERY_LIMIT" t] assms(1)
    by (auto simp: found_def after_def split: if_splits)
  show ?thesis
  proof (cases found)
    case (Inl e)
    then show ?thesis using assms(1) by (simp add: process_story_arc_sync_work_def found_def [symmetric])
  next
    case (Inr r)
    obtain discovered t1 where r: "r = (discovered, t1)" by (cases r)
    let ?xs = "map (\<lambda>i. (i, runs i)) (ready_work_ids now (nat n) io t1)"
    obtain go t2 d where items: "process_items hs io ?xs t1 no_items = (go, t2, d)"
      by (cases "process_items hs io ?xs t1 no_items")
    have "list_all (\<lambda>x. run_keeps_queue (snd x)) ?xs" using assms(2) by (auto simp: list_all_iff)
    then have "queue_ok t2" using process_items_queue [of t1 ?xs hs io no_items] found_ok Inr r items by simp
    then show ?thesis
      using assms(1) items
      by (cases go) (auto simp: process_story_arc_sync_work_def found_def [symmetric] Inr r Let_def case_prod_unfold
          finalize_waiting_import_story_arc_placements_def finalize_candidates_queue)
  qed
qed

text \<open>A drain of the sample beside nothing, with a placement service that fails unexpectedly\<close>

definition quiet_run :: item_run where
  "quiet_run = \<lparr>ir_now = 0, ir_token = ''a'', ir_before = (\<lambda>t. t), ir_others = (\<lambda>t. t), ir_sync = (\<lambda>cx t. (Sync_unexpected, False, t)),
     ir_later = 0\<rparr>"

theorem drain_keeps_queue_well_formed_witness:
  "queue_ok (snd (process_story_arc_sync_work flat_hashing \<lparr>cast_int = Map.empty, cast_text = Map.empty\<rparr> 5 True False 0 1
     (\<lambda>i. quiet_run) sample_queue))"
  by (rule drain_keeps_queue_well_formed [OF sample_queue_ok]) (simp add: run_keeps_queue_def keeps_queue_def quiet_run_def)

subsection \<open>Waiting for the next attempt\<close>

text \<open>The last of the five delays belongs to no attempt: a claim that may be retried is at most the fourth.\<close>

lemma retry_delay_values: "map retry_delay [1, 2, 3, 4, 5] = RETRY_DELAYS"
  by (simp add: retry_delay_def py_nth_def RETRY_DELAYS_def)

text \<open>Work that fails in a way that may pass is tried again up to its fifth attempt, after 30 seconds, then 2,
  10 and 30 minutes, and fails with the fifth; work that fails for good fails at once. The delay of one hour
  that the table of delays ends with is never used.\<close>

theorem failed_attempts_wait:
  assumes "1 \<le> cx_attempts cx"
  shows "\<exists>next_at. snd (fail_or_retry_work cx tk now label category detail retryable t) = snd (update_work (held_by (cx_work cx) tk)
        (\<lambda>w. w\<lparr>sw_state := (if retryable \<and> cx_attempts cx < 5 then Sync_RETRY_WAIT else Sync_FAILED), sw_token := None,
            sw_claimed_at := None, sw_next_attempt := next_at, sw_error := Some (label, category, detail)\<rparr>) t)
    \<and> (if retryable \<and> cx_attempts cx < 5
       then \<exists>delay \<in> set [30 * 1000000, 2 * 60 * 1000000, 10 * 60 * 1000000, 30 * 60 * 1000000]. next_at = Some (now + delay)
       else next_at = None)"
proof -
  let ?retry = "retryable \<and> cx_attempts cx < MAX_ATTEMPTS"
  have "retry_delay (cx_attempts cx) \<in> set [30 * 1000000, 2 * 60 * 1000000, 10 * 60 * 1000000, 30 * 60 * 1000000]" if "cx_attempts cx < 5"
  proof -
    from assms that consider "cx_attempts cx = 1" | "cx_attempts cx = 2" | "cx_attempts cx = 3" | "cx_attempts cx = 4" by linarith
    then show ?thesis using retry_delay_values by cases (simp_all add: RETRY_DELAYS_def)
  qed
  then show ?thesis
    by (intro exI [of _ "if ?retry then Some (now + retry_delay (cx_attempts cx)) else None"])
      (simp add: fail_or_retry_work_def Let_def case_prod_unfold MAX_ATTEMPTS_def)
qed

theorem failed_attempts_wait_witness:
  "\<exists>next_at. snd (fail_or_retry_work sample_context ''a'' 7 ''placement_execution_failed'' ''operation'' ''d'' True sample_queue) =
      snd (update_work (held_by 1 ''a'')
        (\<lambda>w. w\<lparr>sw_state := Sync_RETRY_WAIT, sw_token := None, sw_claimed_at := None, sw_next_attempt := next_at,
            sw_error := Some (''placement_execution_failed'', ''operation'', ''d'')\<rparr>) sample_queue)
    \<and> (\<exists>delay \<in> set [30 * 1000000, 2 * 60 * 1000000, 10 * 60 * 1000000, 30 * 60 * 1000000]. next_at = Some (7 + delay))"
  using failed_attempts_wait [of sample_context "''a''" 7 "''placement_execution_failed''" "''operation''" "''d''" True sample_queue]
  by (simp add: sample_context_def)

end
