(* ===== verification/Arc_Import_Binding.thy ===== *)
theory Arc_Import_Binding
  imports Arc_Sync_Drain
begin

text \<open>
  What an import is given when it asks for placement work: an answer for every proposal, and new work
  that is bound to its journal action exactly as every later check of that binding demands.
\<close>

definition bound_work :: "import_job \<Rightarrow> arc_tables \<Rightarrow> enqueue_result \<Rightarrow> bool" where
  "bound_work j t r = (case (er_work r, er_action r) of
     (Some w, Some a) \<Rightarrow> w \<in> set (at_work t) \<and> sw_state w = Sync_QUEUED \<and> \<not> sw_claimable w \<and> sw_generation w = er_generation r
       \<and> sw_origin_action w = Some (ia_id a) \<and> ia_job a = ij_id j \<and> ia_phase a = IMPORT_PLACEMENT_PHASE
       \<and> ia_type a = IMPORT_PLACEMENT_ACTION_TYPE \<and> origin_payload_matches a w (ij_id j) (sw_membership w)
   | _ \<Rightarrow> False)"

text \<open>A payload with the identifier of its work row is the one that the checks ask for.\<close>

lemma bound_payload:
  assumes "proposal_valid j (pr_proposal i)" and "0 < n"
  shows "origin_payload_matches (act\<lparr>ia_payload := json_put ''sync_work_id'' (JInt n) (action_payload (ij_id j) i)\<rparr>)
    ((import_work_row now (ij_id j) (i, act))\<lparr>sw_id := n\<rparr>) (ij_id j) (ms_id (pp_membership (pr_proposal i)))"
  using assms
  by (auto simp: origin_payload_matches_def import_work_row_def action_payload_def proposal_valid_def Let_def positive_def
      positive_int_def json_whole_def json_keys_def IMPORT_PLACEMENT_PAYLOAD_KEYS_def)

lemma with_ids_nth: "n < length ws \<Longrightarrow> with_ids k ws ! n = (ws ! n)\<lparr>sw_id := k + int n\<rparr>"
  by (simp add: with_ids_def nth_enumerate_eq)

lemma length_with_ids [simp]: "length (with_ids k ws) = length ws"
  by (simp add: with_ids_def)

lemma put_actions_work: "at_work (fold (\<lambda>r u. case er_action r of Some a \<Rightarrow> put_import_action a u | None \<Rightarrow> u) rs t) = at_work t"
  by (induction rs arbitrary: t) (simp_all add: put_import_action_def split: option.split)

lemma create_import_work_bound:
  assumes "create_import_work record now j items t = Inr (made, t')"
    and "list_all (\<lambda>i. proposal_valid j (pr_proposal i)) items" and "r \<in> set made"
  shows "bound_work j t' r"
proof -
  from assms(1,3) obtain actions t1 works t2 where
    spec: "length actions = length items" "list_all2 (action_of_spec j)
        (map (\<lambda>i. (IMPORT_PLACEMENT_PHASE, IMPORT_PLACEMENT_ACTION_TYPE, action_payload (ij_id j) i)) items) actions"
    and ins: "insert_work (map (import_work_row now (ij_id j)) (zip items actions)) t1 = Inr (works, t2)"
    and ids: "\<not> list_ex (\<lambda>w. sw_id w \<le> 0) works"
    and made: "made = map (bind_action (ij_id j)) (zip items (zip actions works))"
    and t': "t' = fold (\<lambda>r u. case er_action r of Some a \<Rightarrow> put_import_action a u | None \<Rightarrow> u) made t2"
    by (auto simp: create_import_work_def Let_def split: if_splits)
  let ?rows = "map (import_work_row now (ij_id j)) (zip items actions)"
  have works: "works = with_ids (at_next_work t1) ?rows" "at_work t2 = at_work t1 @ works"
    using ins by (auto simp: insert_work_def Let_def split: if_splits)
  have len: "length works = length items" using spec(1) by (simp add: works(1))
  from assms(3) obtain n where n: "n < length items" "r = bind_action (ij_id j) (items ! n, actions ! n, works ! n)"
    using len spec(1) unfolding made by (auto simp: in_set_conv_nth)
  define k where "k = at_next_work t1 + int n"
  have w: "works ! n = (import_work_row now (ij_id j) (items ! n, actions ! n))\<lparr>sw_id := k\<rparr>"
    using n(1) spec(1) unfolding works(1) k_def by (subst with_ids_nth) simp_all
  have "works ! n \<in> set works" using n(1) len by simp
  then have "works ! n \<in> set (at_work t')" "0 < k"
    using ids works(2) w by (auto simp: t' put_actions_work list_ex_iff not_le)
  moreover have "proposal_valid j (pr_proposal (items ! n))" using assms(2) n(1) by (simp add: list_all_length)
  moreover have "action_of_spec j (IMPORT_PLACEMENT_PHASE, IMPORT_PLACEMENT_ACTION_TYPE, action_payload (ij_id j) (items ! n)) (actions ! n)"
    using list_all2_nthD [OF spec(2), of n] n(1) by simp
  ultimately show ?thesis
    using bound_payload [of j "items ! n" k "actions ! n" now]
    by (simp add: bound_work_def n(2) bind_action_def w action_of_spec_def) (simp add: import_work_row_def Let_def)
qed

subsection \<open>The answers\<close>

lemma classify_not_created: "classify_existing_import_work t job i w = Inr r \<Longrightarrow> er_class r \<noteq> ''created''"
  by (auto simp: classify_existing_import_work_def classify_non_origin_def classify_origin_def existing_result_def Let_def
      split: if_splits option.splits list.splits prod.splits)

lemma classify_all_not_created:
  "classify_all t job rep ws = Inr rs \<Longrightarrow> (k, r) \<in> set rs \<Longrightarrow> er_class r \<noteq> ''created''"
  by (induction ws arbitrary: rs) (auto dest: classify_not_created)

lemma found_not_created:
  assumes "\<And>k r. (k, r) \<in> set existing \<Longrightarrow> er_class r \<noteq> ''created''" and "found_result t existing i = Some r"
  shows "er_class r \<noteq> ''created''"
proof (cases "map_of existing (prepared_key i)")
  case None
  then show ?thesis using assms(2) by (auto simp: found_result_def placement_result_of_def split: if_splits)
next
  case (Some r')
  then show ?thesis using assms map_of_SomeD [OF Some] by (auto simp: found_result_def)
qed

lemma assemble_created:
  assumes "\<And>k r. (k, r) \<in> set existing \<Longrightarrow> er_class r \<noteq> ''created''"
    and "assemble t existing items created n = Some r" and "er_class r = ''created''"
  shows "r \<in> snd ` set created"
proof -
  let ?k = "rep_index items (prepared_key (items ! n))"
  have own: "?k = n" using assms(2,3) by (auto simp: assemble_def duplicate_result_def Let_def split: if_splits)
  show ?thesis
  proof (cases "found_result t existing (items ! n)")
    case None
    then have "map_of created n = Some r" using assms(2) own by (simp add: assemble_def Let_def)
    then show ?thesis by (force dest: map_of_SomeD)
  next
    case (Some r')
    have "er_class r' \<noteq> ''created''" by (rule found_not_created [OF _ Some]) (rule assms(1))
    then show ?thesis using Some assms(2,3) own by (simp add: assemble_def Let_def)
  qed
qed

lemma map_filter_id: "\<not> list_ex (\<lambda>r. r = None) rs \<Longrightarrow> List.map_filter id rs = map the rs"
  by (induction rs) (auto simp: List.map_filter_simps)


text \<open>One proposal of an import, with a recorder that numbers its actions from 4\<close>

definition asking_recorder :: action_recorder where
  "asking_recorder j specs t =
     (let actions = map (\<lambda>(n, phase, kind, payload). \<lparr>ia_id = 4 + int n, ia_job = ij_id j, ia_phase = phase, ia_type = kind,
            ia_status = Action_COMPLETED, ia_payload = payload\<rparr>) (enumerate 0 specs)
      in Inr (actions, t\<lparr>at_actions := at_actions t @ actions\<rparr>))"

definition asking_tables :: arc_tables where
  "asking_tables = (done_tables 1)\<lparr>at_work := [], at_actions := [], at_placements := []\<rparr>"

definition asking_proposal :: proposal where
  "asking_proposal = \<lparr>pp_file = hd (at_files asking_tables), pp_membership = hd (at_memberships asking_tables), pp_arc = failed_arc,
     pp_staged = 8, pp_entry = 9\<rparr>"

lemma asking_checks:
  "proposal_valid (done_job 1) asking_proposal" "owns_membership asking_tables (done_job 1) (prepare_proposal flat_hashing asking_proposal)"
  "prepared_key (prepare_proposal flat_hashing asking_proposal) = (2, replicate 64 CHR ''g'')"
  "first_placement asking_tables m = None" "at_work asking_tables = []"
  using failed_policy
  by (simp_all add: proposal_valid_def asking_proposal_def asking_tables_def done_tables_def done_job_def failed_arc_def owns_membership_def
      prepare_proposal_def staged_binding_def row_by_def Let_def prepared_key_def desired_generation_def flat_hashing_def first_placement_def)

lemma asking_created:
  "\<exists>r t'. create_import_work asking_recorder 0 (done_job 1) [prepare_proposal flat_hashing asking_proposal] asking_tables = Inr ([r], t')
     \<and> er_class r = ''created''"
  by (simp add: create_import_work_def asking_recorder_def Let_def action_of_spec_def insert_work_def with_ids_def asking_checks(5)
      bind_action_def asking_tables_def done_tables_def sample_queue_def done_job_def action_payload_def origin_actions_def
      List.map_filter_simps import_work_row_def)

lemma asking_answered:
  "\<exists>r t'. enqueue_import_story_arc_sync_work_batch flat_hashing asking_recorder 0 (done_job 1) [asking_proposal] asking_tables =
     Inr ([r], t') \<and> er_class r = ''created''"
proof -
  let ?i = "prepare_proposal flat_hashing asking_proposal"
  have reps: "rep_index [?i] (prepared_key ?i) = 0"
    by (simp add: rep_index_def representatives_def representative_step_def or_else_def Let_def)
  have created: "creation_indexes asking_tables [] [?i] = [0]"
    by (simp add: creation_indexes_def reps found_result_def asking_checks(4))
  obtain r t' where made: "create_import_work asking_recorder 0 (done_job 1) [?i] asking_tables = Inr ([r], t')" "er_class r = ''created''"
    using asking_created by blast
  have "assemble asking_tables [] [?i] [(0, r)] 0 = Some r"
    by (simp add: assemble_def reps found_result_def asking_checks(4) Let_def)
  moreover have "one_arc_per_key [?i]" by (simp add: one_arc_per_key_def)
  ultimately show ?thesis
    using made asking_checks(1,2,5) done_waits(2-4) [of 1]
    by (simp add: enqueue_import_story_arc_sync_work_batch_def Let_def created MAX_IMPORT_STORY_ARC_SYNC_ENQUEUE_BATCH_SIZE_def
        List.map_filter_simps)
qed


end
