(* ===== verification/Spec2Isabelle.thy ===== *)
theory Spec2Isabelle
  imports Coverage_Planner Direct_Fallback Provider_Quota Job_Queue Search_Selection Throttling Reader_State
    Story_Arc_Naming Arc_Quiet Arc_Import_Binding
begin

text \<open>
  A verification development of Pullbox, a comic library server (\<open>src/src/pullbox\<close>, Python). It
  models the parts of the program that decide: what to download and from where, which job runs, which
  names files get, what may happen to files of a user, what a reader has read and how often things may be
  tried. Around them stand requests, databases and remote services, which are not modelled.

  \<^bold>\<open>The program and its parts\<close>

  A user watches series, issues and story arcs. A search asks indexers, direct-download providers and
  Direct Connect for releases; a validator matches them to the issue, scoring and selection rank them. A
  direct download becomes an acquisition with artifact attempts; a planner chooses the artifacts and their
  routes, the state rules move the rows, a route that fails is replaced, and provider quotas decide what may
  be used automatically. Downloaded and imported files get their names from templates and are put into the
  library. Story arcs show an issue in a second place: a placement copies or links the library file into the
  folder of the arc. Utility jobs (conversion, repair, ratings) run one at a time from a queue. Readers keep a
  private position and completion. Logins, requests to the API and calls of a resolver are limited.

  \<^bold>\<open>Theories, and the code they model\<close>

  Shared theories.

  \<^item> Prelude: results (\<open>error + 'a\<close>), insertion-ordered dictionaries, stable sorting and
    selection, with the collections \<open>dict_simps\<close> and \<open>sort_simps\<close>.

  \<^item> Json_Value: the values of JSON columns, Python's equality on them and the round trip through
    \<open>json\<close>.

  \<^item> Py_Text, Py_Format: operations of \<open>str\<close> and the fragment of \<open>re\<close> the
    patterns use.

  \<^item> Interfaces: the locales \<open>lifecycle\<close> (a transition table with terminal states),
    \<open>revisioned\<close> (a snapshot that takes only newer revisions or an exact replay),
    \<open>repeated_pick\<close> (choosing the best of what is left, again and again, is a stable sort) and
    \<open>expiring_records\<close> (dropping expired records cannot be observed); the components interpret
    them on their own definitions.

  Direct downloads.

  \<^item> Direct_Models: \<open>models/direct_acquisition.py\<close>, a record for each row with its check
    constraints.

  \<^item> Direct_State: \<open>services/direct_acquisition_state.py\<close>, both transition tables and
    every operation; a completed acquisition was post-processed and stays completed, progress is independent
    of the order of delivery.

  \<^item> Direct_Plan: \<open>services/direct_acquisition_plan.py\<close>, building and recording the plan
    document.

  \<^item> Coverage_Planner: \<open>services/direct_coverage_planner.py\<close>; the plan covers all that
    can be covered, and does not depend on the order of the candidates.

  \<^item> Provider_Quota: \<open>services/direct_provider_quota.py\<close>.

  \<^item> Direct_Fallback: \<open>services/direct_acquisition_fallback.py\<close> and
    \<open>services/direct_source_switch.py\<close>; what a fallback and a switch leave behind, and that
    fallbacks end.

  Search.

  \<^item> Search_Scoring: \<open>services/search_scoring.py\<close> and the source order.

  \<^item> Search_Selection: \<open>services/search_evaluation.py\<close> and the ranking of the sources;
    the loop of the code is proved to be a stable sort.

  Jobs.

  \<^item> Job_Queue: \<open>utilities/job_queue*.py\<close>: the tables of jobs and items are the state;
    users, the dispatcher and restarts are the inductive step relation \<open>queue_step\<close>, and its
    invariants are proved by induction over its runs.

  Limits.

  \<^item> Throttling: \<open>core/rate_limiter.py\<close> with the login request that uses it, the limiter
    of the API and the circuit breaker of the resolver; how many attempts any sequence of requests gets
    through.

  Reading.

  \<^item> Reader_State: the commands of \<open>services/reader_state_service.py\<close>; the row stays
    consistent, and the published events suffice to follow it.

  Names.

  \<^item> Issue_Numbers: \<open>core/issue_numbers.py\<close>, the canonical text of a designation.

  \<^item> Naming: \<open>core/naming.py\<close> and \<open>core/library_naming.py\<close>; what sanitising
    guarantees, and where rendered paths may lead.

  \<^item> Story_Arc_Naming: \<open>core/story_arc_naming.py\<close>, the relative path of a placement.

  Placements of story arcs.

  \<^item> File_System: the operating system, as \<open>os\<close> and \<open>pathlib\<close> show it: nodes
    with hard links, directories, symbolic links, devices, and the calls with their errors.

  \<^item> Placement_IO: programs that run in a \<open>world\<close>: before every call other processes may
    change the file system arbitrarily or the call may fail (\<open>w_env\<close>), the program may be
    cancelled at each question (\<open>w_cancel\<close>), the journal may raise (\<open>w_faults\<close>);
    what the program itself does and tells is logged. Two locales carry the proofs:
    \<open>effect_order\<close>, for programs that change nothing, and \<open>assertions\<close>, Hoare
    rules over what is said of a world.

  \<^item> Arc_Preview: \<open>services/story_arc_placement_preview.py\<close>.

  \<^item> Arc_Files, Arc_Placement, Arc_Operations, Arc_Inspection:
    \<open>services/story_arc_placement_service.py\<close> in the order of its layers: checks and
    fingerprints of files and folders; evidence and the three ways to publish; preparing, recovering,
    executing, repairing and removing; inspecting.

  \<^item> Arc_Safety: inspections change nothing, and executions and removals follow a protocol, in every
    world.

  \<^item> Arc_Quiet: where nobody else acts and no call fails, an execution makes exactly the placement it
    reports, or nothing.

  Keeping placements in step. Work rows in the database ask for placements; workers lease them, and an
  import waits until its own are delivered. The state is \<open>arc_tables\<close>, the rows of each table
  the code reads or writes, and every operation is one transaction on it.

  \<^item> Arc_Tables: the rows (\<open>models/story_arc_sync.py\<close>,
    \<open>models/story_arc.py\<close>, \<open>models/story_arc_import.py\<close>,
    \<open>models/import_job.py\<close>, \<open>models/library.py\<close>, with the columns that are used)
    and the forms of statement.

  \<^item> Arc_Sync_Queue, Arc_Import_Enqueue, Arc_Sync_Worker:
    \<open>services/story_arc_sync_queue.py\<close>; making work, claims and lanes, outcomes; the work of an
    import; the drain.

  \<^item> Arc_Sync_Import: \<open>services/import_story_arc_placement_completion.py\<close>, reopening and
    discarding work of an import, and its fence for a rollback
    (\<open>services/import_job_actions.py\<close>).

  \<^item> Arc_Sync_Lease: all operations as one type \<open>sync_op\<close>; under every sequence of them
    the table stays well formed and the claims on a row are an automaton of leases.

  \<^item> Arc_Sync_Ready: the four lanes are the beginning of one sorted list of what can be claimed.

  \<^item> Arc_Sync_Finish: when an import is completed, that judging settles it, what reopening does, and
    how a lost total is replaced.

  \<^item> Arc_Sync_Drain: the drain as a whole.

  \<^item> Arc_Import_Binding: new work of an import passes every later check of its binding.

  \<^bold>\<open>Conventions\<close>

  A Python \<open>str\<close> is a \<open>string\<close> of code points below 256; a \<open>dict\<close> whose order shows is an association list
  without duplicate keys; a float is a rational number; instants are seconds or microseconds as the code
  keeps them. An exception is the left side of a sum, or an \<open>exn\<close> of Placement_IO. A row that is loaded is an
  argument and the changed row is the result; where several rows change together the tables are the state.
  Where Python mutates a list or document that another place still holds, the copy the code takes is kept as
  a definition of its own (Direct_Plan). Texts of messages and log lines are left out; error codes and the
  values errors carry are kept.

  What the code calls and does not contain is an argument: the reader and the printer of ISO dates
  (\<open>iso_codec\<close> states the round trip the code relies on), new identifiers and clock readings, the set of
  blocked routes, whether an executor exists for a kind of job, the stream of results of a worker pool, the
  validator of releases in the form of its results, the hash function and the random names of temporary
  files (\<open>w_sha\<close>, \<open>w_token\<close>; nothing depends on their values); for the synchronisation the digest of a document and
  the text of an instant (\<open>hashing\<close>), what a database makes of a JSON value of another type (\<open>sql_cast\<close>), the recorder
  of journal actions, and for each item of a drain what others and the placement service do (\<open>item_run\<close>).

  \<^bold>\<open>Bounds and termination\<close>

  The planner keeps at most \<open>MAX_PLANNER_STATES\<close> states and goes over to a greedy choice, which ends since
  every round covers more. The ranking loop consumes one candidate each round. Walking a path follows at
  most 40 symbolic links, as Linux does; 32 temporary names are tried; a folder is scanned for at most 10000
  entries; a batch holds at most 250 placements; a copy is written in chunks of 1 MiB, cancellable between
  them. A lease lasts 15 minutes, work is tried five times, a drain takes at most 100 rows, a discovery or a request of
  an import 200, and rows are read in pages of 1000; reading in pages ends since identifiers grow. Every function here is total, and none takes fuel beyond these bounds of the code and of the
  operating system.

  \<^bold>\<open>Not modelled\<close>

  Requests to remote services, SQL and its transactions (an operation is one atomic step on the rows it
  loads), the web interface and the schemas of the API, logging, and what only hands values on. Of the
  parts with rules of their own the following are left: validation and parsing of releases and names,
  the scanning, matching and execution of imports, the integration that keeps the rows of placements
  (\<open>services/story_arc_placement_integration.py\<close>), reordering and migration of managed placements,
  files in the library beyond their names, and the search on Direct Connect. In the placement service
  the platform check, the closing of descriptors and the function \<open>_ensure_safe_destination_parent\<close>, which is
  called from nowhere, are left out; file contents are read in one call. In the synchronisation the timing of
  the heartbeat and of the cancellation monitor is left out (both only repeat a modelled statement), as are
  the request to the scheduler, and the loop that reads a row again before it is fenced.
\<close>

end
